(* ===== verification/Prelude.thy ===== *)
theory Prelude
  imports Main "HOL-Library.AList" "HOL-Library.Char_ord" "HOL-Library.List_Lexorder"
    "HOL-Library.Sublist"
begin

text \<open>
  What every component of the development shares: the error values of the Go code, the result
  type of fallible functions, ordered tables (a Go map whose keys are enumerated in insertion
  order), and the generic lemmas on them.

  A Go error is modelled by the sentinel that \<open>errors.Is\<close> finds in it: wrapping with
  \<open>fmt.Errorf("...: %w", err)\<close> changes the message and not the sentinel, so it leaves the
  value as it is. An error built from a bare message is \<open>ErrMsg\<close> of that message's constant part.
\<close>

section \<open>Errors and results\<close>

datatype err =
    ErrNotFound | ErrConflict | ErrBusy | ErrCorrupt | ErrNoSpace | ErrIO
  | ErrDurabilityContract | ErrScope
  | ErrLost
  | ErrVMNotFound | ErrNotRunning
  | ErrNotExist | ErrExist | EBUSY | EPERM | EINTR | ECONNREFUSED | EXDEV
  | ErrAmbiguous | ErrHotAttached | ErrTombstoned | ErrSnapshotNotFound | ErrEjectPending
  | ErrMsg string

type_synonym 'a res = "err + 'a"

fun res_bind :: "'a res \<Rightarrow> ('a \<Rightarrow> 'b res) \<Rightarrow> 'b res" where
  "res_bind (Inl e) f = Inl e"
| "res_bind (Inr x) f = f x"

fun res_map :: "('a \<Rightarrow> 'b) \<Rightarrow> 'a res \<Rightarrow> 'b res" where
  "res_map f (Inl e) = Inl e"
| "res_map f (Inr x) = Inr (f x)"

text \<open>A loop over a slice whose body may return an error, which ends the loop.\<close>

fun fold_res :: "('a \<Rightarrow> 'b \<Rightarrow> 'b res) \<Rightarrow> 'a list \<Rightarrow> 'b \<Rightarrow> 'b res" where
  "fold_res f [] acc = Inr acc"
| "fold_res f (x # xs) acc = (case f x acc of Inl e \<Rightarrow> Inl e | Inr acc' \<Rightarrow> fold_res f xs acc')"

fun map_res :: "('a \<Rightarrow> 'b res) \<Rightarrow> 'a list \<Rightarrow> 'b list res" where
  "map_res f [] = Inr []"
| "map_res f (x # xs) =
     (case f x of Inl e \<Rightarrow> Inl e
      | Inr y \<Rightarrow> (case map_res f xs of Inl e \<Rightarrow> Inl e | Inr ys \<Rightarrow> Inr (y # ys)))"

named_theorems res_simps "unfolding of the result combinators in assumptions"

lemma res_bind_Inr_iff [res_simps]:
  "res_bind r f = Inr y \<longleftrightarrow> (\<exists>x. r = Inr x \<and> f x = Inr y)"
  by (cases r) auto

lemma res_bind_Inl_iff [res_simps]:
  "res_bind r f = Inl e \<longleftrightarrow> r = Inl e \<or> (\<exists>x. r = Inr x \<and> f x = Inl e)"
  by (cases r) auto

lemma res_map_Inr_iff [res_simps]: "res_map f r = Inr y \<longleftrightarrow> (\<exists>x. r = Inr x \<and> y = f x)"
  by (cases r) auto

lemma res_map_Inl_iff [res_simps]: "res_map f r = Inl e \<longleftrightarrow> r = Inl e"
  by (cases r) auto

lemma fold_res_append:
  "fold_res f (xs @ ys) acc = res_bind (fold_res f xs acc) (fold_res f ys)"
  by (induction xs arbitrary: acc) (auto split: sum.splits)

lemma fold_res_total:
  "(\<And>x acc. x \<in> set xs \<Longrightarrow> f x acc = Inr (g x acc)) \<Longrightarrow> fold_res f xs acc = Inr (fold g xs acc)"
  by (induction xs arbitrary: acc) auto

lemma fold_res_invariant:
  assumes "fold_res f xs acc = Inr acc'" and "P acc"
    and "\<And>x a b. x \<in> set xs \<Longrightarrow> P a \<Longrightarrow> f x a = Inr b \<Longrightarrow> P b"
  shows "P acc'"
  using assms
proof (induction xs arbitrary: acc)
  case Nil
  then show ?case by simp
next
  case (Cons x xs)
  from Cons.prems(1) obtain b where b: "f x acc = Inr b" "fold_res f xs b = Inr acc'"
    by (auto split: sum.splits)
  from Cons.prems(3) [OF _ Cons.prems(2) b(1)] have "P b" by simp
  then show ?case
    using Cons.IH [OF b(2)] Cons.prems(3) by (meson list.set_intros(2))
qed

lemma map_res_Inr_length: "map_res f xs = Inr ys \<Longrightarrow> length ys = length xs"
  by (induction xs arbitrary: ys) (auto split: sum.splits)

lemma map_res_Inr_iff [res_simps]:
  "map_res f xs = Inr ys \<longleftrightarrow> list_all2 (\<lambda>x y. f x = Inr y) xs ys"
proof (induction xs arbitrary: ys)
  case Nil
  show ?case by auto
next
  case (Cons x xs)
  show ?case
    by (cases ys; cases "f x"; cases "map_res f xs") (simp_all add: Cons.IH [symmetric])
qed

lemma map_res_total: "(\<And>x. x \<in> set xs \<Longrightarrow> f x = Inr (g x)) \<Longrightarrow> map_res f xs = Inr (map g xs)"
  by (induction xs) auto

section \<open>Ordered tables\<close>

text \<open>
  A table is an association list with distinct keys in insertion order: an upsert overwrites in
  place or appends, a delete keeps the order of the rest. This is what the json engine's table
  (an id slice and a map) amounts to, and it is the view every client of a store has of a table.
\<close>

type_synonym 'v tbl = "(string \<times> 'v) list"

abbreviation tget :: "'v tbl \<Rightarrow> string \<Rightarrow> 'v option" where
  "tget \<equiv> map_of"

abbreviation tput :: "string \<Rightarrow> 'v \<Rightarrow> 'v tbl \<Rightarrow> 'v tbl" where
  "tput \<equiv> AList.update"

abbreviation tdel :: "string \<Rightarrow> 'v tbl \<Rightarrow> 'v tbl" where
  "tdel \<equiv> AList.delete"

abbreviation ids_of :: "'v tbl \<Rightarrow> string list" where
  "ids_of t \<equiv> map fst t"

definition tbl_ok :: "'v tbl \<Rightarrow> bool" where
  "tbl_ok t = distinct (ids_of t)"

lemma tget_tput [simp]: "tget (tput k v t) k' = (if k = k' then Some v else tget t k')"
  by (simp add: update_conv')

lemma tget_tdel [simp]: "tget (tdel k t) k' = (if k = k' then None else tget t k')"
  by (simp add: delete_conv')

lemma tbl_ok_Nil [simp]: "tbl_ok []"
  by (simp add: tbl_ok_def)

lemma tbl_ok_tput [intro, simp]: "tbl_ok t \<Longrightarrow> tbl_ok (tput k v t)"
  unfolding tbl_ok_def by (rule distinct_update)

lemma tbl_ok_tdel [intro, simp]: "tbl_ok t \<Longrightarrow> tbl_ok (tdel k t)"
  unfolding tbl_ok_def by (rule distinct_delete)

lemma ids_of_tput: "ids_of (tput k v t) = (if k \<in> set (ids_of t) then ids_of t else ids_of t @ [k])"
  by (induction t) auto

lemma ids_of_tdel: "ids_of (tdel k t) = filter (\<lambda>x. x \<noteq> k) (ids_of t)"
  by (induction t) auto

lemma set_ids_of: "set (ids_of t) = dom (tget t)"
  by (simp add: dom_map_of_conv_image_fst)

lemma tget_None_iff: "tget t k = None \<longleftrightarrow> k \<notin> set (ids_of t)"
  by (simp add: map_of_eq_None_iff)

lemma tbl_ok_tget: "tbl_ok t \<Longrightarrow> (k, v) \<in> set t \<longleftrightarrow> tget t k = Some v"
  by (auto simp: tbl_ok_def)

text \<open>The rows a map has for a slice of keys, in the slice's order.\<close>

definition rows_of :: "(string \<rightharpoonup> 'v) \<Rightarrow> string list \<Rightarrow> 'v tbl" where
  "rows_of f ks = concat (map (\<lambda>k. case f k of None \<Rightarrow> [] | Some v \<Rightarrow> [(k, v)]) ks)"

lemma rows_of_simps [simp]:
  "rows_of f [] = []"
  "rows_of f (k # ks) = (case f k of None \<Rightarrow> rows_of f ks | Some v \<Rightarrow> (k, v) # rows_of f ks)"
  "rows_of f (ks @ ks') = rows_of f ks @ rows_of f ks'"
  by (simp_all add: rows_of_def split: option.splits)

lemma ids_rows_of: "set ks \<subseteq> dom f \<Longrightarrow> ids_of (rows_of f ks) = ks"
  by (induction ks) auto

lemma tget_rows_of: "tget (rows_of f ks) k = (if k \<in> set ks then f k else None)"
  by (induction ks) (auto split: option.splits)

lemma rows_of_cong: "(\<And>k. k \<in> set ks \<Longrightarrow> f k = g k) \<Longrightarrow> rows_of f ks = rows_of g ks"
  by (induction ks) (auto split: option.splits)

lemma rows_of_upd_in:
  "distinct ks \<Longrightarrow> k \<in> set ks \<Longrightarrow> set ks \<subseteq> dom f \<Longrightarrow> rows_of (f(k \<mapsto> v)) ks = tput k v (rows_of f ks)"
proof (induction ks)
  case Nil
  then show ?case by simp
next
  case (Cons a ks)
  then obtain w where w: "f a = Some w" by auto
  show ?case
  proof (cases "a = k")
    case True
    with Cons.prems have "rows_of (f(k \<mapsto> v)) ks = rows_of f ks"
      by (intro rows_of_cong) auto
    with True w show ?thesis by (simp add: fun_upd_def)
  next
    case False
    with Cons w show ?thesis by simp
  qed
qed

lemma rows_of_upd_notin: "k \<notin> set ks \<Longrightarrow> rows_of (f(k \<mapsto> v)) (ks @ [k]) = tput k v (rows_of f ks)"
  by (induction ks) (auto split: option.splits)

lemma rows_of_del: "rows_of (f(k := None)) (filter (\<lambda>s. s \<noteq> k) ks) = tdel k (rows_of f ks)"
  by (induction ks) (auto split: option.splits)

lemma tbl_eq_rows_of: "tbl_ok t \<Longrightarrow> t = rows_of (tget t) (ids_of t)"
proof (induction t)
  case Nil
  then show ?case by simp
next
  case (Cons p t)
  obtain k v where p: "p = (k, v)" by (cases p)
  with Cons.prems have "k \<notin> set (ids_of t)" by (simp add: tbl_ok_def)
  then have "rows_of (tget (p # t)) (ids_of t) = rows_of (tget t) (ids_of t)"
    by (intro rows_of_cong) (auto simp: p)
  with Cons p show ?case by (simp add: tbl_ok_def fun_upd_def)
qed

section \<open>Strings\<close>

text \<open>Go's \<open>strings.HasPrefix\<close>, and the order Go's \<open>slices.Sorted\<close> uses, which is bytewise.\<close>

definition has_prefix :: "string \<Rightarrow> string \<Rightarrow> bool" where
  "has_prefix s p = (take (length p) s = p)"

lemma has_prefix_iff: "has_prefix s p \<longleftrightarrow> (\<exists>r. s = p @ r)"
proof
  assume "has_prefix s p"
  then have "s = p @ drop (length p) s"
    by (metis append_take_drop_id has_prefix_def)
  then show "\<exists>r. s = p @ r" ..
qed (auto simp: has_prefix_def)

lemma has_prefix_length: "has_prefix s p \<Longrightarrow> length p \<le> length s"
  by (auto simp: has_prefix_iff)

section \<open>Decimal numbers\<close>

definition digit_char :: "nat \<Rightarrow> char" where
  "digit_char d = char_of (48 + d)"

text \<open>\<open>strconv.Itoa\<close> of a natural number.\<close>

fun itoa :: "nat \<Rightarrow> string" where
  "itoa n = (if n < 10 then [digit_char n] else itoa (n div 10) @ [digit_char (n mod 10)])"

declare itoa.simps [simp del]

lemma itoa_ne [simp]: "itoa n \<noteq> []"
  by (cases "n < 10") (simp_all add: itoa.simps [of n])

text \<open>The value of a string of decimal digits.\<close>

definition digit_val :: "char \<Rightarrow> nat" where
  "digit_val c = of_char c - 48"

definition dec_val :: "string \<Rightarrow> nat" where
  "dec_val s = foldl (\<lambda>v c. 10 * v + digit_val c) 0 s"

lemma digit_val_char [simp]: "d < 10 \<Longrightarrow> digit_val (digit_char d) = d"
  by (simp add: digit_val_def digit_char_def of_char_of take_bit_eq_mod)

lemma dec_val_itoa [simp]: "dec_val (itoa n) = n"
proof (induction n rule: itoa.induct)
  case (1 n)
  show ?case
  proof (cases "n < 10")
    case True
    then show ?thesis by (simp add: itoa.simps [of n] dec_val_def)
  next
    case False
    with 1 show ?thesis by (simp add: itoa.simps [of n] dec_val_def)
  qed
qed

end
