(* ===== verification/Meta.thy ===== *)
theory Meta
  imports Prelude "HOL-Library.Word"
begin

text \<open>
  The metadata layer of \<open>src/meta\<close>: the engine interface (\<open>Reader\<close> and \<open>Writer\<close>) as a record of
  operations, the write guard, typed collections, the record and name views of a transaction with
  reference resolution, and the append-only log.

  A transaction handle is a state \<open>'s\<close> that the write operations return updated; a raw record is a
  value \<open>'v\<close>. The contract an engine gives its clients is the locale \<open>meta_engine\<close>; the client
  lemmas are proved in it once and hold for every engine that interprets it.
\<close>

section \<open>Transactions\<close>

datatype commit_mode = CommitDurable | CommitRelaxed

type_synonym write_opt = nat

definition RelaxedOK :: write_opt where
  "RelaxedOK = 1"

record scope =
  sc_write :: string
  sc_read :: "string list"

text \<open>The \<open>Reader\<close> and \<open>Writer\<close> interfaces. A scan hands its records to the client as a list in
  the engine's order; the client's callback runs over it with \<^const>\<open>fold_res\<close>.\<close>

record ('s, 'v) engine =
  GetRaw :: "'s \<Rightarrow> string \<Rightarrow> string \<Rightarrow> string \<Rightarrow> 'v option res"
  ScanRaw :: "'s \<Rightarrow> string \<Rightarrow> string \<Rightarrow> 'v tbl res"
  PutRaw :: "'s \<Rightarrow> string \<Rightarrow> string \<Rightarrow> string \<Rightarrow> 'v \<Rightarrow> bool \<Rightarrow> 's res"
  DeleteRaw :: "'s \<Rightarrow> string \<Rightarrow> string \<Rightarrow> string \<Rightarrow> bool \<Rightarrow> 's res"

definition CheckWriteScope :: "string \<Rightarrow> string \<Rightarrow> commit_mode \<Rightarrow> bool \<Rightarrow> unit res" where
  "CheckWriteScope ns write mode relaxed =
     (if ns \<noteq> write then Inl ErrScope
      else if mode = CommitRelaxed \<and> \<not> relaxed then Inl ErrDurabilityContract
      else Inr ())"

definition relaxedOK :: "write_opt list \<Rightarrow> bool" where
  "relaxedOK opts = (RelaxedOK \<in> set opts)"

section \<open>Collections\<close>

text \<open>\<open>json.Marshal\<close> and \<open>json.Unmarshal\<close> of a record type, as a pair of functions.\<close>

record ('r, 'v) codec =
  enc :: "'r \<Rightarrow> 'v res"
  dec :: "'v \<Rightarrow> 'r res"

record coll =
  cl_ns :: string
  cl_table :: string

definition NewCollection :: "string \<Rightarrow> string \<Rightarrow> coll" where
  "NewCollection ns table = \<lparr>cl_ns = ns, cl_table = table\<rparr>"

definition coll_get :: "('s, 'v) engine \<Rightarrow> ('r, 'v) codec \<Rightarrow> coll \<Rightarrow> 's \<Rightarrow> string \<Rightarrow> 'r res" where
  "coll_get E C c s rid =
     (case GetRaw E s (cl_ns c) (cl_table c) rid of
        Inl e \<Rightarrow> Inl e
      | Inr None \<Rightarrow> Inl ErrNotFound
      | Inr (Some raw) \<Rightarrow> dec C raw)"

definition coll_put ::
    "('s, 'v) engine \<Rightarrow> ('r, 'v) codec \<Rightarrow> coll \<Rightarrow> 's \<Rightarrow> string \<Rightarrow> 'r \<Rightarrow> write_opt list \<Rightarrow> 's res" where
  "coll_put E C c s rid r opts =
     (case enc C r of
        Inl e \<Rightarrow> Inl e
      | Inr raw \<Rightarrow> PutRaw E s (cl_ns c) (cl_table c) rid raw (relaxedOK opts))"

definition coll_insert ::
    "('s, 'v) engine \<Rightarrow> ('r, 'v) codec \<Rightarrow> coll \<Rightarrow> 's \<Rightarrow> string \<Rightarrow> 'r \<Rightarrow> write_opt list \<Rightarrow> 's res" where
  "coll_insert E C c s rid r opts =
     (case GetRaw E s (cl_ns c) (cl_table c) rid of
        Inl e \<Rightarrow> Inl e
      | Inr (Some _) \<Rightarrow> Inl ErrConflict
      | Inr None \<Rightarrow> coll_put E C c s rid r opts)"

definition coll_replace ::
    "('s, 'v) engine \<Rightarrow> ('r, 'v) codec \<Rightarrow> coll \<Rightarrow> 's \<Rightarrow> string \<Rightarrow> 'r \<Rightarrow> write_opt list \<Rightarrow> 's res" where
  "coll_replace E C c s rid r opts =
     (case GetRaw E s (cl_ns c) (cl_table c) rid of
        Inl e \<Rightarrow> Inl e
      | Inr None \<Rightarrow> Inl ErrNotFound
      | Inr (Some _) \<Rightarrow> coll_put E C c s rid r opts)"

definition coll_upsert ::
    "('s, 'v) engine \<Rightarrow> ('r, 'v) codec \<Rightarrow> coll \<Rightarrow> 's \<Rightarrow> string \<Rightarrow> 'r \<Rightarrow> write_opt list \<Rightarrow> 's res" where
  "coll_upsert E C c s rid r opts = coll_put E C c s rid r opts"

definition coll_delete ::
    "('s, 'v) engine \<Rightarrow> coll \<Rightarrow> 's \<Rightarrow> string \<Rightarrow> write_opt list \<Rightarrow> 's res" where
  "coll_delete E c s rid opts = DeleteRaw E s (cl_ns c) (cl_table c) rid (relaxedOK opts)"

definition coll_scan ::
    "('s, 'v) engine \<Rightarrow> ('r, 'v) codec \<Rightarrow> coll \<Rightarrow> 's \<Rightarrow> (string \<Rightarrow> 'r \<Rightarrow> 'b \<Rightarrow> 'b res) \<Rightarrow> 'b \<Rightarrow> 'b res" where
  "coll_scan E C c s fn acc =
     (case ScanRaw E s (cl_ns c) (cl_table c) of
        Inl e \<Rightarrow> Inl e
      | Inr rows \<Rightarrow>
          fold_res (\<lambda>(rid, raw) a. case dec C raw of Inl e \<Rightarrow> Inl e | Inr r \<Rightarrow> fn rid r a) rows acc)"

definition coll_list :: "('s, 'v) engine \<Rightarrow> ('r, 'v) codec \<Rightarrow> coll \<Rightarrow> 's \<Rightarrow> 'r tbl res" where
  "coll_list E C c s = coll_scan E C c s (\<lambda>rid r out. Inr (tput rid r out)) []"

section \<open>Record and name views\<close>

text \<open>\<open>RecordTx\<close> and \<open>NamedTx\<close>: the tables of one namespace inside a transaction.\<close>

definition resolvePrefixMin :: nat where
  "resolvePrefixMin = 3"

record ('r, 'v) named_tx =
  nx_recs :: coll
  nx_names :: coll
  nx_rc :: "('r, 'v) codec"
  nx_sc :: "(string, 'v) codec"

definition NewNamedTx ::
    "string \<Rightarrow> string \<Rightarrow> string \<Rightarrow> ('r, 'v) codec \<Rightarrow> (string, 'v) codec \<Rightarrow> ('r, 'v) named_tx" where
  "NewNamedTx ns recordsTable namesTable rc sc =
     \<lparr>nx_recs = NewCollection ns recordsTable, nx_names = NewCollection ns namesTable,
      nx_rc = rc, nx_sc = sc\<rparr>"

definition rtx_get :: "('s, 'v) engine \<Rightarrow> ('r, 'v) named_tx \<Rightarrow> 's \<Rightarrow> string \<Rightarrow> 'r option res" where
  "rtx_get E x s rid =
     (case coll_get E (nx_rc x) (nx_recs x) s rid of
        Inl e \<Rightarrow> if e = ErrNotFound then Inr None else Inl e
      | Inr r \<Rightarrow> Inr (Some r))"

definition rtx_put ::
    "('s, 'v) engine \<Rightarrow> ('r, 'v) named_tx \<Rightarrow> 's \<Rightarrow> string \<Rightarrow> 'r \<Rightarrow> write_opt list \<Rightarrow> 's res" where
  "rtx_put E x s rid r opts = coll_upsert E (nx_rc x) (nx_recs x) s rid r opts"

definition rtx_del :: "('s, 'v) engine \<Rightarrow> ('r, 'v) named_tx \<Rightarrow> 's \<Rightarrow> string \<Rightarrow> 's res" where
  "rtx_del E x s rid = coll_delete E (nx_recs x) s rid []"

definition rtx_all :: "('s, 'v) engine \<Rightarrow> ('r, 'v) named_tx \<Rightarrow> 's \<Rightarrow> 'r tbl res" where
  "rtx_all E x s = coll_list E (nx_rc x) (nx_recs x) s"

definition NameGet :: "('s, 'v) engine \<Rightarrow> ('r, 'v) named_tx \<Rightarrow> 's \<Rightarrow> string \<Rightarrow> string option res" where
  "NameGet E x s name =
     (case coll_get E (nx_sc x) (nx_names x) s name of
        Inl e \<Rightarrow> if e = ErrNotFound then Inr None else Inl e
      | Inr rid \<Rightarrow> Inr (Some rid))"

definition NameSet ::
    "('s, 'v) engine \<Rightarrow> ('r, 'v) named_tx \<Rightarrow> 's \<Rightarrow> string \<Rightarrow> string \<Rightarrow> write_opt list \<Rightarrow> 's res" where
  "NameSet E x s name rid opts = coll_upsert E (nx_sc x) (nx_names x) s name rid opts"

definition NameDel :: "('s, 'v) engine \<Rightarrow> ('r, 'v) named_tx \<Rightarrow> 's \<Rightarrow> string \<Rightarrow> 's res" where
  "NameDel E x s name = coll_delete E (nx_names x) s name []"

definition NameDelIfOwned ::
    "('s, 'v) engine \<Rightarrow> ('r, 'v) named_tx \<Rightarrow> 's \<Rightarrow> string \<Rightarrow> string \<Rightarrow> 's res" where
  "NameDelIfOwned E x s name rid =
     (if name = '''' then Inr s
      else case NameGet E x s name of
             Inl e \<Rightarrow> Inl e
           | Inr None \<Rightarrow> Inr s
           | Inr (Some cur) \<Rightarrow> if cur \<noteq> rid then Inr s else NameDel E x s name)"

text \<open>The prefix scan of \<open>Resolve\<close>: the last match and whether an earlier one was seen.\<close>

definition resolve_step :: "string \<Rightarrow> string \<Rightarrow> string \<times> bool \<Rightarrow> string \<times> bool" where
  "resolve_step ref rid st =
     (if has_prefix rid ref then (rid, snd st \<or> fst st \<noteq> '''') else st)"

definition resolve_prefix :: "string \<Rightarrow> err \<Rightarrow> string list \<Rightarrow> string res" where
  "resolve_prefix ref notFound ids =
     (let (match, ambiguous) = fold (resolve_step ref) ids ('''', False)
      in if ambiguous then Inl (ErrMsg ''ambiguous ref: multiple matches'')
         else if match \<noteq> '''' then Inr match
         else Inl notFound)"

definition Resolve ::
    "('s, 'v) engine \<Rightarrow> ('r, 'v) named_tx \<Rightarrow> 's \<Rightarrow> string \<Rightarrow> err \<Rightarrow> string res" where
  "Resolve E x s ref notFound =
     (let has = GetRaw E s (cl_ns (nx_recs x)) (cl_table (nx_recs x));
          prefix =
            (if resolvePrefixMin \<le> length ref then
              (case ScanRaw E s (cl_ns (nx_recs x)) (cl_table (nx_recs x)) of
                 Inl e \<Rightarrow> Inl e
               | Inr rows \<Rightarrow> resolve_prefix ref notFound (ids_of rows))
             else Inl notFound)
      in case has ref of
           Inl e \<Rightarrow> Inl e
         | Inr (Some _) \<Rightarrow> Inr ref
         | Inr None \<Rightarrow>
             (case NameGet E x s ref of
                Inl e \<Rightarrow> Inl e
              | Inr None \<Rightarrow> prefix
              | Inr (Some rid) \<Rightarrow>
                  (case has rid of
                     Inl e \<Rightarrow> Inl e
                   | Inr (Some _) \<Rightarrow> Inr rid
                   | Inr None \<Rightarrow> prefix)))"

text \<open>\<open>seen\<close> and \<open>ids\<close> of the source hold the same ids, so one list stands for both.\<close>

definition ResolveMany ::
    "('s, 'v) engine \<Rightarrow> ('r, 'v) named_tx \<Rightarrow> 's \<Rightarrow> string list \<Rightarrow> err \<Rightarrow> string list res" where
  "ResolveMany E x s refs notFound =
     fold_res (\<lambda>ref ids. case Resolve E x s ref notFound of
         Inl e \<Rightarrow> Inl e
       | Inr rid \<Rightarrow> Inr (if rid \<in> set ids then ids else ids @ [rid])) refs []"

section \<open>The append-only log\<close>

type_synonym seq = "64 word"

definition seqCursorID :: string where
  "seqCursorID = ''cursor''"

text \<open>\<open>fmt.Sprintf("%020d", s)\<close>: decimal digits, padded with zeros to twenty.\<close>

fun dec_digits :: "nat \<Rightarrow> nat \<Rightarrow> string" where
  "dec_digits 0 n = ''''"
| "dec_digits (Suc w) n = dec_digits w (n div 10) @ [digit_char (n mod 10)]"

definition seqID :: "seq \<Rightarrow> string" where
  "seqID s = dec_digits 20 (unat s)"

definition log_append ::
    "('s, 'v) engine \<Rightarrow> (seq, 'v) codec \<Rightarrow> ('r, 'v) codec \<Rightarrow> coll \<Rightarrow> 's \<Rightarrow> 'r \<Rightarrow> write_opt list \<Rightarrow>
     (seq \<times> 's) res" where
  "log_append E Q C l s r opts =
     (case GetRaw E s (cl_ns l) (cl_table l) seqCursorID of
        Inl e \<Rightarrow> Inl e
      | Inr raw \<Rightarrow>
          (case (case raw of None \<Rightarrow> Inr 0 | Some v \<Rightarrow>
                   (case dec Q v of Inl _ \<Rightarrow> Inl ErrCorrupt | Inr c \<Rightarrow> Inr c)) of
             Inl e \<Rightarrow> Inl e
           | Inr cur \<Rightarrow>
               (let next = cur + 1 in
                case enc C r of
                  Inl e \<Rightarrow> Inl e
                | Inr data \<Rightarrow>
                    (case PutRaw E s (cl_ns l) (cl_table l) (seqID next) data (relaxedOK opts) of
                       Inl e \<Rightarrow> Inl e
                     | Inr s1 \<Rightarrow>
                         (case enc Q next of
                            Inl e \<Rightarrow> Inl e
                          | Inr cv \<Rightarrow>
                              res_map (\<lambda>s2. (next, s2))
                                (PutRaw E s1 (cl_ns l) (cl_table l) seqCursorID cv (relaxedOK opts)))))))"


section \<open>The contract of an engine\<close>

definition view_upd ::
    "(string \<Rightarrow> (string \<Rightarrow> 'v tbl) option) \<Rightarrow> string \<Rightarrow> string \<Rightarrow> ('v tbl \<Rightarrow> 'v tbl) \<Rightarrow>
     string \<Rightarrow> (string \<Rightarrow> 'v tbl) option" where
  "view_upd V ns t f = V(ns := map_option (\<lambda>tb. tb(t := f (tb t))) (V ns))"

text \<open>A raw table and the typed table it decodes to.\<close>

definition decodes :: "('r, 'v) codec \<Rightarrow> 'v tbl \<Rightarrow> 'r tbl \<Rightarrow> bool" where
  "decodes C tb rt = list_all2 (\<lambda>(k, v) (k', r). k = k' \<and> dec C v = Inr r) tb rt"

lemma decodes_Nil [simp]: "decodes C [] []"
  by (simp add: decodes_def)

lemma decodes_tget_None: "decodes C tb rt \<Longrightarrow> tget tb k = None \<longleftrightarrow> tget rt k = None"
  unfolding decodes_def by (induction rule: list_all2_induct) auto

lemma decodes_tget_Some:
  "decodes C tb rt \<Longrightarrow> tget tb k = Some v \<Longrightarrow> \<exists>r. tget rt k = Some r \<and> dec C v = Inr r"
  unfolding decodes_def by (induction rule: list_all2_induct) (auto split: if_splits)

lemma decodes_tput: "decodes C tb rt \<Longrightarrow> dec C v = Inr r \<Longrightarrow> decodes C (tput k v tb) (tput k r rt)"
  unfolding decodes_def by (induction rule: list_all2_induct) auto

lemma decodes_tdel: "decodes C tb rt \<Longrightarrow> decodes C (tdel k tb) (tdel k rt)"
  unfolding decodes_def by (induction rule: list_all2_induct) auto

lemma decodes_ids: "decodes C tb rt \<Longrightarrow> ids_of tb = ids_of rt"
  unfolding decodes_def by (induction rule: list_all2_induct) auto

lemma decodes_fold:
  "decodes C tb rt \<Longrightarrow>
   fold_res (\<lambda>(k, raw) a. case dec C raw of Inl e \<Rightarrow> Inl e | Inr r \<Rightarrow> fn k r a) tb acc =
   fold_res (\<lambda>(k, r) a. fn k r a) rt acc"
  unfolding decodes_def
  by (induction arbitrary: acc rule: list_all2_induct) (auto split: sum.splits)

lemma fold_tput_distinct:
  "tbl_ok (out @ rt) \<Longrightarrow> fold_res (\<lambda>(k, r) out. Inr (tput k r out)) rt out = Inr (out @ rt)"
proof (induction rt arbitrary: out)
  case Nil
  then show ?case by simp
next
  case (Cons p rt)
  then have "tput (fst p) (snd p) out = out @ [p]"
    by (induction out) (auto simp: tbl_ok_def)
  with Cons show ?case by (simp add: case_prod_beta tbl_ok_def)
qed

locale meta_engine =
  fixes E :: "('s, 'v) engine"
    and inv :: "'s \<Rightarrow> bool"
    and view :: "'s \<Rightarrow> string \<Rightarrow> (string \<Rightarrow> 'v tbl) option"
    and guard :: "'s \<Rightarrow> string \<Rightarrow> bool \<Rightarrow> unit res"
  assumes get_raw:
      "inv s \<Longrightarrow> GetRaw E s ns t k =
         (case view s ns of None \<Rightarrow> Inl ErrScope | Some tb \<Rightarrow> Inr (tget (tb t) k))"
    and scan_raw:
      "inv s \<Longrightarrow> ScanRaw E s ns t = (case view s ns of None \<Rightarrow> Inl ErrScope | Some tb \<Rightarrow> Inr (tb t))"
    and put_refused: "guard s ns rel = Inl e \<Longrightarrow> PutRaw E s ns t k v rel = Inl e"
    and put_done:
      "inv s \<Longrightarrow> guard s ns rel = Inr () \<Longrightarrow>
         \<exists>s'. PutRaw E s ns t k v rel = Inr s' \<and> inv s' \<and> guard s' = guard s \<and>
              view s' = view_upd (view s) ns t (tput k v)"
    and delete_refused: "guard s ns rel = Inl e \<Longrightarrow> DeleteRaw E s ns t k rel = Inl e"
    and delete_done:
      "inv s \<Longrightarrow> guard s ns rel = Inr () \<Longrightarrow>
         \<exists>s'. DeleteRaw E s ns t k rel = Inr s' \<and> inv s' \<and> guard s' = guard s \<and>
              view s' = view_upd (view s) ns t (tdel k)"
    and guard_in_scope: "inv s \<Longrightarrow> guard s ns rel = Inr () \<Longrightarrow> view s ns \<noteq> None"
    and view_ok: "inv s \<Longrightarrow> view s ns = Some tb \<Longrightarrow> tbl_ok (tb t)"
begin

text \<open>A collection holds a typed table: its namespace is in scope and its rows decode.\<close>

definition holds :: "'s \<Rightarrow> ('r, 'v) codec \<Rightarrow> coll \<Rightarrow> 'r tbl \<Rightarrow> bool" where
  "holds s C c rt \<longleftrightarrow> (\<exists>tb. view s (cl_ns c) = Some tb \<and> decodes C (tb (cl_table c)) rt)"

lemma holds_ok: "inv s \<Longrightarrow> holds s C c rt \<Longrightarrow> tbl_ok rt"
  using view_ok [of s "cl_ns c" _ "cl_table c"] by (auto simp: holds_def tbl_ok_def dest!: decodes_ids)

lemma raw_present:
  assumes "inv s" and "holds s C c rt"
  obtains ov where "GetRaw E s (cl_ns c) (cl_table c) k = Inr ov" and "ov = None \<longleftrightarrow> tget rt k = None"
proof -
  from assms obtain tb where tb: "view s (cl_ns c) = Some tb" "decodes C (tb (cl_table c)) rt"
    by (auto simp: holds_def)
  then show ?thesis
    using that get_raw [OF assms(1)] decodes_tget_None [OF tb(2)] by simp
qed

lemma get_holds:
  assumes "inv s" and "holds s C c rt"
  shows "coll_get E C c s k = (case tget rt k of None \<Rightarrow> Inl ErrNotFound | Some r \<Rightarrow> Inr r)"
proof -
  from assms obtain tb where tb: "view s (cl_ns c) = Some tb" "decodes C (tb (cl_table c)) rt"
    by (auto simp: holds_def)
  show ?thesis
    using decodes_tget_None [OF tb(2)] decodes_tget_Some [OF tb(2)] assms(1) tb(1)
    by (fastforce simp: coll_get_def get_raw split: option.splits)
qed

lemma list_holds:
  assumes "inv s" and "holds s C c rt"
  shows "coll_list E C c s = Inr rt"
proof -
  from assms obtain tb where tb: "view s (cl_ns c) = Some tb" "decodes C (tb (cl_table c)) rt"
    by (auto simp: holds_def)
  have "tbl_ok ([] @ rt)" using holds_ok [OF assms] by simp
  with tb assms(1) show ?thesis
    using fold_tput_distinct [of "[]" rt]
    by (simp add: coll_list_def coll_scan_def scan_raw decodes_fold)
qed

lemma put_holds:
  assumes "inv s" and "holds s C c rt" and "guard s (cl_ns c) (relaxedOK opts) = Inr ()"
    and "enc C r = Inr v" and "dec C v = Inr r"
  shows "\<exists>s'. coll_put E C c s k r opts = Inr s' \<and> inv s' \<and> guard s' = guard s \<and>
              holds s' C c (tput k r rt) \<and>
              view s' = view_upd (view s) (cl_ns c) (cl_table c) (tput k v)"
proof -
  from assms obtain tb where tb: "view s (cl_ns c) = Some tb" "decodes C (tb (cl_table c)) rt"
    by (auto simp: holds_def)
  from put_done [OF assms(1,3)] obtain s' where
    s': "PutRaw E s (cl_ns c) (cl_table c) k v (relaxedOK opts) = Inr s'" "inv s'"
        "guard s' = guard s" "view s' = view_upd (view s) (cl_ns c) (cl_table c) (tput k v)"
    by blast
  have "holds s' C c (tput k r rt)"
    using tb s'(4) assms(5) by (simp add: holds_def view_upd_def decodes_tput)
  with s' assms(4) show ?thesis by (simp add: coll_put_def)
qed

lemma delete_holds:
  assumes "inv s" and "holds s C c rt" and "guard s (cl_ns c) (relaxedOK opts) = Inr ()"
  shows "\<exists>s'. coll_delete E c s k opts = Inr s' \<and> inv s' \<and> guard s' = guard s \<and>
              holds s' C c (tdel k rt) \<and>
              view s' = view_upd (view s) (cl_ns c) (cl_table c) (tdel k)"
proof -
  from assms obtain tb where tb: "view s (cl_ns c) = Some tb" "decodes C (tb (cl_table c)) rt"
    by (auto simp: holds_def)
  from delete_done [OF assms(1,3)] obtain s' where
    s': "DeleteRaw E s (cl_ns c) (cl_table c) k (relaxedOK opts) = Inr s'" "inv s'"
        "guard s' = guard s" "view s' = view_upd (view s) (cl_ns c) (cl_table c) (tdel k)"
    by blast
  have "holds s' C c (tdel k rt)"
    using tb s'(4) by (simp add: holds_def view_upd_def decodes_tdel)
  with s' show ?thesis by (simp add: coll_delete_def)
qed

text \<open>A write to one table leaves every other collection as it was.\<close>

lemma holds_frame:
  "view s' = view_upd (view s) ns t f \<Longrightarrow> (cl_ns c, cl_table c) \<noteq> (ns, t) \<Longrightarrow>
   holds s' C c rt = holds s C c rt"
  by (auto simp: holds_def view_upd_def)

lemma insert_holds:
  assumes "inv s" and "holds s C c rt" and "guard s (cl_ns c) (relaxedOK opts) = Inr ()"
    and "enc C r = Inr v" and "dec C v = Inr r"
  shows "case tget rt k of
           Some _ \<Rightarrow> coll_insert E C c s k r opts = Inl ErrConflict
         | None \<Rightarrow> \<exists>s'. coll_insert E C c s k r opts = Inr s' \<and> inv s' \<and> guard s' = guard s \<and>
                   holds s' C c (tput k r rt) \<and>
                   view s' = view_upd (view s) (cl_ns c) (cl_table c) (tput k v)"
proof -
  obtain ov where ov: "GetRaw E s (cl_ns c) (cl_table c) k = Inr ov" "ov = None \<longleftrightarrow> tget rt k = None"
    using raw_present [OF assms(1,2)] .
  show ?thesis
    using ov put_holds [OF assms, of k] by (cases ov) (auto simp: coll_insert_def)
qed

lemma replace_holds:
  assumes "inv s" and "holds s C c rt" and "guard s (cl_ns c) (relaxedOK opts) = Inr ()"
    and "enc C r = Inr v" and "dec C v = Inr r"
  shows "case tget rt k of
           None \<Rightarrow> coll_replace E C c s k r opts = Inl ErrNotFound
         | Some _ \<Rightarrow> \<exists>s'. coll_replace E C c s k r opts = Inr s' \<and> inv s' \<and> guard s' = guard s \<and>
                     holds s' C c (tput k r rt) \<and>
                     view s' = view_upd (view s) (cl_ns c) (cl_table c) (tput k v)"
proof -
  obtain ov where ov: "GetRaw E s (cl_ns c) (cl_table c) k = Inr ov" "ov = None \<longleftrightarrow> tget rt k = None"
    using raw_present [OF assms(1,2)] .
  show ?thesis
    using ov put_holds [OF assms, of k] by (cases ov) (auto simp: coll_replace_def)
qed

lemma rtx_get_holds:
  "inv s \<Longrightarrow> holds s (nx_rc x) (nx_recs x) rt \<Longrightarrow> rtx_get E x s k = Inr (tget rt k)"
  by (simp add: rtx_get_def get_holds split: option.splits)

lemma NameGet_holds:
  "inv s \<Longrightarrow> holds s (nx_sc x) (nx_names x) nt \<Longrightarrow> NameGet E x s k = Inr (tget nt k)"
  by (simp add: NameGet_def get_holds split: option.splits)

end

section \<open>Reference resolution\<close>

text \<open>What \<open>Resolve\<close> promises: an exact id, then a name that leads to a record, then the only id
  with the reference as its prefix.\<close>

definition resolve_spec :: "string list \<Rightarrow> string tbl \<Rightarrow> string \<Rightarrow> err \<Rightarrow> string res" where
  "resolve_spec recs nt ref notFound =
     (let by_prefix =
        (if length ref < 3 then Inl notFound
         else case filter (\<lambda>i. has_prefix i ref) recs of
                [] \<Rightarrow> Inl notFound
              | [i] \<Rightarrow> Inr i
              | _ \<Rightarrow> Inl (ErrMsg ''ambiguous ref: multiple matches''))
      in if ref \<in> set recs then Inr ref
         else case tget nt ref of
                Some i \<Rightarrow> if i \<in> set recs then Inr i else by_prefix
              | None \<Rightarrow> by_prefix)"

lemma resolve_fold:
  assumes "ref \<noteq> ''''"
  shows "fold (resolve_step ref) ids (m, a) =
    (let hits = filter (\<lambda>i. has_prefix i ref) ids in
     (if hits = [] then (m, a)
      else (last hits, a \<or> m \<noteq> '''' \<or> 2 \<le> length hits)))"
proof (induction ids arbitrary: m a)
  case Nil
  then show ?case by simp
next
  case (Cons i ids)
  have "has_prefix i ref \<Longrightarrow> i \<noteq> ''''"
    using assms by (auto simp: has_prefix_iff)
  with Cons show ?case by (auto simp: resolve_step_def Let_def Suc_le_eq)
qed

lemma resolve_prefix_spec:
  assumes "3 \<le> length ref"
  shows "resolve_prefix ref nf ids =
     (case filter (\<lambda>i. has_prefix i ref) ids of
        [] \<Rightarrow> Inl nf | [i] \<Rightarrow> Inr i | _ \<Rightarrow> Inl (ErrMsg ''ambiguous ref: multiple matches''))"
proof -
  have ne: "ref \<noteq> ''''" using assms by auto
  show ?thesis
  proof (cases "filter (\<lambda>i. has_prefix i ref) ids")
    case Nil
    then show ?thesis by (simp add: resolve_prefix_def resolve_fold [OF ne])
  next
    case (Cons i js)
    then have "i \<in> set (filter (\<lambda>i. has_prefix i ref) ids)" by simp
    then have "i \<noteq> ''''" using ne by (auto simp: has_prefix_iff)
    with Cons show ?thesis
      by (cases js) (simp_all add: resolve_prefix_def resolve_fold [OF ne])
  qed
qed

context meta_engine
begin

lemma Resolve_spec:
  assumes "inv s" and "holds s (nx_rc x) (nx_recs x) rt" and "holds s (nx_sc x) (nx_names x) nt"
  shows "Resolve E x s ref nf = resolve_spec (ids_of rt) nt ref nf"
proof -
  let ?ns = "cl_ns (nx_recs x)" and ?t = "cl_table (nx_recs x)" and ?ids = "ids_of rt"
  from assms obtain tb where tb: "view s ?ns = Some tb" "decodes (nx_rc x) (tb ?t) rt"
    by (auto simp: holds_def)
  have scan: "ScanRaw E s ?ns ?t = Inr (tb ?t)" and has: "\<And>k. GetRaw E s ?ns ?t k = Inr (tget (tb ?t) k)"
    using scan_raw [OF assms(1)] get_raw [OF assms(1)] tb(1) by simp_all
  have ids: "ids_of (tb ?t) = ?ids" using tb(2) by (rule decodes_ids)
  have pick: "\<And>k (A :: string res) B.
      (case tget (tb ?t) k of None \<Rightarrow> A | Some _ \<Rightarrow> B) = (if k \<in> set ?ids then B else A)"
    unfolding ids [symmetric] by (simp add: tget_None_iff split: option.splits) (metis imageI fst_conv map_of_SomeD)
  show ?thesis
    unfolding Resolve_def resolve_spec_def Let_def has scan NameGet_holds [OF assms(1,3)]
    by (simp add: pick ids resolve_prefix_spec resolvePrefixMin_def split: option.split)
qed

end

section \<open>Log sequence numbers\<close>

lemma length_dec_digits [simp]: "length (dec_digits w n) = w"
  by (induction w arbitrary: n) auto

lemma append_less_append:
  "length xs = length ys \<Longrightarrow> xs @ [x] < ys @ [y] \<longleftrightarrow> xs < ys \<or> (xs = ys \<and> x < (y::'a::order))"
  by (induction xs ys rule: list_induct2) auto

lemma digit_char_less [simp]: "d < 10 \<Longrightarrow> e < 10 \<Longrightarrow> digit_char d < digit_char e \<longleftrightarrow> d < e"
  by (simp add: digit_char_def less_char_def)

lemma digit_char_eq [simp]: "d < 10 \<Longrightarrow> e < 10 \<Longrightarrow> digit_char d = digit_char e \<longleftrightarrow> d = e"
  by (auto simp: digit_char_def char_of_eq_iff take_bit_eq_mod)

lemma digits_less:
  "r < 10 \<Longrightarrow> s < 10 \<Longrightarrow> 10 * q + r < 10 * p + s \<longleftrightarrow> q < p \<or> (q = p \<and> r < (s :: nat))"
  by arith

lemma div_mod_less: "(m :: nat) div 10 < n div 10 \<or> (m div 10 = n div 10 \<and> m mod 10 < n mod 10) \<longleftrightarrow> m < n"
  using digits_less [of "m mod 10" "n mod 10" "m div 10" "n div 10"] by simp

lemma div_mod_eq: "(m :: nat) div 10 = n div 10 \<and> m mod 10 = n mod 10 \<longleftrightarrow> m = n"
  by (metis mult_div_mod_eq)

lemma dec_digits_inj: "m < 10 ^ w \<Longrightarrow> n < 10 ^ w \<Longrightarrow> dec_digits w m = dec_digits w n \<longleftrightarrow> m = n"
proof (induction w arbitrary: m n)
  case 0
  then show ?case by simp
next
  case (Suc w)
  then have "m div 10 < 10 ^ w" "n div 10 < 10 ^ w" by auto
  with Suc.IH have "dec_digits (Suc w) m = dec_digits (Suc w) n \<longleftrightarrow> m div 10 = n div 10 \<and> m mod 10 = n mod 10"
    by simp
  then show ?case by (simp only: div_mod_eq)
qed

lemma dec_digits_mono: "m < 10 ^ w \<Longrightarrow> n < 10 ^ w \<Longrightarrow> dec_digits w m < dec_digits w n \<longleftrightarrow> m < n"
proof (induction w arbitrary: m n)
  case 0
  then show ?case by simp
next
  case (Suc w)
  then have le: "m div 10 < 10 ^ w" "n div 10 < 10 ^ w" by auto
  have "dec_digits (Suc w) m < dec_digits (Suc w) n \<longleftrightarrow>
      m div 10 < n div 10 \<or> (m div 10 = n div 10 \<and> m mod 10 < n mod 10)"
    using Suc.IH [OF le] dec_digits_inj [OF le] by (simp add: append_less_append)
  then show ?case by (simp only: div_mod_less)
qed

lemma unat_seq_bound: "unat (s :: seq) < 10 ^ 20"
proof -
  have "unat s < 2 ^ 64" using unsigned_less [of s] by simp
  then show ?thesis by simp
qed

lemma seqID_less_iff: "seqID s < seqID t \<longleftrightarrow> s < t"
  unfolding seqID_def word_less_nat_alt by (rule dec_digits_mono [OF unat_seq_bound unat_seq_bound])

lemma seqID_inj: "seqID s = seqID t \<longleftrightarrow> s = t"
  unfolding seqID_def dec_digits_inj [OF unat_seq_bound unat_seq_bound] by (rule word_unat_eq_iff [symmetric])

lemma seqID_not_cursor: "seqID s \<noteq> seqCursorID"
proof
  assume "seqID s = seqCursorID"
  then have "length (seqID s) = length seqCursorID" by simp
  then show False by (simp add: seqID_def seqCursorID_def del: dec_digits.simps)
qed

context meta_engine
begin

text \<open>An append writes the record under the cursor's successor and moves the cursor there.\<close>

lemma log_append_done:
  assumes "inv s" and "view s (cl_ns l) = Some tb" and "guard s (cl_ns l) (relaxedOK opts) = Inr ()"
    and cur: "case tget (tb (cl_table l)) seqCursorID of None \<Rightarrow> c = 0 | Some v \<Rightarrow> dec Q v = Inr c"
    and "enc C r = Inr data" and "enc Q (c + 1) = Inr cv"
  shows "\<exists>s'. log_append E Q C l s r opts = Inr (c + 1, s') \<and> inv s' \<and>
     view s' = view_upd (view s) (cl_ns l) (cl_table l)
       (\<lambda>t. tput seqCursorID cv (tput (seqID (c + 1)) data t))"
proof -
  obtain s1 where s1: "PutRaw E s (cl_ns l) (cl_table l) (seqID (c + 1)) data (relaxedOK opts) = Inr s1"
      "inv s1" "guard s1 = guard s"
      "view s1 = view_upd (view s) (cl_ns l) (cl_table l) (tput (seqID (c + 1)) data)"
    using put_done [OF assms(1,3)] by blast
  have "guard s1 (cl_ns l) (relaxedOK opts) = Inr ()" using s1(3) assms(3) by simp
  then obtain s2 where s2: "PutRaw E s1 (cl_ns l) (cl_table l) seqCursorID cv (relaxedOK opts) = Inr s2"
      "inv s2" "view s2 = view_upd (view s1) (cl_ns l) (cl_table l) (tput seqCursorID cv)"
    using put_done [OF s1(2)] by blast
  have "log_append E Q C l s r opts = Inr (c + 1, s2)"
    using assms(1,2,5,6) cur s1(1) s2(1)
    by (auto simp: log_append_def get_raw Let_def split: option.splits)
  moreover have "view s2 = view_upd (view s) (cl_ns l) (cl_table l)
       (\<lambda>t. tput seqCursorID cv (tput (seqID (c + 1)) data t))"
    using assms(2) s1(4) s2(3) by (simp add: view_upd_def)
  ultimately show ?thesis using s2(2) by blast
qed

end

end
