(* ===== verification/JsonModel.thy ===== *)
theory JsonModel
  imports Meta
begin

text \<open>
  The in-memory half of the json engine (\<open>src/meta/json/model.go\<close>, \<open>codec.go\<close>, \<open>tables.go\<close>): a
  namespace's decoded state as named tables, each an id slice and a map, and the two file codecs.
  The invariant ties the slice to the map; under it a table is one ordered association list, which
  every operation is shown to update.
\<close>

section \<open>Model\<close>

record 'v jtable =
  jt_ids :: "string list"
  jt_recs :: "(string \<times> 'v) list"

record 'v model =
  md_tables :: "(string \<times> 'v jtable) list"
  md_dirty :: bool

definition NewModel :: "'v model" where
  "NewModel = \<lparr>md_tables = [], md_dirty = False\<rparr>"

definition empty_table :: "'v jtable" where
  "empty_table = \<lparr>jt_ids = [], jt_recs = []\<rparr>"

definition model_get :: "'v model \<Rightarrow> string \<Rightarrow> string \<Rightarrow> 'v option" where
  "model_get m tbl rid =
     (case map_of (md_tables m) tbl of None \<Rightarrow> None | Some t \<Rightarrow> map_of (jt_recs t) rid)"

definition table_put :: "'v jtable \<Rightarrow> string \<Rightarrow> 'v \<Rightarrow> 'v jtable" where
  "table_put t rid raw =
     \<lparr>jt_ids = (if map_of (jt_recs t) rid = None then jt_ids t @ [rid] else jt_ids t),
      jt_recs = AList.update rid raw (jt_recs t)\<rparr>"

definition model_put :: "'v model \<Rightarrow> string \<Rightarrow> string \<Rightarrow> 'v \<Rightarrow> 'v model" where
  "model_put m tbl rid raw =
     (let t = (case map_of (md_tables m) tbl of None \<Rightarrow> empty_table | Some t \<Rightarrow> t)
      in \<lparr>md_tables = AList.update tbl (table_put t rid raw) (md_tables m), md_dirty = True\<rparr>)"

definition table_delete :: "'v jtable \<Rightarrow> string \<Rightarrow> 'v jtable" where
  "table_delete t rid =
     \<lparr>jt_ids = filter (\<lambda>s. s \<noteq> rid) (jt_ids t), jt_recs = AList.delete rid (jt_recs t)\<rparr>"

definition model_delete :: "'v model \<Rightarrow> string \<Rightarrow> string \<Rightarrow> 'v model" where
  "model_delete m tbl rid =
     (case map_of (md_tables m) tbl of
        None \<Rightarrow> m
      | Some t \<Rightarrow>
          if map_of (jt_recs t) rid = None then m
          else \<lparr>md_tables = AList.update tbl (table_delete t rid) (md_tables m), md_dirty = True\<rparr>)"

text \<open>The rows a scan yields; every id of the slice has a record in the map (the invariant below).\<close>

definition table_rows :: "'v jtable \<Rightarrow> 'v tbl" where
  "table_rows t = rows_of (map_of (jt_recs t)) (jt_ids t)"

definition model_scan :: "'v model \<Rightarrow> string \<Rightarrow> 'v tbl" where
  "model_scan m tbl = (case map_of (md_tables m) tbl of None \<Rightarrow> [] | Some t \<Rightarrow> table_rows t)"

definition model_len :: "'v model \<Rightarrow> string \<Rightarrow> nat" where
  "model_len m tbl = (case map_of (md_tables m) tbl of None \<Rightarrow> 0 | Some t \<Rightarrow> length (jt_ids t))"

definition TableNames :: "'v model \<Rightarrow> string list" where
  "TableNames m = sort (map fst (md_tables m))"

definition markClean :: "'v model \<Rightarrow> 'v model" where
  "markClean m = m\<lparr>md_dirty := False\<rparr>"

section \<open>Codecs\<close>

text \<open>
  A namespace file's bytes stand for the JSON document they parse to, an object of objects, or for
  text that does not parse. \<open>encoding/json\<close> refuses a document in which an object repeats a name.
\<close>

datatype 'v bytes = Doc "(string \<times> 'v tbl) list" | Torn

record 'v ns_codec =
  cd_decode :: "'v bytes \<Rightarrow> 'v model res"
  cd_encode :: "'v model \<Rightarrow> 'v bytes res"

definition sorted_recs :: "'v tbl \<Rightarrow> 'v tbl" where
  "sorted_recs t = rows_of (map_of t) (sort (map fst t))"

fun put_rows :: "string \<Rightarrow> 'v tbl \<Rightarrow> 'v model \<Rightarrow> 'v model" where
  "put_rows tbl [] m = m"
| "put_rows tbl ((k, v) # rows) m = put_rows tbl rows (model_put m tbl k v)"

text \<open>\<open>GenericCodec\<close>: every table under its own name, refilled in sorted order.\<close>

fun generic_fill :: "(string \<times> 'v tbl) list \<Rightarrow> string list \<Rightarrow> 'v model \<Rightarrow> 'v model" where
  "generic_fill d [] m = m"
| "generic_fill d (n # ns) m =
     generic_fill d ns (put_rows n (sorted_recs (case map_of d n of None \<Rightarrow> [] | Some r \<Rightarrow> r)) m)"

definition well_named :: "(string \<times> 'v tbl) list \<Rightarrow> bool" where
  "well_named d \<longleftrightarrow> distinct (map fst d) \<and> list_all (\<lambda>(n, r). distinct (map fst r)) d"

definition generic_decode :: "'v bytes \<Rightarrow> 'v model res" where
  "generic_decode b =
     (case b of
        Torn \<Rightarrow> Inl (ErrMsg ''decode generic namespace'')
      | Doc d \<Rightarrow>
          if well_named d then Inr (generic_fill d (sort (map fst d)) NewModel)
          else Inl (ErrMsg ''decode generic namespace''))"

definition generic_encode :: "'v model \<Rightarrow> 'v bytes res" where
  "generic_encode m =
     Inr (Doc (map (\<lambda>n. (n, sorted_recs (model_scan m n))) (TableNames m)))"

definition GenericCodec :: "'v ns_codec" where
  "GenericCodec = \<lparr>cd_decode = generic_decode, cd_encode = generic_encode\<rparr>"

text \<open>\<open>TableCodec\<close>: one top-level field per declared table.\<close>

record table_spec =
  ts_key :: string
  ts_table :: string
  ts_optional :: bool

definition spec_by_key :: "table_spec list \<Rightarrow> string \<Rightarrow> table_spec option" where
  "spec_by_key specs k = map_of (rev (map (\<lambda>sp. (ts_key sp, sp)) specs)) k"

fun table_fill :: "table_spec list \<Rightarrow> (string \<times> 'v tbl) list \<Rightarrow> 'v model \<Rightarrow> 'v model res" where
  "table_fill specs [] m = Inr m"
| "table_fill specs ((k, recs) # d) m =
     (case spec_by_key specs k of
        Some sp \<Rightarrow>
          if distinct (map fst recs)
          then table_fill specs d (put_rows (ts_table sp) (sorted_recs recs) m)
          else Inl (ErrMsg ''duplicate object member name'')
      | None \<Rightarrow> table_fill specs d m)"

definition table_decode :: "table_spec list \<Rightarrow> 'v bytes \<Rightarrow> 'v model res" where
  "table_decode specs b =
     (case b of
        Torn \<Rightarrow> Inl (ErrMsg ''namespace file: trailing data after document'')
      | Doc d \<Rightarrow>
          if distinct (map fst d) then table_fill specs d NewModel
          else Inl (ErrMsg ''duplicate object member name''))"

definition append_table :: "'v model \<Rightarrow> string \<Rightarrow> 'v tbl" where
  "append_table m tbl =
     (case map_of (md_tables m) tbl of None \<Rightarrow> [] | Some t \<Rightarrow> sorted_recs (jt_recs t))"

definition table_encode :: "table_spec list \<Rightarrow> 'v model \<Rightarrow> 'v bytes res" where
  "table_encode specs m =
     Inr (Doc (map (\<lambda>sp. (ts_key sp, append_table m (ts_table sp)))
       (filter (\<lambda>sp. \<not> (ts_optional sp \<and> model_len m (ts_table sp) = 0)) specs)))"

definition TableCodec :: "table_spec list \<Rightarrow> 'v ns_codec" where
  "TableCodec specs = \<lparr>cd_decode = table_decode specs, cd_encode = table_encode specs\<rparr>"

section \<open>The invariant and the table view\<close>

definition table_inv :: "'v jtable \<Rightarrow> bool" where
  "table_inv t \<longleftrightarrow>
     distinct (jt_ids t) \<and> distinct (map fst (jt_recs t)) \<and> set (jt_ids t) = set (map fst (jt_recs t))"

definition model_inv :: "'v model \<Rightarrow> bool" where
  "model_inv m \<longleftrightarrow> distinct (map fst (md_tables m)) \<and> list_all (\<lambda>(n, t). table_inv t) (md_tables m)"

lemma model_inv_table: "model_inv m \<Longrightarrow> map_of (md_tables m) n = Some t \<Longrightarrow> table_inv t"
  by (auto simp: model_inv_def list_all_iff dest: map_of_SomeD)

lemma table_inv_empty [simp]: "table_inv empty_table"
  by (simp add: table_inv_def empty_table_def)

lemma model_inv_New [simp]: "model_inv NewModel"
  by (simp add: model_inv_def NewModel_def)

lemma table_inv_put: "table_inv t \<Longrightarrow> table_inv (table_put t k v)"
  by (simp add: table_inv_def table_put_def ids_of_tput tget_None_iff del: set_map)

lemma table_inv_delete: "table_inv t \<Longrightarrow> table_inv (table_delete t k)"
  by (simp add: table_inv_def table_delete_def ids_of_tdel del: set_map)

lemma list_all_update:
  "list_all (\<lambda>(n, t). P t) ts \<Longrightarrow> P t \<Longrightarrow> list_all (\<lambda>(n, t). P t) (AList.update n t ts)"
  by (induction ts) auto

lemma model_inv_update:
  "model_inv m \<Longrightarrow> table_inv t \<Longrightarrow> model_inv \<lparr>md_tables = AList.update n t (md_tables m), md_dirty = d\<rparr>"
  by (simp add: model_inv_def distinct_update list_all_update)

lemma model_inv_put: "model_inv m \<Longrightarrow> model_inv (model_put m tbl k v)"
  by (auto simp: model_put_def Let_def intro!: model_inv_update table_inv_put
        dest: model_inv_table split: option.splits)

lemma model_inv_delete: "model_inv m \<Longrightarrow> model_inv (model_delete m tbl k)"
  by (auto simp: model_delete_def intro!: model_inv_update table_inv_delete
        dest: model_inv_table split: option.splits)

lemma model_inv_markClean [simp]: "model_inv (markClean m) = model_inv m"
  by (simp add: model_inv_def markClean_def)

text \<open>Under the invariant the rows of a table are the id slice paired with the map, and every
  operation is the operation of ordered tables on them.\<close>

lemma table_inv_dom: "table_inv t \<Longrightarrow> set (jt_ids t) = dom (map_of (jt_recs t))"
  by (simp add: table_inv_def dom_map_of_conv_image_fst)

lemma tget_table_rows: "table_inv t \<Longrightarrow> tget (table_rows t) k = map_of (jt_recs t) k"
  by (cases "map_of (jt_recs t) k") (auto simp: table_rows_def tget_rows_of table_inv_dom)

lemma table_rows_put:
  assumes "table_inv t"
  shows "table_rows (table_put t k v) = tput k v (table_rows t)"
proof (cases "k \<in> set (jt_ids t)")
  case True
  then have "map_of (jt_recs t) k \<noteq> None" using table_inv_dom [OF assms] by auto
  with True assms table_inv_dom [OF assms] show ?thesis
    by (simp add: table_rows_def table_put_def update_conv' rows_of_upd_in table_inv_def)
next
  case False
  then have "map_of (jt_recs t) k = None" using table_inv_dom [OF assms] by auto
  with False show ?thesis
    by (simp add: table_rows_def table_put_def update_conv' rows_of_upd_notin del: rows_of_simps)
qed

lemma table_rows_delete: "table_rows (table_delete t k) = tdel k (table_rows t)"
  by (simp add: table_rows_def table_delete_def delete_conv' rows_of_del)

lemma tbl_ok_table_rows: "table_inv t \<Longrightarrow> tbl_ok (table_rows t)"
  by (simp add: tbl_ok_def table_rows_def ids_rows_of table_inv_dom) (simp add: table_inv_def)

lemma table_rows_empty [simp]: "table_rows empty_table = []"
  by (simp add: table_rows_def empty_table_def)

lemma model_scan_New [simp]: "model_scan NewModel t = []"
  by (simp add: model_scan_def NewModel_def)

lemma model_scan_put:
  "model_inv m \<Longrightarrow> model_scan (model_put m tbl k v) = (model_scan m)(tbl := tput k v (model_scan m tbl))"
  by (rule ext)
    (auto simp: model_scan_def model_put_def Let_def update_conv' table_rows_put
       dest: model_inv_table split: option.splits)

lemma tdel_absent: "tget t k = None \<Longrightarrow> tdel k t = t"
  by (induction t) (auto split: if_splits)

lemma model_scan_delete:
  assumes "model_inv m"
  shows "model_scan (model_delete m tbl k) = (model_scan m)(tbl := tdel k (model_scan m tbl))"
proof (cases "map_of (md_tables m) tbl")
  case None
  then show ?thesis by (auto simp: model_scan_def model_delete_def)
next
  case (Some t)
  then have inv: "table_inv t" using assms by (rule model_inv_table [rotated])
  show ?thesis
  proof (cases "map_of (jt_recs t) k")
    case None
    then have "tdel k (table_rows t) = table_rows t"
      by (intro tdel_absent) (simp add: tget_table_rows [OF inv])
    with None Some show ?thesis by (auto simp: model_scan_def model_delete_def)
  next
    case (Some v)
    with \<open>map_of (md_tables m) tbl = Some t\<close> show ?thesis
      by (auto simp: model_scan_def model_delete_def update_conv' table_rows_delete)
  qed
qed

lemma model_get_scan: "model_inv m \<Longrightarrow> model_get m tbl k = tget (model_scan m tbl) k"
  by (auto simp: model_get_def model_scan_def tget_table_rows dest: model_inv_table split: option.splits)

lemma tbl_ok_model_scan: "model_inv m \<Longrightarrow> tbl_ok (model_scan m tbl)"
  by (auto simp: model_scan_def tbl_ok_table_rows dest: model_inv_table split: option.splits)

lemma model_scan_markClean [simp]: "model_scan (markClean m) = model_scan m"
  by (rule ext) (simp add: model_scan_def markClean_def)

section \<open>Codec round trips\<close>

text \<open>Re-reading a file yields every table in sorted order with the records it had.\<close>

lemma ids_sorted_recs: "ids_of (sorted_recs t) = sort (ids_of t)"
  unfolding sorted_recs_def by (rule ids_rows_of) (simp add: dom_map_of_conv_image_fst)

lemma tbl_ok_sorted_recs [simp]: "tbl_ok (sorted_recs t) = tbl_ok t"
  by (simp only: tbl_ok_def ids_sorted_recs distinct_sort)

lemma tget_sorted_recs [simp]: "tget (sorted_recs t) = tget t"
  by (rule ext) (auto simp: sorted_recs_def tget_rows_of map_of_eq_None_iff [symmetric])

lemma sorted_recs_cong:
  assumes "tbl_ok t" and "tbl_ok u" and "tget t = tget u"
  shows "sorted_recs t = sorted_recs u"
proof -
  have "set (ids_of t) = set (ids_of u)" unfolding set_ids_of using assms(3) by simp
  then have "sort (ids_of t) = sort (ids_of u)"
    using assms(1,2) by (intro sorted_distinct_set_unique) (simp_all add: tbl_ok_def)
  with assms(3) show ?thesis by (simp add: sorted_recs_def)
qed

lemma sorted_recs_idem: "tbl_ok t \<Longrightarrow> sorted_recs (sorted_recs t) = sorted_recs t"
  by (rule sorted_recs_cong) simp_all

lemma sorted_recs_Nil [simp]: "sorted_recs [] = []"
  by (simp add: sorted_recs_def)

lemma model_inv_put_rows: "model_inv m \<Longrightarrow> model_inv (put_rows tbl rows m)"
  by (induction tbl rows m rule: put_rows.induct) (simp_all add: model_inv_put)

lemma tput_append: "k \<notin> set (ids_of t) \<Longrightarrow> tput k v t = t @ [(k, v)]"
  by (induction t) auto

lemma model_scan_put_rows:
  assumes "model_inv m" and "tbl_ok (model_scan m tbl @ rows)"
  shows "model_scan (put_rows tbl rows m) = (model_scan m)(tbl := model_scan m tbl @ rows)"
  using assms
proof (induction tbl rows m rule: put_rows.induct)
  case (1 tbl m)
  then show ?case by simp
next
  case (2 tbl k v rows m)
  from "2.prems"(2) have "tput k v (model_scan m tbl) = model_scan m tbl @ [(k, v)]"
    by (intro tput_append) (auto simp: tbl_ok_def)
  with 2 show ?case by (auto simp: model_inv_put model_scan_put fun_eq_iff)
qed

lemma map_of_put_rows: "t \<noteq> tbl \<Longrightarrow> map_of (md_tables (put_rows tbl rows m)) t = map_of (md_tables m) t"
  by (induction tbl rows m rule: put_rows.induct) (simp_all add: model_put_def Let_def)

lemma generic_fill_scan:
  assumes "distinct ns" and "model_inv m" and "\<And>n. n \<in> set ns \<Longrightarrow> model_scan m n = []"
    and "\<And>n r. map_of d n = Some r \<Longrightarrow> tbl_ok r"
  shows "model_inv (generic_fill d ns m) \<and>
    model_scan (generic_fill d ns m) n =
      (if n \<in> set ns then sorted_recs (case map_of d n of None \<Rightarrow> [] | Some r \<Rightarrow> r) else model_scan m n)"
  using assms(1-3)
proof (induction ns arbitrary: m)
  case Nil
  then show ?case by simp
next
  case (Cons a ns)
  let ?r = "sorted_recs (case map_of d a of None \<Rightarrow> [] | Some r \<Rightarrow> r)"
  have "tbl_ok ?r" using assms(4) by (auto split: option.splits)
  with Cons.prems have scan: "model_scan (put_rows a ?r m) = (model_scan m)(a := ?r)"
    by (simp add: model_scan_put_rows)
  have "model_scan (put_rows a ?r m) n = []" if "n \<in> set ns" for n
    using that Cons.prems scan by auto
  then show ?case
    using Cons.prems Cons.IH [of "put_rows a ?r m"] scan by (simp add: model_inv_put_rows)
qed

lemma sort_TableNames: "sort (map fst (map (\<lambda>n. (n, f n)) (TableNames m))) = TableNames m"
  by (simp add: TableNames_def comp_def sorted_sort_id)

lemma map_of_map_pair: "map_of (map (\<lambda>n. (n, f n)) ns) n = (if n \<in> set ns then Some (f n) else None)"
  by (induction ns) auto

lemma generic_round_trip:
  assumes "model_inv m"
  shows "\<exists>b m'. generic_encode m = Inr b \<and> generic_decode b = Inr m' \<and> model_inv m' \<and>
           (\<forall>t. model_scan m' t = sorted_recs (model_scan m t))"
proof -
  let ?d = "map (\<lambda>n. (n, sorted_recs (model_scan m n))) (TableNames m)"
  have ok: "\<And>n r. map_of ?d n = Some r \<Longrightarrow> tbl_ok r"
    by (auto simp: map_of_map_pair tbl_ok_model_scan [OF assms] split: if_splits)
  have dist: "distinct (TableNames m)"
    using assms by (simp add: TableNames_def model_inv_def)
  have "well_named ?d"
    using dist tbl_ok_model_scan [OF assms]
    by (auto simp: well_named_def list_all_iff comp_def ids_sorted_recs tbl_ok_def)
  then have dec: "generic_decode (Doc ?d) = Inr (generic_fill ?d (TableNames m) NewModel)"
    using sort_TableNames [of "\<lambda>n. sorted_recs (model_scan m n)" m] by (simp add: generic_decode_def)
  have scan: "model_inv (generic_fill ?d (TableNames m) NewModel) \<and>
      model_scan (generic_fill ?d (TableNames m) NewModel) t = sorted_recs (model_scan m t)" for t
  proof -
    have none: "t \<notin> set (TableNames m) \<Longrightarrow> model_scan m t = []"
      by (simp add: TableNames_def model_scan_def flip: map_of_eq_None_iff)
    show ?thesis
      using generic_fill_scan [of "TableNames m" NewModel ?d t, OF dist model_inv_New model_scan_New ok] none
      by (auto simp: map_of_map_pair sorted_recs_idem tbl_ok_model_scan [OF assms])
  qed
  show ?thesis using dec scan by (auto simp: generic_encode_def)
qed

lemma generic_decode_inv: "generic_decode b = Inr m \<Longrightarrow> model_inv m"
proof (cases b)
  case (Doc d)
  assume "generic_decode b = Inr m"
  with Doc have "well_named d" and m: "m = generic_fill d (sort (map fst d)) NewModel"
    by (auto simp: generic_decode_def split: if_splits)
  then have "\<And>n r. map_of d n = Some r \<Longrightarrow> tbl_ok r" and "distinct (sort (map fst d))"
    by (auto simp: well_named_def list_all_iff tbl_ok_def dest: map_of_SomeD)
  then show ?thesis
    unfolding m by (intro generic_fill_scan [THEN conjunct1]) auto
qed (simp add: generic_decode_def)

text \<open>A table codec keeps the tables its specs declare; keys and tables are declared once each.\<close>

definition specs_ok :: "table_spec list \<Rightarrow> bool" where
  "specs_ok specs \<longleftrightarrow> distinct (map ts_key specs) \<and> distinct (map ts_table specs)"

definition declared :: "table_spec list \<Rightarrow> 'v model \<Rightarrow> bool" where
  "declared specs m \<longleftrightarrow> (\<forall>t. model_scan m t \<noteq> [] \<longrightarrow> t \<in> set (map ts_table specs))"

lemma spec_by_key_in:
  "specs_ok specs \<Longrightarrow> sp \<in> set specs \<Longrightarrow> spec_by_key specs (ts_key sp) = Some sp"
  unfolding spec_by_key_def specs_ok_def
  by (intro map_of_is_SomeI) (auto simp: rev_map [symmetric] comp_def)

lemma table_fill_scan:
  assumes "specs_ok specs" and "set sps \<subseteq> set specs" and "distinct (map ts_table sps)"
    and "model_inv m" and "\<And>sp. sp \<in> set sps \<Longrightarrow> model_scan m (ts_table sp) = []"
    and "\<And>sp. sp \<in> set sps \<Longrightarrow> tbl_ok (R (ts_table sp))"
  shows "\<exists>m'. table_fill specs (map (\<lambda>sp. (ts_key sp, R (ts_table sp))) sps) m = Inr m' \<and> model_inv m' \<and>
    (\<forall>t. model_scan m' t = (if t \<in> set (map ts_table sps) then sorted_recs (R t) else model_scan m t))"
  using assms(2-6)
proof (induction sps arbitrary: m)
  case Nil
  then show ?case by simp
next
  case (Cons sp sps)
  let ?m = "put_rows (ts_table sp) (sorted_recs (R (ts_table sp))) m"
  have key: "spec_by_key specs (ts_key sp) = Some sp"
    using spec_by_key_in [OF assms(1)] Cons.prems(1) by simp
  have ok: "tbl_ok (R (ts_table sp))" using Cons.prems(5) by simp
  have scan: "model_scan ?m = (model_scan m)(ts_table sp := sorted_recs (R (ts_table sp)))"
    using model_scan_put_rows [of m "ts_table sp"] Cons.prems(3,4) ok by simp
  have fresh: "model_scan ?m (ts_table s) = []" if "s \<in> set sps" for s
  proof -
    have "ts_table s \<noteq> ts_table sp"
      using Cons.prems(2) that by (metis distinct.simps(2) image_eqI list.simps(9) list.set_map)
    with Cons.prems(4) that scan show ?thesis by simp
  qed
  obtain m' where m': "table_fill specs (map (\<lambda>sp. (ts_key sp, R (ts_table sp))) sps) ?m = Inr m'"
      "model_inv m'"
      "\<forall>t. model_scan m' t = (if t \<in> set (map ts_table sps) then sorted_recs (R t) else model_scan ?m t)"
    using Cons.IH [of ?m] Cons.prems fresh by (auto simp: model_inv_put_rows)
  moreover have "distinct (ids_of (R (ts_table sp)))" using ok by (simp add: tbl_ok_def)
  ultimately show ?case using key scan by auto
qed

lemma append_table_scan: "model_inv m \<Longrightarrow> append_table m t = sorted_recs (model_scan m t)"
proof (cases "map_of (md_tables m) t")
  case None
  then show ?thesis by (simp add: append_table_def model_scan_def)
next
  case (Some u)
  assume "model_inv m"
  then have inv: "table_inv u" using Some by (rule model_inv_table)
  then have "tbl_ok (jt_recs u)" by (simp add: table_inv_def tbl_ok_def)
  moreover have "tget (jt_recs u) = tget (table_rows u)"
    by (rule ext) (simp add: tget_table_rows [OF inv])
  ultimately have "sorted_recs (jt_recs u) = sorted_recs (table_rows u)"
    using tbl_ok_table_rows [OF inv] by (intro sorted_recs_cong)
  with Some show ?thesis by (simp add: append_table_def model_scan_def)
qed

lemma model_len_scan: "model_inv m \<Longrightarrow> model_len m t = length (model_scan m t)"
proof -
  assume "model_inv m"
  then have "length (table_rows u) = length (jt_ids u)" if "map_of (md_tables m) t = Some u" for u
    using that by (metis ids_rows_of length_map model_inv_table order_refl table_inv_dom table_rows_def)
  then show ?thesis by (simp add: model_len_def model_scan_def split: option.splits)
qed

lemma table_round_trip:
  assumes "specs_ok specs" and "model_inv m" and "declared specs m"
  shows "\<exists>b m'. table_encode specs m = Inr b \<and> table_decode specs b = Inr m' \<and> model_inv m' \<and>
           (\<forall>t. model_scan m' t = sorted_recs (model_scan m t))"
proof -
  let ?keep = "\<lambda>sp. \<not> (ts_optional sp \<and> model_len m (ts_table sp) = 0)"
  let ?sps = "filter ?keep specs"
  let ?d = "map (\<lambda>sp. (ts_key sp, append_table m (ts_table sp))) ?sps"
  have dist: "distinct (map ts_table ?sps)" "distinct (map fst ?d)"
    using assms(1) by (auto simp: specs_ok_def distinct_map comp_def inj_on_def)
  obtain m' where m': "table_fill specs ?d NewModel = Inr m'" "model_inv m'"
    "\<And>t. model_scan m' t =
      (if t \<in> set (map ts_table ?sps) then sorted_recs (append_table m t) else model_scan NewModel t)"
    using table_fill_scan [OF assms(1) _ dist(1) model_inv_New, of "append_table m"]
      tbl_ok_model_scan [OF assms(2)]
    by (auto simp: append_table_scan [OF assms(2)])
  have dropped: "model_scan m t = []" if "t \<notin> set (map ts_table ?sps)" for t
  proof (rule ccontr)
    assume ne: "model_scan m t \<noteq> []"
    then obtain sp where "sp \<in> set specs" "t = ts_table sp"
      using assms(3) by (auto simp: declared_def)
    with that have "model_len m t = 0" by auto
    with ne show False using model_len_scan [OF assms(2)] by simp
  qed
  have "model_scan m' t = sorted_recs (model_scan m t)" for t
    using m'(3) [of t] dropped [of t] tbl_ok_model_scan [OF assms(2), of t]
    by (auto simp: append_table_scan [OF assms(2)] sorted_recs_idem)
  with m'(1,2) dist(2) show ?thesis by (auto simp: table_encode_def table_decode_def)
qed

lemma declared_put_rows:
  "declared specs m \<Longrightarrow> tbl \<in> set (map ts_table specs) \<Longrightarrow> declared specs (put_rows tbl rows m)"
  unfolding declared_def model_scan_def
  by (metis (no_types, lifting) map_of_put_rows)

lemma declared_New [simp]: "declared specs NewModel"
  by (simp add: declared_def)

lemma spec_by_key_mem: "spec_by_key specs k = Some sp \<Longrightarrow> sp \<in> set specs"
  by (auto simp: spec_by_key_def dest: map_of_SomeD)

lemma table_fill_inv:
  "table_fill specs d m = Inr m' \<Longrightarrow> model_inv m \<Longrightarrow> declared specs m \<Longrightarrow> model_inv m' \<and> declared specs m'"
  by (induction specs d m arbitrary: m' rule: table_fill.induct)
    (auto simp: model_inv_put_rows declared_put_rows dest: spec_by_key_mem split: option.splits if_splits)

lemma table_decode_inv: "table_decode specs b = Inr m \<Longrightarrow> model_inv m \<and> declared specs m"
  by (auto simp: table_decode_def dest!: table_fill_inv split: bytes.splits if_splits)

text \<open>What the store relies on: a namespace codec that re-reads what it wrote.\<close>

locale ns_codec_ok =
  fixes C :: "'v ns_codec" and dom_ok :: "'v model \<Rightarrow> bool" and tables :: "string set"
  assumes round_trip:
      "model_inv m \<Longrightarrow> dom_ok m \<Longrightarrow>
         \<exists>b m'. cd_encode C m = Inr b \<and> cd_decode C b = Inr m' \<and>
                (\<forall>t. model_scan m' t = sorted_recs (model_scan m t))"
    and decode_ok: "cd_decode C b = Inr m \<Longrightarrow> model_inv m \<and> dom_ok m"
    and empty_ok: "dom_ok NewModel"
    and put_ok: "model_inv m \<Longrightarrow> dom_ok m \<Longrightarrow> t \<in> tables \<Longrightarrow> dom_ok (model_put m t k v)"
    and delete_ok: "model_inv m \<Longrightarrow> dom_ok m \<Longrightarrow> dom_ok (model_delete m t k)"
    and clean_ok: "dom_ok (markClean m) = dom_ok m"
    and torn: "\<exists>e. cd_decode C Torn = Inl e"

interpretation generic: ns_codec_ok GenericCodec "\<lambda>_. True" UNIV
proof
  show "model_inv m \<Longrightarrow> True \<Longrightarrow> \<exists>b m'. cd_encode GenericCodec m = Inr b \<and>
      cd_decode GenericCodec b = Inr m' \<and> (\<forall>t. model_scan m' t = sorted_recs (model_scan m t))" for m :: "'a model"
    using generic_round_trip [of m] by (auto simp: GenericCodec_def)
qed (auto simp: GenericCodec_def generic_decode_inv generic_decode_def [of Torn])

text \<open>The namespaces of \<open>cmd/core/metastore.go\<close>.\<close>

definition vm_specs :: "table_spec list" where
  "vm_specs =
     [\<lparr>ts_key = ''vms'', ts_table = ''records'', ts_optional = False\<rparr>,
      \<lparr>ts_key = ''names'', ts_table = ''names'', ts_optional = False\<rparr>,
      \<lparr>ts_key = ''placements'', ts_table = ''placements'', ts_optional = True\<rparr>,
      \<lparr>ts_key = ''tombstones'', ts_table = ''tombstones'', ts_optional = True\<rparr>]"

lemma vm_specs_ok: "specs_ok vm_specs"
  by (simp add: specs_ok_def vm_specs_def)

lemma declared_put:
  "model_inv m \<Longrightarrow> declared specs m \<Longrightarrow> t \<in> set (map ts_table specs) \<Longrightarrow> declared specs (model_put m t k v)"
  by (simp add: declared_def model_scan_put)

lemma declared_delete: "model_inv m \<Longrightarrow> declared specs m \<Longrightarrow> declared specs (model_delete m t k)"
  unfolding declared_def model_scan_delete by (metis fun_upd_apply delete_simps(1))

lemma declared_clean: "declared specs (markClean m) = declared specs m"
  by (simp add: declared_def model_scan_def markClean_def)

lemma TableCodec_ok:
  "specs_ok specs \<Longrightarrow> ns_codec_ok (TableCodec specs) (declared specs) (set (map ts_table specs))"
proof
  fix m :: "'a model"
  assume "specs_ok specs" "model_inv m" "declared specs m"
  then show "\<exists>b m'. cd_encode (TableCodec specs) m = Inr b \<and>
      cd_decode (TableCodec specs) b = Inr m' \<and> (\<forall>t. model_scan m' t = sorted_recs (model_scan m t))"
    using table_round_trip [of specs m] by (auto simp: TableCodec_def)
qed (auto simp: TableCodec_def table_decode_def [of _ Torn] declared_put declared_delete declared_clean dest: table_decode_inv)

interpretation vms: ns_codec_ok "TableCodec vm_specs" "declared vm_specs" "set (map ts_table vm_specs)"
  by (rule TableCodec_ok [OF vm_specs_ok])

section \<open>Properties\<close>

text \<open>
  C21. The VM namespace's file codec round trips: a model with declared tables encodes, the bytes
  decode, and every table comes back with the same records, in id order.
\<close>

theorem vm_codec_round_trip:
  assumes "model_inv m" and "declared vm_specs m"
  shows "\<exists>b m'. cd_encode (TableCodec vm_specs) m = Inr b \<and> cd_decode (TableCodec vm_specs) b = Inr m' \<and>
     (\<forall>t. model_scan m' t = sorted_recs (model_scan m t))"
  using vms.round_trip [OF assms] .

theorem vm_codec_round_trip_witness:
  "\<exists>b m'. cd_encode (TableCodec vm_specs) (model_put NewModel ''names'' ''web'' (1 :: nat)) = Inr b \<and>
     cd_decode (TableCodec vm_specs) b = Inr m' \<and> model_scan m' ''names'' = [(''web'', 1)]"
proof -
  let ?m = "model_put NewModel ''names'' ''web'' (1 :: nat)"
  have inv: "model_inv ?m" by (simp add: model_inv_put)
  have decl: "declared vm_specs ?m"
    by (rule vms.put_ok) (simp_all add: vms.empty_ok, simp add: vm_specs_def)
  have "sorted_recs (model_scan ?m ''names'') = [(''web'', 1)]"
    by (simp add: model_scan_put sorted_recs_def)
  with vm_codec_round_trip [OF inv decl] show ?thesis by metis
qed

datatype 'v model_op = OpPut string string 'v | OpDelete string string

fun model_run :: "'v model_op \<Rightarrow> 'v model \<Rightarrow> 'v model" where
  "model_run (OpPut t k v) m = model_put m t k v"
| "model_run (OpDelete t k) m = model_delete m t k"

lemma model_ops_inv: "model_inv m \<Longrightarrow> model_inv (fold model_run ops m)"
proof (induction ops arbitrary: m)
  case (Cons x ops)
  then show ?case by (cases x) (simp_all add: model_inv_put model_inv_delete)
qed simp

text \<open>
  C22. The id slice and the record map of a table stay in step: after any sequence of puts and
  deletes on a fresh model, the slice lists each id of the map exactly once, and reading a record
  agrees with scanning the table.
\<close>

theorem model_table_invariant:
  "model_inv (fold model_run ops NewModel) \<and>
   model_get (fold model_run ops NewModel) t k = tget (model_scan (fold model_run ops NewModel) t) k \<and>
   tbl_ok (model_scan (fold model_run ops NewModel) t)"
  using model_ops_inv [OF model_inv_New, of ops] by (simp add: model_get_scan tbl_ok_model_scan)

end
