(* ===== verification/JsonStore.thy ===== *)
theory JsonStore
  imports JsonModel
begin

text \<open>
  The json engine's store (\<open>src/meta/json/store.go\<close>): transactions over per-namespace files, the
  generation rotation of a commit, recovery of a torn file, and the order in which namespace
  locks are taken. A commit is a sequence of file operations, each of which may fail, and it may be
  cut after any of them, so the files it leaves behind are part of its result in every case.
\<close>

section \<open>Files\<close>

datatype os_err = ENOSPC | EOTHER

text \<open>The system calls of a transaction, in the order the code makes them. \<open>io step\<close> is the error
  the call returns, if any.\<close>

datatype io_step =
    ReadMain | ReadPrev
  | RemoveTmp | LinkPrev | RenamePrev | WriteMain
  | SyncMain | SyncPrev | SyncDir

type_synonym io_env = "io_step \<Rightarrow> os_err option"

text \<open>A namespace's files: the current generation, the previous one, and the rotation's link.\<close>

record 'v ns_files =
  f_main :: "'v bytes option"
  f_prev :: "'v bytes option"
  f_tmp :: "'v bytes option"

definition code_err :: "os_err \<Rightarrow> err \<Rightarrow> err" where
  "code_err e mark = (if e = ENOSPC then ErrNoSpace else mark)"

record 'v loaded =
  ld_model :: "'v model"
  ld_recovered :: bool

definition loadNamespace :: "'v ns_codec \<Rightarrow> io_env \<Rightarrow> 'v ns_files \<Rightarrow> 'v loaded res" where
  "loadNamespace C io f =
     (case io ReadMain of
        Some e \<Rightarrow> Inl (code_err e ErrIO)
      | None \<Rightarrow>
          (case f_main f of
             None \<Rightarrow> Inr \<lparr>ld_model = NewModel, ld_recovered = False\<rparr>
           | Some raw \<Rightarrow>
               (case cd_decode C raw of
                  Inr m \<Rightarrow> Inr \<lparr>ld_model = markClean m, ld_recovered = False\<rparr>
                | Inl decodeErr \<Rightarrow>
                    (case io ReadPrev of
                       Some e \<Rightarrow> Inl (code_err e ErrCorrupt)
                     | None \<Rightarrow>
                         (case f_prev f of
                            None \<Rightarrow> Inl ErrCorrupt
                          | Some prevRaw \<Rightarrow>
                              (case cd_decode C prevRaw of
                                 Inl e \<Rightarrow> Inl ErrCorrupt
                               | Inr prev \<Rightarrow>
                                   Inr \<lparr>ld_model = markClean prev, ld_recovered = True\<rparr>))))))"

text \<open>\<open>crash\<close> is the hook the code calls after each write step: an error there ends the commit.\<close>

type_synonym crash_env = "string \<Rightarrow> err option"

definition crash :: "crash_env \<Rightarrow> string \<Rightarrow> unit res" where
  "crash cr step = (case cr step of None \<Rightarrow> Inr () | Some e \<Rightarrow> Inl e)"

definition rotate_prev :: "io_env \<Rightarrow> crash_env \<Rightarrow> 'v ns_files \<Rightarrow> 'v ns_files \<times> unit res" where
  "rotate_prev io cr f =
     (case io RemoveTmp of
        Some e \<Rightarrow> (f, Inl (code_err e ErrIO))
      | None \<Rightarrow>
          (let f1 = f\<lparr>f_tmp := None\<rparr> in
           case f_main f1 of
             None \<Rightarrow> (f1, crash cr ''prev-rotated'')
           | Some raw \<Rightarrow>
               (case io LinkPrev of
                  Some e \<Rightarrow> (f1, Inl (code_err e ErrIO))
                | None \<Rightarrow>
                    (let f2 = f1\<lparr>f_tmp := Some raw\<rparr> in
                     case crash cr ''prev-linked'' of
                       Inl e \<Rightarrow> (f2, Inl e)
                     | Inr _ \<Rightarrow>
                         (case io RenamePrev of
                            Some e \<Rightarrow> (f2, Inl (code_err e ErrIO))
                          | None \<Rightarrow>
                              (f2\<lparr>f_prev := f_tmp f2, f_tmp := None\<rparr>, crash cr ''prev-rotated''))))))"

definition commitLocked ::
    "'v ns_codec \<Rightarrow> io_env \<Rightarrow> crash_env \<Rightarrow> 'v ns_files \<Rightarrow> 'v loaded \<Rightarrow> 'v ns_files \<times> unit res" where
  "commitLocked C io cr f l =
     (case cd_encode C (ld_model l) of
        Inl e \<Rightarrow> (f, Inl e)
      | Inr data \<Rightarrow>
          (case (if ld_recovered l then (f, Inr ()) else rotate_prev io cr f) of
             (f1, Inl e) \<Rightarrow> (f1, Inl e)
           | (f1, Inr _) \<Rightarrow>
               (case io WriteMain of
                  Some e \<Rightarrow> (f1, Inl (code_err e ErrIO))
                | None \<Rightarrow> (f1\<lparr>f_main := Some data\<rparr>, crash cr ''main-renamed''))))"

text \<open>The fsyncs after the locks are released: the calls made, and the result.\<close>

definition syncCommitted ::
    "io_env \<Rightarrow> crash_env \<Rightarrow> 'v ns_files \<Rightarrow> commit_mode \<Rightarrow> io_step list \<times> unit res" where
  "syncCommitted io cr f mode =
     (case io SyncMain of
        Some e \<Rightarrow> ([SyncMain], Inl (code_err e ErrIO))
      | None \<Rightarrow>
          (case crash cr ''main-synced'' of
             Inl e \<Rightarrow> ([SyncMain], Inl e)
           | Inr _ \<Rightarrow>
               (case (if f_prev f = None then None else io SyncPrev) of
                  Some e \<Rightarrow> ([SyncMain, SyncPrev], Inl (code_err e ErrIO))
                | None \<Rightarrow>
                    if mode = CommitRelaxed then ([SyncMain, SyncPrev], Inr ())
                    else
                      (case crash cr ''prev-synced'' of
                         Inl e \<Rightarrow> ([SyncMain, SyncPrev], Inl e)
                       | Inr _ \<Rightarrow>
                           (case io SyncDir of
                              Some e \<Rightarrow> ([SyncMain, SyncPrev, SyncDir], Inl (code_err e ErrIO))
                            | None \<Rightarrow> ([SyncMain, SyncPrev, SyncDir], crash cr ''dir-synced''))))))"

section \<open>Transactions\<close>

record 'v tx =
  tx_models :: "(string \<times> 'v loaded) list"
  tx_write :: string
  tx_mode :: commit_mode

definition tx_get :: "'v tx \<Rightarrow> string \<Rightarrow> string \<Rightarrow> string \<Rightarrow> 'v option res" where
  "tx_get w ns table rid =
     (case map_of (tx_models w) ns of
        None \<Rightarrow> Inl ErrScope
      | Some l \<Rightarrow> Inr (model_get (ld_model l) table rid))"

definition tx_scan :: "'v tx \<Rightarrow> string \<Rightarrow> string \<Rightarrow> 'v tbl res" where
  "tx_scan w ns table =
     (case map_of (tx_models w) ns of
        None \<Rightarrow> Inl ErrScope
      | Some l \<Rightarrow> Inr (model_scan (ld_model l) table))"

text \<open>The writer's \<open>model\<close> is the one \<open>models\<close> has for the write namespace.\<close>

definition tx_write_model :: "'v tx \<Rightarrow> ('v model \<Rightarrow> 'v model) \<Rightarrow> 'v tx" where
  "tx_write_model w g =
     (case map_of (tx_models w) (tx_write w) of
        None \<Rightarrow> w
      | Some l \<Rightarrow>
          w\<lparr>tx_models := AList.update (tx_write w) (l\<lparr>ld_model := g (ld_model l)\<rparr>) (tx_models w)\<rparr>)"

definition tx_put :: "'v tx \<Rightarrow> string \<Rightarrow> string \<Rightarrow> string \<Rightarrow> 'v \<Rightarrow> bool \<Rightarrow> 'v tx res" where
  "tx_put w ns table rid raw relaxed =
     (case CheckWriteScope ns (tx_write w) (tx_mode w) relaxed of
        Inl e \<Rightarrow> Inl e
      | Inr _ \<Rightarrow> Inr (tx_write_model w (\<lambda>m. model_put m table rid raw)))"

definition tx_delete :: "'v tx \<Rightarrow> string \<Rightarrow> string \<Rightarrow> string \<Rightarrow> bool \<Rightarrow> 'v tx res" where
  "tx_delete w ns table rid relaxed =
     (case CheckWriteScope ns (tx_write w) (tx_mode w) relaxed of
        Inl e \<Rightarrow> Inl e
      | Inr _ \<Rightarrow> Inr (tx_write_model w (\<lambda>m. model_delete m table rid)))"

definition json_engine :: "('v tx, 'v) engine" where
  "json_engine = \<lparr>GetRaw = tx_get, ScanRaw = tx_scan, PutRaw = tx_put, DeleteRaw = tx_delete\<rparr>"

section \<open>The store\<close>

text \<open>
  \<open>sd_nss\<close> is the namespace set \<open>Open\<close> built; \<open>locks\<close> is what taking a namespace's flock returns.
  The trace records the lock operations.
\<close>

record ns_def =
  nd_name :: string
  nd_file :: string
  nd_lock :: string

type_synonym 'v store_def = "(string \<times> 'v ns_codec) list"

fun open_loop :: "(ns_def \<times> 'v ns_codec option) list \<Rightarrow> 'v store_def \<Rightarrow> 'v store_def res" where
  "open_loop [] nss = Inr nss"
| "open_loop ((d, codec) # ds) nss =
     (if nd_name d = '''' \<or> nd_file d = '''' \<or> nd_lock d = '''' \<or> codec = None
      then Inl (ErrMsg ''namespace: incomplete definition'')
      else if map_of nss (nd_name d) \<noteq> None then Inl (ErrMsg ''namespace declared twice'')
      else open_loop ds (AList.update (nd_name d) (the codec) nss))"

definition Open :: "(ns_def \<times> 'v ns_codec option) list \<Rightarrow> 'v store_def res" where
  "Open namespaces = open_loop namespaces []"

definition resolve_ns :: "'v store_def \<Rightarrow> string list \<Rightarrow> (string \<times> 'v ns_codec) list res" where
  "resolve_ns S nss =
     map_res (\<lambda>name. case map_of S name of None \<Rightarrow> Inl ErrScope | Some C \<Rightarrow> Inr (name, C))
       (remdups_adj (sort nss))"

datatype lock_event = Locked string | Unlocked string

fun lock_all :: "(string \<Rightarrow> err option) \<Rightarrow> string list \<Rightarrow> string list \<Rightarrow> lock_event list \<times> unit res" where
  "lock_all locks [] held = ([], Inr ())"
| "lock_all locks (n # ns) held =
     (case locks n of
        Some e \<Rightarrow> (map Unlocked held, Inl e)
      | None \<Rightarrow> (case lock_all locks ns (n # held) of (ev, r) \<Rightarrow> (Locked n # ev, r)))"

definition withLocked ::
    "(string \<Rightarrow> err option) \<Rightarrow> string list \<Rightarrow> 'd \<Rightarrow> ('d \<Rightarrow> 'd \<times> 'a res) \<Rightarrow> lock_event list \<times> 'd \<times> 'a res" where
  "withLocked locks names d fn =
     (case lock_all locks names [] of
        (ev, Inl e) \<Rightarrow> (ev, d, Inl e)
      | (ev, Inr _) \<Rightarrow> (case fn d of (d', r) \<Rightarrow> (ev @ map Unlocked (rev names), d', r)))"

type_synonym 'v disk = "string \<Rightarrow> 'v ns_files"

fun loadAll ::
    "(string \<Rightarrow> io_env) \<Rightarrow> 'v disk \<Rightarrow> (string \<times> 'v ns_codec) list \<Rightarrow> (string \<times> 'v loaded) list res" where
  "loadAll io d [] = Inr []"
| "loadAll io d ((n, C) # states) =
     (case loadNamespace C (io n) (d n) of
        Inl e \<Rightarrow> Inl e
      | Inr l \<Rightarrow> res_map (\<lambda>ls. (n, l) # ls) (loadAll io d states))"

record ('v, 'a) outcome =
  oc_trace :: "lock_event list"
  oc_disk :: "'v disk"
  oc_res :: "'a res"

definition View ::
    "'v store_def \<Rightarrow> (string \<Rightarrow> err option) \<Rightarrow> (string \<Rightarrow> io_env) \<Rightarrow> 'v disk \<Rightarrow> string list \<Rightarrow>
     ('v tx \<Rightarrow> 'a res) \<Rightarrow> ('v, 'a) outcome" where
  "View S locks io d nss fn =
     (case resolve_ns S nss of
        Inl e \<Rightarrow> \<lparr>oc_trace = [], oc_disk = d, oc_res = Inl e\<rparr>
      | Inr states \<Rightarrow>
          (case withLocked locks (map fst states) d
             (\<lambda>d. (d, res_bind (loadAll io d states)
                    (\<lambda>models. fn \<lparr>tx_models = models, tx_write = '''', tx_mode = CommitDurable\<rparr>))) of
             (ev, d', r) \<Rightarrow> \<lparr>oc_trace = ev, oc_disk = d', oc_res = r\<rparr>))"

text \<open>The closure of \<open>Update\<close> under the locks. Its result says whether it committed.\<close>

definition update_locked ::
    "'v ns_codec \<Rightarrow> (string \<Rightarrow> io_env) \<Rightarrow> crash_env \<Rightarrow> (string \<times> 'v ns_codec) list \<Rightarrow> string \<Rightarrow>
     commit_mode \<Rightarrow> ('v tx \<Rightarrow> ('a \<times> 'v tx) res) \<Rightarrow> 'v disk \<Rightarrow> 'v disk \<times> ('a \<times> bool) res" where
  "update_locked C io cr states write mode fn d =
     (case loadAll io d states of
        Inl e \<Rightarrow> (d, Inl e)
      | Inr models \<Rightarrow>
          (case fn \<lparr>tx_models = models, tx_write = write, tx_mode = mode\<rparr> of
             Inl e \<Rightarrow> (d, Inl e)
           | Inr (a, w) \<Rightarrow>
               (case map_of (tx_models w) write of
                  None \<Rightarrow> (d, Inl ErrScope)
                | Some l \<Rightarrow>
                    if \<not> md_dirty (ld_model l) \<and> \<not> ld_recovered l then (d, Inr (a, False))
                    else (case commitLocked C (io write) cr (d write) l of
                            (f, Inl e) \<Rightarrow> (d(write := f), Inl e)
                          | (f, Inr _) \<Rightarrow> (d(write := f), Inr (a, True))))))"

definition Update ::
    "'v store_def \<Rightarrow> (string \<Rightarrow> err option) \<Rightarrow> (string \<Rightarrow> io_env) \<Rightarrow> crash_env \<Rightarrow> 'v disk \<Rightarrow> scope \<Rightarrow>
     commit_mode \<Rightarrow> ('v tx \<Rightarrow> ('a \<times> 'v tx) res) \<Rightarrow> ('v, 'a) outcome" where
  "Update S locks io cr d sc mode fn =
     (if sc_write sc = '''' then \<lparr>oc_trace = [], oc_disk = d, oc_res = Inl ErrScope\<rparr>
      else
        (case resolve_ns S (sc_write sc # sc_read sc) of
           Inl e \<Rightarrow> \<lparr>oc_trace = [], oc_disk = d, oc_res = Inl e\<rparr>
         | Inr states \<Rightarrow>
             (case map_of S (sc_write sc) of
                None \<Rightarrow> \<lparr>oc_trace = [], oc_disk = d, oc_res = Inl ErrScope\<rparr>
              | Some C \<Rightarrow>
                  (case withLocked locks (map fst states) d
                     (update_locked C io cr states (sc_write sc) mode fn) of
                     (ev, d', Inl e) \<Rightarrow> \<lparr>oc_trace = ev, oc_disk = d', oc_res = Inl e\<rparr>
                   | (ev, d', Inr (a, committed)) \<Rightarrow>
                       \<lparr>oc_trace = ev, oc_disk = d',
                        oc_res =
                          (if committed
                           then res_map (\<lambda>_. a)
                             (snd (syncCommitted (io (sc_write sc)) cr (d' (sc_write sc)) mode))
                           else Inr a)\<rparr>))))"

section \<open>The engine contract\<close>

definition tx_inv :: "'v tx \<Rightarrow> bool" where
  "tx_inv w \<longleftrightarrow>
     (\<forall>ns l. map_of (tx_models w) ns = Some l \<longrightarrow> model_inv (ld_model l)) \<and>
     (tx_write w \<noteq> '''' \<longrightarrow> map_of (tx_models w) (tx_write w) \<noteq> None)"

definition tx_view :: "'v tx \<Rightarrow> string \<Rightarrow> (string \<Rightarrow> 'v tbl) option" where
  "tx_view w ns = map_option (\<lambda>l. model_scan (ld_model l)) (map_of (tx_models w) ns)"

text \<open>A view has no writer; the write guard of an update is \<^const>\<open>CheckWriteScope\<close>.\<close>

definition tx_guard :: "'v tx \<Rightarrow> string \<Rightarrow> bool \<Rightarrow> unit res" where
  "tx_guard w ns relaxed = CheckWriteScope ns (tx_write w) (tx_mode w) relaxed"

definition wtx_inv :: "'v tx \<Rightarrow> bool" where
  "wtx_inv w \<longleftrightarrow> tx_inv w \<and> tx_write w \<noteq> ''''"

lemma CheckWriteScope_ok:
  "CheckWriteScope ns write mode relaxed = Inr () \<longleftrightarrow> ns = write \<and> (mode = CommitDurable \<or> relaxed)"
  by (cases mode) (auto simp: CheckWriteScope_def)

lemma tx_guard_write: "tx_guard w ns rel = Inr () \<Longrightarrow> ns = tx_write w"
  by (simp add: tx_guard_def CheckWriteScope_ok)

lemma tx_put_ok:
  "tx_guard w ns rel = Inr () \<Longrightarrow> tx_put w ns t k v rel = Inr (tx_write_model w (\<lambda>m. model_put m t k v))"
  by (simp add: tx_guard_def tx_put_def)

lemma tx_delete_ok:
  "tx_guard w ns rel = Inr () \<Longrightarrow> tx_delete w ns t k rel = Inr (tx_write_model w (\<lambda>m. model_delete m t k))"
  by (simp add: tx_guard_def tx_delete_def)

lemma tx_write_model_upd:
  assumes "wtx_inv w" and "\<And>m. model_inv m \<Longrightarrow> model_inv (g m)"
    and "\<And>m. model_inv m \<Longrightarrow> model_scan (g m) = (model_scan m)(t := h (model_scan m t))"
  shows "wtx_inv (tx_write_model w g) \<and> tx_guard (tx_write_model w g) = tx_guard w \<and>
         tx_view (tx_write_model w g) = view_upd (tx_view w) (tx_write w) t h"
proof -
  from assms(1) obtain l where l: "map_of (tx_models w) (tx_write w) = Some l" "model_inv (ld_model l)"
    by (auto simp: wtx_inv_def tx_inv_def)
  then show ?thesis
    using assms
    by (auto simp: wtx_inv_def tx_inv_def tx_write_model_def tx_guard_def tx_view_def view_upd_def
          fun_eq_iff update_conv')
qed

interpretation json: meta_engine json_engine wtx_inv tx_view tx_guard
proof
  fix w :: "'v tx" and ns t k rel
  assume inv: "wtx_inv w"
  show "GetRaw json_engine w ns t k =
      (case tx_view w ns of None \<Rightarrow> Inl ErrScope | Some tb \<Rightarrow> Inr (tget (tb t) k))"
    using inv
    by (auto simp: json_engine_def tx_get_def tx_view_def wtx_inv_def tx_inv_def model_get_scan split: option.splits)
  show "ScanRaw json_engine w ns t = (case tx_view w ns of None \<Rightarrow> Inl ErrScope | Some tb \<Rightarrow> Inr (tb t))"
    by (auto simp: json_engine_def tx_scan_def tx_view_def split: option.splits)
  show "tx_view w ns = Some tb \<Longrightarrow> tbl_ok (tb t)" for tb
    using inv by (auto simp: tx_view_def wtx_inv_def tx_inv_def tbl_ok_model_scan)
  show "tx_guard w ns rel = Inr () \<Longrightarrow> tx_view w ns \<noteq> None"
    using inv by (auto simp: tx_view_def wtx_inv_def tx_inv_def dest: tx_guard_write)
  show "tx_guard w ns rel = Inr () \<Longrightarrow> \<exists>s'. PutRaw json_engine w ns t k v rel = Inr s' \<and> wtx_inv s' \<and>
      tx_guard s' = tx_guard w \<and> tx_view s' = view_upd (tx_view w) ns t (tput k v)" for v
    using tx_write_model_upd [OF inv, of "\<lambda>m. model_put m t k v" t "tput k v"]
    by (auto simp: json_engine_def tx_put_ok model_inv_put model_scan_put dest: tx_guard_write)
  show "tx_guard w ns rel = Inr () \<Longrightarrow> \<exists>s'. DeleteRaw json_engine w ns t k rel = Inr s' \<and> wtx_inv s' \<and>
      tx_guard s' = tx_guard w \<and> tx_view s' = view_upd (tx_view w) ns t (tdel k)"
    using tx_write_model_upd [OF inv, of "\<lambda>m. model_delete m t k" t "tdel k"]
    by (auto simp: json_engine_def tx_delete_ok model_inv_delete model_scan_delete dest: tx_guard_write)
qed (auto simp: json_engine_def tx_put_def tx_delete_def tx_guard_def)

section \<open>Crash safety of a commit\<close>

abbreviation no_io :: io_env where
  "no_io \<equiv> \<lambda>_. None"

lemma rotate_prev_files:
  "rotate_prev io cr f = (f', r) \<Longrightarrow>
   f_main f' = f_main f \<and>
   (f_prev f' = f_prev f \<or> f_main f \<noteq> None \<and> f_prev f' = f_main f) \<and>
   (r = Inr () \<longrightarrow> f_main f \<noteq> None \<longrightarrow> f_prev f' = f_main f)"
  by (auto simp: rotate_prev_def Let_def crash_def split: option.splits sum.splits)

lemma commitLocked_files:
  "commitLocked C io cr f l = (f', r) \<Longrightarrow>
   (\<exists>data. cd_encode C (ld_model l) = Inr data \<and> f_main f' = Some data) \<or> f_main f' = f_main f \<and> r \<noteq> Inr ()"
  by (auto simp: commitLocked_def split: option.splits sum.splits prod.splits if_splits
        dest!: rotate_prev_files)

lemma commitLocked_prev:
  assumes "commitLocked C io cr f l = (f', r)"
  shows "f_prev f' = f_prev f \<or> \<not> ld_recovered l \<and> f_main f \<noteq> None \<and> f_prev f' = f_main f"
  using assms
  by (auto simp: commitLocked_def split: option.splits sum.splits prod.splits if_splits
        dest!: rotate_prev_files)

lemma commitLocked_rotated:
  assumes "commitLocked C io cr f l = (f', r)" and "f_main f' \<noteq> f_main f" and "\<not> ld_recovered l"
    and "f_main f \<noteq> None"
  shows "f_prev f' = f_main f"
  using assms
  by (auto simp: commitLocked_def split: option.splits sum.splits prod.splits if_splits
        dest!: rotate_prev_files)

lemma load_cases:
  assumes "loadNamespace C no_io f = Inr l"
  obtains "f_main f = None" "l = \<lparr>ld_model = NewModel, ld_recovered = False\<rparr>"
  | raw m where "f_main f = Some raw" "cd_decode C raw = Inr m" "l = \<lparr>ld_model = markClean m, ld_recovered = False\<rparr>"
  | raw e prev m where "f_main f = Some raw" "cd_decode C raw = Inl e" "f_prev f = Some prev"
      "cd_decode C prev = Inr m" "l = \<lparr>ld_model = markClean m, ld_recovered = True\<rparr>"
  using assms by (auto simp: loadNamespace_def split: option.splits sum.splits)

lemma load_recovered: "loadNamespace C no_io f = Inr l \<Longrightarrow> ld_recovered l \<Longrightarrow> \<exists>raw e. f_main f = Some raw \<and> cd_decode C raw = Inl e"
  by (auto elim!: load_cases)

text \<open>A commit that left the current generation alone left a readable namespace as it was.\<close>

lemma load_unchanged:
  assumes "commitLocked C io cr f l = (f', r)" and "f_main f' = f_main f"
    and "loadNamespace C no_io f = Inr l0" and "ld_recovered l = ld_recovered l0"
  shows "loadNamespace C no_io f' = Inr l0"
  using assms(3)
proof (cases rule: load_cases)
  case (3 raw e prev m)
  then have "f_prev f' = f_prev f" using commitLocked_prev [OF assms(1)] assms(4) by auto
  with 3 assms(2) show ?thesis by (simp add: loadNamespace_def)
qed (use assms(2) in \<open>simp_all add: loadNamespace_def\<close>)

context ns_codec_ok
begin

lemma commit_atomic:
  assumes "commitLocked C io cr f l = (f', r)" and "loadNamespace C no_io f = Inr l0"
    and "ld_recovered l = ld_recovered l0" and "model_inv (ld_model l)" and "dom_ok (ld_model l)"
  shows "\<exists>l'. loadNamespace C no_io f' = Inr l' \<and>
     (l' = l0 \<and> r \<noteq> Inr () \<or> (\<forall>t. model_scan (ld_model l') t = sorted_recs (model_scan (ld_model l) t)))"
proof -
  consider (new) data where "cd_encode C (ld_model l) = Inr data" "f_main f' = Some data"
    | (old) "f_main f' = f_main f" "r \<noteq> Inr ()"
    using commitLocked_files [OF assms(1)] by blast
  then show ?thesis
  proof cases
    case new
    then obtain m' where "cd_decode C data = Inr m'"
      "\<forall>t. model_scan m' t = sorted_recs (model_scan (ld_model l) t)"
      using round_trip [OF assms(4,5)] by auto
    with new show ?thesis by (simp add: loadNamespace_def)
  next
    case old
    with load_unchanged [OF assms(1) old(1) assms(2,3)] show ?thesis by blast
  qed
qed

text \<open>If the current file is torn after the commit, the namespace reads as it did before it.\<close>

lemma commit_torn:
  assumes "commitLocked C io cr f l = (f', r)" and "loadNamespace C no_io f = Inr l0"
    and "ld_recovered l = ld_recovered l0" and "f_main f \<noteq> None" and "f_main f' \<noteq> f_main f"
  shows "\<exists>l'. loadNamespace C no_io (f'\<lparr>f_main := Some Torn\<rparr>) = Inr l' \<and> ld_recovered l' \<and>
              ld_model l' = ld_model l0"
  using assms(2)
proof (cases rule: load_cases)
  case 1
  then show ?thesis using assms(4) by simp
next
  case (2 raw m)
  then have "f_prev f' = f_main f"
    using commitLocked_rotated [OF assms(1,5)] assms(3,4) by simp
  with 2 torn show ?thesis by (auto simp: loadNamespace_def)
next
  case (3 raw e prev m)
  then have "f_prev f' = f_prev f" using commitLocked_prev [OF assms(1)] assms(3) by auto
  with 3 torn show ?thesis by (auto simp: loadNamespace_def)
qed

end

section \<open>Transactions are atomic\<close>

text \<open>A closure changes its transaction through the writer only.\<close>

inductive tx_writes :: "string set \<Rightarrow> 'v tx \<Rightarrow> 'v tx \<Rightarrow> bool" for T where
  tx_writes_refl: "tx_writes T w w"
| tx_writes_put: "tx_writes T w w1 \<Longrightarrow> t \<in> T \<Longrightarrow> tx_put w1 ns t k v rel = Inr w2 \<Longrightarrow> tx_writes T w w2"
| tx_writes_delete: "tx_writes T w w1 \<Longrightarrow> tx_delete w1 ns t k rel = Inr w2 \<Longrightarrow> tx_writes T w w2"

definition closure :: "string set \<Rightarrow> ('v tx \<Rightarrow> ('a \<times> 'v tx) res) \<Rightarrow> bool" where
  "closure T fn \<longleftrightarrow> (\<forall>w a w'. fn w = Inr (a, w') \<longrightarrow> tx_writes T w w')"

text \<open>What is known of the write namespace's model after any number of writes.\<close>

definition evolved :: "('v model \<Rightarrow> bool) \<Rightarrow> 'v loaded \<Rightarrow> 'v loaded \<Rightarrow> bool" where
  "evolved dom_ok l l' \<longleftrightarrow>
     ld_recovered l' = ld_recovered l \<and> model_inv (ld_model l') \<and> dom_ok (ld_model l') \<and>
     (md_dirty (ld_model l') \<or> ld_model l' = ld_model l)"

lemma model_dirty_delete: "md_dirty (model_delete m t k) \<or> model_delete m t k = m"
  by (simp add: model_delete_def split: option.splits)

lemma model_dirty_put: "md_dirty (model_put m t k v)"
  by (simp add: model_put_def Let_def)

lemma model_delete_keeps_dirty: "md_dirty m \<Longrightarrow> md_dirty (model_delete m t k)"
  by (simp add: model_delete_def split: option.splits)

context ns_codec_ok
begin

lemma tx_writes_evolved:
  assumes "tx_writes tables w w'" and "map_of (tx_models w) (tx_write w) = Some l"
    and "model_inv (ld_model l)" and "dom_ok (ld_model l)"
  shows "tx_write w' = tx_write w \<and>
    (\<exists>l'. map_of (tx_models w') (tx_write w) = Some l' \<and> evolved dom_ok l l')"
  using assms
proof (induction rule: tx_writes.induct)
  case (tx_writes_refl w)
  then show ?case by (simp add: evolved_def)
next
  case (tx_writes_put w w1 t ns k v rel w2)
  then obtain l' where l': "tx_write w1 = tx_write w" "map_of (tx_models w1) (tx_write w) = Some l'"
      "evolved dom_ok l l'"
    by auto
  from tx_writes_put.hyps(3) have "w2 = tx_write_model w1 (\<lambda>m. model_put m t k v)"
    by (auto simp: tx_put_def split: sum.splits)
  with l' tx_writes_put.hyps(2) show ?case
    by (auto simp: tx_write_model_def evolved_def model_inv_put model_dirty_put put_ok)
next
  case (tx_writes_delete w w1 ns t k rel w2)
  then obtain l' where l': "tx_write w1 = tx_write w" "map_of (tx_models w1) (tx_write w) = Some l'"
      "evolved dom_ok l l'"
    by auto
  from tx_writes_delete.hyps(2) have "w2 = tx_write_model w1 (\<lambda>m. model_delete m t k)"
    by (auto simp: tx_delete_def split: sum.splits)
  with l' show ?case
    using model_dirty_delete [of "ld_model l'" t k] model_delete_keeps_dirty [of "ld_model l'" t k]
    by (auto simp: tx_write_model_def evolved_def model_inv_delete delete_ok)
qed

lemma load_ok: "loadNamespace C no_io f = Inr l \<Longrightarrow> model_inv (ld_model l) \<and> dom_ok (ld_model l)"
  by (auto elim!: load_cases simp: empty_ok clean_ok dest: decode_ok)

end

text \<open>The records a namespace reads as when nothing fails.\<close>

definition contents :: "'v ns_codec \<Rightarrow> 'v ns_files \<Rightarrow> (string \<Rightarrow> string \<rightharpoonup> 'v) option" where
  "contents C f =
     (case loadNamespace C no_io f of
        Inl _ \<Rightarrow> None | Inr l \<Rightarrow> Some (\<lambda>t. tget (model_scan (ld_model l) t)))"

definition tx_contents :: "'v tx \<Rightarrow> string \<Rightarrow> (string \<Rightarrow> string \<rightharpoonup> 'v) option" where
  "tx_contents w ns = map_option (\<lambda>tb t. tget (tb t)) (tx_view w ns)"

lemma loadAll_Cons:
  "loadAll io d ((n, C) # states) = Inr models \<longleftrightarrow>
   (\<exists>l ls. loadNamespace C (io n) (d n) = Inr l \<and> loadAll io d states = Inr ls \<and> models = (n, l) # ls)"
  by (auto simp: res_map_Inr_iff split: sum.splits)

lemma loadAll_lookup:
  assumes "loadAll io d states = Inr models" and "distinct (map fst states)" and "(n, C) \<in> set states"
  shows "\<exists>l. map_of models n = Some l \<and> loadNamespace C (io n) (d n) = Inr l"
  using assms
proof (induction states arbitrary: models)
  case Nil
  then show ?case by simp
next
  case (Cons st states)
  obtain n' C' where st: "st = (n', C')" by (cases st)
  from Cons.prems(1) obtain l ls where l: "loadNamespace C' (io n') (d n') = Inr l"
      "loadAll io d states = Inr ls" "models = (n', l) # ls"
    unfolding st loadAll_Cons by blast
  show ?case
  proof (cases "(n, C) = (n', C')")
    case True
    with l show ?thesis by simp
  next
    case False
    then have mem: "(n, C) \<in> set states" using Cons.prems(3) st by auto
    then have "n \<noteq> n'" using imageI [OF mem, of fst] Cons.prems(2) st by auto
    moreover have "\<exists>l. map_of ls n = Some l \<and> loadNamespace C (io n) (d n) = Inr l"
      by (rule Cons.IH [OF l(2) _ mem]) (use Cons.prems(2) in simp)
    ultimately show ?thesis using l(3) by simp
  qed
qed

lemma load_io: "loadNamespace C io f = Inr l \<Longrightarrow> loadNamespace C no_io f = Inr l"
  by (auto simp: loadNamespace_def split: option.splits sum.splits)

lemma resolve_ns_pairs:
  assumes "list_all2 (\<lambda>n st. (case map_of S n of None \<Rightarrow> Inl ErrScope | Some C \<Rightarrow> Inr (n, C)) = Inr st) ns states"
  shows "map fst states = ns \<and> (\<forall>st \<in> set states. map_of S (fst st) = Some (snd st))"
  using assms
proof (induction rule: list_all2_induct)
  case Nil
  show ?case by simp
next
  case (Cons n ns st states)
  from Cons.hyps(1) have "map_of S n = Some (snd st) \<and> fst st = n"
    by (cases "map_of S n") (simp_all add: prod_eq_iff eq_commute)
  with Cons.IH show ?case by simp
qed

lemma resolve_ns_names:
  assumes "resolve_ns S nss = Inr states"
  shows "map fst states = remdups_adj (sort nss)" and "(n, C) \<in> set states \<Longrightarrow> map_of S n = Some C"
  using resolve_ns_pairs [OF assms [unfolded resolve_ns_def map_res_Inr_iff]] by auto

lemma strict_remdups_adj: "sorted xs \<Longrightarrow> sorted_wrt (<) (remdups_adj (xs :: string list))"
  by (induction xs rule: remdups_adj.induct) (auto simp: order_less_le)

lemma sorted_names: "sorted_wrt (<) (remdups_adj (sort (nss :: string list)))"
  by (rule strict_remdups_adj) simp

lemma lock_all_Inr: "lock_all locks ns held = (ev, Inr u) \<Longrightarrow> ev = map Locked ns"
  by (induction locks ns held arbitrary: ev rule: lock_all.induct) (auto split: option.splits prod.splits)

lemma lock_all_Inl:
  "lock_all locks ns held = (ev, Inl e) \<Longrightarrow>
   \<exists>ns'. prefix ns' ns \<and> ev = map Locked ns' @ map Unlocked (rev ns' @ held)"
proof (induction ns arbitrary: held ev)
  case Nil
  then show ?case by simp
next
  case (Cons n ns)
  show ?case
  proof (cases "locks n")
    case (Some e')
    then show ?thesis using Cons.prems by (intro exI [of _ "[]"]) simp
  next
    case None
    then obtain ev' where ev': "lock_all locks ns (n # held) = (ev', Inl e)" "ev = Locked n # ev'"
      using Cons.prems by (auto split: prod.splits)
    from Cons.IH [OF ev'(1)] obtain ns' where "prefix ns' ns"
      "ev' = map Locked ns' @ map Unlocked (rev ns' @ n # held)" by blast
    with ev'(2) show ?thesis by (intro exI [of _ "n # ns'"]) simp
  qed
qed

lemma withLocked_trace:
  assumes "withLocked locks names d fn = (ev, d', r)"
  shows "\<exists>held. prefix held names \<and> ev = map Locked held @ map Unlocked (rev held)"
proof (cases "lock_all locks names []")
  case (Pair ev0 r0)
  show ?thesis
  proof (cases r0)
    case (Inl e)
    with Pair assms have "ev = ev0" by (simp add: withLocked_def)
    with lock_all_Inl [of locks names "[]" ev0 e] Pair Inl show ?thesis by simp
  next
    case (Inr u)
    with Pair assms lock_all_Inr [of locks names "[]" ev0 u] have
      "ev = map Locked names @ map Unlocked (rev names)" by (auto simp: withLocked_def split: prod.splits)
    then show ?thesis by blast
  qed
qed

lemma prefix_sorted: "prefix xs ys \<Longrightarrow> sorted_wrt R ys \<Longrightarrow> sorted_wrt R xs"
  by (auto simp: prefix_def sorted_wrt_append)

lemma loadAll_contents:
  assumes "loadAll io d states = Inr models" and "distinct (map fst states)" and "(n, D) \<in> set states"
  shows "tx_contents \<lparr>tx_models = models, tx_write = wr, tx_mode = mode\<rparr> n = contents D (d n)"
proof -
  obtain l where "map_of models n = Some l" "loadNamespace D no_io (d n) = Inr l"
    using loadAll_lookup [OF assms] load_io by blast
  then show ?thesis by (simp add: tx_contents_def tx_view_def contents_def)
qed

text \<open>
  \<open>ran\<close>: the closure ran once, on a transaction that showed every namespace of the scope as the
  disk had it, returned \<open>a\<close>, and the write namespace now reads as the closure left it.
\<close>

definition ran ::
    "(string \<times> 'v ns_codec) list \<Rightarrow> string \<Rightarrow> 'v ns_codec \<Rightarrow> ('v tx \<Rightarrow> ('a \<times> 'v tx) res) \<Rightarrow>
     'v disk \<Rightarrow> 'v disk \<Rightarrow> 'a \<Rightarrow> bool" where
  "ran states write C fn d d' a \<longleftrightarrow>
     (\<exists>w w'. fn w = Inr (a, w') \<and> (\<forall>(n, D) \<in> set states. tx_contents w n = contents D (d n)) \<and>
             contents C (d' write) = tx_contents w' write)"

context ns_codec_ok
begin

lemma update_locked_atomic:
  assumes upd: "update_locked C io cr states write mode fn d = (d', r)" and cl: "closure tables fn"
    and dist: "distinct (map fst states)" and mem: "(write, C) \<in> set states"
  shows "(\<forall>n. n \<noteq> write \<longrightarrow> d' n = d n) \<and>
         (case r of Inl _ \<Rightarrow> contents C (d' write) = contents C (d write) \<or> (\<exists>a. ran states write C fn d d' a)
          | Inr (a, _) \<Rightarrow> ran states write C fn d d' a)"
proof (cases "loadAll io d states")
  case (Inl e)
  with upd show ?thesis by (auto simp: update_locked_def)
next
  case models: (Inr models)
  let ?w = "\<lparr>tx_models = models, tx_write = write, tx_mode = mode\<rparr>"
  show ?thesis
  proof (cases "fn ?w")
    case (Inl e)
    with upd models show ?thesis by (auto simp: update_locked_def)
  next
    case (Inr aw)
    obtain a w' where fn: "fn ?w = Inr (a, w')" using Inr by (cases aw) auto
    obtain l0 where l0: "map_of models write = Some l0" "loadNamespace C no_io (d write) = Inr l0"
      using loadAll_lookup [OF models dist mem] load_io by blast
    have "tx_writes tables ?w w'" using cl fn by (auto simp: closure_def)
    from tx_writes_evolved [OF this, of l0] l0 load_ok [OF l0(2)]
    obtain l where l: "map_of (tx_models w') write = Some l" "evolved dom_ok l0 l" by auto
    have seen: "\<forall>(n, D) \<in> set states. tx_contents ?w n = contents D (d n)"
      using loadAll_contents [OF models dist] by blast
    have left: "tx_contents w' write = Some (\<lambda>t. tget (model_scan (ld_model l) t))"
      using l(1) by (simp add: tx_contents_def tx_view_def)
    show ?thesis
    proof (cases "\<not> md_dirty (ld_model l) \<and> \<not> ld_recovered l")
      case True
      with l(2) have "ld_model l = ld_model l0" by (auto simp: evolved_def)
      then have "contents C (d write) = tx_contents w' write"
        using l0(2) left by (simp add: contents_def)
      with seen fn have "ran states write C fn d d a" unfolding ran_def by blast
      moreover have "d' = d" "r = Inr (a, False)"
        using upd models fn l(1) True by (simp_all add: update_locked_def)
      ultimately show ?thesis by simp
    next
      case False
      obtain f rc where commit: "commitLocked C (io write) cr (d write) l = (f, rc)"
        by (cases "commitLocked C (io write) cr (d write) l")
      have res: "d' = d(write := f)" "r = (case rc of Inl e \<Rightarrow> Inl e | Inr _ \<Rightarrow> Inr (a, True))"
        using upd models fn l(1) False commit by (auto simp: update_locked_def split: sum.splits)
      from commit_atomic [OF commit l0(2)] l(2)
      obtain l' where l': "loadNamespace C no_io f = Inr l'"
        "l' = l0 \<and> rc \<noteq> Inr () \<or>
         (\<forall>t. model_scan (ld_model l') t = sorted_recs (model_scan (ld_model l) t))"
        by (auto simp: evolved_def)
      show ?thesis
      proof (cases "l' = l0 \<and> rc \<noteq> Inr ()")
        case True
        then have "contents C f = contents C (d write)" using l'(1) l0(2) by (simp add: contents_def)
        with True res show ?thesis by (cases rc) auto
      next
        case False
        with l' have "contents C f = tx_contents w' write" by (simp add: left contents_def)
        then have "ran states write C fn d d' a" using seen fn unfolding ran_def res(1) by fastforce
        with res show ?thesis by (cases rc) auto
      qed
    qed
  qed
qed

end

lemma resolve_ns_distinct: "resolve_ns S nss = Inr states \<Longrightarrow> distinct (map fst states)"
  by (metis resolve_ns_names(1) sorted_names strict_sorted_iff)

lemma resolve_ns_mem:
  assumes "resolve_ns S nss = Inr states" and "n \<in> set nss"
  shows "\<exists>D. (n, D) \<in> set states \<and> map_of S n = Some D"
proof -
  have "n \<in> set (map fst states)" using resolve_ns_names(1) [OF assms(1)] assms(2) by simp
  then show ?thesis using resolve_ns_names(2) [OF assms(1)] by auto
qed

lemma withLocked_cases:
  assumes "withLocked locks names d fn = (ev, d', r)"
  obtains e where "d' = d" "r = Inl e" | "fn d = (d', r)"
  using assms by (auto simp: withLocked_def split: prod.splits sum.splits)

text \<open>How an update that passed its checks reports what happened under the locks.\<close>

lemma Update_run:
  assumes "sc_write sc \<noteq> ''''" and "resolve_ns S (sc_write sc # sc_read sc) = Inr states"
    and "map_of S (sc_write sc) = Some C"
    and "withLocked locks (map fst states) d (update_locked C io cr states (sc_write sc) mode fn) = (ev, d', r)"
  shows "oc_trace (Update S locks io cr d sc mode fn) = ev"
    and "oc_disk (Update S locks io cr d sc mode fn) = d'"
    and "r = Inl e \<Longrightarrow> oc_res (Update S locks io cr d sc mode fn) = Inl e"
    and "r = Inr (a, c) \<Longrightarrow> oc_res (Update S locks io cr d sc mode fn) = Inr b \<Longrightarrow> b = a"
  using assms by (cases r; auto simp: Update_def res_map_Inr_iff split: if_splits)+

context ns_codec_ok
begin

lemma Update_atomic:
  assumes cl: "closure tables fn" and C: "map_of S (sc_write sc) = Some C"
    and out_def: "out = Update S locks io cr d sc mode fn"
  shows "(\<forall>n. n \<noteq> sc_write sc \<longrightarrow> oc_disk out n = d n) \<and>
     (contents C (oc_disk out (sc_write sc)) = contents C (d (sc_write sc)) \<and> (\<exists>e. oc_res out = Inl e) \<or>
      (\<exists>states a. resolve_ns S (sc_write sc # sc_read sc) = Inr states \<and>
         ran states (sc_write sc) C fn d (oc_disk out) a \<and> (\<forall>b. oc_res out = Inr b \<longrightarrow> b = a)))"
proof (cases "sc_write sc = '''' \<or> (\<exists>e. resolve_ns S (sc_write sc # sc_read sc) = Inl e)")
  case True
  then show ?thesis by (auto simp: out_def Update_def)
next
  case False
  then obtain states where st: "resolve_ns S (sc_write sc # sc_read sc) = Inr states"
    by (cases "resolve_ns S (sc_write sc # sc_read sc)") auto
  obtain ev d' r where wl: "withLocked locks (map fst states) d
      (update_locked C io cr states (sc_write sc) mode fn) = (ev, d', r)"
    by (rule prod_cases3)
  have mem: "(sc_write sc, C) \<in> set states"
    using resolve_ns_mem [OF st, of "sc_write sc"] C by auto
  note out = Update_run [OF _ st C wl, folded out_def]
  from wl show ?thesis
  proof (cases rule: withLocked_cases)
    case (1 e)
    with out(2,3) False show ?thesis by simp
  next
    case 2
    note atomic = update_locked_atomic [OF 2 cl resolve_ns_distinct [OF st] mem]
    show ?thesis
    proof (cases r)
      case (Inl e)
      then have "oc_disk out = d'" "oc_res out = Inl e" using out(2,3) False by simp_all
      with atomic Inl st show ?thesis by auto
    next
      case (Inr ac)
      obtain a c where ac: "ac = (a, c)" by (cases ac)
      then have "oc_disk out = d'" "\<And>b. oc_res out = Inr b \<Longrightarrow> b = a"
        using out(2,4) False Inr by simp_all
      with atomic Inr ac st show ?thesis by simp blast
    qed
  qed
qed

end

text \<open>Locks are taken in namespace order, each at most once, and all of them are released.\<close>

lemma withLocked_ordered:
  assumes "withLocked locks (map fst states) d fn = (ev, d', r)" and "resolve_ns S nss = Inr states"
  shows "\<exists>held. sorted_wrt (<) held \<and> set held \<subseteq> set nss \<and> ev = map Locked held @ map Unlocked (rev held)"
proof -
  obtain held where "prefix held (map fst states)" "ev = map Locked held @ map Unlocked (rev held)"
    using withLocked_trace [OF assms(1)] by blast
  moreover from this have "prefix held (remdups_adj (sort nss))"
    using resolve_ns_names(1) [OF assms(2)] by simp
  moreover from this have "set held \<subseteq> set nss" using set_mono_prefix by fastforce
  ultimately show ?thesis using prefix_sorted sorted_names by blast
qed

lemma View_lock_order:
  "\<exists>held. sorted_wrt (<) held \<and> set held \<subseteq> set nss \<and>
     oc_trace (View S locks io d nss fn) = map Locked held @ map Unlocked (rev held)"
proof (cases "resolve_ns S nss")
  case (Inl e)
  then show ?thesis by (intro exI [of _ "[]"]) (simp add: View_def)
next
  case (Inr states)
  obtain ev d' r where wl: "withLocked locks (map fst states) d
      (\<lambda>d. (d, res_bind (loadAll io d states)
        (\<lambda>models. fn \<lparr>tx_models = models, tx_write = '''', tx_mode = CommitDurable\<rparr>))) = (ev, d', r)"
    by (rule prod_cases3)
  have trace: "oc_trace (View S locks io d nss fn) = ev"
    unfolding View_def Inr sum.case wl prod.case by simp
  show ?thesis unfolding trace by (rule withLocked_ordered [OF wl Inr])
qed

lemma Update_lock_order:
  "\<exists>held. sorted_wrt (<) held \<and> set held \<subseteq> insert (sc_write sc) (set (sc_read sc)) \<and>
     oc_trace (Update S locks io cr d sc mode fn) = map Locked held @ map Unlocked (rev held)"
proof (cases "sc_write sc = '''' \<or> (\<exists>e. resolve_ns S (sc_write sc # sc_read sc) = Inl e)")
  case True
  then have "oc_trace (Update S locks io cr d sc mode fn) = []" by (auto simp: Update_def)
  then show ?thesis by (intro exI [of _ "[]"]) simp
next
  case False
  then obtain states where st: "resolve_ns S (sc_write sc # sc_read sc) = Inr states"
    by (cases "resolve_ns S (sc_write sc # sc_read sc)") auto
  then obtain C where C: "map_of S (sc_write sc) = Some C"
    using resolve_ns_mem [OF st, of "sc_write sc"] by auto
  obtain ev d' r where wl: "withLocked locks (map fst states) d
      (update_locked C io cr states (sc_write sc) mode fn) = (ev, d', r)"
    by (rule prod_cases3)
  from withLocked_ordered [OF wl st] Update_run(1) [OF _ st C wl] False show ?thesis by simp
qed

section \<open>Properties\<close>

text \<open>The VM namespace as \<open>cmd/core/metastore.go\<close> declares it.\<close>

definition vm_store :: "'v store_def" where
  "vm_store = [(''vms'', TableCodec vm_specs)]"

definition sample_insert :: "nat tx \<Rightarrow> (unit \<times> nat tx) res" where
  "sample_insert w = res_map (Pair ()) (tx_put w ''vms'' ''records'' ''a'' 1 False)"

lemma sample_insert_closure: "closure (set (map ts_table vm_specs)) sample_insert"
  unfolding closure_def
proof (intro allI impI)
  fix w a w'
  assume "sample_insert w = Inr (a, w')"
  then have "tx_put w ''vms'' ''records'' ''a'' 1 False = Inr w'"
    by (auto simp: sample_insert_def res_map_Inr_iff)
  then show "tx_writes (set (map ts_table vm_specs)) w w'"
    by (intro tx_writes.intros(2) [OF tx_writes.intros(1)]) (simp_all add: vm_specs_def)
qed

definition no_files :: "'v disk" where
  "no_files ns = \<lparr>f_main = None, f_prev = None, f_tmp = None\<rparr>"

text \<open>
  C1. An update of the VM namespace is atomic, whatever I/O step fails and wherever the commit is
  cut off: every other namespace keeps its files; the namespace reads either as before, and then
  the caller got an error, or as the closure left it, having seen the scope as it was on disk. A
  result that the caller gets is the closure's.
\<close>

theorem store_update_atomic:
  fixes fn :: "'v tx \<Rightarrow> ('a \<times> 'v tx) res"
  assumes "closure (set (map ts_table vm_specs)) fn" and "map_of S (sc_write sc) = Some (TableCodec vm_specs)"
    and "out = Update S locks io cr d sc mode fn"
  shows "(\<forall>n. n \<noteq> sc_write sc \<longrightarrow> oc_disk out n = d n) \<and>
     (contents (TableCodec vm_specs) (oc_disk out (sc_write sc)) = contents (TableCodec vm_specs) (d (sc_write sc)) \<and>
        (\<exists>e. oc_res out = Inl e) \<or>
      (\<exists>states a. resolve_ns S (sc_write sc # sc_read sc) = Inr states \<and>
         ran states (sc_write sc) (TableCodec vm_specs) fn d (oc_disk out) a \<and>
         (\<forall>b. oc_res out = Inr b \<longrightarrow> b = a)))"
  using vms.Update_atomic [OF assms] .

definition sample_scope :: scope where
  "sample_scope = \<lparr>sc_write = ''vms'', sc_read = []\<rparr>"

definition sample_update :: "(nat, unit) outcome" where
  "sample_update =
     Update vm_store (\<lambda>_. None) (\<lambda>_ _. None) (\<lambda>_. None) no_files sample_scope CommitDurable sample_insert"

theorem store_update_atomic_witness:
  "oc_disk sample_update ''other'' = no_files ''other'' \<and>
   (contents (TableCodec vm_specs) (oc_disk sample_update (sc_write sample_scope)) =
      contents (TableCodec vm_specs) (no_files (sc_write sample_scope)) \<and> (\<exists>e. oc_res sample_update = Inl e) \<or>
    (\<exists>states a. resolve_ns vm_store (sc_write sample_scope # sc_read sample_scope) = Inr states \<and>
       ran states (sc_write sample_scope) (TableCodec vm_specs) sample_insert no_files (oc_disk sample_update) a))"
proof -
  have S: "map_of vm_store (sc_write sample_scope) = Some (TableCodec vm_specs)"
    by (simp add: vm_store_def sample_scope_def)
  have "''other'' \<noteq> sc_write sample_scope" by (simp add: sample_scope_def)
  with store_update_atomic [OF sample_insert_closure S sample_update_def] show ?thesis by blast
qed

text \<open>
  C19. Locks are taken in namespace order and each once, only on namespaces of the scope, and all
  that were taken are released in reverse order, whether the transaction succeeds, fails, or could
  not take a lock.
\<close>

theorem store_lock_order:
  "(\<exists>held. sorted_wrt (<) held \<and> set held \<subseteq> insert (sc_write sc) (set (sc_read sc)) \<and>
      oc_trace (Update S locks io cr d sc mode fn) = map Locked held @ map Unlocked (rev held)) \<and>
   (\<exists>held. sorted_wrt (<) held \<and> set held \<subseteq> set nss \<and>
      oc_trace (View S locks io d nss gn) = map Locked held @ map Unlocked (rev held))"
  using Update_lock_order View_lock_order by blast

text \<open>
  C7. If the current file of a committed namespace is lost to a torn write, the namespace reads as
  it did before the commit, from the previous generation, and is marked as recovered.
\<close>

theorem commit_torn_recovers:
  assumes "commitLocked (TableCodec vm_specs) io cr f l = (f', r)"
    and "loadNamespace (TableCodec vm_specs) no_io f = Inr l0"
    and "ld_recovered l = ld_recovered l0" and "f_main f \<noteq> None" and "f_main f' \<noteq> f_main f"
  shows "\<exists>l'. loadNamespace (TableCodec vm_specs) no_io (f'\<lparr>f_main := Some Torn\<rparr>) = Inr l' \<and>
     ld_recovered l' \<and> ld_model l' = ld_model l0"
  using vms.commit_torn [OF assms] .

definition sample_file :: "nat ns_files" where
  "sample_file = \<lparr>f_main = Some (Doc [(''vms'', []), (''names'', [])]), f_prev = None, f_tmp = None\<rparr>"

definition sample_loaded :: "nat loaded" where
  "sample_loaded = \<lparr>ld_model = model_put NewModel ''records'' ''a'' 1, ld_recovered = False\<rparr>"

theorem commit_torn_recovers_witness:
  "\<exists>f' r l'. commitLocked (TableCodec vm_specs) no_io (\<lambda>_. None) sample_file sample_loaded = (f', r) \<and>
     loadNamespace (TableCodec vm_specs) no_io (f'\<lparr>f_main := Some Torn\<rparr>) = Inr l' \<and> ld_recovered l'"
proof -
  obtain f' r where c: "commitLocked (TableCodec vm_specs) no_io (\<lambda>_. None) sample_file sample_loaded = (f', r)"
    by fastforce
  obtain l0 where l0: "loadNamespace (TableCodec vm_specs) no_io sample_file = Inr l0" "\<not> ld_recovered l0"
    by (simp add: loadNamespace_def sample_file_def TableCodec_def table_decode_def vm_specs_def spec_by_key_def)
  have "f_main f' \<noteq> f_main sample_file"
    using c by (auto simp: commitLocked_def sample_file_def sample_loaded_def TableCodec_def table_encode_def
        vm_specs_def append_table_def model_put_def rotate_prev_def crash_def NewModel_def model_len_def
        table_put_def empty_table_def sorted_recs_def)
  moreover have "f_main sample_file \<noteq> None" by (simp add: sample_file_def)
  moreover have "ld_recovered sample_loaded = ld_recovered l0" using l0 by (simp add: sample_loaded_def)
  ultimately show ?thesis using commit_torn_recovers [OF c l0(1)] c by blast
qed



text \<open>Raw values that are their own encoding, for the examples.\<close>

datatype sample_raw = RawNat nat | RawStr string

definition nat_codec :: "(nat, sample_raw) codec" where
  "nat_codec = \<lparr>enc = \<lambda>n. Inr (RawNat n), dec = \<lambda>v. case v of RawNat n \<Rightarrow> Inr n | _ \<Rightarrow> Inl ErrCorrupt\<rparr>"

definition str_codec :: "(string, sample_raw) codec" where
  "str_codec = \<lparr>enc = \<lambda>s. Inr (RawStr s), dec = \<lambda>v. case v of RawStr s \<Rightarrow> Inr s | _ \<Rightarrow> Inl ErrCorrupt\<rparr>"

definition sample_tx :: "sample_raw tx" where
  "sample_tx =
     \<lparr>tx_models = [(''vms'', \<lparr>ld_model =
        model_put (model_put NewModel ''records'' ''abcd'' (RawNat 1)) ''names'' ''web'' (RawStr ''abcd''),
        ld_recovered = False\<rparr>)], tx_write = ''vms'', tx_mode = CommitDurable\<rparr>"

lemma sample_tx_inv: "wtx_inv sample_tx"
proof -
  have "model_inv (NewModel :: sample_raw model)" by simp
  then show ?thesis
    by (simp add: wtx_inv_def tx_inv_def sample_tx_def model_inv_put)
qed


text \<open>
  An append to a log gives the next sequence number, writes the record under it and moves the
  cursor there; the twenty-digit ids of sequence numbers sort as the numbers do and never collide
  with the cursor row, so a scan in id order is a scan in append order.
\<close>

theorem log_append_ordered:
  assumes "wtx_inv w" and "tx_view w (cl_ns l) = Some tb" and "tx_guard w (cl_ns l) (relaxedOK opts) = Inr ()"
    and "case tget (tb (cl_table l)) seqCursorID of None \<Rightarrow> c = 0 | Some v \<Rightarrow> dec Q v = Inr c"
    and "enc C r = Inr data" and "enc Q (c + 1) = Inr cv"
  shows "(\<exists>w'. log_append json_engine Q C l w r opts = Inr (c + 1, w') \<and> wtx_inv w' \<and>
       tx_view w' = view_upd (tx_view w) (cl_ns l) (cl_table l)
         (\<lambda>t. tput seqCursorID cv (tput (seqID (c + 1)) data t))) \<and>
     (\<forall>a b. seqID a < seqID b \<longleftrightarrow> a < b) \<and> (\<forall>a. seqID a \<noteq> seqCursorID)"
  using json.log_append_done [OF assms] seqID_less_iff seqID_not_cursor by blast

definition seq_codec :: "(seq, sample_raw) codec" where
  "seq_codec = \<lparr>enc = \<lambda>n. Inr (RawNat (unat n)), dec = \<lambda>v. case v of RawNat n \<Rightarrow> Inr (of_nat n) | _ \<Rightarrow> Inl ErrCorrupt\<rparr>"

theorem log_append_ordered_witness:
  "\<exists>w'. log_append json_engine seq_codec nat_codec (NewCollection ''vms'' ''log'') sample_tx 7 [] = Inr (1, w')"
proof -
  have g: "tx_guard sample_tx (cl_ns (NewCollection ''vms'' ''log'')) (relaxedOK []) = Inr ()"
    by (simp add: tx_guard_def sample_tx_def NewCollection_def CheckWriteScope_def)
  obtain tb where tb: "tx_view sample_tx (cl_ns (NewCollection ''vms'' ''log'')) = Some tb" "tb ''log'' = []"
    by (simp add: tx_view_def sample_tx_def NewCollection_def model_scan_def model_put_def NewModel_def)
  have cur: "case tget (tb (cl_table (NewCollection ''vms'' ''log''))) seqCursorID of
      None \<Rightarrow> (0 :: seq) = 0 | Some v \<Rightarrow> dec seq_codec v = Inr 0"
    using tb(2) by (simp add: NewCollection_def)
  have e1: "enc nat_codec 7 = Inr (RawNat 7)" by (simp add: nat_codec_def)
  have e2: "enc seq_codec (0 + 1) = Inr (RawNat (unat (0 + 1 :: seq)))" by (simp add: seq_codec_def)
  from log_append_ordered [OF sample_tx_inv tb(1) g cur e1 e2] show ?thesis by auto
qed

end
