(* ===== verification/Tombstone.thy ===== *)
theory Tombstone
  imports Meta
begin

text \<open>
  The delete protocol of \<open>src/meta/tombstone/tombstone.go\<close>: a tombstone row per entity under
  deletion, \<open>leased\<close> until file-system work starts and \<open>deleting\<close> from then on, every mutation
  fenced by the holder's lease id.

  The operations run over any engine (the \<open>Table\<close> methods take a \<open>meta.Writer\<close>). What they promise
  is stated on the typed tombstone table by the \<open>spec_\<close> functions, and the locale \<open>meta_engine\<close>
  carries the proof that the operations implement them. The identifiers that \<open>utils.GenerateID\<close>
  returns and the times \<open>time.Now\<close> returns are arguments.
\<close>

section \<open>Records and operations\<close>

definition TombstoneTable :: string where
  "TombstoneTable = ''tombstones''"

definition PhaseLeased :: string where
  "PhaseLeased = ''leased''"

definition PhaseDeleting :: string where
  "PhaseDeleting = ''deleting''"

definition ModeAggregate :: string where
  "ModeAggregate = ''aggregate''"

definition ModeSubset :: string where
  "ModeSubset = ''subset''"

record 'p payload =
  pl_mode :: string
  pl_cleanup :: 'p

record 'p tomb =
  tb_lease :: string
  tb_phase :: string
  tb_leased_at :: nat
  tb_payload :: "'p payload"

definition NewTable :: "string \<Rightarrow> coll" where
  "NewTable ns = NewCollection ns TombstoneTable"

definition tomb_get ::
    "('s, 'v) engine \<Rightarrow> ('p tomb, 'v) codec \<Rightarrow> coll \<Rightarrow> 's \<Rightarrow> string \<Rightarrow> 'p tomb option res" where
  "tomb_get E C t s rid =
     (case coll_get E C t s rid of
        Inl e \<Rightarrow> if e = ErrNotFound then Inr None else Inl e
      | Inr r \<Rightarrow> Inr (Some r))"

definition Lease ::
    "('s, 'v) engine \<Rightarrow> ('p tomb, 'v) codec \<Rightarrow> coll \<Rightarrow> string \<Rightarrow> nat \<Rightarrow> 's \<Rightarrow> string \<Rightarrow> 'p payload \<Rightarrow>
     (string \<times> 's) res" where
  "Lease E C t leaseID now s rid p =
     res_map (Pair leaseID)
       (coll_insert E C t s rid
          \<lparr>tb_lease = leaseID, tb_phase = PhaseLeased, tb_leased_at = now, tb_payload = p\<rparr> [])"

definition TakeOver ::
    "('s, 'v) engine \<Rightarrow> ('p tomb, 'v) codec \<Rightarrow> coll \<Rightarrow> string \<Rightarrow> nat \<Rightarrow> 's \<Rightarrow> string \<Rightarrow>
     ('p tomb option \<times> 's) res" where
  "TakeOver E C t leaseID now s rid =
     (case tomb_get E C t s rid of
        Inl e \<Rightarrow> Inl e
      | Inr None \<Rightarrow> Inr (None, s)
      | Inr (Some r) \<Rightarrow>
          (let r' = r\<lparr>tb_lease := leaseID, tb_leased_at := now\<rparr>
           in res_map (Pair (Some r')) (coll_replace E C t s rid r' [])))"

definition fenced ::
    "('s, 'v) engine \<Rightarrow> ('p tomb, 'v) codec \<Rightarrow> coll \<Rightarrow> 's \<Rightarrow> string \<Rightarrow> string \<Rightarrow> 'p tomb res" where
  "fenced E C t s rid leaseID =
     (case tomb_get E C t s rid of
        Inl e \<Rightarrow> Inl e
      | Inr None \<Rightarrow> Inl ErrLost
      | Inr (Some r) \<Rightarrow> if tb_lease r \<noteq> leaseID then Inl ErrLost else Inr r)"

definition MarkDeleting ::
    "('s, 'v) engine \<Rightarrow> ('p tomb, 'v) codec \<Rightarrow> coll \<Rightarrow> 's \<Rightarrow> string \<Rightarrow> string \<Rightarrow> 's res" where
  "MarkDeleting E C t s rid leaseID =
     (case fenced E C t s rid leaseID of
        Inl e \<Rightarrow> Inl e
      | Inr r \<Rightarrow> coll_replace E C t s rid (r\<lparr>tb_phase := PhaseDeleting\<rparr>) [])"

definition Rollback ::
    "('s, 'v) engine \<Rightarrow> ('p tomb, 'v) codec \<Rightarrow> coll \<Rightarrow> 's \<Rightarrow> string \<Rightarrow> string \<Rightarrow> 's res" where
  "Rollback E C t s rid leaseID =
     (case fenced E C t s rid leaseID of
        Inl e \<Rightarrow> Inl e
      | Inr r \<Rightarrow> if tb_phase r \<noteq> PhaseLeased then Inl ErrConflict else coll_delete E t s rid [])"

definition Finalize ::
    "('s, 'v) engine \<Rightarrow> ('p tomb, 'v) codec \<Rightarrow> coll \<Rightarrow> 's \<Rightarrow> string \<Rightarrow> string \<Rightarrow> 's res" where
  "Finalize E C t s rid leaseID =
     (case fenced E C t s rid leaseID of
        Inl e \<Rightarrow> Inl e
      | Inr _ \<Rightarrow> coll_delete E t s rid [])"

definition PendingIDs ::
    "('s, 'v) engine \<Rightarrow> ('p tomb, 'v) codec \<Rightarrow> coll \<Rightarrow> 's \<Rightarrow> string list res" where
  "PendingIDs E C t s = coll_scan E C t s (\<lambda>rid _ ids. Inr (ids @ [rid])) []"

text \<open>\<open>Acquire\<close>: the two generated ids are the same argument, since only one is used.\<close>

definition Acquire ::
    "('s, 'v) engine \<Rightarrow> ('p tomb, 'v) codec \<Rightarrow> coll \<Rightarrow> string \<Rightarrow> nat \<Rightarrow> 's \<Rightarrow> string \<Rightarrow> 'p payload res \<Rightarrow>
     ((string \<times> 'p tomb option) \<times> 's) res" where
  "Acquire E C t leaseID now s rid build =
     (case TakeOver E C t leaseID now s rid of
        Inl e \<Rightarrow> Inl e
      | Inr (Some taken, s') \<Rightarrow> Inr ((tb_lease taken, Some taken), s')
      | Inr (None, s') \<Rightarrow>
          (case build of
             Inl e \<Rightarrow> Inl e
           | Inr p \<Rightarrow> res_map (\<lambda>(l, s''). ((l, None), s'')) (Lease E C t leaseID now s' rid p)))"

text \<open>\<open>Recover\<close>: \<open>unmarshal\<close> is the \<open>json.Unmarshal\<close> of the payload into the caller's cleanup type.\<close>

definition Recover ::
    "('s, 'v) engine \<Rightarrow> ('p tomb, 'v) codec \<Rightarrow> ('p \<Rightarrow> 'c res) \<Rightarrow> coll \<Rightarrow> string \<Rightarrow> nat \<Rightarrow> 's \<Rightarrow> string \<Rightarrow>
     (('p tomb \<times> 'c) option \<times> 's) res" where
  "Recover E C unmarshal t leaseID now s rid =
     (case TakeOver E C t leaseID now s rid of
        Inl e \<Rightarrow> Inl e
      | Inr (None, s') \<Rightarrow> Inr (None, s')
      | Inr (Some r, s') \<Rightarrow>
          if tb_phase r = PhaseLeased then res_map (Pair None) (Rollback E C t s' rid (tb_lease r))
          else (case unmarshal (pl_cleanup (tb_payload r)) of
                  Inl e \<Rightarrow> Inl e
                | Inr cl \<Rightarrow> Inr (Some (r, cl), s')))"

section \<open>The protocol on the typed table\<close>

definition spec_fenced :: "'p tomb tbl \<Rightarrow> string \<Rightarrow> string \<Rightarrow> 'p tomb res" where
  "spec_fenced T rid leaseID =
     (case tget T rid of
        None \<Rightarrow> Inl ErrLost
      | Some r \<Rightarrow> if tb_lease r = leaseID then Inr r else Inl ErrLost)"

definition spec_Lease ::
    "string \<Rightarrow> nat \<Rightarrow> 'p tomb tbl \<Rightarrow> string \<Rightarrow> 'p payload \<Rightarrow> (string \<times> 'p tomb tbl) res" where
  "spec_Lease leaseID now T rid p =
     (case tget T rid of
        Some _ \<Rightarrow> Inl ErrConflict
      | None \<Rightarrow> Inr (leaseID, tput rid
          \<lparr>tb_lease = leaseID, tb_phase = PhaseLeased, tb_leased_at = now, tb_payload = p\<rparr> T))"

definition spec_TakeOver ::
    "string \<Rightarrow> nat \<Rightarrow> 'p tomb tbl \<Rightarrow> string \<Rightarrow> 'p tomb option \<times> 'p tomb tbl" where
  "spec_TakeOver leaseID now T rid =
     (case tget T rid of
        None \<Rightarrow> (None, T)
      | Some r \<Rightarrow> (let r' = r\<lparr>tb_lease := leaseID, tb_leased_at := now\<rparr> in (Some r', tput rid r' T)))"

definition spec_MarkDeleting :: "'p tomb tbl \<Rightarrow> string \<Rightarrow> string \<Rightarrow> 'p tomb tbl res" where
  "spec_MarkDeleting T rid leaseID =
     res_map (\<lambda>r. tput rid (r\<lparr>tb_phase := PhaseDeleting\<rparr>) T) (spec_fenced T rid leaseID)"

definition spec_Rollback :: "'p tomb tbl \<Rightarrow> string \<Rightarrow> string \<Rightarrow> 'p tomb tbl res" where
  "spec_Rollback T rid leaseID =
     (case spec_fenced T rid leaseID of
        Inl e \<Rightarrow> Inl e
      | Inr r \<Rightarrow> if tb_phase r = PhaseLeased then Inr (tdel rid T) else Inl ErrConflict)"

definition spec_Finalize :: "'p tomb tbl \<Rightarrow> string \<Rightarrow> string \<Rightarrow> 'p tomb tbl res" where
  "spec_Finalize T rid leaseID = res_map (\<lambda>_. tdel rid T) (spec_fenced T rid leaseID)"

definition spec_Acquire ::
    "string \<Rightarrow> nat \<Rightarrow> 'p tomb tbl \<Rightarrow> string \<Rightarrow> 'p payload res \<Rightarrow>
     ((string \<times> 'p tomb option) \<times> 'p tomb tbl) res" where
  "spec_Acquire leaseID now T rid build =
     (case spec_TakeOver leaseID now T rid of
        (Some r, T') \<Rightarrow> Inr ((leaseID, Some r), T')
      | (None, T') \<Rightarrow>
          res_bind build (\<lambda>p. res_map (\<lambda>(l, T''). ((l, None), T'')) (spec_Lease leaseID now T' rid p)))"

definition spec_Recover ::
    "('p \<Rightarrow> 'c res) \<Rightarrow> string \<Rightarrow> nat \<Rightarrow> 'p tomb tbl \<Rightarrow> string \<Rightarrow> (('p tomb \<times> 'c) option \<times> 'p tomb tbl) res" where
  "spec_Recover unmarshal leaseID now T rid =
     (case spec_TakeOver leaseID now T rid of
        (None, T') \<Rightarrow> Inr (None, T')
      | (Some r, T') \<Rightarrow>
          if tb_phase r = PhaseLeased then Inr (None, tdel rid T')
          else res_map (\<lambda>cl. (Some (r, cl), T')) (unmarshal (pl_cleanup (tb_payload r))))"

section \<open>The operations implement the protocol\<close>

text \<open>A codec that reads back what it wrote.\<close>

definition codec_ok :: "('r, 'v) codec \<Rightarrow> bool" where
  "codec_ok C \<longleftrightarrow> (\<forall>r. \<exists>v. enc C r = Inr v \<and> dec C v = Inr r)"

lemma codec_okE: "codec_ok C \<Longrightarrow> (\<And>v. enc C r = Inr v \<Longrightarrow> dec C v = Inr r \<Longrightarrow> P) \<Longrightarrow> P"
  by (auto simp: codec_ok_def)

lemma view_upd_comp [simp]: "view_upd (view_upd V ns t f) ns t g = view_upd V ns t (\<lambda>tb. g (f tb))"
  by (simp add: view_upd_def option.map_comp comp_def)

context meta_engine
begin

text \<open>
  \<open>tracks s c C s' T\<close>: from \<open>s\<close>, writing only the collection \<open>c\<close>, the transaction reached \<open>s'\<close>, in which
  \<open>c\<close> holds the typed table \<open>T\<close>.
\<close>

definition tracks :: "'s \<Rightarrow> coll \<Rightarrow> ('r, 'v) codec \<Rightarrow> 's \<Rightarrow> 'r tbl \<Rightarrow> bool" where
  "tracks s c C s' T \<longleftrightarrow>
     inv s' \<and> guard s' = guard s \<and> holds s' C c T \<and>
     (\<exists>f. view s' = view_upd (view s) (cl_ns c) (cl_table c) f)"

definition implements ::
    "'s \<Rightarrow> coll \<Rightarrow> ('r, 'v) codec \<Rightarrow> ('x \<times> 's) res \<Rightarrow> ('x \<times> 'r tbl) res \<Rightarrow> bool" where
  "implements s c C q r =
     (case r of Inl e \<Rightarrow> q = Inl e | Inr (x, T) \<Rightarrow> (\<exists>s'. q = Inr (x, s') \<and> tracks s c C s' T))"

lemma tracks_refl: "inv s \<Longrightarrow> holds s C c T \<Longrightarrow> tracks s c C s T"
  by (auto simp: tracks_def view_upd_def fun_upd_idem_iff option.map_id0 [unfolded id_def]
      intro!: exI [of _ "\<lambda>t. t"])

lemma tracks_trans: "tracks s c C s1 T1 \<Longrightarrow> tracks s1 c C s2 T2 \<Longrightarrow> tracks s c C s2 T2"
  unfolding tracks_def by (metis view_upd_comp)

lemma tracks_frame:
  "tracks s c C s' T \<Longrightarrow> (cl_ns d, cl_table d) \<noteq> (cl_ns c, cl_table c) \<Longrightarrow>
   holds s' D d U = holds s D d U"
  using holds_frame by (metis tracks_def)

lemma replace_tracks:
  assumes "inv s" "holds s C c T" "guard s (cl_ns c) False = Inr ()" "codec_ok C" "tget T k = Some r0"
  shows "\<exists>s'. coll_replace E C c s k r [] = Inr s' \<and> tracks s c C s' (tput k r T)"
proof -
  obtain v where "enc C r = Inr v" "dec C v = Inr r" using assms(4) by (rule codec_okE)
  from replace_holds [OF assms(1,2) _ this, of "[]" k] assms(3,5) show ?thesis
    by (auto simp: tracks_def relaxedOK_def)
qed

lemma insert_tracks:
  assumes "inv s" "holds s C c T" "guard s (cl_ns c) False = Inr ()" "codec_ok C" "tget T k = None"
  shows "\<exists>s'. coll_insert E C c s k r [] = Inr s' \<and> tracks s c C s' (tput k r T)"
proof -
  obtain v where "enc C r = Inr v" "dec C v = Inr r" using assms(4) by (rule codec_okE)
  from insert_holds [OF assms(1,2) _ this, of "[]" k] assms(3,5) show ?thesis
    by (auto simp: tracks_def relaxedOK_def)
qed

lemma insert_conflict:
  assumes "inv s" "holds s C c T" "tget T k = Some r0"
  shows "coll_insert E C c s k r opts = Inl ErrConflict"
proof -
  obtain ov where "GetRaw E s (cl_ns c) (cl_table c) k = Inr ov" "ov = None \<longleftrightarrow> tget T k = None"
    using raw_present [OF assms(1,2)] .
  with assms(3) show ?thesis by (cases ov) (auto simp: coll_insert_def)
qed

lemma delete_tracks:
  assumes "inv s" "holds s C c T" "guard s (cl_ns c) False = Inr ()"
  shows "\<exists>s'. coll_delete E c s k [] = Inr s' \<and> tracks s c C s' (tdel k T)"
  using delete_holds [OF assms(1,2), of "[]" k] assms(3) by (auto simp: tracks_def relaxedOK_def)

lemma tomb_get_holds: "inv s \<Longrightarrow> holds s C t T \<Longrightarrow> tomb_get E C t s rid = Inr (tget T rid)"
  by (simp add: tomb_get_def get_holds split: option.splits)

lemma fenced_holds: "inv s \<Longrightarrow> holds s C t T \<Longrightarrow> fenced E C t s rid l = spec_fenced T rid l"
  by (simp add: fenced_def spec_fenced_def tomb_get_holds split: option.splits)

lemma Lease_implements:
  assumes "inv s" "holds s C t T" "guard s (cl_ns t) False = Inr ()" "codec_ok C"
  shows "implements s t C (Lease E C t l now s rid p) (spec_Lease l now T rid p)"
proof (cases "tget T rid")
  case None
  from insert_tracks [OF assms None,
      of "\<lparr>tb_lease = l, tb_phase = PhaseLeased, tb_leased_at = now, tb_payload = p\<rparr>"]
  show ?thesis
    by (auto simp: implements_def Lease_def spec_Lease_def None)
next
  case (Some r)
  with insert_conflict [OF assms(1,2) Some] show ?thesis
    by (simp add: implements_def Lease_def spec_Lease_def)
qed

lemma TakeOver_implements:
  assumes "inv s" "holds s C t T" "guard s (cl_ns t) False = Inr ()" "codec_ok C"
  shows "implements s t C (TakeOver E C t l now s rid) (Inr (spec_TakeOver l now T rid))"
proof (cases "tget T rid")
  case None
  with tracks_refl [OF assms(1,2)] tomb_get_holds [OF assms(1,2)] show ?thesis
    by (simp add: implements_def TakeOver_def spec_TakeOver_def)
next
  case (Some r)
  from replace_tracks [OF assms Some, of "r\<lparr>tb_lease := l, tb_leased_at := now\<rparr>"]
  show ?thesis
    by (auto simp: implements_def TakeOver_def spec_TakeOver_def tomb_get_holds [OF assms(1,2)] Some Let_def)
qed

text \<open>The operations that return no value beside the error.\<close>

definition implements_unit :: "'s \<Rightarrow> coll \<Rightarrow> ('r, 'v) codec \<Rightarrow> 's res \<Rightarrow> 'r tbl res \<Rightarrow> bool" where
  "implements_unit s c C q r =
     (case r of Inl e \<Rightarrow> q = Inl e | Inr T \<Rightarrow> (\<exists>s'. q = Inr s' \<and> tracks s c C s' T))"

lemma spec_fenced_Inr: "spec_fenced T rid l = Inr r \<Longrightarrow> tget T rid = Some r"
  by (simp add: spec_fenced_def split: option.splits if_splits)

lemma MarkDeleting_implements:
  assumes "inv s" "holds s C t T" "guard s (cl_ns t) False = Inr ()" "codec_ok C"
  shows "implements_unit s t C (MarkDeleting E C t s rid l) (spec_MarkDeleting T rid l)"
proof (cases "spec_fenced T rid l")
  case (Inl e)
  then show ?thesis
    by (simp add: implements_unit_def MarkDeleting_def spec_MarkDeleting_def fenced_holds [OF assms(1,2)])
next
  case (Inr r)
  from replace_tracks [OF assms spec_fenced_Inr [OF Inr]] Inr show ?thesis
    by (simp add: implements_unit_def MarkDeleting_def spec_MarkDeleting_def fenced_holds [OF assms(1,2)])
qed

lemma Rollback_implements:
  assumes "inv s" "holds s C t T" "guard s (cl_ns t) False = Inr ()"
  shows "implements_unit s t C (Rollback E C t s rid l) (spec_Rollback T rid l)"
  using delete_tracks [OF assms, of rid]
  by (auto simp: implements_unit_def Rollback_def spec_Rollback_def fenced_holds [OF assms(1,2)] split: sum.splits)

lemma Finalize_implements:
  assumes "inv s" "holds s C t T" "guard s (cl_ns t) False = Inr ()"
  shows "implements_unit s t C (Finalize E C t s rid l) (spec_Finalize T rid l)"
  using delete_tracks [OF assms, of rid]
  by (auto simp: implements_unit_def Finalize_def spec_Finalize_def fenced_holds [OF assms(1,2)] split: sum.splits)

lemma PendingIDs_holds:
  assumes "inv s" "holds s C t T"
  shows "PendingIDs E C t s = Inr (ids_of T)"
proof -
  from assms obtain tb where tb: "view s (cl_ns t) = Some tb" "decodes C (tb (cl_table t)) T"
    by (auto simp: holds_def)
  have "fold_res (\<lambda>(k, _) ids. Inr (ids @ [k])) T ids = Inr (ids @ ids_of T)" for ids
    by (induction T arbitrary: ids) auto
  with tb assms(1) show ?thesis
    by (simp add: PendingIDs_def coll_scan_def scan_raw decodes_fold)
qed

lemma Acquire_implements:
  assumes "inv s" "holds s C t T" "guard s (cl_ns t) False = Inr ()" "codec_ok C"
  shows "implements s t C (Acquire E C t l now s rid build) (spec_Acquire l now T rid build)"
proof -
  obtain ov T' s' where sp: "spec_TakeOver l now T rid = (ov, T')"
    and op: "TakeOver E C t l now s rid = Inr (ov, s')" and tr: "tracks s t C s' T'"
    using TakeOver_implements [OF assms, of l now rid]
    by (cases "spec_TakeOver l now T rid") (auto simp: implements_def)
  show ?thesis
  proof (cases ov)
    case (Some r)
    then have "tb_lease r = l" using sp by (auto simp: spec_TakeOver_def Let_def split: option.splits)
    with sp op tr Some show ?thesis by (simp add: implements_def Acquire_def spec_Acquire_def)
  next
    case None
    have "inv s'" "holds s' C t T'" "guard s' (cl_ns t) False = Inr ()" using tr assms(3) by (auto simp: tracks_def)
    note lease = Lease_implements [OF this assms(4), of l now rid]
    show ?thesis
    proof (cases build)
      case (Inl e)
      with sp op None show ?thesis by (simp add: implements_def Acquire_def spec_Acquire_def)
    next
      case (Inr p)
      with sp op None lease [of p] tracks_trans [OF tr] show ?thesis
        by (cases "spec_Lease l now T' rid p") (auto simp: implements_def Acquire_def spec_Acquire_def)
    qed
  qed
qed

lemma Recover_implements:
  assumes "inv s" "holds s C t T" "guard s (cl_ns t) False = Inr ()" "codec_ok C"
  shows "implements s t C (Recover E C unm t l now s rid) (spec_Recover unm l now T rid)"
proof -
  obtain ov T' s' where sp: "spec_TakeOver l now T rid = (ov, T')"
    and op: "TakeOver E C t l now s rid = Inr (ov, s')" and tr: "tracks s t C s' T'"
    using TakeOver_implements [OF assms, of l now rid]
    by (cases "spec_TakeOver l now T rid") (auto simp: implements_def)
  show ?thesis
  proof (cases ov)
    case None
    with sp op tr show ?thesis by (simp add: implements_def Recover_def spec_Recover_def)
  next
    case (Some r)
    then have r: "tget T' rid = Some r"
      using sp by (auto simp: spec_TakeOver_def Let_def split: option.splits)
    have s': "inv s'" "holds s' C t T'" "guard s' (cl_ns t) False = Inr ()"
      using tr assms(3) by (auto simp: tracks_def)
    show ?thesis
    proof (cases "tb_phase r = PhaseLeased")
      case True
      with r have "spec_Rollback T' rid (tb_lease r) = Inr (tdel rid T')"
        by (simp add: spec_Rollback_def spec_fenced_def)
      with Rollback_implements [OF s', of rid "tb_lease r"] tracks_trans [OF tr] sp op Some True
      show ?thesis by (auto simp: implements_def implements_unit_def Recover_def spec_Recover_def)
    next
      case False
      with sp op tr Some show ?thesis
        by (auto simp: implements_def Recover_def spec_Recover_def split: sum.splits)
    qed
  qed
qed

end

section \<open>Interleavings of workers\<close>

text \<open>
  One protocol call of some worker on the entity \<open>rid\<close>. A call that returns an error aborts its
  transaction, so the table stays as it was.
\<close>

datatype 'p tomb_call =
    CallLease string nat "'p payload"
  | CallTakeOver string nat
  | CallMarkDeleting string
  | CallRollback string
  | CallFinalize string

fun tomb_call_step :: "string \<Rightarrow> 'p tomb_call \<Rightarrow> 'p tomb tbl \<Rightarrow> 'p tomb tbl" where
  "tomb_call_step rid (CallLease l now p) T =
     (case spec_Lease l now T rid p of Inl _ \<Rightarrow> T | Inr (_, T') \<Rightarrow> T')"
| "tomb_call_step rid (CallTakeOver l now) T = snd (spec_TakeOver l now T rid)"
| "tomb_call_step rid (CallMarkDeleting l) T =
     (case spec_MarkDeleting T rid l of Inl _ \<Rightarrow> T | Inr T' \<Rightarrow> T')"
| "tomb_call_step rid (CallRollback l) T =
     (case spec_Rollback T rid l of Inl _ \<Rightarrow> T | Inr T' \<Rightarrow> T')"
| "tomb_call_step rid (CallFinalize l) T =
     (case spec_Finalize T rid l of Inl _ \<Rightarrow> T | Inr T' \<Rightarrow> T')"

definition tomb_calls :: "string \<Rightarrow> 'p tomb_call list \<Rightarrow> 'p tomb tbl \<Rightarrow> 'p tomb tbl" where
  "tomb_calls rid cs T = fold (tomb_call_step rid) cs T"

fun is_finalize :: "'p tomb_call \<Rightarrow> bool" where
  "is_finalize (CallFinalize _) = True"
| "is_finalize _ = False"

text \<open>The fenced calls of the holder of one lease.\<close>

fun fenced_by :: "string \<Rightarrow> 'p tomb_call \<Rightarrow> bool" where
  "fenced_by l (CallMarkDeleting l') = (l' = l)"
| "fenced_by l (CallRollback l') = (l' = l)"
| "fenced_by l (CallFinalize l') = (l' = l)"
| "fenced_by l _ = False"

lemma phases_differ [simp]: "PhaseLeased \<noteq> PhaseDeleting" "PhaseDeleting \<noteq> PhaseLeased"
  by (simp_all add: PhaseLeased_def PhaseDeleting_def)

lemmas spec_defs = spec_Lease_def spec_TakeOver_def spec_MarkDeleting_def spec_Rollback_def
  spec_Finalize_def spec_fenced_def Let_def

lemma step_deleting:
  assumes "tget T rid = Some r" "tb_phase r = PhaseDeleting" "\<not> is_finalize c"
  shows "\<exists>r'. tget (tomb_call_step rid c T) rid = Some r' \<and> tb_phase r' = PhaseDeleting \<and>
              tb_payload r' = tb_payload r"
  using assms by (cases c) (simp_all add: spec_defs)

lemma calls_deleting:
  assumes "tget T rid = Some r" "tb_phase r = PhaseDeleting" "list_all (\<lambda>c. \<not> is_finalize c) cs"
  shows "\<exists>r'. tget (tomb_calls rid cs T) rid = Some r' \<and> tb_phase r' = PhaseDeleting \<and>
              tb_payload r' = tb_payload r"
  using assms
proof (induction cs arbitrary: T r)
  case Nil
  then show ?case by (simp add: tomb_calls_def)
next
  case (Cons c cs)
  from step_deleting [OF Cons.prems(1,2), of c] Cons.prems(3)
  obtain r1 where r1: "tget (tomb_call_step rid c T) rid = Some r1" "tb_phase r1 = PhaseDeleting"
    "tb_payload r1 = tb_payload r" by auto
  from Cons.IH [OF r1(1,2)] Cons.prems(3) r1(3) show ?case by (simp add: tomb_calls_def)
qed

lemma step_fenced:
  assumes "tget T rid = Some r" "tb_lease r \<noteq> l" "fenced_by l c"
  shows "tomb_call_step rid c T = T"
  using assms by (cases c) (simp_all add: spec_defs)

lemma calls_fenced:
  assumes "tget T rid = Some r" "tb_lease r \<noteq> l" "list_all (fenced_by l) cs"
  shows "tomb_calls rid cs T = T"
  using assms(3) by (induction cs) (simp_all add: tomb_calls_def step_fenced [OF assms(1,2)])

section \<open>Properties\<close>

text \<open>
  C13. Once a tombstone is \<open>deleting\<close> it rolls forward only: whatever leases, take-overs, marks and
  rollbacks any workers issue, with whatever lease ids, the row stays, stays \<open>deleting\<close>, and keeps
  the payload recovery works from, until a \<open>Finalize\<close>.
\<close>

theorem tombstone_deleting_final:
  assumes "tget T rid = Some r" and "tb_phase r = PhaseDeleting" and "list_all (\<lambda>c. \<not> is_finalize c) cs"
  shows "\<exists>r'. tget (tomb_calls rid cs T) rid = Some r' \<and> tb_phase r' = PhaseDeleting \<and>
     tb_payload r' = tb_payload r"
  using calls_deleting [OF assms] .

definition sample_tomb :: "nat tomb" where
  "sample_tomb = \<lparr>tb_lease = ''l1'', tb_phase = PhaseDeleting, tb_leased_at = 5,
     tb_payload = \<lparr>pl_mode = ModeAggregate, pl_cleanup = 9\<rparr>\<rparr>"

theorem tombstone_deleting_final_witness:
  "\<exists>r'. tget (tomb_calls ''vm'' [CallRollback ''l1'', CallTakeOver ''l2'' 6, CallRollback ''l2'']
       [(''vm'', sample_tomb)]) ''vm'' = Some r' \<and> tb_phase r' = PhaseDeleting \<and>
     tb_payload r' = \<lparr>pl_mode = ModeAggregate, pl_cleanup = 9\<rparr>"
  using tombstone_deleting_final [of "[(''vm'', sample_tomb)]" "''vm''" sample_tomb
      "[CallRollback ''l1'', CallTakeOver ''l2'' 6, CallRollback ''l2'']"]
  by (simp add: sample_tomb_def)

text \<open>
  C14. A worker whose lease was taken over is fenced: after a take-over under a fresh lease id, no
  sequence of its marks, rollbacks and finalizes changes the table.
\<close>

theorem tombstone_stale_lease_fenced:
  assumes "tget T rid = Some r" and "fresh \<noteq> old" and "list_all (fenced_by old) cs"
  shows "tomb_calls rid cs (snd (spec_TakeOver fresh now T rid)) = snd (spec_TakeOver fresh now T rid)"
proof -
  let ?r = "r\<lparr>tb_lease := fresh, tb_leased_at := now\<rparr>"
  have "tget (snd (spec_TakeOver fresh now T rid)) rid = Some ?r"
    using assms(1) by (simp add: spec_TakeOver_def Let_def)
  then show ?thesis using assms(2,3) by (intro calls_fenced [of _ _ ?r old]) simp_all
qed

theorem tombstone_stale_lease_fenced_witness:
  "tomb_calls ''vm'' [CallMarkDeleting ''l1'', CallFinalize ''l1'']
     (snd (spec_TakeOver ''l2'' 6 [(''vm'', sample_tomb)] ''vm'')) =
   snd (spec_TakeOver ''l2'' 6 [(''vm'', sample_tomb)] ''vm'')"
  using tombstone_stale_lease_fenced [of "[(''vm'', sample_tomb)]" "''vm''" sample_tomb "''l2''" "''l1''"
      "[CallMarkDeleting ''l1'', CallFinalize ''l1'']" 6]
  by simp

end
