(* ===== verification/Types.thy ===== *)
theory Types
  imports Prelude "HOL-Library.Word"
begin

unbundle bit_operations_syntax

text \<open>
  The records of \<open>src/types\<close> and their validation: VM and snapshot configurations, storage and
  network configurations, the \<open>--data-disk\<close> flag. Strings are ASCII. An embedded Go struct is a
  record extension. \<open>units.RAMInBytes\<close> (a third-party parser of byte sizes) is a parameter.
\<close>

section \<open>Strings\<close>

text \<open>The character classes of the regular expressions, by their code points.\<close>

definition is_lower :: "char \<Rightarrow> bool" where
  "is_lower c \<longleftrightarrow> CHR ''a'' \<le> c \<and> c \<le> CHR ''z''"

definition is_upper :: "char \<Rightarrow> bool" where
  "is_upper c \<longleftrightarrow> CHR ''A'' \<le> c \<and> c \<le> CHR ''Z''"

definition is_digit :: "char \<Rightarrow> bool" where
  "is_digit c \<longleftrightarrow> CHR ''0'' \<le> c \<and> c \<le> CHR ''9''"

definition is_alnum :: "char \<Rightarrow> bool" where
  "is_alnum c \<longleftrightarrow> is_lower c \<or> is_upper c \<or> is_digit c"

text \<open>An anchored pattern \<open>^[first][rest]{0,n}$\<close>.\<close>

fun match_name :: "(char \<Rightarrow> bool) \<Rightarrow> (char \<Rightarrow> bool) \<Rightarrow> nat \<Rightarrow> string \<Rightarrow> bool" where
  "match_name first rest n [] = False"
| "match_name first rest n (c # cs) = (first c \<and> length cs \<le> n \<and> list_all rest cs)"

definition validName :: "string \<Rightarrow> bool" where
  "validName = match_name is_alnum (\<lambda>c. is_alnum c \<or> c \<in> set ''._-'') 62"

definition validSnapshotName :: "string \<Rightarrow> bool" where
  "validSnapshotName = match_name is_alnum (\<lambda>c. is_alnum c \<or> c \<in> set ''._:/-'') 62"

definition validUsername :: "string \<Rightarrow> bool" where
  "validUsername =
     match_name (\<lambda>c. is_lower c \<or> c = CHR ''_'') (\<lambda>c. is_lower c \<or> is_digit c \<or> c \<in> set ''_-'') 31"

definition dataDiskNameRe :: "string \<Rightarrow> bool" where
  "dataDiskNameRe = match_name is_lower (\<lambda>c. is_lower c \<or> is_digit c \<or> c \<in> set ''_-'') 19"

text \<open>\<open>shellUnsafe\<close> is not anchored: it matches when one character is in the class.\<close>

definition unsafe_char :: "char \<Rightarrow> bool" where
  "unsafe_char c \<longleftrightarrow>
     of_char c < (32 :: nat) \<or> of_char c = (127 :: nat) \<or>
     of_char c \<in> set [96, 36, 59, 124, 38, 40, 41, 123, 125, 92, 60, 62, 33, 39, 34 :: nat]"

definition shellUnsafe :: "string \<Rightarrow> bool" where
  "shellUnsafe s = list_ex unsafe_char s"

definition is_space :: "char \<Rightarrow> bool" where
  "is_space c \<longleftrightarrow> of_char c \<in> set [9, 10, 11, 12, 13, 32 :: nat]"

definition TrimSpace :: "string \<Rightarrow> string" where
  "TrimSpace s = rev (dropWhile is_space (rev (dropWhile is_space s)))"

definition lower_char :: "char \<Rightarrow> char" where
  "lower_char c = (if is_upper c then char_of (of_char c + 32 :: nat) else c)"

definition ToLower :: "string \<Rightarrow> string" where
  "ToLower = map lower_char"

definition HasSuffix :: "string \<Rightarrow> string \<Rightarrow> bool" where
  "HasSuffix s t = has_prefix (rev s) (rev t)"

text \<open>\<open>strings.Cut\<close> and \<open>strings.SplitSeq\<close> at one character.\<close>

fun Cut :: "char \<Rightarrow> string \<Rightarrow> string \<times> string \<times> bool" where
  "Cut sep [] = ('''', '''', False)"
| "Cut sep (c # cs) =
     (if c = sep then ('''', cs, True)
      else (case Cut sep cs of (a, b, ok) \<Rightarrow> (c # a, b, ok)))"

fun SplitSeq :: "char \<Rightarrow> string \<Rightarrow> string list" where
  "SplitSeq sep [] = ['''']"
| "SplitSeq sep (c # cs) =
     (if c = sep then '''' # SplitSeq sep cs
      else (case SplitSeq sep cs of [] \<Rightarrow> [[c]] | p # ps \<Rightarrow> (c # p) # ps))"

text \<open>\<open>strings.CutLast\<close> at one character.\<close>

definition CutLast :: "char \<Rightarrow> string \<Rightarrow> string \<times> string \<times> bool" where
  "CutLast sep s =
     (case Cut sep (rev s) of
        (a, b, True) \<Rightarrow> (rev b, rev a, True)
      | (_, _, False) \<Rightarrow> (s, '''', False))"

definition ContainsAny :: "string \<Rightarrow> string \<Rightarrow> bool" where
  "ContainsAny s chars = list_ex (\<lambda>c. c \<in> set chars) s"

text \<open>\<open>cmp.Or\<close> on strings: the first argument that is not empty.\<close>

fun cmp_Or :: "string list \<Rightarrow> string" where
  "cmp_Or [] = ''''"
| "cmp_Or (s # ss) = (if s \<noteq> '''' then s else cmp_Or ss)"

section \<open>Configurations\<close>

definition ImageTypeOCI :: string where "ImageTypeOCI = ''oci''"

definition ImageTypeCloudImg :: string where "ImageTypeCloudImg = ''cloudimg''"

definition BackendCNI :: string where "BackendCNI = ''cni''"

definition BackendBridge :: string where "BackendBridge = ''bridge''"

record config =
  CPU :: int
  Memory :: int
  Storage :: int
  QueueSize :: int
  DiskQueueSize :: int
  ImageName :: string
  ImageDigest :: string
  ImageType :: string
  Network :: string
  NoDirectIO :: bool
  NoWatchdog :: bool
  NoBalloon :: bool
  Windows :: bool
  SharedMemory :: bool
  HugePages :: bool
  Mergeable :: bool
  PCI :: bool
  CPUWeight :: int
  CPUQuotaUs :: int
  CPUPeriodUs :: int
  CPUBurstUs :: int
  CPUSetCPUs :: string

record DataDiskSpec =
  dd_Name :: string
  dd_Size :: int
  dd_FSType :: string
  dd_MountPoint :: string
  dd_MountPointSet :: bool
  dd_DirectIO :: "bool option"

record VMConfig = config +
  Name :: string
  RestoreMode :: string
  User :: string
  Password :: string
  DataDisks :: "DataDiskSpec list"

record StorageConfig =
  sc_Path :: string
  sc_RO :: bool
  sc_Serial :: string
  sc_Role :: string
  sc_MountPoint :: string
  sc_FSType :: string
  sc_DirectIO :: "bool option"

record IPConfig =
  ip_IP :: string
  ip_Gateway :: string
  ip_Prefix :: int

record NetworkConfig =
  nc_TAP :: string
  nc_MAC :: string
  nc_NumQueues :: int
  nc_QueueSize :: int
  nc_MTU :: int
  nc_Backend :: string
  nc_BridgeDev :: string
  nc_NetnsPath :: string
  nc_Network :: "IPConfig option"

record NetSetup =
  NetBackend :: string
  NetnsPath :: string
  NetBridgeDev :: string
  NetworkConfigs :: "NetworkConfig option list"

record SnapshotConfig = config +
  sn_ID :: string
  sn_Name :: string
  sn_Description :: string
  sn_ImageBlobIDs :: "string set"
  sn_Hypervisor :: string
  sn_NICs :: int
  sn_NICMTUs :: "int list"

datatype VMState = VMStateCreating | VMStateCreated | VMStateRunning | VMStateStopped | VMStateError

datatype TransitionReason =
  TransitionNone | TransitionCreate | TransitionBoot | TransitionRestart | TransitionClone
  | TransitionRestore | TransitionStopUser | TransitionError | TransitionUnexpectedExit

text \<open>The runtime record of a VM; \<open>*time.Time\<close> is an optional time.\<close>

record VM = NetSetup +
  ID :: string
  Hypervisor :: string
  State :: VMState
  Config :: VMConfig
  PID :: int
  SocketPath :: string
  VsockSocket :: string
  ConsolePath :: string
  CPUSet :: string
  QueueCPUs :: string
  StorageConfigs :: "StorageConfig option list"
  FirstBooted :: bool
  SnapshotIDs :: "string set"
  TransitionGeneration :: "64 word"
  LastTransitionReason :: TransitionReason
  LastTransitionAt :: "nat option"
  CreatedAt :: nat
  UpdatedAt :: nat
  StartedAt :: "nat option"
  StoppedAt :: "nat option"

section \<open>Validation\<close>

definition maxQueueSize :: int where
  "maxQueueSize = 32768"

definition validateQueueSize :: "string \<Rightarrow> int \<Rightarrow> unit res" where
  "validateQueueSize flag sz =
     (if sz < 0 then Inl (ErrMsg (flag @ '' must be non-negative''))
      else if sz = 0 then Inr ()
      else if sz > maxQueueSize \<or> (sz AND (sz - 1)) \<noteq> 0
        then Inl (ErrMsg (flag @ '' must be a power of 2''))
      else Inr ())"

definition VMConfig_Validate :: "VMConfig \<Rightarrow> unit res" where
  "VMConfig_Validate cfg =
     (if Name cfg = '''' then Inl (ErrMsg ''vm name cannot be empty'')
      else if \<not> validName (Name cfg) then Inl (ErrMsg ''vm name is invalid'')
      else if CPU cfg \<le> 0 then Inl (ErrMsg ''--cpu must be at least 1'')
      else if Memory cfg < push_bit 20 512 then Inl (ErrMsg ''--memory must be at least 512M'')
      else if Storage cfg < push_bit 30 10 then Inl (ErrMsg ''--storage must be at least 10G'')
      else
        (case validateQueueSize ''--queue-size'' (QueueSize cfg) of
           Inl e \<Rightarrow> Inl e
         | Inr _ \<Rightarrow>
             (case validateQueueSize ''--disk-queue-size'' (DiskQueueSize cfg) of
                Inl e \<Rightarrow> Inl e
              | Inr _ \<Rightarrow>
                  if Mergeable cfg \<and> (HugePages cfg \<or> SharedMemory cfg)
                    then Inl (ErrMsg ''--mergeable needs plain private memory'')
                  else if User cfg \<noteq> '''' \<and> \<not> validUsername (User cfg)
                    then Inl (ErrMsg ''--user is invalid'')
                  else if Password cfg \<noteq> '''' \<and> shellUnsafe (Password cfg)
                    then Inl (ErrMsg ''--password contains unsafe characters'')
                  else Inr ())))"

definition SnapshotConfig_Validate :: "SnapshotConfig \<Rightarrow> unit res" where
  "SnapshotConfig_Validate cfg =
     (if sn_Name cfg \<noteq> '''' \<and> \<not> validSnapshotName (sn_Name cfg)
      then Inl (ErrMsg ''snapshot name is invalid'') else Inr ())"

definition firstNIC :: "'a NetSetup_scheme \<Rightarrow> NetworkConfig option" where
  "firstNIC v = (case NetworkConfigs v of [] \<Rightarrow> None | nic # _ \<Rightarrow> nic)"

definition ResolvedNetnsPath :: "'a NetSetup_scheme \<Rightarrow> string" where
  "ResolvedNetnsPath v =
     (case firstNIC v of
        Some nic \<Rightarrow> cmp_Or [NetnsPath v, nc_NetnsPath nic]
      | None \<Rightarrow> NetnsPath v)"

definition ResolvedNetBackend :: "'a NetSetup_scheme \<Rightarrow> string" where
  "ResolvedNetBackend v =
     (case firstNIC v of
        Some nic \<Rightarrow> cmp_Or [NetBackend v, nc_Backend nic, BackendCNI]
      | None \<Rightarrow> NetBackend v)"

definition ResolvedNetBridgeDev :: "'a NetSetup_scheme \<Rightarrow> string" where
  "ResolvedNetBridgeDev v =
     (case firstNIC v of
        Some nic \<Rightarrow> cmp_Or [NetBridgeDev v, nc_BridgeDev nic]
      | None \<Rightarrow> NetBridgeDev v)"

definition ValidateNetworkConfigs :: "NetworkConfig option list \<Rightarrow> unit res" where
  "ValidateNetworkConfigs configs =
     (if None \<in> set configs then Inl (ErrMsg ''network config: nil'') else Inr ())"

definition StorageRoleLayer :: string where "StorageRoleLayer = ''layer''"

definition StorageRoleCOW :: string where "StorageRoleCOW = ''cow''"

definition StorageRoleCidata :: string where "StorageRoleCidata = ''cidata''"

definition StorageRoleData :: string where "StorageRoleData = ''data''"

definition FSTypeExt4 :: string where "FSTypeExt4 = ''ext4''"

definition FSTypeNone :: string where "FSTypeNone = ''none''"

definition MinDataDiskSize :: int where
  "MinDataDiskSize = push_bit 20 16"

definition validDataDiskFSType :: "string \<Rightarrow> bool" where
  "validDataDiskFSType t \<longleftrightarrow> t = FSTypeExt4 \<or> t = FSTypeNone"

definition ValidDataDiskName :: "string \<Rightarrow> bool" where
  "ValidDataDiskName s \<longleftrightarrow> dataDiskNameRe s \<and> \<not> has_prefix s ''cocoon-''"

text \<open>One iteration of the loop of \<open>ValidateStorageConfigs\<close>.\<close>

definition validate_storage :: "StorageConfig option \<Rightarrow> unit res" where
  "validate_storage osc =
     (case osc of
        None \<Rightarrow> Inl (ErrMsg ''storage config: nil'')
      | Some sc \<Rightarrow>
          (let data_checks =
             (if sc_Role sc \<noteq> StorageRoleData then
                (if sc_DirectIO sc \<noteq> None then Inl (ErrMsg ''direct_io only allowed on data disks'') else Inr ())
              else if \<not> validDataDiskFSType (sc_FSType sc) then Inl (ErrMsg ''fstype must be ext4 or none'')
              else if sc_FSType sc = FSTypeNone \<and> sc_MountPoint sc \<noteq> ''''
                then Inl (ErrMsg ''fstype=none requires mount_point empty'')
              else if sc_MountPoint sc \<noteq> '''' \<and> \<not> has_prefix (sc_MountPoint sc) ''/''
                then Inl (ErrMsg ''mount_point must be absolute'')
              else if sc_MountPoint sc \<noteq> '''' \<and> ContainsAny (sc_MountPoint sc) [char_of (0 :: nat), char_of (10 :: nat)]
                then Inl (ErrMsg ''mount_point contains forbidden characters'')
              else if \<not> ValidDataDiskName (sc_Serial sc) then Inl (ErrMsg ''serial does not match name rules'')
              else Inr ())
           in if sc_Role sc = StorageRoleLayer \<or> sc_Role sc = StorageRoleCidata then
                (if \<not> sc_RO sc then Inl (ErrMsg ''role requires RO=true'') else data_checks)
              else if sc_Role sc = StorageRoleCOW \<or> sc_Role sc = StorageRoleData then
                (if sc_RO sc then Inl (ErrMsg ''role requires RO=false'') else data_checks)
              else Inl (ErrMsg ''role must be one of layer/cow/cidata/data'')))"

fun ValidateStorageConfigs :: "StorageConfig option list \<Rightarrow> unit res" where
  "ValidateStorageConfigs [] = Inr ()"
| "ValidateStorageConfigs (sc # scs) =
     (case validate_storage sc of Inl e \<Rightarrow> Inl e | Inr _ \<Rightarrow> ValidateStorageConfigs scs)"

definition ParseDirectIO :: "string \<Rightarrow> bool option res" where
  "ParseDirectIO val =
     (if val = ''on'' then Inr (Some True)
      else if val = ''off'' then Inr (Some False)
      else if val = ''auto'' then Inr None
      else Inl (ErrMsg ''directio must be on/off/auto''))"

definition ParseSize :: "(string \<Rightarrow> int res) \<Rightarrow> string \<Rightarrow> int res" where
  "ParseSize ram s =
     (let s = TrimSpace s in ram (if HasSuffix (ToLower s) ''i'' then s @ ''B'' else s))"

definition data_disk_part :: "(string \<Rightarrow> int res) \<Rightarrow> string \<Rightarrow> DataDiskSpec \<Rightarrow> DataDiskSpec res" where
  "data_disk_part ram part spec =
     (case Cut (CHR ''='') part of (rawKey, rawVal, ok) \<Rightarrow>
        if \<not> ok then Inl (ErrMsg ''not key=value'')
        else
          (let key = TrimSpace rawKey; val = TrimSpace rawVal in
           if key = ''size'' then
             (case ParseSize ram val of
                Inl e \<Rightarrow> Inl e
              | Inr n \<Rightarrow> if n < MinDataDiskSize then Inl (ErrMsg ''size below the minimum'')
                         else Inr (spec\<lparr>dd_Size := n\<rparr>))
           else if key = ''name'' then
             (if \<not> ValidDataDiskName val then Inl (ErrMsg ''invalid name'') else Inr (spec\<lparr>dd_Name := val\<rparr>))
           else if key = ''fstype'' then
             (if \<not> validDataDiskFSType val then Inl (ErrMsg ''unsupported fstype'')
              else Inr (spec\<lparr>dd_FSType := val\<rparr>))
           else if key = ''mount'' then Inr (spec\<lparr>dd_MountPoint := val, dd_MountPointSet := True\<rparr>)
           else if key = ''directio'' then
             (case ParseDirectIO val of
                Inl e \<Rightarrow> Inl e
              | Inr dio \<Rightarrow> Inr (spec\<lparr>dd_DirectIO := dio\<rparr>))
           else Inl (ErrMsg ''unknown key'')))"

definition empty_spec :: DataDiskSpec where
  "empty_spec = \<lparr>dd_Name = '''', dd_Size = 0, dd_FSType = '''', dd_MountPoint = '''',
     dd_MountPointSet = False, dd_DirectIO = None\<rparr>"

definition ParseDataDiskSpec :: "(string \<Rightarrow> int res) \<Rightarrow> string \<Rightarrow> DataDiskSpec res" where
  "ParseDataDiskSpec ram s =
     (if s = '''' then Inl (ErrMsg ''empty spec'')
      else
        (case fold_res (data_disk_part ram) (SplitSeq (CHR '','') s) empty_spec of
           Inl e \<Rightarrow> Inl e
         | Inr spec \<Rightarrow> if dd_Size spec = 0 then Inl (ErrMsg ''size= required'') else Inr spec))"

section \<open>Queue sizes\<close>

lemma and_pred_even: "(2 * n) AND (2 * n - 1) = 2 * (n AND (n - 1 :: int))"
proof -
  have "(2 * n - 1) div 2 = n - 1" by simp
  then show ?thesis by (simp add: and_int_rec [of "2 * n"])
qed

lemma and_pred_odd: "(2 * n + 1) AND (2 * n + 1 - 1) = 2 * (n :: int)"
  by (simp add: and_int_rec [of "2 * n + 1"])

lemma and_pred_zero_iff: "0 < n \<Longrightarrow> (int n AND (int n - 1)) = 0 \<longleftrightarrow> (\<exists>k. n = 2 ^ k)"
proof (induction n rule: less_induct)
  case (less n)
  show ?case
  proof (cases "even n")
    case True
    then obtain m where n: "n = 2 * m" by blast
    with less.prems have m: "m < n" "0 < m" by auto
    have "(int n AND (int n - 1)) = 0 \<longleftrightarrow> (int m AND (int m - 1)) = 0"
      unfolding n of_nat_mult of_nat_numeral and_pred_even by simp
    also have "\<dots> \<longleftrightarrow> (\<exists>k. m = 2 ^ k)" by (rule less.IH [OF m])
    also have "\<dots> \<longleftrightarrow> (\<exists>k. n = 2 ^ k)"
    proof
      assume "\<exists>k. m = 2 ^ k"
      then obtain k where "m = 2 ^ k" by blast
      then have "n = 2 ^ Suc k" by (simp add: n)
      then show "\<exists>k. n = 2 ^ k" by blast
    next
      assume "\<exists>k. n = 2 ^ k"
      then obtain k where k: "n = 2 ^ k" by blast
      then obtain j where "k = Suc j" using True by (cases k) auto
      with k n show "\<exists>k. m = 2 ^ k" by auto
    qed
    finally show ?thesis .
  next
    case False
    then obtain m where n: "n = 2 * m + 1" using oddE by blast
    have "(int n AND (int n - 1)) = 2 * int m" using and_pred_odd [of "int m"] n by (simp add: add.commute)
    moreover have "m = 0 \<longleftrightarrow> (\<exists>k. n = 2 ^ k)"
    proof
      assume "m = 0"
      then show "\<exists>k. n = 2 ^ k" using n by (intro exI [of _ 0]) simp
    next
      assume "\<exists>k. n = 2 ^ k"
      then obtain k where "n = 2 ^ k" by blast
      then have "k = 0" using False by (cases k) auto
      with \<open>n = 2 ^ k\<close> n show "m = 0" by simp
    qed
    ultimately show ?thesis by simp
  qed
qed

lemma validateQueueSize_iff:
  "validateQueueSize flag n = Inr () \<longleftrightarrow> n = 0 \<or> (\<exists>k \<le> 15. n = 2 ^ k)"
proof (cases "0 < n \<and> n \<le> 32768")
  case True
  define m where "m = nat n"
  have m: "n = int m" "0 < m" "m \<le> 2 ^ 15" using True by (simp_all add: m_def nat_le_iff)
  have "validateQueueSize flag n = Inr () \<longleftrightarrow> (\<exists>k. m = 2 ^ k)"
    using m and_pred_zero_iff [OF m(2)] by (simp add: validateQueueSize_def maxQueueSize_def)
  also have "\<dots> \<longleftrightarrow> (\<exists>k \<le> 15. m = 2 ^ k)"
  proof
    assume "\<exists>k. m = 2 ^ k"
    then obtain k where k: "m = 2 ^ k" by blast
    then have "k \<le> 15" using m(3) power_le_imp_le_exp [of "2 :: nat" k 15] by simp
    with k show "\<exists>k \<le> 15. m = 2 ^ k" by blast
  qed blast
  finally have "validateQueueSize flag n = Inr () \<longleftrightarrow> (\<exists>k \<le> 15. m = 2 ^ k)" .
  moreover have "n = 2 ^ k \<longleftrightarrow> m = 2 ^ k" for k
    unfolding m(1) by (metis of_nat_eq_iff of_nat_numeral of_nat_power)
  ultimately show ?thesis using True by (simp only:) blast
next
  case False
  have big: "n \<noteq> 2 ^ k" if "k \<le> 15" "n > 32768" for k
    using power_increasing [OF that(1), of "2 :: int"] that(2) by simp
  have neg: "n \<noteq> 2 ^ k" if "n < 0" for k
    using zero_le_power [of "2 :: int" k] that by linarith
  consider "n < 0" | "n = 0" | "n > 32768" using False by linarith
  then show ?thesis
  proof cases
    case 1
    then have "validateQueueSize flag n \<noteq> Inr ()" by (simp add: validateQueueSize_def)
    with 1 neg show ?thesis by blast
  next
    case 2
    then show ?thesis by (simp add: validateQueueSize_def)
  next
    case 3
    then have "validateQueueSize flag n \<noteq> Inr ()" by (simp add: validateQueueSize_def maxQueueSize_def)
    with 3 big show ?thesis by force
  qed
qed

section \<open>Storage configurations\<close>

definition storage_ok :: "StorageConfig \<Rightarrow> bool" where
  "storage_ok sc \<longleftrightarrow>
     sc_RO sc = (sc_Role sc \<in> {StorageRoleLayer, StorageRoleCidata}) \<and>
     sc_Role sc \<in> {StorageRoleLayer, StorageRoleCidata, StorageRoleCOW, StorageRoleData} \<and>
     (sc_Role sc \<noteq> StorageRoleData \<longrightarrow> sc_DirectIO sc = None) \<and>
     (sc_Role sc = StorageRoleData \<longrightarrow>
        ValidDataDiskName (sc_Serial sc) \<and> sc_FSType sc \<in> {FSTypeExt4, FSTypeNone} \<and>
        (sc_MountPoint sc \<noteq> '''' \<longrightarrow>
           sc_FSType sc = FSTypeExt4 \<and> has_prefix (sc_MountPoint sc) ''/'' \<and>
           (\<forall>c \<in> set (sc_MountPoint sc). of_char c \<noteq> (0 :: nat) \<and> of_char c \<noteq> (10 :: nat))))"

lemma roles_distinct [simp]:
  "StorageRoleLayer \<noteq> StorageRoleCOW" "StorageRoleLayer \<noteq> StorageRoleData" "StorageRoleLayer \<noteq> StorageRoleCidata"
  "StorageRoleCOW \<noteq> StorageRoleLayer" "StorageRoleCOW \<noteq> StorageRoleData" "StorageRoleCOW \<noteq> StorageRoleCidata"
  "StorageRoleData \<noteq> StorageRoleLayer" "StorageRoleData \<noteq> StorageRoleCOW" "StorageRoleData \<noteq> StorageRoleCidata"
  "StorageRoleCidata \<noteq> StorageRoleLayer" "StorageRoleCidata \<noteq> StorageRoleCOW" "StorageRoleCidata \<noteq> StorageRoleData"
  by (simp_all add: StorageRoleLayer_def StorageRoleCOW_def StorageRoleCidata_def StorageRoleData_def)

lemma fstypes_distinct [simp]: "FSTypeExt4 \<noteq> FSTypeNone" "FSTypeNone \<noteq> FSTypeExt4"
  by (simp_all add: FSTypeExt4_def FSTypeNone_def)

lemma char_of_code: "c = char_of n \<longleftrightarrow> of_char c = n" if "n < 256" for n :: nat
  using that by (auto simp: of_char_of take_bit_eq_mod)

lemma ContainsAny_forbidden:
  "ContainsAny s [char_of (0 :: nat), char_of (10 :: nat)] \<longleftrightarrow>
     \<not> (\<forall>c \<in> set s. of_char c \<noteq> (0 :: nat) \<and> of_char c \<noteq> (10 :: nat))"
  by (auto simp: ContainsAny_def list_ex_iff char_of_code)

lemma validate_storage_iff: "validate_storage (Some sc) = Inr () \<longleftrightarrow> storage_ok sc"
proof -
  consider "sc_Role sc = StorageRoleLayer" | "sc_Role sc = StorageRoleCidata" | "sc_Role sc = StorageRoleCOW"
    | "sc_Role sc = StorageRoleData"
    | "sc_Role sc \<notin> {StorageRoleLayer, StorageRoleCidata, StorageRoleCOW, StorageRoleData}"
    by blast
  then show ?thesis
    by cases (auto simp: validate_storage_def storage_ok_def ContainsAny_forbidden validDataDiskFSType_def Let_def)
qed

lemma ValidateStorageConfigs_iff:
  "ValidateStorageConfigs scs = Inr () \<longleftrightarrow> (\<forall>x \<in> set scs. \<exists>sc. x = Some sc \<and> storage_ok sc)"
proof (induction scs)
  case Nil
  show ?case by simp
next
  case (Cons x scs)
  have "validate_storage x = Inr () \<longleftrightarrow> (\<exists>sc. x = Some sc \<and> storage_ok sc)"
    by (cases x) (simp_all add: validate_storage_iff, simp add: validate_storage_def)
  with Cons show ?case by (auto split: sum.splits)
qed

section \<open>Data disk flags\<close>

definition spec_ok :: "DataDiskSpec \<Rightarrow> bool" where
  "spec_ok spec \<longleftrightarrow>
     (dd_Size spec = 0 \<or> MinDataDiskSize \<le> dd_Size spec) \<and>
     (dd_Name spec = '''' \<or> ValidDataDiskName (dd_Name spec)) \<and>
     (dd_FSType spec = '''' \<or> validDataDiskFSType (dd_FSType spec)) \<and>
     (dd_MountPoint spec \<noteq> '''' \<longrightarrow> dd_MountPointSet spec)"

lemma data_disk_part_ok: "data_disk_part ram part spec = Inr spec' \<Longrightarrow> spec_ok spec \<Longrightarrow> spec_ok spec'"
  by (simp only: data_disk_part_def Let_def split: prod.split_asm if_split_asm sum.split_asm)
    (simp_all add: spec_ok_def, auto)

lemma ParseDataDiskSpec_ok:
  assumes "ParseDataDiskSpec ram s = Inr spec"
  shows "spec_ok spec" and "dd_Size spec \<noteq> 0"
proof -
  from assms have "fold_res (data_disk_part ram) (SplitSeq (CHR '','') s) empty_spec = Inr spec"
    and "dd_Size spec \<noteq> 0"
    by (auto simp: ParseDataDiskSpec_def split: if_splits sum.splits)
  moreover have "spec_ok empty_spec" by (simp add: spec_ok_def empty_spec_def)
  ultimately show "spec_ok spec" "dd_Size spec \<noteq> 0"
    using fold_res_invariant [of "data_disk_part ram" _ empty_spec spec spec_ok] data_disk_part_ok by blast+
qed

text \<open>The pieces of a split have no separator and join back to the string.\<close>

fun joined :: "char \<Rightarrow> string list \<Rightarrow> string" where
  "joined sep [] = ''''"
| "joined sep [p] = p"
| "joined sep (p # ps) = p @ sep # joined sep ps"

lemma SplitSeq_ne: "SplitSeq sep s \<noteq> []"
  by (cases s) (auto split: list.splits)

lemma joined_Cons: "ps \<noteq> [] \<Longrightarrow> joined sep (p # ps) = p @ sep # joined sep ps"
  by (cases ps) auto

lemma joined_head: "joined sep ((c # p) # ps) = c # joined sep (p # ps)"
  by (cases ps) auto

lemma joined_SplitSeq: "joined sep (SplitSeq sep s) = s"
  using SplitSeq_ne
  by (induction sep s rule: SplitSeq.induct) (auto simp: joined_Cons joined_head split: list.splits)

lemma SplitSeq_pieces: "p \<in> set (SplitSeq sep s) \<Longrightarrow> sep \<notin> set p"
  by (induction sep s arbitrary: p rule: SplitSeq.induct) (auto split: list.splits if_splits)

lemma SplitSeq_append: "SplitSeq sep (a @ sep # b) = SplitSeq sep a @ SplitSeq sep b"
proof (induction a)
  case (Cons c a)
  have "SplitSeq sep a \<noteq> []" by (rule SplitSeq_ne)
  with Cons show ?case by (auto split: list.splits)
qed simp

lemma SplitSeq_absent: "sep \<notin> set p \<Longrightarrow> SplitSeq sep p = [p]"
  by (induction p) auto

lemma SplitSeq_joined: "ps \<noteq> [] \<Longrightarrow> (\<And>p. p \<in> set ps \<Longrightarrow> sep \<notin> set p) \<Longrightarrow> SplitSeq sep (joined sep ps) = ps"
  by (induction sep ps rule: joined.induct) (auto simp: SplitSeq_append SplitSeq_absent)

lemma Cut_found: "Cut sep s = (a, b, True) \<Longrightarrow> s = a @ sep # b \<and> sep \<notin> set a"
  by (induction s arbitrary: a) (auto split: prod.splits if_splits)

lemma Cut_append: "sep \<notin> set a \<Longrightarrow> Cut sep (a @ sep # b) = (a, b, True)"
  by (induction a) auto

section \<open>Properties\<close>

text \<open>
  A queue size is accepted exactly when it is 0 (the default) or a power of two up to 32768;
  \<open>size & (size - 1)\<close> is a test for powers of two.
\<close>

theorem queue_size_accepted:
  "validateQueueSize flag n = Inr () \<longleftrightarrow> n = 0 \<or> (\<exists>k \<le> 15. n = 2 ^ k)"
  by (rule validateQueueSize_iff)

text \<open>
  C25. \<open>VMConfig.Validate\<close> accepts exactly the configurations within range: a legal name, at least
  one CPU, 512 MiB and 10 GiB, legal queue sizes, no mergeable memory on huge pages or shared
  memory, a legal user name and a password free of shell and YAML characters when given.
\<close>

theorem vm_config_accepted:
  "VMConfig_Validate cfg = Inr () \<longleftrightarrow>
     validName (Name cfg) \<and> 1 \<le> CPU cfg \<and> 536870912 \<le> Memory cfg \<and> 10737418240 \<le> Storage cfg \<and>
     (QueueSize cfg = 0 \<or> (\<exists>k \<le> 15. QueueSize cfg = 2 ^ k)) \<and>
     (DiskQueueSize cfg = 0 \<or> (\<exists>k \<le> 15. DiskQueueSize cfg = 2 ^ k)) \<and>
     \<not> (Mergeable cfg \<and> (HugePages cfg \<or> SharedMemory cfg)) \<and>
     (User cfg = '''' \<or> validUsername (User cfg)) \<and> \<not> shellUnsafe (Password cfg)"
proof -
  have name: "validName s \<longleftrightarrow> s \<noteq> '''' \<and> validName s" for s by (auto simp: validName_def)
  have pw: "shellUnsafe s \<longleftrightarrow> s \<noteq> '''' \<and> shellUnsafe s" for s by (auto simp: shellUnsafe_def)
  have pb: "push_bit 20 (512 :: int) = 536870912" "push_bit 30 (10 :: int) = 10737418240"
    by (simp_all add: push_bit_eq_mult)
  have step: "(case r of Inl e \<Rightarrow> Inl e | Inr _ \<Rightarrow> q) = Inr () \<longleftrightarrow> r = Inr () \<and> q = Inr ()" for r q :: "unit res"
    by (cases r) auto
  have guard: "(if c then Inl e else q) = Inr () \<longleftrightarrow> \<not> c \<and> q = Inr ()" for c and e :: err and q :: "unit res"
    by simp
  have "VMConfig_Validate cfg = Inr () \<longleftrightarrow>
     Name cfg \<noteq> '''' \<and> validName (Name cfg) \<and> \<not> CPU cfg \<le> 0 \<and> \<not> Memory cfg < 536870912 \<and>
     \<not> Storage cfg < 10737418240 \<and> validateQueueSize ''--queue-size'' (QueueSize cfg) = Inr () \<and>
     validateQueueSize ''--disk-queue-size'' (DiskQueueSize cfg) = Inr () \<and>
     \<not> (Mergeable cfg \<and> (HugePages cfg \<or> SharedMemory cfg)) \<and>
     \<not> (User cfg \<noteq> '''' \<and> \<not> validUsername (User cfg)) \<and> \<not> (Password cfg \<noteq> '''' \<and> shellUnsafe (Password cfg))"
    unfolding VMConfig_Validate_def pb guard step by blast
  then show ?thesis
    unfolding validateQueueSize_iff using name [of "Name cfg"] pw [of "Password cfg"] by (simp only: not_le not_less) (simp only: int_one_le_iff_zero_less, blast)
qed

text \<open>
  C26. \<open>ValidateStorageConfigs\<close> accepts exactly the lists without nil in which every disk keeps the
  rules of its role: layers and cidata read-only, COW and data disks writable, direct I/O and mount
  points on data disks only, with a legal name, file system and absolute mount point.
\<close>

theorem storage_configs_accepted:
  "ValidateStorageConfigs scs = Inr () \<longleftrightarrow> list_all (\<lambda>x. \<exists>sc. x = Some sc \<and> storage_ok sc) scs"
  unfolding ValidateStorageConfigs_iff list_all_iff ..



end
