(* ===== verification/Fat12.thy ===== *)
theory Fat12
  imports Types "HOL-Library.Multiset"
begin

text \<open>
  The FAT12 image builder of \<open>src/metadata/fat12.go\<close>, which writes the cloud-init disk of a VM.
  A byte is an 8-bit word and a buffer is a list of bytes; a slice written in place
  (\<open>dst[a:b]\<close>) is spliced back. The calendar fields of \<open>time.Now\<close> and its nanoseconds are
  arguments. \<open>writeTo\<close> gives the bytes that reach a writer that accepts them. Names are ASCII, so
  that a rune, its UTF-16 code unit and its byte have the same value.

  The last section defines how an image is read (the FAT chain of a file, its directory entry and
  its long name) and proves that every file written is read back.
\<close>

section \<open>Buffers\<close>

type_synonym byte = "8 word"

definition bytes_of :: "string \<Rightarrow> byte list" where
  "bytes_of s = map of_char s"

text \<open>\<open>copy(dst[off:], src)\<close>.\<close>

definition copy_at :: "'a list \<Rightarrow> nat \<Rightarrow> 'a list \<Rightarrow> 'a list" where
  "copy_at dst off src = take off dst @ take (length dst - off) src @ drop (off + length src) dst"

definition put16 :: "byte list \<Rightarrow> nat \<Rightarrow> 16 word \<Rightarrow> byte list" where
  "put16 xs off v = xs[off := ucast v, off + 1 := ucast (drop_bit 8 v)]"

definition put32 :: "byte list \<Rightarrow> nat \<Rightarrow> 32 word \<Rightarrow> byte list" where
  "put32 xs off v =
     xs[off := ucast v, off + 1 := ucast (drop_bit 8 v), off + 2 := ucast (drop_bit 16 v),
        off + 3 := ucast (drop_bit 24 v)]"

fun chunks :: "nat \<Rightarrow> 'a list \<Rightarrow> 'a list list" where
  "chunks n xs = (if xs = [] \<or> n = 0 then [] else take n xs # chunks n (drop n xs))"

declare chunks.simps [simp del]

section \<open>Geometry\<close>

definition sectorSize :: nat where "sectorSize = 512"

definition totalSectors :: nat where "totalSectors = 2048"

definition sectorsPerClus :: nat where "sectorsPerClus = 1"

definition reservedSec :: nat where "reservedSec = 1"

definition numFATs :: nat where "numFATs = 2"

definition sectorsPerFAT :: nat where "sectorsPerFAT = 6"

definition rootEntryCount :: nat where "rootEntryCount = 128"

definition dirEntrySize :: nat where "dirEntrySize = 32"

definition rootDirSectors :: nat where
  "rootDirSectors = rootEntryCount * dirEntrySize div sectorSize"

definition firstDataSec :: nat where
  "firstDataSec = reservedSec + numFATs * sectorsPerFAT + rootDirSectors"

definition fatEntryEOC :: "16 word" where "fatEntryEOC = 0xFFF"

definition mediaDesc :: byte where "mediaDesc = 0xF8"

lemmas geometry = sectorSize_def totalSectors_def sectorsPerClus_def reservedSec_def numFATs_def
  sectorsPerFAT_def rootEntryCount_def dirEntrySize_def rootDirSectors_def firstDataSec_def

section \<open>Names\<close>

definition upper_char :: "char \<Rightarrow> char" where
  "upper_char c = (if is_lower c then char_of (of_char c - 32 :: nat) else c)"

definition ToUpper :: "string \<Rightarrow> string" where
  "ToUpper = map upper_char"

definition splitName :: "string \<Rightarrow> string \<times> string" where
  "splitName upper =
     (case CutLast (CHR ''.'') upper of
        (base, ext, True) \<Rightarrow> (base, ext)
      | (_, _, False) \<Rightarrow> (upper, ''''))"

definition needsLFN :: "string \<Rightarrow> bool" where
  "needsLFN name =
     (let upper = ToUpper name; (base, ext) = splitName upper
      in 8 < length base \<or> 3 < length ext \<or> name \<noteq> upper \<or> 1 < count_list name (CHR ''.''))"

definition blankSFN :: "byte list" where
  "blankSFN = replicate 11 32"

definition toShortName :: "string \<Rightarrow> byte list" where
  "toShortName name =
     (let (base, ext) = splitName (ToUpper name);
          result = copy_at blankSFN 0 (take 8 (bytes_of base))
      in copy_at result 8 (bytes_of ext))"

definition generateShortName :: "string \<Rightarrow> nat \<Rightarrow> byte list" where
  "generateShortName name seq =
     (let (base, ext) = splitName (ToUpper name);
          base = filter (\<lambda>c. c \<noteq> CHR ''.'') base;
          tail = CHR ''~'' # itoa seq;
          maxBase = 8 - length tail;
          result = copy_at blankSFN 0 (take 8 (bytes_of (take maxBase base @ tail)))
      in copy_at result 8 (bytes_of ext))"

definition lfnChecksum :: "byte list \<Rightarrow> byte" where
  "lfnChecksum shortName = fold (\<lambda>b sum. ((drop_bit 1 sum) OR (push_bit 7 sum)) + b) shortName 0"

definition putLFNChars :: "byte list \<Rightarrow> 16 word list \<Rightarrow> nat \<Rightarrow> nat \<Rightarrow> byte list" where
  "putLFNChars dst runes offset cnt =
     fold (\<lambda>j dst.
       (let idx = offset + j; pos = j * 2
        in if idx < length runes then put16 dst pos (runes ! idx)
           else if idx = length runes then dst
           else put16 dst pos 0xFFFF)) [0..<cnt] dst"

text \<open>\<open>putLFNChars(entry[a:b], ...)\<close> writes through the slice.\<close>

definition put_slots :: "byte list \<Rightarrow> nat \<Rightarrow> nat \<Rightarrow> 16 word list \<Rightarrow> nat \<Rightarrow> nat \<Rightarrow> byte list" where
  "put_slots entry a b runes offset cnt =
     copy_at entry a (putLFNChars (take (b - a) (drop a entry)) runes offset cnt)"

definition lfn_entry :: "16 word list \<Rightarrow> byte \<Rightarrow> nat \<Rightarrow> nat \<Rightarrow> byte list" where
  "lfn_entry runes chksum numEntries i =
     (let entry = replicate dirEntrySize 0;
          seq = (of_nat (i + 1) :: byte);
          seq = (if i = numEntries - 1 then seq OR 0x40 else seq);
          entry = entry[0 := seq, 11 := 0x0F, 13 := chksum];
          base = i * 13;
          entry = put_slots entry 1 11 runes base 5;
          entry = put_slots entry 14 26 runes (base + 5) 6
      in put_slots entry 28 32 runes (base + 11) 2)"

definition makeLFNEntries :: "string \<Rightarrow> byte list \<Rightarrow> byte list list" where
  "makeLFNEntries name shortName =
     (let runes = map of_char name;
          chksum = lfnChecksum shortName;
          numEntries = (length runes + 12) div 13
      in rev (map (lfn_entry runes chksum numEntries) [0..<numEntries]))"

definition padLabel :: "string \<Rightarrow> byte list" where
  "padLabel label = copy_at blankSFN 0 (bytes_of (ToUpper label))"

section \<open>Times\<close>

record caltime =
  Year :: int
  Month :: int
  Day :: int
  Hour :: int
  Minute :: int
  Second :: int
  UnixNano :: int

definition encodeFATDateTime :: "caltime \<Rightarrow> 16 word \<times> 16 word" where
  "encodeFATDateTime t =
     (word_of_int (push_bit 9 (Year t - 1980)) OR word_of_int (push_bit 5 (Month t)) OR word_of_int (Day t),
      word_of_int (push_bit 11 (Hour t)) OR word_of_int (push_bit 5 (Minute t)) OR word_of_int (Second t div 2))"

definition putTimestamps :: "byte list \<Rightarrow> nat \<Rightarrow> caltime \<Rightarrow> byte list" where
  "putTimestamps dir off t =
     (case encodeFATDateTime t of (date, tm) \<Rightarrow>
        put16 (put16 (put16 (put16 (put16 dir (off + 14) tm) (off + 16) date) (off + 18) date)
          (off + 22) tm) (off + 24) date)"

section \<open>The builder\<close>

record fat12Builder =
  fb_label :: string
  fb_fat :: "byte list"
  fb_rootDir :: "byte list"
  fb_data :: "byte list list"
  fb_nextCluster :: "16 word"
  fb_rootUsed :: nat
  fb_shortSeq :: nat

definition setFATEntry :: "byte list \<Rightarrow> nat \<Rightarrow> 16 word \<Rightarrow> byte list" where
  "setFATEntry fat cluster val =
     (let off = cluster + cluster div 2;
          word = (ucast (fat ! off) :: 16 word) OR push_bit 8 (ucast (fat ! (off + 1)));
          word = (if cluster mod 2 = 0 then (word AND 0xF000) OR (val AND 0x0FFF)
                  else (word AND 0x000F) OR push_bit 4 (val AND 0x0FFF))
      in fat[off := ucast word, off + 1 := ucast (drop_bit 8 word)])"

definition writeDirEntry :: "fat12Builder \<Rightarrow> byte list \<Rightarrow> (nat \<times> fat12Builder) res" where
  "writeDirEntry b entry =
     (if fb_rootUsed b \<ge> rootEntryCount then Inl (ErrMsg ''fat12: root directory full'')
      else
        (let off = fb_rootUsed b * dirEntrySize
         in Inr (off, b\<lparr>fb_rootDir := copy_at (fb_rootDir b) off entry, fb_rootUsed := fb_rootUsed b + 1\<rparr>)))"

definition addVolumeLabel :: "caltime \<Rightarrow> fat12Builder \<Rightarrow> fat12Builder" where
  "addVolumeLabel now b =
     (case writeDirEntry b (padLabel (fb_label b)) of
        Inl _ \<Rightarrow> b
      | Inr (off, b) \<Rightarrow>
          b\<lparr>fb_rootDir := putTimestamps ((fb_rootDir b)[off + 11 := 0x08]) off now\<rparr>)"

definition newFAT12Builder :: "caltime \<Rightarrow> string \<Rightarrow> fat12Builder" where
  "newFAT12Builder now label =
     (let fat = setFATEntry (replicate (sectorsPerFAT * sectorSize) 0) 0 0xFF8;
          fat = setFATEntry fat 1 fatEntryEOC
      in addVolumeLabel now
           \<lparr>fb_label = label, fb_fat = fat, fb_rootDir = replicate (rootEntryCount * dirEntrySize) 0,
            fb_data = [], fb_nextCluster = 2, fb_rootUsed = 0, fb_shortSeq = 0\<rparr>)"

text \<open>The loop that links \<open>n\<close> clusters from \<open>c0\<close> on.\<close>

definition link_clusters :: "byte list \<Rightarrow> nat \<Rightarrow> nat \<Rightarrow> byte list" where
  "link_clusters fat c0 n =
     fold (\<lambda>i fat. setFATEntry fat (c0 + i) (if i = n - 1 then fatEntryEOC else of_nat (c0 + i + 1)))
       [0..<n] fat"

definition alloc_clusters :: "fat12Builder \<Rightarrow> byte list \<Rightarrow> (16 word \<times> fat12Builder) res" where
  "alloc_clusters b content =
     (let n = (length content + sectorSize - 1) div sectorSize
      in if n > 0 then
           (if unat (fb_nextCluster b) + n > (totalSectors - firstDataSec) + 2
            then Inl (ErrMsg ''fat12: not enough space'')
            else Inr (fb_nextCluster b,
              b\<lparr>fb_fat := link_clusters (fb_fat b) (unat (fb_nextCluster b)) n,
                fb_data := fb_data b @ [content],
                fb_nextCluster := fb_nextCluster b + of_nat n\<rparr>))
         else Inr (0, b))"

fun write_entries :: "fat12Builder \<Rightarrow> byte list list \<Rightarrow> fat12Builder res" where
  "write_entries b [] = Inr b"
| "write_entries b (e # es) =
     (case writeDirEntry b e of Inl err \<Rightarrow> Inl err | Inr (_, b') \<Rightarrow> write_entries b' es)"

text \<open>The name part of \<open>addFile\<close>: the short name, after its long-name entries if it needs any.\<close>

definition name_entries :: "fat12Builder \<Rightarrow> string \<Rightarrow> (byte list \<times> fat12Builder) res" where
  "name_entries b name =
     (if needsLFN name then
        (let b = b\<lparr>fb_shortSeq := fb_shortSeq b + 1\<rparr>;
             shortName = generateShortName name (fb_shortSeq b)
         in case write_entries b (makeLFNEntries name shortName) of
              Inl e \<Rightarrow> Inl e
            | Inr b \<Rightarrow> Inr (shortName, b))
      else Inr (toShortName name, b))"

definition addFile :: "caltime \<Rightarrow> string \<Rightarrow> byte list \<Rightarrow> fat12Builder \<Rightarrow> fat12Builder res" where
  "addFile now name content b =
     (case alloc_clusters b content of
        Inl e \<Rightarrow> Inl e
      | Inr (startCluster, b) \<Rightarrow>
          (case name_entries b name of
             Inl e \<Rightarrow> Inl e
           | Inr (shortName, b) \<Rightarrow>
               (case writeDirEntry b shortName of
                  Inl e \<Rightarrow> Inl e
                | Inr (off, b) \<Rightarrow>
                    (let dir = (fb_rootDir b)[off + 11 := 0x20];
                         dir = putTimestamps dir off now;
                         dir = put16 dir (off + 26) startCluster;
                         dir = put32 dir (off + 28) (of_nat (length content))
                     in Inr (b\<lparr>fb_rootDir := dir\<rparr>)))))"

definition makeBootSector :: "caltime \<Rightarrow> fat12Builder \<Rightarrow> byte list" where
  "makeBootSector now b =
     (let boot = replicate sectorSize 0;
          boot = boot[0 := 0xEB, 1 := 0x3C, 2 := 0x90];
          boot = copy_at boot 3 (bytes_of ''COCOON  '');
          boot = put16 boot 11 (of_nat sectorSize);
          boot = boot[13 := of_nat sectorsPerClus];
          boot = put16 boot 14 (of_nat reservedSec);
          boot = boot[16 := of_nat numFATs];
          boot = put16 boot 17 (of_nat rootEntryCount);
          boot = put16 boot 19 (of_nat totalSectors);
          boot = boot[21 := mediaDesc];
          boot = put16 boot 22 (of_nat sectorsPerFAT);
          boot = put16 boot 24 32;
          boot = put16 boot 26 64;
          boot = boot[36 := 0x80];
          boot = boot[38 := 0x29];
          boot = put32 boot 39 (word_of_int (UnixNano now));
          boot = copy_at boot 43 (padLabel (fb_label b));
          boot = copy_at boot 54 (bytes_of ''FAT12   '')
      in boot[510 := 0x55, 511 := 0xAA])"

definition data_sectors :: "byte list \<Rightarrow> byte list" where
  "data_sectors content =
     concat (map (\<lambda>chunk. copy_at (replicate sectorSize 0) 0 chunk) (chunks sectorSize content))"

definition writeTo :: "caltime \<Rightarrow> fat12Builder \<Rightarrow> byte list" where
  "writeTo now b =
     makeBootSector now b @ concat (replicate numFATs (fb_fat b)) @ fb_rootDir b @
     concat (map data_sectors (fb_data b)) @
     concat (replicate (totalSectors - firstDataSec - (unat (fb_nextCluster b) - 2)) (replicate sectorSize 0))"

fun add_files :: "caltime \<Rightarrow> (string \<times> byte list) list \<Rightarrow> fat12Builder \<Rightarrow> fat12Builder res" where
  "add_files now [] b = Inr b"
| "add_files now ((name, content) # fs) b =
     (case addFile now name content b of Inl e \<Rightarrow> Inl e | Inr b' \<Rightarrow> add_files now fs b')"

text \<open>\<open>CreateFAT12\<close>: the files in the order of their sorted names.\<close>

definition CreateFAT12 :: "caltime \<Rightarrow> string \<Rightarrow> byte list tbl \<Rightarrow> byte list res" where
  "CreateFAT12 now label files =
     (case add_files now (rows_of (tget files) (sort (ids_of files))) (newFAT12Builder now label) of
        Inl e \<Rightarrow> Inl e
      | Inr b \<Rightarrow> Inr (writeTo now b))"

section \<open>Reading an image\<close>

definition get16 :: "byte list \<Rightarrow> nat \<Rightarrow> 16 word" where
  "get16 xs off = ucast (xs ! off) OR push_bit 8 (ucast (xs ! (off + 1)))"

definition get32 :: "byte list \<Rightarrow> nat \<Rightarrow> 32 word" where
  "get32 xs off =
     ucast (xs ! off) OR push_bit 8 (ucast (xs ! (off + 1))) OR push_bit 16 (ucast (xs ! (off + 2))) OR
     push_bit 24 (ucast (xs ! (off + 3)))"

definition getFATEntry :: "byte list \<Rightarrow> nat \<Rightarrow> 16 word" where
  "getFATEntry fat c =
     (let w = get16 fat (c + c div 2) in if c mod 2 = 0 then w AND 0xFFF else drop_bit 4 w)"

section \<open>FAT entries\<close>

lemma fat_masks: "(0xFFF :: 16 word) = mask 12" "(0xF000 :: 16 word) = push_bit 12 (mask 4)" "(0xF :: 16 word) = mask 4"
  by (simp_all add: mask_eq_exp_minus_1 push_bit_eq_mult)

lemma join16: "(ucast (ucast w :: byte) :: 16 word) OR push_bit 8 (ucast (ucast (drop_bit 8 w) :: byte)) = w"
  by (rule bit_word_eqI) (auto simp: bit_simps)

lemma get16_put16: "off + 1 < length xs \<Longrightarrow> get16 (put16 xs off v) off = v"
  by (simp add: get16_def put16_def nth_list_update join16)

lemma get16_put16_other: "off + 2 \<le> p \<or> p + 2 \<le> off \<Longrightarrow> get16 (put16 xs off v) p = get16 xs p"
  by (auto simp: get16_def put16_def)

lemma setFATEntry_alt:
  "setFATEntry fat c v =
     (let w = get16 fat (c + c div 2)
      in put16 fat (c + c div 2)
           (if c mod 2 = 0 then (w AND 0xF000) OR (v AND 0xFFF) else (w AND 0xF) OR push_bit 4 (v AND 0xFFF)))"
  by (simp add: setFATEntry_def get16_def put16_def Let_def)

lemma length_setFATEntry [simp]: "length (setFATEntry fat c v) = length fat"
  by (simp add: setFATEntry_def Let_def)

lemma get_set_same:
  assumes "c + c div 2 + 1 < length fat"
  shows "getFATEntry (setFATEntry fat c v) c = v AND 0xFFF"
proof (cases "c mod 2 = 0")
  case True
  with assms show ?thesis unfolding fat_masks
    by (simp add: getFATEntry_def setFATEntry_alt Let_def get16_put16 fat_masks)
      (rule bit_word_eqI, auto simp: bit_simps)
next
  case False
  with assms show ?thesis unfolding fat_masks
    by (simp add: getFATEntry_def setFATEntry_alt Let_def get16_put16 fat_masks)
      (rule bit_word_eqI, auto simp: bit_simps)
qed

lemma get16_overlap:
  assumes "off + 1 < length xs" "p = off + 1"
  shows "get16 (put16 xs off v) p = (get16 xs p AND (push_bit 8 (mask 8))) OR drop_bit 8 v"
  using assms by (simp add: get16_def put16_def) (rule bit_word_eqI, auto simp: bit_simps dest: bit_imp_le_length)

lemma get16_overlap_down:
  assumes "p + 2 < length xs"
  shows "get16 (put16 xs (p + 1) v) p = (get16 xs p AND mask 8) OR push_bit 8 v"
  using assms by (simp add: get16_def put16_def nth_list_update) (rule bit_word_eqI, auto simp: bit_simps dest: bit_imp_le_length)

lemma pair_cases:
  assumes "c \<noteq> (d :: nat)"
  shows "(c + c div 2 + 2 \<le> d + d div 2 \<or> d + d div 2 + 2 \<le> c + c div 2) \<or>
    (\<exists>k. c = 2 * k \<and> d = 2 * k + 1) \<or> (\<exists>k. c = 2 * k + 1 \<and> d = 2 * k)"
proof (cases "c div 2 = d div 2")
  case True
  have c: "c = 2 * (c div 2) + c mod 2" by simp
  have "d = 2 * (d div 2) + d mod 2" by simp
  with c True have cd: "c = 2 * (c div 2) + c mod 2" "d = 2 * (c div 2) + d mod 2" by simp_all
  have "c mod 2 = 0 \<and> d mod 2 = 1 \<or> c mod 2 = 1 \<and> d mod 2 = 0"
    using cd assms by (metis mod2_eq_if)
  with cd show ?thesis by (metis add_0_right)
next
  case False
  then show ?thesis by linarith
qed

lemma pair_offsets: "2 * k + 2 * k div 2 = 3 * k" "2 * k + 1 + (2 * k + 1) div 2 = 3 * k + (1 :: nat)"
  by simp_all

lemma getFATEntry_even: "getFATEntry fat (2 * k) = get16 fat (3 * k) AND mask 12"
  unfolding getFATEntry_def pair_offsets by (simp add: fat_masks)

lemma getFATEntry_odd: "getFATEntry fat (2 * k + 1) = drop_bit 4 (get16 fat (3 * k + 1))"
  unfolding getFATEntry_def pair_offsets by (simp add: mod_Suc)

lemma setFATEntry_even:
  "setFATEntry fat (2 * k) v =
     put16 fat (3 * k) ((get16 fat (3 * k) AND push_bit 12 (mask 4)) OR (v AND mask 12))"
  unfolding setFATEntry_alt pair_offsets by (simp add: fat_masks)

lemma setFATEntry_odd:
  "setFATEntry fat (2 * k + 1) v =
     put16 fat (3 * k + 1) ((get16 fat (3 * k + 1) AND mask 4) OR push_bit 4 (v AND mask 12))"
  unfolding setFATEntry_alt pair_offsets by (simp add: fat_masks mod_Suc)

lemma get_set_other:
  assumes "c + c div 2 + 1 < length fat" "d + d div 2 + 1 < length fat" "c \<noteq> d"
  shows "getFATEntry (setFATEntry fat c v) d = getFATEntry fat d"
proof -
  consider (far) "c + c div 2 + 2 \<le> d + d div 2 \<or> d + d div 2 + 2 \<le> c + c div 2"
    | (up) k where "c = 2 * k" "d = 2 * k + 1" | (down) k where "c = 2 * k + 1" "d = 2 * k"
    using assms(3) pair_cases [of c d] by blast
  then show ?thesis
  proof cases
    case far
    then show ?thesis by (simp add: getFATEntry_def setFATEntry_alt Let_def get16_put16_other)
  next
    case (up k)
    have len: "3 * k + 1 < length fat" using assms(1) up by simp
    show ?thesis unfolding up setFATEntry_even getFATEntry_odd get16_overlap [OF len refl]
      by (rule bit_word_eqI) (auto simp: bit_simps get16_def dest: bit_imp_le_length)
  next
    case (down k)
    have len: "3 * k + 2 < length fat" using assms(1) down by simp
    show ?thesis unfolding down setFATEntry_odd getFATEntry_even get16_overlap_down [OF len]
      by (rule bit_word_eqI) (auto simp: bit_simps get16_def dest: bit_imp_le_length)
  qed
qed

lemma length_link_clusters [simp]: "length (link_clusters fat c n) = length fat"
proof -
  have "length (fold (\<lambda>i fat. setFATEntry fat (c + i) (h i)) xs fat) = length fat" for h xs
    by (induction xs arbitrary: fat) auto
  then show ?thesis by (simp add: link_clusters_def)
qed

text \<open>A FAT of \<open>n\<close> clusters of which \<open>k\<close> were linked.\<close>

lemma link_fold:
  assumes "length fat = 3072" "c + n \<le> 2048" "k \<le> n"
  shows "length (fold (\<lambda>i fat. setFATEntry fat (c + i) (h i)) [0..<k] fat) = 3072 \<and>
    (\<forall>d < 2048. getFATEntry (fold (\<lambda>i fat. setFATEntry fat (c + i) (h i)) [0..<k] fat) d =
       (if c \<le> d \<and> d < c + k then h (d - c) AND 0xFFF else getFATEntry fat d))"
  using assms(3)
proof (induction k)
  case 0
  then show ?case using assms(1) by auto
next
  case (Suc k)
  let ?f = "fold (\<lambda>i fat. setFATEntry fat (c + i) (h i)) [0..<k] fat"
  from Suc have len: "length ?f = 3072"
    and IH: "\<And>d. d < 2048 \<Longrightarrow> getFATEntry ?f d = (if c \<le> d \<and> d < c + k then h (d - c) AND 0xFFF else getFATEntry fat d)"
    by auto
  have ck: "c + k < 2048" using Suc.prems assms(2) by linarith
  have bound: "e + e div 2 + 1 < length ?f" if "e < 2048" for e using that len by simp
  have "getFATEntry (setFATEntry ?f (c + k) (h k)) d =
      (if c \<le> d \<and> d < c + Suc k then h (d - c) AND 0xFFF else getFATEntry fat d)" if d: "d < 2048" for d
  proof (cases "d = c + k")
    case True
    then show ?thesis using get_set_same [OF bound [OF ck]] by simp
  next
    case False
    then show ?thesis using get_set_other [OF bound [OF ck] bound [OF d], of "h k"] IH [OF d] by auto
  qed
  then show ?case using len by simp
qed

lemma link_clusters_get:
  assumes "length fat = 3072" "c + n \<le> 2048" "d < 2048"
  shows "getFATEntry (link_clusters fat c n) d =
    (if c \<le> d \<and> d < c + n
     then (if d = c + n - 1 then fatEntryEOC else of_nat (d + 1) AND 0xFFF) else getFATEntry fat d)"
  using link_fold [OF assms(1,2) order_refl, of "\<lambda>i. if i = n - 1 then fatEntryEOC else of_nat (c + i + 1)"] assms(3)
  by (auto simp: link_clusters_def fatEntryEOC_def)

lemma unat16: "m < 65536 \<Longrightarrow> unat (of_nat m :: 16 word) = m"
  by (simp add: unsigned_of_nat take_bit_nat_eq_self)

lemma of_nat_and_fff: "m < 4096 \<Longrightarrow> (of_nat m AND 0xFFF :: 16 word) = of_nat m"
  unfolding fat_masks take_bit_eq_mask [symmetric] word_unat_eq_iff unsigned_take_bit_eq
  by (simp add: unat16 take_bit_nat_eq_self)

section \<open>Clusters of a file\<close>

definition nclusters :: "byte list \<Rightarrow> nat" where
  "nclusters content = (length content + sectorSize - 1) div sectorSize"

definition clusters_of :: "byte list list \<Rightarrow> nat" where
  "clusters_of ds = sum_list (map nclusters ds)"

lemma clusters_of_simps [simp]:
  "clusters_of [] = 0" "clusters_of (d # ds) = nclusters d + clusters_of ds"
  "clusters_of (ds @ es) = clusters_of ds + clusters_of es"
  by (simp_all add: clusters_of_def)

lemma nclusters_bounds: "length content \<le> 512 * nclusters content" "content \<noteq> [] \<Longrightarrow> 0 < nclusters content"
  "nclusters [] = 0"
  by (simp_all add: nclusters_def sectorSize_def) (cases content; simp)+

lemma copy_at_sector: "length xs \<le> 512 \<Longrightarrow> copy_at (replicate 512 0) 0 xs = xs @ replicate (512 - length xs) (0 :: byte)"
  by (simp add: copy_at_def)

lemma data_sectors_padded:
  "data_sectors content = content @ replicate (512 * nclusters content - length content) 0"
proof (induction "length content" arbitrary: content rule: less_induct)
  case less
  show ?case
  proof (cases "length content \<le> 512")
    case True
    show ?thesis
    proof (cases "content = []")
      case True
      then show ?thesis by (simp add: data_sectors_def chunks.simps [of _ "[]"] nclusters_def sectorSize_def)
    next
      case False
      then have "nclusters content = 1" using True by (cases content) (simp_all add: nclusters_def sectorSize_def)
      with False True show ?thesis
        by (simp add: data_sectors_def sectorSize_def chunks.simps [of _ content] chunks.simps [of _ "[]"]
            copy_at_sector)
    qed
  next
    case False
    let ?rest = "drop 512 content"
    have n: "nclusters content = Suc (nclusters ?rest)"
      using False by (simp add: nclusters_def sectorSize_def)
    have "content \<noteq> []" using False by auto
    then have "data_sectors content = take 512 content @ data_sectors ?rest"
      using False by (simp add: data_sectors_def sectorSize_def chunks.simps [of _ content] copy_at_sector)
    also have "\<dots> = take 512 content @ ?rest @ replicate (512 * nclusters ?rest - length ?rest) 0"
      using less [of ?rest] False by simp
    finally show ?thesis using n False by (simp add: add.commute append_assoc [symmetric] del: append_assoc)
  qed
qed

lemma length_data_sectors [simp]: "length (data_sectors content) = 512 * nclusters content"
  using nclusters_bounds(1) [of content] by (simp add: data_sectors_padded)

lemma length_data: "length (concat (map data_sectors ds)) = 512 * clusters_of ds"
  by (induction ds) (simp_all add: algebra_simps)

section \<open>Files read back\<close>

text \<open>The chain of a file from its first cluster: a value of \<open>0xFF8\<close> or more ends it.\<close>

fun read_chain :: "nat \<Rightarrow> byte list \<Rightarrow> nat \<Rightarrow> nat list" where
  "read_chain 0 fat c = []"
| "read_chain (Suc fuel) fat c =
     (if 0xFF8 \<le> getFATEntry fat c then [c] else c # read_chain fuel fat (unat (getFATEntry fat c)))"

definition img_fat :: "byte list \<Rightarrow> byte list" where
  "img_fat img = take 3072 (drop 512 img)"

definition img_entry :: "byte list \<Rightarrow> nat \<Rightarrow> byte list" where
  "img_entry img i = take 32 (drop (512 * 13 + 32 * i) img)"

definition img_cluster :: "byte list \<Rightarrow> nat \<Rightarrow> byte list" where
  "img_cluster img c = take 512 (drop (512 * (21 + (c - 2))) img)"

definition entry_file :: "byte list \<Rightarrow> byte list \<Rightarrow> byte list" where
  "entry_file img e =
     (let n = unat (get32 e 28)
      in if n = 0 then []
         else take n (concat (map (img_cluster img) (read_chain totalSectors (img_fat img) (unat (get16 e 26))))))"

text \<open>The clusters from \<open>s\<close> on are linked as one file of \<open>n\<close> clusters.\<close>

definition linked :: "byte list \<Rightarrow> nat \<Rightarrow> nat \<Rightarrow> bool" where
  "linked fat s n \<longleftrightarrow>
     (\<forall>i < n. getFATEntry fat (s + i) = (if i = n - 1 then fatEntryEOC else of_nat (s + i + 1)))"

lemma read_chain_linked:
  "linked fat s n \<Longrightarrow> 0 < n \<Longrightarrow> s + n \<le> 2029 \<Longrightarrow> n \<le> fuel \<Longrightarrow> read_chain fuel fat s = [s..<s + n]"
proof (induction n arbitrary: s fuel)
  case 0
  then show ?case by simp
next
  case (Suc n)
  from Suc.prems(4) obtain f where f: "fuel = Suc f" by (cases fuel) auto
  show ?case
  proof (cases n)
    case 0
    then have "getFATEntry fat s = 0xFFF" using Suc.prems(1) by (simp add: linked_def fatEntryEOC_def)
    with 0 f show ?thesis by simp
  next
    case (Suc m)
    have e: "getFATEntry fat s = of_nat (s + 1)"
      using Suc.prems(1) Suc by (auto simp: linked_def)
    have u: "unat (of_nat (s + 1) :: 16 word) = s + 1"
      using Suc.prems(3) by (intro unat16) simp
    then have "\<not> 0xFF8 \<le> (of_nat (s + 1) :: 16 word)"
      using Suc.prems(3) by (simp add: word_le_nat_alt)
    moreover have "linked fat (s + 1) n"
      unfolding linked_def
    proof (intro allI impI)
      fix i assume "i < n"
      then show "getFATEntry fat (s + 1 + i) = (if i = n - 1 then fatEntryEOC else of_nat (s + 1 + i + 1))"
        using Suc.prems(1) [unfolded linked_def, rule_format, of "Suc i"] Suc by (simp add: algebra_simps)
    qed
    then have "read_chain f fat (s + 1) = [s + 1..<s + 1 + n]"
      using Suc.prems Suc f Suc.IH [of "s + 1" f] by simp
    ultimately show ?thesis using f e u by (simp add: upt_conv_Cons)
  qed
qed

section \<open>Directory entries\<close>

lemma length_copy_at [simp]: "off \<le> length dst \<Longrightarrow> length (copy_at dst off src) = length dst"
  by (simp add: copy_at_def)

lemma length_put16 [simp]: "length (put16 xs off v) = length xs"
  by (simp add: put16_def)

lemma length_put32 [simp]: "length (put32 xs off v) = length xs"
  by (simp add: put32_def)

lemma length_putTimestamps [simp]: "length (putTimestamps xs off t) = length xs"
  by (simp add: putTimestamps_def split: prod.splits)

definition entry_at :: "byte list \<Rightarrow> nat \<Rightarrow> byte list" where
  "entry_at dir i = take 32 (drop (32 * i) dir)"

lemma length_entry_at: "length dir = 4096 \<Longrightarrow> i < 128 \<Longrightarrow> length (entry_at dir i) = 32"
  by (simp add: entry_at_def)

lemma entry_at_update:
  assumes "k < 32"
  shows "entry_at (dir[32 * j + k := v]) i = (if i = j then (entry_at dir i)[k := v] else entry_at dir i)"
proof (cases i j rule: linorder_cases)
  case less
  then have "32 \<le> 32 * j + k - 32 * i" by simp
  then show ?thesis using less by (simp add: entry_at_def drop_update_swap take_update_swap list_update_beyond)
next
  case equal
  then show ?thesis using assms by (simp add: entry_at_def drop_update_swap take_update_swap)
next
  case greater
  then have "32 * j + k < 32 * i" using assms by simp
  then show ?thesis using greater by (simp add: entry_at_def)
qed

lemma entry_at_put16:
  "k < 31 \<Longrightarrow> entry_at (put16 dir (32 * j + k) v) i = (if i = j then put16 (entry_at dir i) k v else entry_at dir i)"
  using entry_at_update [of "k + 1" _ j] by (simp add: put16_def entry_at_update)

lemma entry_at_put32:
  "k < 29 \<Longrightarrow> entry_at (put32 dir (32 * j + k) v) i = (if i = j then put32 (entry_at dir i) k v else entry_at dir i)"
  using entry_at_update [of "k + 1" _ j] entry_at_update [of "k + 2" _ j] entry_at_update [of "k + 3" _ j]
  by (simp add: put32_def entry_at_update add.assoc)

lemma entry_at_putTimestamps:
  "entry_at (putTimestamps dir (32 * j) t) i =
     (if i = j then putTimestamps (entry_at dir i) 0 t else entry_at dir i)"
  by (simp add: putTimestamps_def entry_at_put16 split: prod.splits)

lemma join32:
  "(ucast (ucast w :: byte) :: 32 word) OR push_bit 8 (ucast (ucast (drop_bit 8 w) :: byte)) OR
   push_bit 16 (ucast (ucast (drop_bit 16 w) :: byte)) OR push_bit 24 (ucast (ucast (drop_bit 24 w) :: byte)) = w"
proof (rule bit_word_eqI)
  fix n
  assume "n < LENGTH(32)"
  then show "bit ((ucast (ucast w :: byte) :: 32 word) OR push_bit 8 (ucast (ucast (drop_bit 8 w) :: byte)) OR
     push_bit 16 (ucast (ucast (drop_bit 16 w) :: byte)) OR push_bit 24 (ucast (ucast (drop_bit 24 w) :: byte))) n =
     bit w n"
    by (cases "n < 24"; cases "n < 16") (auto simp: bit_simps)
qed

lemma get32_put32: "off + 3 < length xs \<Longrightarrow> get32 (put32 xs off v) off = v"
  using join32 [of v] by (simp add: get32_def put32_def nth_list_update)

lemma get16_put32_other: "off + 4 \<le> p \<or> p + 2 \<le> off \<Longrightarrow> get16 (put32 xs off v) p = get16 xs p"
  by (auto simp: get16_def put32_def)

lemma entry_at_copy:
  assumes "length dir = 4096" "j < 128" "length src \<le> 32"
  shows "entry_at (copy_at dir (32 * j) src) i =
    (if i = j then copy_at (entry_at dir i) 0 src else entry_at dir i)"
proof (cases i j rule: linorder_cases)
  case less
  then have "32 * i + 32 \<le> 32 * j" by simp
  then show ?thesis using less assms by (auto simp: entry_at_def copy_at_def min_def drop_take)
next
  case equal
  then show ?thesis using assms
    by (simp add: entry_at_def copy_at_def min_def drop_take add.commute)
next
  case greater
  then have "32 * j + 32 \<le> 32 * i" by simp
  then show ?thesis using greater assms by (simp add: entry_at_def copy_at_def min_def)
qed

section \<open>The builder's invariant\<close>

definition builder_ok :: "fat12Builder \<Rightarrow> bool" where
  "builder_ok b \<longleftrightarrow>
     length (fb_fat b) = 3072 \<and> length (fb_rootDir b) = 4096 \<and> fb_rootUsed b \<le> 128 \<and>
     unat (fb_nextCluster b) = 2 + clusters_of (fb_data b) \<and> clusters_of (fb_data b) \<le> 2027"

text \<open>The file with content \<open>content\<close> has its directory entry at index \<open>i\<close>, under the short name \<open>sn\<close>.\<close>

definition placed :: "fat12Builder \<Rightarrow> byte list \<Rightarrow> byte list \<Rightarrow> nat \<Rightarrow> bool" where
  "placed b sn content i \<longleftrightarrow>
     i < fb_rootUsed b \<and>
     take 11 (entry_at (fb_rootDir b) i) = sn \<and> entry_at (fb_rootDir b) i ! 11 = 0x20 \<and>
     unat (get32 (entry_at (fb_rootDir b) i) 28) = length content \<and>
     (content \<noteq> [] \<longrightarrow>
        (\<exists>pre post. fb_data b = pre @ content # post \<and>
           unat (get16 (entry_at (fb_rootDir b) i) 26) = 2 + clusters_of pre \<and>
           linked (fb_fat b) (2 + clusters_of pre) (nclusters content)))"

text \<open>\<open>b'\<close> keeps all that was written in \<open>b\<close>.\<close>

definition extends :: "fat12Builder \<Rightarrow> fat12Builder \<Rightarrow> bool" where
  "extends b b' \<longleftrightarrow>
     builder_ok b' \<and> fb_rootUsed b \<le> fb_rootUsed b' \<and> fb_label b' = fb_label b \<and>
     (\<forall>i < fb_rootUsed b. entry_at (fb_rootDir b') i = entry_at (fb_rootDir b) i) \<and>
     (\<exists>more. fb_data b' = fb_data b @ more) \<and>
     (\<forall>c < 2 + clusters_of (fb_data b). getFATEntry (fb_fat b') c = getFATEntry (fb_fat b) c)"

lemma extends_refl: "builder_ok b \<Longrightarrow> extends b b"
  by (simp add: extends_def)

lemma extends_trans:
  assumes "extends b1 b2" "extends b2 b3"
  shows "extends b1 b3"
proof -
  obtain m1 m2 where "fb_data b2 = fb_data b1 @ m1" "fb_data b3 = fb_data b2 @ m2"
    using assms by (auto simp: extends_def)
  with assms show ?thesis by (simp add: extends_def)
qed

lemma placed_extends:
  assumes "placed b sn content i" "extends b b'"
  shows "placed b' sn content i"
proof (cases "content = []")
  case True
  with assms show ?thesis by (auto simp: placed_def extends_def)
next
  case False
  with assms(1) obtain pre post where d: "fb_data b = pre @ content # post"
    "unat (get16 (entry_at (fb_rootDir b) i) 26) = 2 + clusters_of pre"
    "linked (fb_fat b) (2 + clusters_of pre) (nclusters content)"
    by (auto simp: placed_def)
  from assms(2) obtain more where "fb_data b' = pre @ content # post @ more"
    using d(1) by (auto simp: extends_def)
  moreover have "linked (fb_fat b') (2 + clusters_of pre) (nclusters content)"
    using d(1,3) assms(2) by (auto simp: linked_def extends_def)
  moreover have "entry_at (fb_rootDir b') i = entry_at (fb_rootDir b) i" "i < fb_rootUsed b'"
    using assms by (auto simp: placed_def extends_def)
  ultimately show ?thesis using assms(1) d(2) unfolding placed_def by metis
qed

lemma alloc_clusters_alt:
  "alloc_clusters b content =
     (if 0 < nclusters content then
        (if unat (fb_nextCluster b) + nclusters content > 2029 then Inl (ErrMsg ''fat12: not enough space'')
         else Inr (fb_nextCluster b,
           b\<lparr>fb_fat := link_clusters (fb_fat b) (unat (fb_nextCluster b)) (nclusters content),
             fb_data := fb_data b @ [content],
             fb_nextCluster := fb_nextCluster b + of_nat (nclusters content)\<rparr>))
      else Inr (0, b))"
proof -
  have "totalSectors - firstDataSec + 2 = 2029" by (simp add: geometry)
  then show ?thesis by (simp only: alloc_clusters_def Let_def nclusters_def)
qed

lemma alloc_clusters_extends:
  assumes "builder_ok b" "alloc_clusters b content = Inr (s, b')"
  shows "extends b b' \<and> fb_rootUsed b' = fb_rootUsed b \<and> length content < 2 ^ 32 \<and>
    (content \<noteq> [] \<longrightarrow>
       fb_data b' = fb_data b @ [content] \<and> unat s = 2 + clusters_of (fb_data b) \<and>
       linked (fb_fat b') (2 + clusters_of (fb_data b)) (nclusters content))"
proof (cases "content = []")
  case True
  with assms show ?thesis
    by (simp add: alloc_clusters_alt nclusters_bounds(3) extends_refl)
next
  case False
  let ?n = "nclusters content" and ?c = "2 + clusters_of (fb_data b)"
  have n: "0 < ?n" using False by (rule nclusters_bounds(2))
  have next0: "unat (fb_nextCluster b) = ?c" using assms(1) by (simp add: builder_ok_def)
  have fits: "?c + ?n \<le> 2029"
    and s: "s = fb_nextCluster b"
    and b': "b' = b\<lparr>fb_fat := link_clusters (fb_fat b) ?c ?n, fb_data := fb_data b @ [content],
              fb_nextCluster := fb_nextCluster b + of_nat ?n\<rparr>"
    using assms(2) n next0
    by (auto simp: alloc_clusters_alt split: if_splits)
  have len: "length (fb_fat b) = 3072" using assms(1) by (simp add: builder_ok_def)
  have "of_nat (unat (fb_nextCluster b)) = fb_nextCluster b" by simp
  then have "fb_nextCluster b = of_nat ?c" unfolding next0 by simp
  then have "fb_nextCluster b + of_nat ?n = of_nat (?c + ?n)" by simp
  moreover have "unat (of_nat (?c + ?n) :: 16 word) = ?c + ?n" using fits by (intro unat16) simp
  ultimately have nxt: "unat (fb_nextCluster b + of_nat ?n) = ?c + ?n" by metis
  have get: "getFATEntry (link_clusters (fb_fat b) ?c ?n) d =
      (if ?c \<le> d \<and> d < ?c + ?n then (if d = ?c + ?n - 1 then fatEntryEOC else of_nat (d + 1))
       else getFATEntry (fb_fat b) d)" if "d < 2029" for d
    using that fits link_clusters_get [OF len, of ?c ?n d] of_nat_and_fff [of "d + 1"] by simp
  have "linked (link_clusters (fb_fat b) ?c ?n) ?c ?n"
    unfolding linked_def
  proof (intro allI impI)
    fix i assume i: "i < ?n"
    then show "getFATEntry (link_clusters (fb_fat b) ?c ?n) (?c + i) =
        (if i = ?n - 1 then fatEntryEOC else of_nat (?c + i + 1))"
      using get [of "?c + i"] fits n by auto
  qed
  moreover have "extends b b'"
    using assms(1) fits nxt get by (auto simp: extends_def builder_ok_def b')
  moreover have "length content < 2 ^ 32"
    using nclusters_bounds(1) [of content] fits by simp
  ultimately show ?thesis using s next0 b' by simp
qed

lemma writeDirEntry_extends:
  assumes "builder_ok b" "writeDirEntry b entry = Inr (off, b')" "length entry \<le> 32"
  shows "extends b b' \<and> off = 32 * fb_rootUsed b \<and> fb_rootUsed b < 128 \<and> fb_rootUsed b' = Suc (fb_rootUsed b) \<and>
    fb_data b' = fb_data b \<and> fb_fat b' = fb_fat b \<and> take (length entry) (entry_at (fb_rootDir b') (fb_rootUsed b)) = entry"
proof -
  have used: "fb_rootUsed b < 128"
    and b': "b' = b\<lparr>fb_rootDir := copy_at (fb_rootDir b) (32 * fb_rootUsed b) entry, fb_rootUsed := fb_rootUsed b + 1\<rparr>"
    and off: "off = 32 * fb_rootUsed b"
    using assms(2) by (auto simp: writeDirEntry_def geometry Let_def mult.commute split: if_splits)
  have len: "length (fb_rootDir b) = 4096" using assms(1) by (simp add: builder_ok_def)
  have "extends b b'"
    using assms(1,3) used b' by (auto simp: extends_def builder_ok_def entry_at_copy)
  moreover have "take (length entry) (entry_at (fb_rootDir b') (fb_rootUsed b)) = entry"
    using entry_at_copy [OF len used assms(3)] assms(3) length_entry_at [OF len used]
    by (simp add: b' copy_at_def)
  ultimately show ?thesis using used off b' by simp
qed

text \<open>The entries \<open>es\<close> stand in the directory from index \<open>u\<close> on.\<close>

definition entries_from :: "fat12Builder \<Rightarrow> nat \<Rightarrow> byte list list \<Rightarrow> bool" where
  "entries_from b u es \<longleftrightarrow>
     u + length es \<le> fb_rootUsed b \<and> (\<forall>j < length es. entry_at (fb_rootDir b) (u + j) = es ! j)"

lemma entries_from_extends: "entries_from b u es \<Longrightarrow> extends b b' \<Longrightarrow> entries_from b' u es"
  by (auto simp: entries_from_def extends_def)

lemma write_entries_extends:
  "builder_ok b \<Longrightarrow> write_entries b es = Inr b' \<Longrightarrow> list_all (\<lambda>e. length e = 32) es \<Longrightarrow>
   extends b b' \<and> fb_data b' = fb_data b \<and> fb_fat b' = fb_fat b \<and>
   fb_rootUsed b' = fb_rootUsed b + length es \<and> entries_from b' (fb_rootUsed b) es"
proof (induction es arbitrary: b)
  case Nil
  then show ?case by (simp add: extends_refl entries_from_def)
next
  case (Cons e es)
  from Cons.prems(2) obtain off b1 where b1: "writeDirEntry b e = Inr (off, b1)" "write_entries b1 es = Inr b'"
    by (auto split: sum.splits)
  have e: "length e = 32" using Cons.prems(3) by simp
  then have w: "extends b b1" "fb_rootUsed b1 = Suc (fb_rootUsed b)" "fb_data b1 = fb_data b" "fb_fat b1 = fb_fat b"
      "take 32 (entry_at (fb_rootDir b1) (fb_rootUsed b)) = e"
    using writeDirEntry_extends [OF Cons.prems(1) b1(1)] by auto
  then have "builder_ok b1" by (simp add: extends_def)
  note IH = Cons.IH [OF this b1(2)]
  have first: "entry_at (fb_rootDir b') (fb_rootUsed b) = e"
    using IH w Cons.prems(3) by (auto simp: extends_def entry_at_def)
  have "entries_from b' (fb_rootUsed b) (e # es)"
    unfolding entries_from_def
  proof (intro conjI allI impI)
    show "fb_rootUsed b + length (e # es) \<le> fb_rootUsed b'" using IH w(2) Cons.prems(3) by simp
    fix j assume "j < length (e # es)"
    then show "entry_at (fb_rootDir b') (fb_rootUsed b + j) = (e # es) ! j"
      using first IH w(2) Cons.prems(3) by (cases j) (auto simp: entries_from_def)
  qed
  with IH w Cons.prems(3) show ?case by (auto intro: extends_trans)
qed

lemma length_putLFNChars [simp]: "length (putLFNChars dst runes off n) = length dst"
proof -
  have "length (fold (\<lambda>j dst. (let idx = off + j; pos = j * 2
      in if idx < length runes then put16 dst pos (runes ! idx)
         else if idx = length runes then dst else put16 dst pos 0xFFFF)) js dst) = length dst" for js
    by (induction js arbitrary: dst) (auto simp: Let_def)
  then show ?thesis by (simp add: putLFNChars_def)
qed

lemma length_put_slots [simp]: "a \<le> length e \<Longrightarrow> length (put_slots e a c runes off n) = length e"
  by (simp add: put_slots_def)

lemma length_lfn_entry [simp]: "length (lfn_entry runes ck n i) = 32"
  by (simp add: lfn_entry_def Let_def dirEntrySize_def)

lemma makeLFNEntries_lengths: "list_all (\<lambda>e. length e = 32) (makeLFNEntries name sn)"
  by (auto simp: makeLFNEntries_def Let_def list_all_iff)

lemma length_short_names [simp]:
  "length (toShortName name) = 11" "length (generateShortName name seq) = 11" "length (padLabel label) = 11"
  by (simp_all add: toShortName_def generateShortName_def padLabel_def blankSFN_def Let_def split: prod.splits)

text \<open>The short name a file gets, and the long-name entries before its entry \<open>i\<close>.\<close>

definition named_at :: "fat12Builder \<Rightarrow> string \<Rightarrow> byte list \<Rightarrow> nat \<Rightarrow> bool" where
  "named_at b name sn i \<longleftrightarrow>
     (if needsLFN name
      then (\<exists>seq. sn = generateShortName name seq) \<and> length (makeLFNEntries name sn) \<le> i \<and>
           entries_from b (i - length (makeLFNEntries name sn)) (makeLFNEntries name sn)
      else sn = toShortName name)"

lemma named_at_extends: "named_at b name sn i \<Longrightarrow> extends b b' \<Longrightarrow> named_at b' name sn i"
  by (auto simp: named_at_def intro: entries_from_extends split: if_splits)

lemma name_entries_extends:
  assumes "builder_ok b" "name_entries b name = Inr (sn, b')"
  shows "extends b b' \<and> fb_data b' = fb_data b \<and> fb_fat b' = fb_fat b \<and> length sn = 11 \<and>
    named_at b' name sn (fb_rootUsed b')"
proof (cases "needsLFN name")
  case True
  let ?b = "b\<lparr>fb_shortSeq := fb_shortSeq b + 1\<rparr>"
  have ok: "builder_ok ?b" using assms(1) by (simp add: builder_ok_def)
  from assms(2) True have w: "write_entries ?b (makeLFNEntries name sn) = Inr b'"
    and sn: "sn = generateShortName name (fb_shortSeq b + 1)"
    by (auto simp: name_entries_def Let_def split: sum.splits)
  note e = write_entries_extends [OF ok w makeLFNEntries_lengths]
  then have "named_at b' name sn (fb_rootUsed b')"
    unfolding named_at_def using True sn by auto
  with e sn show ?thesis by (simp add: extends_def)
next
  case False
  with assms show ?thesis by (auto simp: name_entries_def extends_refl named_at_def)
qed

lemma addFile_extends:
  assumes ok: "builder_ok b" and add: "addFile now name content b = Inr b'"
  shows "extends b b' \<and>
    (\<exists>i sn. placed b' sn content i \<and> named_at b' name sn i)"
proof -
  from add obtain s b1 sn b2 off b3 where
    b1: "alloc_clusters b content = Inr (s, b1)" and b2: "name_entries b1 name = Inr (sn, b2)"
    and b3: "writeDirEntry b2 sn = Inr (off, b3)"
    and b': "b' = b3\<lparr>fb_rootDir := put32 (put16 (putTimestamps ((fb_rootDir b3)[off + 11 := 0x20]) off now)
        (off + 26) s) (off + 28) (of_nat (length content))\<rparr>"
    by (auto simp: addFile_def Let_def split: sum.splits prod.splits)
  note e1 = alloc_clusters_extends [OF ok b1]
  then have ok1: "builder_ok b1" by (simp add: extends_def)
  note e2 = name_entries_extends [OF ok1 b2]
  then have ok2: "builder_ok b2" and sn: "length sn = 11" by (simp_all add: extends_def)
  note e3 = writeDirEntry_extends [OF ok2 b3]
  let ?u = "fb_rootUsed b2"
  have e3: "extends b2 b3" "off = 32 * ?u" "?u < 128" "fb_rootUsed b3 = Suc ?u" "fb_data b3 = fb_data b2"
      "fb_fat b3 = fb_fat b2" "take 11 (entry_at (fb_rootDir b3) ?u) = sn"
    using e3 sn by auto
  have len: "length (entry_at (fb_rootDir b3) ?u) = 32"
    using e3(1,3) by (intro length_entry_at) (auto simp: extends_def builder_ok_def)
  let ?e = "put32 (put16 (putTimestamps ((entry_at (fb_rootDir b3) ?u)[11 := 0x20]) 0 now) 26 s) 28
      (of_nat (length content))"
  have entry: "entry_at (fb_rootDir b') i = (if i = ?u then ?e else entry_at (fb_rootDir b3) i)" for i
    unfolding b' e3(2)
    by (simp add: entry_at_put32 entry_at_put16 entry_at_putTimestamps entry_at_update)
  have ext3: "extends b2 b'"
    using e3 entry by (auto simp: extends_def b' builder_ok_def)
  have fields: "take 11 ?e = sn" "?e ! 11 = 0x20" "get16 ?e 26 = s" "get32 ?e 28 = of_nat (length content)"
  proof -
    show "take 11 ?e = sn"
      using e3(7) by (simp add: put32_def put16_def putTimestamps_def split: prod.splits)
    show "?e ! 11 = 0x20"
      using len by (simp add: put32_def put16_def putTimestamps_def split: prod.splits)
    show "get16 ?e 26 = s" using len by (simp add: get16_put32_other get16_put16)
    show "get32 ?e 28 = of_nat (length content)" using len by (simp add: get32_put32)
  qed
  have "unat (of_nat (length content) :: 32 word) = length content"
    using e1 by (simp add: unsigned_of_nat take_bit_nat_eq_self)
  moreover have "fb_data b' = fb_data b1" "fb_fat b' = fb_fat b1" using e2 e3(5,6) by (simp_all add: b')
  moreover have "fb_rootUsed b \<le> ?u" using e1 e2 by (simp add: extends_def)
  moreover have "?u < fb_rootUsed b'" using e3(4) by (simp add: b')
  ultimately have "placed b' sn content ?u"
    using e1 fields unfolding placed_def entry by auto
  moreover have "extends b b'" using e1 e2 ext3 extends_trans by blast
  moreover have "named_at b' name sn ?u" using e2 ext3 by (blast intro: named_at_extends)
  ultimately show ?thesis by blast
qed

definition written :: "fat12Builder \<Rightarrow> string \<Rightarrow> byte list \<Rightarrow> bool" where
  "written b name content \<longleftrightarrow>
     (\<exists>i sn. placed b sn content i \<and> named_at b name sn i)"

lemma add_files_written:
  "builder_ok b \<Longrightarrow> add_files now fs b = Inr b' \<Longrightarrow>
   extends b b' \<and> (\<forall>(name, content) \<in> set fs. written b' name content)"
proof (induction fs arbitrary: b)
  case Nil
  then show ?case by (simp add: extends_refl)
next
  case (Cons f fs)
  obtain name content where f: "f = (name, content)" by (cases f)
  from Cons.prems(2) obtain b1 where b1: "addFile now name content b = Inr b1" "add_files now fs b1 = Inr b'"
    unfolding f by (auto split: sum.splits)
  note a = addFile_extends [OF Cons.prems(1) b1(1)]
  then have "builder_ok b1" by (simp add: extends_def)
  note IH = Cons.IH [OF this b1(2)]
  from a IH have "written b' name content"
    unfolding written_def by (blast intro: placed_extends named_at_extends)
  with a IH f show ?case by (auto intro: extends_trans)
qed

lemma newFAT12Builder_ok: "builder_ok (newFAT12Builder now label)"
  by (simp add: newFAT12Builder_def addVolumeLabel_def writeDirEntry_def builder_ok_def geometry Let_def)

section \<open>The image\<close>

lemma length_makeBootSector: "length (makeBootSector now b) = 512"
  by (simp add: makeBootSector_def Let_def sectorSize_def)

lemma writeTo_parts:
  assumes "builder_ok b"
  shows "length (writeTo now b) = 1048576"
    and "img_fat (writeTo now b) = fb_fat b"
    and "i < 128 \<Longrightarrow> img_entry (writeTo now b) i = entry_at (fb_rootDir b) i"
    and "drop (512 * 21) (writeTo now b) =
      concat (map data_sectors (fb_data b)) @ replicate (512 * (2027 - clusters_of (fb_data b))) 0"
proof -
  let ?boot = "makeBootSector now b" and ?data = "concat (map data_sectors (fb_data b))"
  let ?pad = "replicate (512 * (2027 - clusters_of (fb_data b))) (0 :: byte)"
  have len: "length (fb_fat b) = 3072" "length (fb_rootDir b) = 4096"
      "unat (fb_nextCluster b) = 2 + clusters_of (fb_data b)" "clusters_of (fb_data b) \<le> 2027"
    using assms by (simp_all add: builder_ok_def)
  have pad: "concat (replicate k (replicate 512 (0 :: byte))) = replicate (512 * k) 0" for k
    by (induction k) (simp_all add: replicate_add)
  have img: "writeTo now b = ?boot @ fb_fat b @ fb_fat b @ fb_rootDir b @ ?data @ ?pad"
    using len(3,4) by (simp add: writeTo_def geometry pad numeral_2_eq_2)
  show "length (writeTo now b) = 1048576"
    using len by (simp add: img length_makeBootSector length_data)
  show "img_fat (writeTo now b) = fb_fat b"
    using len by (simp add: img img_fat_def length_makeBootSector)
  show "drop (512 * 21) (writeTo now b) = ?data @ ?pad"
    using len by (simp add: img length_makeBootSector)
  assume "i < 128"
  then show "img_entry (writeTo now b) i = entry_at (fb_rootDir b) i"
    using len by (simp add: img img_entry_def entry_at_def length_makeBootSector)
qed

lemma concat_clusters:
  "concat (map (\<lambda>c. take 512 (drop (512 * (c - 2)) d)) [s..<s + n]) = take (512 * n) (drop (512 * (s - 2)) d)"
  if "2 \<le> s" for s n :: nat
proof (induction n)
  case 0
  show ?case by simp
next
  case (Suc n)
  have "512 * (s + n - 2) = 512 * n + 512 * (s - 2)" using that by (simp add: algebra_simps)
  then show ?case using Suc that
    by (simp add: take_add [of "512 * n" 512] add.commute [of 512])
qed

lemma placed_read:
  assumes ok: "builder_ok b" and pl: "placed b sn content i"
  shows "entry_file (writeTo now b) (img_entry (writeTo now b) i) = content"
proof (cases "content = []")
  case True
  with pl ok writeTo_parts(3) [OF ok, of i now] show ?thesis
    by (simp add: entry_file_def placed_def builder_ok_def Let_def)
next
  case False
  let ?img = "writeTo now b" and ?e = "entry_at (fb_rootDir b) i" and ?n = "nclusters content"
  from pl False obtain pre post where d: "fb_data b = pre @ content # post"
    "unat (get16 ?e 26) = 2 + clusters_of pre" "linked (fb_fat b) (2 + clusters_of pre) ?n"
    "unat (get32 ?e 28) = length content" "i < 128"
    using ok by (auto simp: placed_def builder_ok_def)
  let ?s = "2 + clusters_of pre"
  have n: "0 < ?n" using False by (rule nclusters_bounds(2))
  have "?s + ?n \<le> 2029" using ok d(1) by (simp add: builder_ok_def)
  then have chain: "read_chain totalSectors (fb_fat b) ?s = [?s..<?s + ?n]"
    by (intro read_chain_linked [OF d(3) n]) (simp_all add: geometry)
  let ?d = "drop (512 * 21) ?img"
  have cl: "img_cluster ?img c = take 512 (drop (512 * (c - 2)) ?d)" for c
    by (simp add: img_cluster_def algebra_simps)
  have "concat (map (img_cluster ?img) [?s..<?s + ?n]) = take (512 * ?n) (drop (512 * clusters_of pre) ?d)"
    using concat_clusters [of ?s ?d ?n] unfolding cl by simp
  also have "\<dots> = data_sectors content"
    unfolding writeTo_parts(4) [OF ok] d(1) using length_data [of pre] by simp
  finally have "concat (map (img_cluster ?img) [?s..<?s + ?n]) =
      content @ replicate (512 * ?n - length content) 0" by (simp only: data_sectors_padded)
  then show ?thesis
    using d False chain writeTo_parts(2,3) [OF ok] by (simp add: entry_file_def Let_def)
qed

lemma CreateFAT12_written:
  assumes "CreateFAT12 now label files = Inr img"
  obtains b where "builder_ok b" "img = writeTo now b" "\<And>name content. tget files name = Some content \<Longrightarrow> written b name content"
proof -
  let ?fs = "rows_of (tget files) (sort (ids_of files))" and ?b0 = "newFAT12Builder now label"
  from assms(1) obtain b where b: "add_files now ?fs ?b0 = Inr b" and img: "img = writeTo now b"
    by (auto simp: CreateFAT12_def split: sum.splits)
  have w: "extends ?b0 b" "\<forall>(n, c) \<in> set ?fs. written b n c"
    using add_files_written [OF newFAT12Builder_ok b] by simp_all
  have "(name, content) \<in> set ?fs" if "tget files name = Some content" for name content
  proof -
    have "name \<in> set (ids_of files)" using that by (metis map_of_SomeD fst_conv imageI set_map)
    then have "tget ?fs name = Some content" using that by (simp add: tget_rows_of)
    then show ?thesis by (rule map_of_SomeD)
  qed
  with w img show ?thesis using that [of b] by (auto simp: extends_def)
qed

section \<open>Long names\<close>

text \<open>The thirteen character slots of a long-name entry, and the name the entries of a file spell.\<close>

definition lfn_slots :: "byte list \<Rightarrow> 16 word list" where
  "lfn_slots e = map (get16 e) [1, 3, 5, 7, 9, 14, 16, 18, 20, 22, 24, 28, 30]"

definition read_lfn :: "byte list list \<Rightarrow> 16 word list" where
  "read_lfn es = takeWhile (\<lambda>r. r \<noteq> 0) (concat (map lfn_slots (rev es)))"

text \<open>What stands at position \<open>i\<close> of the padded name.\<close>

definition lfn_char :: "16 word list \<Rightarrow> nat \<Rightarrow> 16 word" where
  "lfn_char runes i = (if i < length runes then runes ! i else if i = length runes then 0 else 0xFFFF)"

lemma putLFNChars_get:
  assumes "2 * n \<le> length dst" "\<And>j. j < n \<Longrightarrow> get16 dst (2 * j) = 0" "j < n"
  shows "get16 (putLFNChars dst runes off n) (2 * j) = lfn_char runes (off + j)"
proof -
  define f where "f = (\<lambda>j dst. (let idx = off + j; pos = j * 2
      in if idx < length runes then put16 dst pos (runes ! idx)
         else if idx = length runes then dst else put16 dst pos 0xFFFF))"
  have len: "length (fold f js d) = length d" for js d
    by (induction js arbitrary: d) (auto simp: f_def Let_def)
  have "get16 (fold f [0..<m] dst) (2 * i) = (if i < m then lfn_char runes (off + i) else get16 dst (2 * i))"
    if "m \<le> n" "i < n" for m i
    using that
  proof (induction m)
    case 0
    then show ?case by simp
  next
    case (Suc m)
    have l: "2 * m + 1 < length (fold f [0..<m] dst)" using Suc.prems(1) assms(1) len by simp
    show ?case
    proof (cases "i = m")
      case True
      have "get16 (fold f [0..<m] dst) (2 * m) = 0" using Suc True assms(2) by simp
      then have "get16 (f m (fold f [0..<m] dst)) (2 * m) = lfn_char runes (off + m)"
        using get16_put16 [OF l] by (simp add: f_def Let_def lfn_char_def mult.commute)
      then show ?thesis using True by simp
    next
      case False
      then have "m * 2 + 2 \<le> 2 * i \<or> 2 * i + 2 \<le> m * 2" by linarith
      then have "get16 (f m (fold f [0..<m] dst)) (2 * i) = get16 (fold f [0..<m] dst) (2 * i)"
        by (auto simp: f_def Let_def get16_put16_other)
      with Suc False show ?thesis by simp
    qed
  qed
  from this [of n j] assms(3) show ?thesis by (simp add: putLFNChars_def f_def)
qed

lemma nth_copy_at:
  assumes "off + length src \<le> length dst" "p < length dst"
  shows "copy_at dst off src ! p = (if p < off then dst ! p else if p < off + length src then src ! (p - off) else dst ! p)"
  using assms by (auto simp: copy_at_def nth_append min_def)

lemma put_slots_get:
  assumes "b = a + 2 * n" "b \<le> length e" "\<And>j. j < n \<Longrightarrow> get16 e (a + 2 * j) = 0" "j < n"
  shows "get16 (put_slots e a b runes off n) (a + 2 * j) = lfn_char runes (off + j)"
proof -
  let ?d = "take (b - a) (drop a e)"
  have z: "get16 ?d (2 * i) = get16 e (a + 2 * i)" if "i < n" for i
    using that assms(1,2) by (simp add: get16_def)
  have "get16 (put_slots e a b runes off n) (a + 2 * j) = get16 (putLFNChars ?d runes off n) (2 * j)"
    using assms(1,2,4) by (simp add: put_slots_def get16_def nth_copy_at)
  also have "\<dots> = lfn_char runes (off + j)"
    by (rule putLFNChars_get) (use assms z in auto)
  finally show ?thesis .
qed

lemma put_slots_nth:
  "b = a + 2 * n \<Longrightarrow> b \<le> length e \<Longrightarrow> p < a \<or> b \<le> p \<Longrightarrow> p < length e \<Longrightarrow>
   put_slots e a b runes off n ! p = e ! p"
  by (auto simp: put_slots_def nth_copy_at)

lemma put_slots_get_other:
  "b = a + 2 * n \<Longrightarrow> b \<le> length e \<Longrightarrow> p + 2 \<le> a \<or> b \<le> p \<Longrightarrow> p + 1 < length e \<Longrightarrow>
   get16 (put_slots e a b runes off n) p = get16 e p"
  by (auto simp: get16_def put_slots_nth)

lemma upt13: "[0..<13] = [0, 1, 2, 3, 4, 5, 6, 7, 8, 9, 10, 11, 12 :: nat]"
  by (simp add: upt_rec)

lemma lfn_entry_slots: "lfn_slots (lfn_entry runes ck n i) = map (\<lambda>j. lfn_char runes (13 * i + j)) [0..<13]"
proof -
  define e0 where "e0 = (replicate 32 (0 :: byte))
    [0 := (if i = n - 1 then of_nat (i + 1) OR 0x40 else of_nat (i + 1)), 11 := 0x0F, 13 := ck]"
  define e1 where "e1 = put_slots e0 1 11 runes (i * 13) 5"
  define e2 where "e2 = put_slots e1 14 26 runes (i * 13 + 5) 6"
  define e3 where "e3 = put_slots e2 28 32 runes (i * 13 + 11) 2"
  have e: "lfn_entry runes ck n i = e3"
    by (simp add: lfn_entry_def e0_def e1_def e2_def e3_def Let_def dirEntrySize_def)
  have len: "length e0 = 32" "length e1 = 32" "length e2 = 32" by (simp_all add: e0_def e1_def e2_def)
  have zero: "get16 e0 p = 0" if "1 \<le> p" "p < 10 \<or> 13 < p" "p \<le> 30" for p
    using that by (auto simp: e0_def get16_def nth_list_update)
  have s1: "get16 e1 (1 + 2 * j) = lfn_char runes (i * 13 + j)" if "j < 5" for j
    unfolding e1_def
  proof (rule put_slots_get [where n = 5])
    fix k :: nat assume "k < 5"
    then show "get16 e0 (1 + 2 * k) = 0" by (intro zero) auto
  qed (use that len in auto)
  have s2: "get16 e2 (14 + 2 * j) = lfn_char runes (i * 13 + 5 + j)" if "j < 6" for j
    unfolding e2_def
  proof (rule put_slots_get [where n = 6])
    fix k :: nat assume k: "k < 6"
    then have "get16 e1 (14 + 2 * k) = get16 e0 (14 + 2 * k)"
      unfolding e1_def by (intro put_slots_get_other) (use len in auto)
    also have "\<dots> = 0" using k by (intro zero) auto
    finally show "get16 e1 (14 + 2 * k) = 0" .
  qed (use that len in auto)
  have s3: "get16 e3 (28 + 2 * j) = lfn_char runes (i * 13 + 11 + j)" if "j < 2" for j
    unfolding e3_def
  proof (rule put_slots_get [where n = 2])
    fix k :: nat assume k: "k < 2"
    have "get16 e2 (28 + 2 * k) = get16 e1 (28 + 2 * k)"
      unfolding e2_def by (rule put_slots_get_other) (use k len in auto)
    also have "\<dots> = get16 e0 (28 + 2 * k)"
      unfolding e1_def by (rule put_slots_get_other) (use k len in auto)
    also have "\<dots> = 0" using k by (intro zero) auto
    finally show "get16 e2 (28 + 2 * k) = 0" .
  qed (use that len in auto)
  have t1: "get16 e3 (1 + 2 * j) = lfn_char runes (i * 13 + j)" if "j < 5" for j
  proof -
    have "get16 e3 (1 + 2 * j) = get16 e2 (1 + 2 * j)"
      unfolding e3_def by (rule put_slots_get_other) (use that len in auto)
    also have "\<dots> = get16 e1 (1 + 2 * j)"
      unfolding e2_def by (rule put_slots_get_other) (use that len in auto)
    finally show ?thesis using s1 [OF that] by simp
  qed
  have t2: "get16 e3 (14 + 2 * j) = lfn_char runes (i * 13 + 5 + j)" if "j < 6" for j
  proof -
    have "get16 e3 (14 + 2 * j) = get16 e2 (14 + 2 * j)"
      unfolding e3_def by (rule put_slots_get_other) (use that len in auto)
    then show ?thesis using s2 [OF that] by simp
  qed
  have "get16 e3 3 = lfn_char runes (i * 13 + 1)" using t1 [of 1] by (simp add: numeral_eq_Suc)
  then show ?thesis
    unfolding e lfn_slots_def upt13
    using t1 [of 0] t1 [of 2] t1 [of 3] t1 [of 4]
      t2 [of 0] t2 [of 1] t2 [of 2] t2 [of 3] t2 [of 4] t2 [of 5] s3 [of 0] s3 [of 1]
    by (simp add: ac_simps)
qed

lemma concat_slots:
  "concat (map (\<lambda>i. map (\<lambda>j. f (c * i + j)) [0..<c]) [0..<k]) = map f [0..<c * (k :: nat)]"
proof (induction k)
  case 0
  show ?case by simp
next
  case (Suc k)
  have shift: "map (\<lambda>j. f (c * k + j)) [0..<c] = map f [c * k..<c * k + c]"
    by (rule nth_equalityI) simp_all
  have "concat (map (\<lambda>i. map (\<lambda>j. f (c * i + j)) [0..<c]) [0..<Suc k]) =
      map f [0..<c * k] @ map f [c * k..<c * k + c]"
    by (simp only: upt_Suc_append map_append concat_append Suc.IH list.map concat.simps shift append_Nil2 le0)
  also have "\<dots> = map f [0..<c * Suc k]"
    unfolding map_append [symmetric] mult_Suc_right add.commute [of c "c * k"]
    by (simp only: upt_add_eq_append [OF le0])
  finally show ?case .
qed

lemma read_lfn_makeLFNEntries:
  assumes "char_of (0 :: nat) \<notin> set name"
  shows "read_lfn (makeLFNEntries name sn) = map of_char name"
proof -
  let ?runes = "map of_char name :: 16 word list"
  let ?k = "(length name + 12) div 13"
  have nz: "r \<noteq> 0" if "r \<in> set ?runes" for r
  proof -
    from that obtain c where c: "c \<in> set name" "r = of_char c" by auto
    have "(of_char c :: nat) \<noteq> 0" using c(1) assms char_of_code [of 0 c] by auto
    moreover have "(of_char c :: nat) < 65536" using nat_of_char_less_256 [of c] by linarith
    ultimately have "unat (of_nat (of_char c) :: 16 word) \<noteq> 0" by (simp only: unat16) simp
    then show ?thesis using c(2) by (auto simp: of_nat_of_char)
  qed
  have "concat (map lfn_slots (rev (makeLFNEntries name sn))) = map (lfn_char ?runes) [0..<13 * ?k]"
    using concat_slots [of "lfn_char ?runes" 13 ?k]
    by (simp add: makeLFNEntries_def Let_def lfn_entry_slots comp_def)
  also have "[0..<13 * ?k] = [0..<length name] @ [length name..<13 * ?k]"
    using upt_add_eq_append [of 0 "length name" "13 * ?k - length name"] by simp
  also have "map (lfn_char ?runes) \<dots> = ?runes @ map (lfn_char ?runes) [length name..<13 * ?k]"
  proof -
    have "map (lfn_char ?runes) [0..<length name] = ?runes"
      by (rule nth_equalityI) (simp_all add: lfn_char_def)
    then show ?thesis by (simp only: map_append)
  qed
  finally have c: "concat (map lfn_slots (rev (makeLFNEntries name sn))) = \<dots>" .
  have "takeWhile (\<lambda>r. r \<noteq> 0) (map (lfn_char ?runes) [length name..<13 * ?k]) = []"
    by (cases "length name < 13 * ?k") (simp_all add: upt_conv_Cons lfn_char_def)
  then show ?thesis unfolding read_lfn_def c using nz by (subst takeWhile_append2) auto
qed

section \<open>When an image fits\<close>

text \<open>The directory entries of a file: its long-name entries and its own.\<close>

definition dir_slots :: "string \<Rightarrow> nat" where
  "dir_slots name = (if needsLFN name then (length name + 12) div 13 else 0) + 1"

lemma length_makeLFNEntries [simp]: "length (makeLFNEntries name sn) = (length name + 12) div 13"
  by (simp add: makeLFNEntries_def Let_def)

lemma write_entries_fits:
  "fb_rootUsed b \<le> 128 \<Longrightarrow>
   (if fb_rootUsed b + length es \<le> 128
    then \<exists>b'. write_entries b es = Inr b' \<and> fb_rootUsed b' = fb_rootUsed b + length es
    else \<exists>e. write_entries b es = Inl e)"
proof (induction es arbitrary: b)
  case Nil
  then show ?case by simp
next
  case (Cons e es)
  show ?case
  proof (cases "fb_rootUsed b < 128")
    case True
    let ?b = "b\<lparr>fb_rootDir := copy_at (fb_rootDir b) (fb_rootUsed b * dirEntrySize) e, fb_rootUsed := fb_rootUsed b + 1\<rparr>"
    have "writeDirEntry b e = Inr (fb_rootUsed b * dirEntrySize, ?b)"
      using True by (simp add: writeDirEntry_def rootEntryCount_def Let_def)
    with Cons.IH [of ?b] True show ?thesis by (simp split: if_splits)
  next
    case False
    with Cons.prems show ?thesis by (simp add: writeDirEntry_def rootEntryCount_def)
  qed
qed

lemma name_entries_fits:
  assumes "fb_rootUsed b \<le> 128"
  shows "if fb_rootUsed b + dir_slots name \<le> 129
    then \<exists>sn b'. name_entries b name = Inr (sn, b') \<and> fb_rootUsed b' + 1 = fb_rootUsed b + dir_slots name
    else \<exists>e. name_entries b name = Inl e"
proof (cases "needsLFN name")
  case True
  let ?b = "b\<lparr>fb_shortSeq := fb_shortSeq b + 1\<rparr>"
    and ?es = "makeLFNEntries name (generateShortName name (fb_shortSeq b + 1))"
  show ?thesis
    using write_entries_fits [of ?b ?es] assms True
    by (auto simp: name_entries_def dir_slots_def Let_def split: if_splits)
next
  case False
  with assms show ?thesis by (simp add: name_entries_def dir_slots_def)
qed

lemma addFile_fits:
  assumes ok: "builder_ok b"
  shows "if clusters_of (fb_data b) + nclusters content \<le> 2027 \<and> fb_rootUsed b + dir_slots name \<le> 128
    then \<exists>b'. addFile now name content b = Inr b' \<and> builder_ok b' \<and>
      clusters_of (fb_data b') = clusters_of (fb_data b) + nclusters content \<and>
      fb_rootUsed b' = fb_rootUsed b + dir_slots name
    else \<exists>e. addFile now name content b = Inl e"
proof (cases "clusters_of (fb_data b) + nclusters content \<le> 2027")
  case False
  then have "alloc_clusters b content = Inl (ErrMsg ''fat12: not enough space'')"
    using ok by (auto simp: alloc_clusters_alt builder_ok_def)
  with False show ?thesis by (simp add: addFile_def)
next
  case True
  then have "\<exists>s b1. alloc_clusters b content = Inr (s, b1)"
    using ok by (simp add: alloc_clusters_alt builder_ok_def)
  then obtain s b1 where b1: "alloc_clusters b content = Inr (s, b1)" by blast
  note e1 = alloc_clusters_extends [OF ok b1]
  have ok1: "builder_ok b1" "fb_rootUsed b1 = fb_rootUsed b" using e1 by (simp_all add: extends_def)
  have cl: "clusters_of (fb_data b1) = clusters_of (fb_data b) + nclusters content"
    using e1 b1 by (cases "content = []") (auto simp: alloc_clusters_alt nclusters_bounds(3))
  have used: "fb_rootUsed b1 \<le> 128" using ok1(1) by (simp add: builder_ok_def)
  note names = name_entries_fits [OF used, of name]
  show ?thesis
  proof (cases "fb_rootUsed b + dir_slots name \<le> 128")
    case fits: True
    with names ok1(2) obtain sn b2 where b2: "name_entries b1 name = Inr (sn, b2)"
      "fb_rootUsed b2 + 1 = fb_rootUsed b + dir_slots name" by auto
    then have "fb_rootUsed b2 < 128" using fits by simp
    then obtain off b3 where b3: "writeDirEntry b2 sn = Inr (off, b3)" "fb_rootUsed b3 = Suc (fb_rootUsed b2)"
      by (simp add: writeDirEntry_def rootEntryCount_def Let_def)
    then obtain b' where b': "addFile now name content b = Inr b'" "fb_rootUsed b' = Suc (fb_rootUsed b2)"
        "fb_data b' = fb_data b3"
      using b1 b2 by (simp add: addFile_def Let_def)
    have ok2: "builder_ok b2" "fb_data b2 = fb_data b1" "length sn = 11"
      using name_entries_extends [OF ok1(1) b2(1)] by (simp_all add: extends_def)
    have "fb_data b3 = fb_data b1" using writeDirEntry_extends [OF ok2(1) b3(1)] ok2 by simp
    moreover have "builder_ok b'" using addFile_extends [OF ok b'(1)] by (simp add: extends_def)
    ultimately show ?thesis using b' b2(2) cl True fits by simp
  next
    case full: False
    show ?thesis
    proof (cases "fb_rootUsed b + dir_slots name \<le> 129")
      case False
      with names ok1(2) b1 full show ?thesis by (auto simp: addFile_def)
    next
      case True
      with names ok1(2) obtain sn b2 where b2: "name_entries b1 name = Inr (sn, b2)" "fb_rootUsed b2 = 128"
        using full by auto
      with b1 full show ?thesis by (simp add: addFile_def writeDirEntry_def rootEntryCount_def)
    qed
  qed
qed

lemma add_files_fits:
  "builder_ok b \<Longrightarrow>
   (if clusters_of (fb_data b) + (\<Sum>(n, c) \<leftarrow> fs. nclusters c) \<le> 2027 \<and>
       fb_rootUsed b + (\<Sum>(n, c) \<leftarrow> fs. dir_slots n) \<le> 128
    then \<exists>b'. add_files now fs b = Inr b' else \<exists>e. add_files now fs b = Inl e)"
proof (induction fs arbitrary: b)
  case Nil
  then show ?case by (simp add: builder_ok_def)
next
  case (Cons f fs)
  obtain n c where f: "f = (n, c)" by (cases f)
  note add = addFile_fits [OF Cons.prems, of c n now]
  show ?case
  proof (cases "clusters_of (fb_data b) + nclusters c \<le> 2027 \<and> fb_rootUsed b + dir_slots n \<le> 128")
    case True
    with add obtain b1 where b1: "addFile now n c b = Inr b1" "builder_ok b1"
      "clusters_of (fb_data b1) = clusters_of (fb_data b) + nclusters c"
      "fb_rootUsed b1 = fb_rootUsed b + dir_slots n" by auto
    from Cons.IH [OF b1(2)] b1 f show ?thesis by (simp add: add.assoc split: if_splits)
  next
    case False
    with add obtain e where "addFile now n c b = Inl e" by auto
    with False f show ?thesis by auto
  qed
qed

lemma newFAT12Builder_used:
  "fb_rootUsed (newFAT12Builder now label) = 1" "fb_data (newFAT12Builder now label) = []"
  by (simp_all add: newFAT12Builder_def addVolumeLabel_def writeDirEntry_def geometry Let_def)

definition fat12_fits :: "byte list tbl \<Rightarrow> bool" where
  "fat12_fits files \<longleftrightarrow>
     (\<Sum>(n, c) \<leftarrow> files. nclusters c) \<le> 2027 \<and> (\<Sum>(n, c) \<leftarrow> files. dir_slots n) \<le> 127"

lemma mset_rows_of_sort:
  assumes "tbl_ok t"
  shows "mset (rows_of (tget t) (sort (ids_of t))) = mset t"
proof -
  have "mset (rows_of f ks) = (\<Sum>k \<in># mset ks. mset (case f k of None \<Rightarrow> [] | Some v \<Rightarrow> [(k, v)]))" for f :: "string \<rightharpoonup> 'a" and ks
    by (induction ks) (auto split: option.splits)
  from this [of "tget t" "sort (ids_of t)"] this [of "tget t" "ids_of t"]
  have "mset (rows_of (tget t) (sort (ids_of t))) = mset (rows_of (tget t) (ids_of t))" by simp
  then show ?thesis using tbl_eq_rows_of [OF assms] by metis
qed

lemma CreateFAT12_fits:
  assumes "tbl_ok files"
  shows "(\<exists>img. CreateFAT12 now label files = Inr img) \<longleftrightarrow> fat12_fits files"
proof -
  let ?fs = "rows_of (tget files) (sort (ids_of files))"
  have sums: "(\<Sum>p \<leftarrow> ?fs. h p) = (\<Sum>p \<leftarrow> files. h p)" for h :: "string \<times> byte list \<Rightarrow> nat"
    using mset_rows_of_sort [OF assms] by (metis mset_map sum_mset_sum_list)
  show ?thesis
    using add_files_fits [OF newFAT12Builder_ok, of now label ?fs now] newFAT12Builder_used [of now label]
    by (auto simp: CreateFAT12_def fat12_fits_def sums split: if_splits sum.splits)
qed

section \<open>Properties\<close>

lemma lfn_entry_marks: "lfn_entry runes ck n i ! 11 = 0x0F" "lfn_entry runes ck n i ! 13 = ck"
  by (simp_all add: lfn_entry_def Let_def dirEntrySize_def put_slots_nth)

lemma makeLFNEntries_marks:
  "e \<in> set (makeLFNEntries name sn) \<Longrightarrow> e ! 11 = 0x0F \<and> e ! 13 = lfnChecksum sn"
  by (auto simp: makeLFNEntries_def Let_def lfn_entry_marks)

lemma named_at_image:
  assumes ok: "builder_ok b" and nm: "named_at b name sn i" and lfn: "needsLFN name" and i: "i \<le> fb_rootUsed b"
  shows "map (img_entry (writeTo now b)) [i - (dir_slots name - 1)..<i] = makeLFNEntries name sn"
proof -
  let ?es = "makeLFNEntries name sn" and ?k = "length (makeLFNEntries name sn)"
  have k: "?k \<le> i" and es: "entries_from b (i - ?k) ?es" using nm lfn by (simp_all add: named_at_def)
  have slots: "dir_slots name - 1 = ?k" using lfn by (simp add: dir_slots_def)
  show ?thesis
    unfolding slots
  proof (rule nth_equalityI)
    show "length (map (img_entry (writeTo now b)) [i - ?k..<i]) = length ?es" using k by simp
    fix j assume "j < length (map (img_entry (writeTo now b)) [i - ?k..<i])"
    then have j: "j < ?k" using k by simp
    have "i \<le> 128" using i ok by (simp add: builder_ok_def)
    then have "i - ?k + j < 128" using j k by linarith
    then show "map (img_entry (writeTo now b)) [i - ?k..<i] ! j = ?es ! j"
      using j k es writeTo_parts(3) [OF ok] by (simp add: entries_from_def)
  qed
qed

lemma image_readable:
  assumes "CreateFAT12 now label files = Inr img" and "tget files name = Some content"
    and "char_of (0 :: nat) \<notin> set name"
  shows "length img = 1048576 \<and>
    (\<exists>i < 128. img_entry img i ! 11 = 0x20 \<and> entry_file img (img_entry img i) = content \<and>
      (if needsLFN name
       then (let es = map (img_entry img) [i - (dir_slots name - 1)..<i]
             in read_lfn es = map of_char name \<and>
                (\<forall>e \<in> set es. e ! 11 = 0x0F \<and> e ! 13 = lfnChecksum (take 11 (img_entry img i))))
       else take 11 (img_entry img i) = toShortName name))"
proof -
  obtain b where ok: "builder_ok b" and img: "img = writeTo now b" and w: "written b name content"
    using CreateFAT12_written [OF assms(1)] assms(2) by metis
  then obtain i sn where pl: "placed b sn content i" and nm: "named_at b name sn i"
    by (auto simp: written_def)
  have i: "i < 128" "i \<le> fb_rootUsed b" using pl ok by (simp_all add: placed_def builder_ok_def)
  have e: "img_entry img i = entry_at (fb_rootDir b) i" using writeTo_parts(3) [OF ok i(1)] img by simp
  have sn: "take 11 (img_entry img i) = sn" "img_entry img i ! 11 = 0x20"
    using pl e by (simp_all add: placed_def)
  have content: "entry_file img (img_entry img i) = content" using placed_read [OF ok pl] img by simp
  have names: "if needsLFN name
       then (let es = map (img_entry img) [i - (dir_slots name - 1)..<i]
             in read_lfn es = map of_char name \<and>
                (\<forall>e \<in> set es. e ! 11 = 0x0F \<and> e ! 13 = lfnChecksum (take 11 (img_entry img i))))
       else take 11 (img_entry img i) = toShortName name"
  proof (cases "needsLFN name")
    case True
    then have es: "map (img_entry img) [i - (dir_slots name - 1)..<i] = makeLFNEntries name sn"
      using named_at_image [OF ok nm True i(2)] img by simp
    show ?thesis
      unfolding es Let_def sn(1) using True read_lfn_makeLFNEntries [OF assms(3)] makeLFNEntries_marks by auto
  next
    case False
    then show ?thesis using nm sn(1) by (simp add: named_at_def)
  qed
  have "length img = 1048576" using writeTo_parts(1) [OF ok] img by simp
  with i(1) sn(2) content names show ?thesis by blast
qed

text \<open>
  C8. Every file of an image that \<open>CreateFAT12\<close> produced is read back: the image has 1 MiB, and
  some directory entry carries the archive attribute, spells the file's name (by its long-name
  entries, checked against the short name's checksum, when the name needs them; otherwise by its
  8.3 name) and leads through the FAT chain to exactly the content.
\<close>

theorem fat12_image_readable:
  assumes "CreateFAT12 now label files = Inr img" and "tget files name = Some content"
    and "char_of (0 :: nat) \<notin> set name"
  shows "length img = 1048576 \<and>
    (\<exists>i < 128. img_entry img i ! 11 = 0x20 \<and> entry_file img (img_entry img i) = content \<and>
      (if needsLFN name
       then (let es = map (img_entry img) [i - (dir_slots name - 1)..<i]
             in read_lfn es = map of_char name \<and>
                (\<forall>e \<in> set es. e ! 11 = 0x0F \<and> e ! 13 = lfnChecksum (take 11 (img_entry img i))))
       else take 11 (img_entry img i) = toShortName name))"
  using image_readable [OF assms] .

definition sample_time :: caltime where
  "sample_time = \<lparr>Year = 2026, Month = 11, Day = 15, Hour = 12, Minute = 30, Second = 8, UnixNano = 7\<rparr>"

definition sample_files :: "byte list tbl" where
  "sample_files = [(''meta-data'', [1, 2, 3]), (''USER.TXT'', replicate 600 7)]"

lemma sample_image: "\<exists>img. CreateFAT12 sample_time ''CIDATA'' sample_files = Inr img"
  by (subst CreateFAT12_fits) (simp_all add: sample_files_def tbl_ok_def fat12_fits_def nclusters_def
      sectorSize_def dir_slots_def)

theorem fat12_image_readable_witness:
  "\<exists>img. CreateFAT12 sample_time ''CIDATA'' sample_files = Inr img \<and> length img = 1048576 \<and>
     (\<exists>i < 128. entry_file img (img_entry img i) = [1, 2, 3])"
proof -
  obtain img where img: "CreateFAT12 sample_time ''CIDATA'' sample_files = Inr img"
    using sample_image by blast
  have "tget sample_files ''meta-data'' = Some [1, 2, 3]" "char_of (0 :: nat) \<notin> set ''meta-data''"
    by (simp_all add: sample_files_def char_of_def)
  from fat12_image_readable [OF img this] img show ?thesis by blast
qed

text \<open>
  C24. \<open>CreateFAT12\<close> succeeds exactly when its files fit: at most 2027 clusters of content and
  at most 127 directory entries (beside the volume label), counting the long-name entries.
\<close>

theorem fat12_succeeds_iff_fits:
  assumes "tbl_ok files"
  shows "(\<exists>img. CreateFAT12 now label files = Inr img) \<longleftrightarrow> fat12_fits files"
  using CreateFAT12_fits [OF assms] .

theorem fat12_succeeds_iff_fits_witness:
  "tbl_ok [(''A'', replicate 512 (1 :: byte))] \<and>
   (\<exists>img. CreateFAT12 sample_time ''CIDATA'' [(''A'', replicate 512 1)] = Inr img)"
proof -
  have ok: "tbl_ok [(''A'', replicate 512 (1 :: byte))]" by (simp add: tbl_ok_def)
  have "fat12_fits [(''A'', replicate 512 1)]"
    by (simp add: fat12_fits_def nclusters_def sectorSize_def dir_slots_def)
  with fat12_succeeds_iff_fits [OF ok] ok show ?thesis by blast
qed

text \<open>
  The packed 12-bit FAT: an entry that \<open>setFATEntry\<close> wrote reads back as the low twelve bits
  of its value, and every other entry is as it was, although neighbours share a byte.
\<close>

theorem setFATEntry_correct:
  assumes "c + c div 2 + 1 < length fat" and "d + d div 2 + 1 < length fat"
  shows "getFATEntry (setFATEntry fat c v) d = (if d = c then v AND 0xFFF else getFATEntry fat d)"
  using get_set_same [OF assms(1)] get_set_other [OF assms] by simp

theorem setFATEntry_correct_witness:
  "getFATEntry (setFATEntry [1, 2, 3, 4, 5, 6] 1 0xABC) 0 = getFATEntry [1, 2, 3, 4, 5, 6] 0 \<and>
   getFATEntry (setFATEntry [1, 2, 3, 4, 5, 6] 1 0xABC) 1 = 0xABC"
  using setFATEntry_correct [of 1 "[1, 2, 3, 4, 5, 6]" 0 "0xABC"]
    setFATEntry_correct [of 1 "[1, 2, 3, 4, 5, 6]" 1 "0xABC"] by simp

end
