(* ===== verification/Host.thy ===== *)
theory Host
  imports Types
begin

text \<open>
  The host as the code sees it: the system calls a component makes are a record of operations on
  the host's state \<open>'k\<close>, passed as an argument. An action takes the state to a result and a new
  state. On top of it the shared helpers of \<open>src/utils\<close>: polling (\<open>poll.go\<close>), directory scans and
  set filters (\<open>file.go\<close>), best-effort batches (\<open>batch.go\<close>) and identifiers (\<open>id.go\<close>); and the
  parts of \<open>strconv\<close>, \<open>strings\<close> and \<open>path/filepath\<close> they use. Paths are clean and their components
  have no separator.
\<close>

section \<open>Actions\<close>

type_synonym ('k, 'a) act = "'k \<Rightarrow> 'a res \<times> 'k"

definition act_return :: "'a \<Rightarrow> ('k, 'a) act" where
  "act_return a s = (Inr a, s)"

definition act_fail :: "err \<Rightarrow> ('k, 'a) act" where
  "act_fail e s = (Inl e, s)"

definition act_bind :: "('k, 'a) act \<Rightarrow> ('a \<Rightarrow> ('k, 'b) act) \<Rightarrow> ('k, 'b) act" where
  "act_bind m f s = (case m s of (Inl e, s') \<Rightarrow> (Inl e, s') | (Inr a, s') \<Rightarrow> f a s')"

text \<open>\<open>act_try m f\<close>: the continuation sees the result, an error included.\<close>

definition act_try :: "('k, 'a) act \<Rightarrow> ('a res \<Rightarrow> ('k, 'b) act) \<Rightarrow> ('k, 'b) act" where
  "act_try m f s = (case m s of (r, s') \<Rightarrow> f r s')"

fun act_each :: "('a \<Rightarrow> ('k, unit) act) \<Rightarrow> 'a list \<Rightarrow> ('k, unit) act" where
  "act_each f [] = act_return ()"
| "act_each f (x # xs) = act_bind (f x) (\<lambda>_. act_each f xs)"

lemma act_simps [simp]:
  "act_return a s = (Inr a, s)" "act_fail e s = (Inl e, s)"
  by (simp_all add: act_return_def act_fail_def)

lemma act_bind_Inr:
  "act_bind m f s = (Inr b, s') \<longleftrightarrow> (\<exists>a s1. m s = (Inr a, s1) \<and> f a s1 = (Inr b, s'))"
  by (auto simp: act_bind_def split: prod.splits sum.splits)

lemma act_bind_Inl:
  "act_bind m f s = (Inl e, s') \<longleftrightarrow>
     m s = (Inl e, s') \<or> (\<exists>a s1. m s = (Inr a, s1) \<and> f a s1 = (Inl e, s'))"
  by (auto simp: act_bind_def split: prod.splits sum.splits)

record 'k host =
  sys_read :: "'k \<Rightarrow> string \<Rightarrow> string res"
  sys_write :: "string \<Rightarrow> string \<Rightarrow> ('k, unit) act"
  sys_mkdir :: "string \<Rightarrow> ('k, unit) act"
  sys_mkdirall :: "string \<Rightarrow> ('k, unit) act"
  sys_remove :: "string \<Rightarrow> ('k, unit) act"
  sys_removeall :: "string \<Rightarrow> ('k, unit) act"
  sys_readdir :: "'k \<Rightarrow> string \<Rightarrow> (string \<times> bool) list res"
  sys_stat :: "'k \<Rightarrow> string \<Rightarrow> unit res"

section \<open>Paths and numbers\<close>

definition Join :: "string list \<Rightarrow> string" where
  "Join parts = joined (CHR ''/'') parts"

text \<open>\<open>filepath.Rel\<close> of a clean absolute path: the rest below the base, or a path that leaves it.\<close>

definition Rel :: "string \<Rightarrow> string \<Rightarrow> string" where
  "Rel base target =
     (if target = base then ''.''
      else if has_prefix target (base @ ''/'') then drop (length base + 1) target
      else ''../'')"

text \<open>\<open>filepath.Dir\<close> of a clean absolute path.\<close>

definition Dir :: "string \<Rightarrow> string" where
  "Dir path =
     (let d = rev (drop 1 (dropWhile (\<lambda>c. c \<noteq> CHR ''/'') (rev path))) in if d = [] then ''/'' else d)"

text \<open>\<open>filepath.Base\<close>, \<open>filepath.Ext\<close> and \<open>strings.Contains\<close>.\<close>

definition Base :: "string \<Rightarrow> string" where
  "Base path =
     (let p = dropWhile (\<lambda>c. c = CHR ''/'') (rev path)
      in if path = [] then ''.'' else if p = [] then ''/'' else rev (takeWhile (\<lambda>c. c \<noteq> CHR ''/'') p))"

lemma Dir_Join: "CHR ''/'' \<notin> set name \<Longrightarrow> d \<noteq> '''' \<Longrightarrow> Dir (Join [d, name]) = d"
proof -
  assume n: "CHR ''/'' \<notin> set name" and d: "d \<noteq> ''''"
  have "dropWhile (\<lambda>c. c \<noteq> CHR ''/'') (rev name @ CHR ''/'' # rev d) = CHR ''/'' # rev d"
    by (subst dropWhile_append2) (use n in auto)
  with d show ?thesis by (simp add: Dir_def Join_def Let_def)
qed

lemma Dir_ne [simp]: "Dir p \<noteq> ''''"
  by (simp add: Dir_def Let_def)

lemma Base_Join: "CHR ''/'' \<notin> set name \<Longrightarrow> name \<noteq> '''' \<Longrightarrow> Base (Join [d, name]) = name"
proof -
  assume n: "CHR ''/'' \<notin> set name" "name \<noteq> ''''"
  then have "dropWhile (\<lambda>c. c = CHR ''/'') (rev name @ CHR ''/'' # rev d) = rev name @ CHR ''/'' # rev d"
    by (cases "rev name") auto
  moreover have "takeWhile (\<lambda>c. c \<noteq> CHR ''/'') (rev name @ CHR ''/'' # rev d) = rev name"
    by (subst takeWhile_append2) (use n in auto)
  ultimately show ?thesis using n by (simp add: Base_def Join_def Let_def)
qed

definition Ext :: "string \<Rightarrow> string" where
  "Ext path =
     (let r = takeWhile (\<lambda>c. c \<noteq> CHR ''/'') (rev path)
      in case Cut (CHR ''.'') r of (e, _, ok) \<Rightarrow> if ok then CHR ''.'' # rev e else '''')"

definition Contains :: "string \<Rightarrow> string \<Rightarrow> bool" where
  "Contains s sub = list_ex (\<lambda>i. has_prefix (drop i s) sub) [0..<Suc (length s)]"

definition CutPrefix :: "string \<Rightarrow> string \<Rightarrow> string \<times> bool" where
  "CutPrefix s p = (if has_prefix s p then (drop (length p) s, True) else (s, False))"

definition CutSuffix :: "string \<Rightarrow> string \<Rightarrow> string \<times> bool" where
  "CutSuffix s p = (if HasSuffix s p then (take (length s - length p) s, True) else (s, False))"

text \<open>\<open>strings.Fields\<close>: the maximal runs without white space.\<close>

fun Fields :: "string \<Rightarrow> string list" where
  "Fields [] = []"
| "Fields (c # cs) =
     (if is_space c then Fields cs
      else (case cs of
              [] \<Rightarrow> [[c]]
            | d # ds \<Rightarrow>
                if is_space d then [c] # Fields cs
                else (case Fields cs of [] \<Rightarrow> [[c]] | w # ws \<Rightarrow> (c # w) # ws)))"

definition wrap64 :: "int \<Rightarrow> int" where
  "wrap64 x = sint (word_of_int x :: 64 word)"

text \<open>\<open>strconv.Atoi\<close> and \<open>ParseInt(s, 10, 64)\<close>: a sign, decimal digits, and the range of \<open>int64\<close>.\<close>

definition atoi :: "string \<Rightarrow> int option" where
  "atoi s =
     (let (neg, ds) = (case s of [] \<Rightarrow> (False, [])
                        | c # cs \<Rightarrow> if c = CHR ''-'' then (True, cs)
                                    else if c = CHR ''+'' then (False, cs) else (False, s));
          v = (if neg then - int (dec_val ds) else int (dec_val ds))
      in if ds = [] \<or> \<not> list_all is_digit ds then None
         else if - (2 ^ 63) \<le> v \<and> v < 2 ^ 63 then Some v else None)"

text \<open>\<open>strconv.ParseUint(s, 10, 64)\<close>.\<close>

definition parse_uint64 :: "string \<Rightarrow> nat option" where
  "parse_uint64 s =
     (if s = [] \<or> \<not> list_all is_digit s then None
      else if dec_val s < 2 ^ 64 then Some (dec_val s) else None)"

definition itoa_int :: "int \<Rightarrow> string" where
  "itoa_int i = (if i < 0 then CHR ''-'' # itoa (nat (- i)) else itoa (nat i))"

definition cmp_or_int :: "int \<Rightarrow> int \<Rightarrow> int" where
  "cmp_or_int a b = (if a \<noteq> 0 then a else b)"

section \<open>Polling\<close>

text \<open>What the select of \<open>WaitFor\<close> sees after each check that was not done.\<close>

datatype wait_event = Tick | Expired | Cancelled err

fun WaitFor :: "('k, bool) act \<Rightarrow> wait_event list \<Rightarrow> ('k, unit) act" where
  "WaitFor check evs s =
     (case check s of
        (Inl e, s') \<Rightarrow> (Inl e, s')
      | (Inr True, s') \<Rightarrow> (Inr (), s')
      | (Inr False, s') \<Rightarrow>
          (case evs of
             Tick # rest \<Rightarrow> WaitFor check rest s'
           | Cancelled e # _ \<Rightarrow> (Inl e, s')
           | _ \<Rightarrow> (Inl (ErrMsg ''timeout''), s')))"

declare WaitFor.simps [simp del]

section \<open>Directories and filters\<close>

definition EnsureDirs :: "'k host \<Rightarrow> string list \<Rightarrow> ('k, unit) act" where
  "EnsureDirs K dirs = act_each (sys_mkdirall K) dirs"

definition FileExists :: "'k host \<Rightarrow> 'k \<Rightarrow> string \<Rightarrow> bool" where
  "FileExists K s path = (case sys_stat K s path of Inl _ \<Rightarrow> False | Inr _ \<Rightarrow> True)"

text \<open>An entry is its name and whether it is a directory.\<close>

definition scanDir :: "'k host \<Rightarrow> 'k \<Rightarrow> string \<Rightarrow> (string \<times> bool \<Rightarrow> string \<times> bool) \<Rightarrow> string list res" where
  "scanDir K s dir fn =
     (case sys_readdir K s dir of
        Inl e \<Rightarrow> if e = ErrNotExist then Inr [] else Inl e
      | Inr entries \<Rightarrow> Inr (map fst (filter snd (map fn entries))))"

definition ScanSubdirs :: "'k host \<Rightarrow> 'k \<Rightarrow> string \<Rightarrow> string list res" where
  "ScanSubdirs K s dir = scanDir K s dir (\<lambda>e. e)"

definition ScanFileStems :: "'k host \<Rightarrow> 'k \<Rightarrow> string \<Rightarrow> string \<Rightarrow> string list res" where
  "ScanFileStems K s dir suf =
     scanDir K s dir (\<lambda>(name, isdir). case CutSuffix name suf of (stem, ok) \<Rightarrow> (stem, ok \<and> \<not> isdir))"

definition FilterUnreferenced :: "string list \<Rightarrow> string set \<Rightarrow> string set list \<Rightarrow> string list" where
  "FilterUnreferenced candidates refs exclude =
     filter (\<lambda>s. s \<notin> refs \<and> \<not> list_ex (\<lambda>ex. s \<in> ex) exclude) candidates"

fun remove_entries :: "'k host \<Rightarrow> string \<Rightarrow> (string \<times> bool) list \<Rightarrow> 'k \<Rightarrow> err list \<times> 'k" where
  "remove_entries K dir [] s = ([], s)"
| "remove_entries K dir (e # es) s =
     (case sys_removeall K (Join [dir, fst e]) s of
        (Inl err, s') \<Rightarrow> (case remove_entries K dir es s' of (errs, s'') \<Rightarrow> (err # errs, s''))
      | (Inr _, s') \<Rightarrow> remove_entries K dir es s')"

definition RemoveMatching :: "'k host \<Rightarrow> string \<Rightarrow> (string \<times> bool \<Rightarrow> bool) \<Rightarrow> 'k \<Rightarrow> err list \<times> 'k" where
  "RemoveMatching K dir match s =
     (case sys_readdir K s dir of
        Inl e \<Rightarrow> if e = ErrNotExist then ([], s) else ([e], s)
      | Inr entries \<Rightarrow> remove_entries K dir (filter match entries) s)"

section \<open>Batches\<close>

record ('a) batch =
  Succeeded :: "'a list"
  Errors :: "err list"

text \<open>
  \<open>ForEach\<close> runs every item, whatever the others return; the results are collected in item order.
  Its items do not share state, so they run in turn here.
\<close>

fun ForEach :: "'a list \<Rightarrow> ('a \<Rightarrow> ('k, unit) act) \<Rightarrow> 'k \<Rightarrow> 'a batch \<times> 'k" where
  "ForEach [] fn s = (\<lparr>Succeeded = [], Errors = []\<rparr>, s)"
| "ForEach (x # xs) fn s =
     (case fn x s of (r, s') \<Rightarrow>
        (case ForEach xs fn s' of (b, s'') \<Rightarrow>
           (case r of
              Inl e \<Rightarrow> (b\<lparr>Errors := e # Errors b\<rparr>, s'')
            | Inr _ \<Rightarrow> (b\<lparr>Succeeded := x # Succeeded b\<rparr>, s''))))"

definition OrDefault :: "int \<Rightarrow> int \<Rightarrow> int" where
  "OrDefault n def = (if n \<le> 0 then def else n)"

section \<open>Identifiers\<close>

definition idLength :: nat where
  "idLength = 26"

definition ValidID :: "string \<Rightarrow> bool" where
  "ValidID rid \<longleftrightarrow> length rid = idLength \<and>
     \<not> list_ex (\<lambda>r. (r < CHR ''A'' \<or> r > CHR ''Z'') \<and> (r < CHR ''2'' \<or> r > CHR ''7'')) rid"

section \<open>Lemmas\<close>

lemma is_digit_char [simp]: "d < 10 \<Longrightarrow> is_digit (digit_char d)"
  by (simp add: is_digit_def digit_char_def less_eq_char_def of_char_of take_bit_eq_mod)

lemma itoa_digits: "c \<in> set (itoa n) \<Longrightarrow> is_digit c"
proof (induction n rule: itoa.induct)
  case (1 n)
  then show ?case by (cases "n < 10") (auto simp: itoa.simps [of n])
qed

lemma digit_not_sign: "is_digit c \<Longrightarrow> c \<noteq> CHR ''-'' \<and> c \<noteq> CHR ''+'' \<and> c \<noteq> CHR '','' \<and> \<not> is_space c"
  by (auto simp: is_digit_def is_space_def less_eq_char_def)

lemma atoi_itoa: "int n < 2 ^ 63 \<Longrightarrow> atoi (itoa n) = Some (int n)"
proof -
  assume n: "int n < 2 ^ 63"
  obtain c cs where c: "itoa n = c # cs" using itoa_ne [of n] by (cases "itoa n") auto
  have "is_digit c" using itoa_digits [of c n] c by simp
  with digit_not_sign have "c \<noteq> CHR ''-''" "c \<noteq> CHR ''+''" by blast+
  moreover have "list_all is_digit (itoa n)" using itoa_digits by (simp add: list_all_iff)
  ultimately show ?thesis using n c dec_val_itoa [of n] by (simp add: atoi_def Let_def)
qed

lemma set_FilterUnreferenced:
  "set (FilterUnreferenced cs refs exs) = {c \<in> set cs. c \<notin> refs \<and> (\<forall>ex \<in> set exs. c \<notin> ex)}"
  by (auto simp: FilterUnreferenced_def list_ex_iff)

lemma ForEach_partition:
  "ForEach xs fn s = (b, s') \<Longrightarrow> length (Succeeded b) + length (Errors b) = length xs"
  by (induction xs arbitrary: s b) (fastforce split: prod.splits sum.splits)+

text \<open>A wait that succeeds ended with a check that was done.\<close>

lemma WaitFor_done: "WaitFor check evs s = (Inr (), s') \<Longrightarrow> \<exists>s0. check s0 = (Inr True, s')"
proof (induction evs arbitrary: s)
  case Nil
  then show ?case
    by (subst (asm) WaitFor.simps) (auto split: prod.splits sum.splits bool.splits)
next
  case (Cons e evs)
  then show ?case
    by (subst (asm) WaitFor.simps) (auto split: prod.splits sum.splits bool.splits wait_event.splits)
qed

end
