(* ===== verification/Process.thy ===== *)
theory Process
  imports Host
begin

text \<open>
  Processes as \<open>src/utils\<close> sees them through \<open>/proc\<close> and signals: \<open>process.go\<close>, \<open>process_linux.go\<close>,
  \<open>procref.go\<close> with \<open>procref_linux.go\<close>, and the pidfd half of termination in \<open>pidfd_linux.go\<close>. A VMM is
  recognised by its API socket path, which is one of its arguments. Signals, \<open>kill(pid, 0)\<close> and pidfds
  are operations of the host.
\<close>

section \<open>The host's processes\<close>

record 'k phost = "'k host" +
  sys_kill0 :: "'k \<Rightarrow> int \<Rightarrow> unit res"
  sys_signal :: "int \<Rightarrow> string \<Rightarrow> ('k, unit) act"
  sys_pidfd_open :: "'k \<Rightarrow> int \<Rightarrow> unit res"
  sys_pidfd_signal :: "int \<Rightarrow> string \<Rightarrow> ('k, unit) act"
  sys_pidfd_poll :: "int \<Rightarrow> ('k, bool) act"

definition SIGTERM :: string where "SIGTERM = ''TERM''"

definition SIGKILL :: string where "SIGKILL = ''KILL''"

definition proc_file :: "int \<Rightarrow> string \<Rightarrow> string" where
  "proc_file pid name = ''/proc/'' @ itoa_int pid @ ''/'' @ name"

definition ReadPIDFile :: "('k, 'z) host_scheme \<Rightarrow> 'k \<Rightarrow> string \<Rightarrow> int res" where
  "ReadPIDFile K s path =
     (case sys_read K s path of
        Inl e \<Rightarrow> Inl e
      | Inr data \<Rightarrow>
          (case atoi (TrimSpace data) of None \<Rightarrow> Inl (ErrMsg ''parse PID'') | Some pid \<Rightarrow> Inr pid))"

definition IsProcessAlive :: "('k, 'z) phost_scheme \<Rightarrow> 'k \<Rightarrow> int \<Rightarrow> bool" where
  "IsProcessAlive K s pid =
     (if pid \<le> 0 then False
      else (case sys_kill0 K s pid of Inr _ \<Rightarrow> True | Inl e \<Rightarrow> e = EPERM))"

section \<open>Command lines\<close>

definition NUL :: char where "NUL = char_of (0 :: nat)"

definition verifyProcessCmdline :: "('k, 'z) host_scheme \<Rightarrow> 'k \<Rightarrow> int \<Rightarrow> string \<Rightarrow> bool res" where
  "verifyProcessCmdline K s pid expectArg =
     (case sys_read K s (proc_file pid ''cmdline'') of
        Inl e \<Rightarrow> Inl e
      | Inr data \<Rightarrow> (case Cut NUL data of (_, rest, _) \<Rightarrow> Inr (list_ex (\<lambda>arg. arg = expectArg) (SplitSeq NUL rest))))"

definition VerifyProcessCmdline :: "('k, 'z) phost_scheme \<Rightarrow> 'k \<Rightarrow> int \<Rightarrow> string \<Rightarrow> bool" where
  "VerifyProcessCmdline K s pid expectArg =
     (if pid \<le> 0 then False
      else (case verifyProcessCmdline K s pid expectArg of
              Inr match \<Rightarrow> match
            | Inl _ \<Rightarrow> IsProcessAlive K s pid))"

definition verifyForTermination ::
    "int \<Rightarrow> string \<Rightarrow> (int \<Rightarrow> string \<Rightarrow> bool res) \<Rightarrow> (int \<Rightarrow> bool) \<Rightarrow> bool res" where
  "verifyForTermination pid expectArg verify alive =
     (if pid \<le> 0 then Inr False
      else (case verify pid expectArg of
              Inr match \<Rightarrow> Inr match
            | Inl e \<Rightarrow> if \<not> alive pid then Inr False else Inl e))"

definition verifyProcessForTermination :: "('k, 'z) phost_scheme \<Rightarrow> 'k \<Rightarrow> int \<Rightarrow> string \<Rightarrow> bool res" where
  "verifyProcessForTermination K s pid expectArg =
     verifyForTermination pid expectArg (verifyProcessCmdline K s) (IsProcessAlive K s)"

section \<open>Scanning\<close>

record procEntry =
  pe_pid :: int
  pe_cmdline :: string

type_synonym ProcScan = "procEntry list"

definition pfKthread :: nat where "pfKthread = 0x00200000"

definition statFlagsField :: nat where "statFlagsField = 6"

definition readKthreaddChildren :: "(string \<Rightarrow> string res) \<Rightarrow> int list" where
  "readKthreaddChildren readFile =
     (case readFile ''/proc/2/stat'' of
        Inl _ \<Rightarrow> []
      | Inr stat \<Rightarrow>
          (case CutLast (CHR '')'') stat of (_, afterComm, _) \<Rightarrow>
             (let fields = Fields afterComm in
              if length fields \<le> statFlagsField then []
              else (case parse_uint64 (fields ! statFlagsField) of
                      None \<Rightarrow> []
                    | Some flags \<Rightarrow>
                        if flags div pfKthread mod 2 = 0 then []
                        else (case readFile ''/proc/2/task/2/children'' of
                                Inl _ \<Rightarrow> []
                              | Inr children \<Rightarrow> map the (filter (\<lambda>p. p \<noteq> None) (map atoi (Fields children))))))))"

fun scan_entries ::
    "string \<Rightarrow> (string \<Rightarrow> string res) \<Rightarrow> (int \<Rightarrow> bool) \<Rightarrow> int list \<Rightarrow> (string \<times> bool) list \<Rightarrow> ProcScan res" where
  "scan_entries binaryName readFile alive kthreads [] = Inr []"
| "scan_entries binaryName readFile alive kthreads (e # es) =
     (case atoi (fst e) of
        None \<Rightarrow> scan_entries binaryName readFile alive kthreads es
      | Some pid \<Rightarrow>
          if pid \<in> set kthreads then scan_entries binaryName readFile alive kthreads es
          else (case readFile (proc_file pid ''cmdline'') of
                  Inl err \<Rightarrow>
                    if alive pid then Inl err else scan_entries binaryName readFile alive kthreads es
                | Inr data \<Rightarrow>
                    (case Cut NUL data of (argv0, _, _) \<Rightarrow>
                       if Base argv0 \<noteq> binaryName then scan_entries binaryName readFile alive kthreads es
                       else res_map (\<lambda>scan. \<lparr>pe_pid = pid, pe_cmdline = data\<rparr> # scan)
                              (scan_entries binaryName readFile alive kthreads es))))"

definition scanProcsByBinary ::
    "('k, 'z) host_scheme \<Rightarrow> 'k \<Rightarrow> string \<Rightarrow> (string \<Rightarrow> string res) \<Rightarrow> (int \<Rightarrow> bool) \<Rightarrow> ProcScan res" where
  "scanProcsByBinary K s binaryName readFile alive =
     (let kthreaddChildren = readKthreaddChildren readFile in
      case sys_readdir K s ''/proc'' of
        Inl e \<Rightarrow> Inl e
      | Inr entries \<Rightarrow> scan_entries binaryName readFile alive kthreaddChildren entries)"

definition ScanProcsByBinary :: "('k, 'z) phost_scheme \<Rightarrow> 'k \<Rightarrow> string \<Rightarrow> ProcScan res" where
  "ScanProcsByBinary K s binaryName = scanProcsByBinary K s binaryName (sys_read K s) (IsProcessAlive K s)"

definition Find :: "ProcScan \<Rightarrow> string \<Rightarrow> int list" where
  "Find scan expectArg =
     sort (map pe_pid (filter (\<lambda>e. case Cut NUL (pe_cmdline e) of (_, rest, _) \<Rightarrow> Contains rest expectArg) scan))"

definition FindVMMByCmdline :: "('k, 'z) phost_scheme \<Rightarrow> 'k \<Rightarrow> string \<Rightarrow> string \<Rightarrow> int list res" where
  "FindVMMByCmdline K s binaryName expectArg = res_map (\<lambda>scan. Find scan expectArg) (ScanProcsByBinary K s binaryName)"

section \<open>Process generations\<close>

record ProcRef =
  pr_PID :: int
  pr_Start :: nat

definition startTimeField :: nat where "startTimeField = 19"

definition procStartTime :: "('k, 'z) host_scheme \<Rightarrow> 'k \<Rightarrow> int \<Rightarrow> nat res" where
  "procStartTime K s pid =
     (case sys_read K s (proc_file pid ''stat'') of
        Inl e \<Rightarrow> Inl e
      | Inr data \<Rightarrow>
          (case CutLast (CHR '')'') data of (_, afterComm, ok) \<Rightarrow>
             if \<not> ok then Inl (ErrMsg ''no comm terminator'')
             else
               (let fields = Fields afterComm in
                if length fields \<le> startTimeField then Inl (ErrMsg ''too few fields'')
                else (case parse_uint64 (fields ! startTimeField) of
                        None \<Rightarrow> Inl (ErrMsg ''parse starttime'')
                      | Some start \<Rightarrow> Inr start))))"

definition ProcRefOf :: "('k, 'z) host_scheme \<Rightarrow> 'k \<Rightarrow> int \<Rightarrow> ProcRef res" where
  "ProcRefOf K s pid = res_map (\<lambda>start. \<lparr>pr_PID = pid, pr_Start = start\<rparr>) (procStartTime K s pid)"

section \<open>Termination\<close>

text \<open>
  The waits see a list of events: \<open>Tick\<close> lets the loop go round, \<open>Expired\<close> and \<open>Cancelled\<close> end it.
\<close>

fun waitPidfd :: "('k, 'z) phost_scheme \<Rightarrow> int \<Rightarrow> wait_event list \<Rightarrow> ('k, unit) act" where
  "waitPidfd K pid (Tick # evs) s =
     (case sys_pidfd_poll K pid s of
        (Inl e, s') \<Rightarrow> if e = EINTR then waitPidfd K pid evs s' else (Inl e, s')
      | (Inr True, s') \<Rightarrow> (Inr (), s')
      | (Inr False, s') \<Rightarrow> waitPidfd K pid evs s')"
| "waitPidfd K pid (Cancelled e # evs) s = (Inl e, s)"
| "waitPidfd K pid _ s = (Inl (ErrMsg ''timeout''), s)"

definition waitDead :: "('k, 'z) phost_scheme \<Rightarrow> int \<Rightarrow> wait_event list \<Rightarrow> ('k, unit) act" where
  "waitDead K pid evs = WaitFor (\<lambda>s. (Inr (\<not> IsProcessAlive K s pid), s)) evs"

text \<open>\<open>handled\<close> is \<open>Some\<close> result; \<open>None\<close> means no pidfd could be opened.\<close>

definition terminateWithPidfd ::
    "('k, 'z) phost_scheme \<Rightarrow> wait_event list \<Rightarrow> wait_event list \<Rightarrow> int \<Rightarrow> string \<Rightarrow> 'k \<Rightarrow> unit res option \<times> 'k" where
  "terminateWithPidfd K grace hard pid expectArg s =
     (case sys_pidfd_open K s pid of
        Inl _ \<Rightarrow> (None, s)
      | Inr _ \<Rightarrow>
          (case verifyProcessForTermination K s pid expectArg of
             Inl e \<Rightarrow> (Some (Inl e), s)
           | Inr False \<Rightarrow> (Some (Inr ()), s)
           | Inr True \<Rightarrow>
               (let (exited, s1) =
                  (case sys_pidfd_signal K pid SIGTERM s of
                     (Inl _, s') \<Rightarrow> (False, s')
                   | (Inr _, s') \<Rightarrow> (case waitPidfd K pid grace s' of (Inr _, s'') \<Rightarrow> (True, s'') | (Inl _, s'') \<Rightarrow> (False, s'')))
                in if exited then (Some (Inr ()), s1)
                   else (case sys_pidfd_signal K pid SIGKILL s1 of
                           (Inl _, s2) \<Rightarrow>
                             if \<not> IsProcessAlive K s2 pid then (Some (Inr ()), s2)
                             else (case waitPidfd K pid hard s2 of (r, s3) \<Rightarrow> (Some r, s3))
                         | (Inr _, s2) \<Rightarrow> (case waitPidfd K pid hard s2 of (r, s3) \<Rightarrow> (Some r, s3))))))"

definition killAndWait :: "('k, 'z) phost_scheme \<Rightarrow> wait_event list \<Rightarrow> int \<Rightarrow> string \<Rightarrow> ('k, unit) act" where
  "killAndWait K hard pid expectArg s =
     (case verifyProcessForTermination K s pid expectArg of
        Inl e \<Rightarrow> (Inl e, s)
      | Inr False \<Rightarrow> (Inr (), s)
      | Inr True \<Rightarrow> act_try (sys_signal K pid SIGKILL) (\<lambda>_. waitDead K pid hard) s)"

definition TerminateProcess ::
    "('k, 'z) phost_scheme \<Rightarrow> wait_event list \<Rightarrow> wait_event list \<Rightarrow> int \<Rightarrow> string \<Rightarrow> ('k, unit) act" where
  "TerminateProcess K grace hard pid expectArg s =
     (case terminateWithPidfd K grace hard pid expectArg s of
        (Some r, s') \<Rightarrow> (r, s')
      | (None, s) \<Rightarrow>
          (case verifyProcessForTermination K s pid expectArg of
             Inl e \<Rightarrow> (Inl e, s)
           | Inr False \<Rightarrow> (Inr (), s)
           | Inr True \<Rightarrow>
               (case sys_signal K pid SIGTERM s of
                  (Inl _, s1) \<Rightarrow>
                    if \<not> IsProcessAlive K s1 pid then (Inr (), s1) else killAndWait K hard pid expectArg s1
                | (Inr _, s1) \<Rightarrow>
                    (case waitDead K pid grace s1 of
                       (Inr _, s2) \<Rightarrow> (Inr (), s2)
                     | (Inl _, s2) \<Rightarrow> killAndWait K hard pid expectArg s2))))"

definition WaitProcessExit :: "('k, 'z) phost_scheme \<Rightarrow> wait_event list \<Rightarrow> int \<Rightarrow> ('k, unit) act" where
  "WaitProcessExit K evs pid s =
     (case sys_pidfd_open K s pid of
        Inl _ \<Rightarrow> waitDead K pid evs s
      | Inr _ \<Rightarrow> waitPidfd K pid evs s)"

section \<open>Correctness of the scan\<close>

lemma Contains_iff: "Contains s sub \<longleftrightarrow> (\<exists>a b. s = a @ sub @ b)"
proof
  assume "Contains s sub"
  then obtain i where "has_prefix (drop i s) sub" by (auto simp: Contains_def list_ex_iff simp del: upt_Suc)
  then have "drop i s = sub @ drop (length sub) (drop i s)"
    by (metis append_take_drop_id has_prefix_def)
  then obtain b where "drop i s = sub @ b" by blast
  then have "s = take i s @ sub @ b" by (metis append_take_drop_id)
  then show "\<exists>a b. s = a @ sub @ b" by blast
next
  assume "\<exists>a b. s = a @ sub @ b"
  then obtain a b where s: "s = a @ sub @ b" by blast
  then have "length a < Suc (length s)" "has_prefix (drop (length a) s) sub" by (auto simp: has_prefix_def)
  then show "Contains s sub" by (auto simp: Contains_def list_ex_iff simp del: upt_Suc)
qed

lemma SplitSeq_piece: "p \<in> set (SplitSeq sep s) \<Longrightarrow> \<exists>a b. s = a @ p @ b"
proof -
  assume "p \<in> set (SplitSeq sep s)"
  then obtain us vs where u: "SplitSeq sep s = us @ p # vs" by (meson split_list)
  have "joined sep (us @ p # vs) = s" using joined_SplitSeq [of sep s] u by simp
  moreover have "\<exists>a b. joined sep (us @ p # vs) = a @ p @ b"
  proof (induction us)
    case Nil
    show ?case by (cases vs) (auto intro: exI [of _ "[]"])
  next
    case (Cons u us)
    then obtain a b where "joined sep (us @ p # vs) = a @ p @ b" by blast
    then have "joined sep ((u # us) @ p # vs) = (u @ sep # a) @ p @ b" by (simp add: joined_Cons)
    then show ?case by blast
  qed
  ultimately show ?thesis by simp
qed

lemma verify_found:
  assumes "verifyProcessCmdline K s pid arg = Inr True" "sys_read K s (proc_file pid ''cmdline'') = Inr data"
    and "\<lparr>pe_pid = pid, pe_cmdline = data\<rparr> \<in> set scan"
  shows "pid \<in> set (Find scan arg)"
proof -
  obtain a0 rest ok where c: "Cut NUL data = (a0, rest, ok)" by (rule prod_cases3)
  with assms(1,2) have "arg \<in> set (SplitSeq NUL rest)" by (auto simp: verifyProcessCmdline_def list_ex_iff)
  then have "Contains rest arg" using SplitSeq_piece Contains_iff by blast
  with assms(3) c show ?thesis by (force simp: Find_def)
qed

lemma scan_entries_complete:
  assumes "scan_entries bin rd alive kt es = Inr scan" "e \<in> set es" "atoi (fst e) = Some pid"
    "pid \<notin> set kt" "alive pid"
  shows "\<exists>data. rd (proc_file pid ''cmdline'') = Inr data \<and>
    (Base (fst (Cut NUL data)) = bin \<longrightarrow> \<lparr>pe_pid = pid, pe_cmdline = data\<rparr> \<in> set scan)"
  using assms
proof (induction es arbitrary: scan)
  case (Cons x es)
  have "\<exists>rest. scan_entries bin rd alive kt es = Inr rest \<and> set rest \<subseteq> set scan"
    using Cons.prems(1) by (auto simp: res_simps split: option.splits if_splits sum.splits prod.splits)
  then obtain rest where rest: "scan_entries bin rd alive kt es = Inr rest" "set rest \<subseteq> set scan" by blast
  show ?case
  proof (cases "e \<in> set es")
    case True
    with Cons.IH [OF rest(1)] Cons.prems rest(2) show ?thesis by blast
  next
    case False
    with Cons.prems have "x = e" by simp
    with Cons.prems show ?thesis
      by (auto simp: res_simps split: option.splits if_splits sum.splits prod.splits)
  qed
qed simp

text \<open>
  C35. The scan does not miss a VMM: when it succeeds, every live listed process that is not a child of
  the kernel thread daemon was read, and one that runs the binary and has the socket path as an
  argument is among the pids found for that path. A live process that cannot be read makes the scan
  fail.
\<close>

theorem proc_scan_complete:
  assumes "ScanProcsByBinary K s bin = Inr scan" "sys_readdir K s ''/proc'' = Inr entries" "e \<in> set entries"
    and "atoi (fst e) = Some pid" "IsProcessAlive K s pid" "pid \<notin> set (readKthreaddChildren (sys_read K s))"
  shows "\<exists>data. sys_read K s (proc_file pid ''cmdline'') = Inr data \<and>
    (Base (fst (Cut NUL data)) = bin \<and> VerifyProcessCmdline K s pid arg \<longrightarrow> pid \<in> set (Find scan arg))"
proof -
  have "scan_entries bin (sys_read K s) (IsProcessAlive K s) (readKthreaddChildren (sys_read K s)) entries = Inr scan"
    using assms(1,2) by (simp add: ScanProcsByBinary_def scanProcsByBinary_def)
  from scan_entries_complete [OF this assms(3,4,6,5)]
  obtain data where d: "sys_read K s (proc_file pid ''cmdline'') = Inr data"
      "Base (fst (Cut NUL data)) = bin \<longrightarrow> \<lparr>pe_pid = pid, pe_cmdline = data\<rparr> \<in> set scan" by blast
  have "verifyProcessCmdline K s pid arg = Inr True" if "VerifyProcessCmdline K s pid arg"
    using that d(1) by (auto simp: VerifyProcessCmdline_def verifyProcessCmdline_def split: if_splits prod.splits)
  with verify_found [OF _ d(1)] d show ?thesis by blast
qed

section \<open>Correctness of termination\<close>

lemma waitPidfd_ok:
  assumes "\<And>s s'. sys_pidfd_poll K pid s = (Inr True, s') \<Longrightarrow> \<not> IsProcessAlive K s' pid"
  shows "waitPidfd K pid evs s = (Inr (), s') \<Longrightarrow> \<not> IsProcessAlive K s' pid"
  using assms
  by (induction K pid evs s rule: waitPidfd.induct) (auto split: prod.splits sum.splits if_splits bool.splits)

lemma waitDead_ok: "waitDead K pid evs s = (Inr (), s') \<Longrightarrow> \<not> IsProcessAlive K s' pid"
  unfolding waitDead_def by (drule WaitFor_done) auto

lemma killAndWait_ok:
  assumes "killAndWait K hard pid arg s = (Inr (), s')"
  shows "\<not> IsProcessAlive K s' pid \<or> verifyProcessForTermination K s' pid arg = Inr False"
  using assms waitDead_ok [of K pid hard]
  by (auto simp: killAndWait_def act_try_def split: sum.splits bool.splits prod.splits)

lemma pidfd_ok:
  assumes poll: "\<And>s s'. sys_pidfd_poll K pid s = (Inr True, s') \<Longrightarrow> \<not> IsProcessAlive K s' pid"
    and t: "terminateWithPidfd K grace hard pid arg s = (Some (Inr ()), s')"
  shows "\<not> IsProcessAlive K s' pid \<or> verifyProcessForTermination K s' pid arg = Inr False"
proof (cases "verifyProcessForTermination K s pid arg = Inr True")
  case True
  have w: "\<And>evs s s'. waitPidfd K pid evs s = (Inr (), s') \<Longrightarrow> \<not> IsProcessAlive K s' pid"
    using waitPidfd_ok [of K pid] poll by blast
  from True t w show ?thesis
    by (auto simp: terminateWithPidfd_def Let_def split: sum.splits prod.splits if_splits bool.splits)
next
  case False
  then show ?thesis
    using t by (auto simp: terminateWithPidfd_def split: sum.splits bool.splits)
qed

text \<open>
  C36. Termination never signals a process it did not recognise: the host changes only when the pid's
  command line carried the expected argument when it was checked.
\<close>

theorem terminate_verified:
  assumes "TerminateProcess K grace hard pid arg s = (r, s')" "s' \<noteq> s"
  shows "0 < pid \<and> verifyProcessCmdline K s pid arg = Inr True"
proof -
  have "verifyProcessForTermination K s pid arg = Inr True"
    using assms
    by (auto simp: TerminateProcess_def terminateWithPidfd_def split: sum.splits prod.splits option.splits bool.splits if_splits)
  then show ?thesis
    by (auto simp: verifyProcessForTermination_def verifyForTermination_def split: if_splits sum.splits)
qed

section \<open>Witnesses\<close>

text \<open>A host with one VMM, pid 7, alive while the state is true; a signal ends it.\<close>

definition one_vmm :: "bool phost" where
  "one_vmm =
     \<lparr>sys_read = (\<lambda>s p. if p = ''/proc/7/cmdline'' \<and> s
        then Inr (''/usr/bin/vmm'' @ NUL # ''--api'' @ NUL # ''/run/a/api.sock'' @ [NUL]) else Inl ErrNotExist),
      sys_write = (\<lambda>p d s. (Inr (), s)), sys_mkdir = (\<lambda>p s. (Inr (), s)), sys_mkdirall = (\<lambda>p s. (Inr (), s)),
      sys_remove = (\<lambda>p s. (Inr (), s)), sys_removeall = (\<lambda>p s. (Inr (), s)),
      sys_readdir = (\<lambda>s p. Inr [(''7'', True), (''self'', True)]), sys_stat = (\<lambda>s p. Inr ()),
      sys_kill0 = (\<lambda>s pid. if pid = 7 \<and> s then Inr () else Inl ErrNotExist),
      sys_signal = (\<lambda>pid sig s. (Inr (), False)), sys_pidfd_open = (\<lambda>s pid. Inr ()),
      sys_pidfd_signal = (\<lambda>pid sig s. (Inr (), False)), sys_pidfd_poll = (\<lambda>pid s. (Inr (\<not> s), s))\<rparr>"

definition vmm_cmdline :: string where
  "vmm_cmdline = ''/usr/bin/vmm'' @ NUL # ''--api'' @ NUL # ''/run/a/api.sock'' @ [NUL]"

theorem proc_scan_complete_witness:
  "ScanProcsByBinary one_vmm True ''vmm'' = Inr [\<lparr>pe_pid = 7, pe_cmdline = vmm_cmdline\<rparr>] \<and>
   7 \<in> set (Find [\<lparr>pe_pid = 7, pe_cmdline = vmm_cmdline\<rparr>] ''/run/a/api.sock'')"
proof -
  have scan: "ScanProcsByBinary one_vmm True ''vmm'' = Inr [\<lparr>pe_pid = 7, pe_cmdline = vmm_cmdline\<rparr>]" by code_simp
  have r: "sys_readdir one_vmm True ''/proc'' = Inr [(''7'', True), (''self'', True)]" by (simp add: one_vmm_def)
  have e: "(''7'', True) \<in> set [(''7'', True), (''self'', True)]" by simp
  have p: "atoi (fst (''7'', True)) = Some 7" by code_simp
  have a: "IsProcessAlive one_vmm True 7" by code_simp
  have k: "7 \<notin> set (readKthreaddChildren (sys_read one_vmm True))" by code_simp
  have v: "VerifyProcessCmdline one_vmm True 7 ''/run/a/api.sock''" by code_simp
  have d: "sys_read one_vmm True (proc_file 7 ''cmdline'') = Inr vmm_cmdline" by code_simp
  have b: "Base (fst (Cut NUL vmm_cmdline)) = ''vmm''" by code_simp
  from proc_scan_complete [OF scan r e p a k, of "''/run/a/api.sock''"] v d b scan show ?thesis by simp
qed

theorem terminate_verified_witness:
  "TerminateProcess one_vmm [Tick] [Tick] 7 ''/run/a/api.sock'' True = (Inr (), False) \<and>
   verifyProcessCmdline one_vmm True 7 ''/run/a/api.sock'' = Inr True"
proof -
  have t: "TerminateProcess one_vmm [Tick] [Tick] 7 ''/run/a/api.sock'' True = (Inr (), False)" by code_simp
  from terminate_verified [OF t] t show ?thesis by simp
qed


end
