(* ===== verification/Cgroup.thy ===== *)
theory Cgroup
  imports Host "HOL-Library.Product_Lexorder" "HOL-Library.Multiset"
begin

text \<open>
  \<open>src/cgroup\<close>: the CPU knobs of a VM's scope and their defaults, cpu lists, the scope's life on the
  host (\<open>cgroup.go\<close>), and the placement of a VM on a cache domain (\<open>topology.go\<close>). The kernel's
  cgroup file system is the host argument \<open>K\<close>.
\<close>

section \<open>Knobs\<close>

definition Root :: string where "Root = ''/sys/fs/cgroup''"

definition DefaultParent :: string where "DefaultParent = ''cocoon.slice''"

definition defaultPeriodUs :: int where "defaultPeriodUs = 100000"

definition AutoCPUSet :: string where "AutoCPUSet = ''auto''"

definition minWeight :: int where "minWeight = 1"

definition maxWeight :: int where "maxWeight = 10000"

definition minPeriodUs :: int where "minPeriodUs = 1000"

definition maxPeriodUs :: int where "maxPeriodUs = 1000000"

definition minQuotaUs :: int where "minQuotaUs = 1000"

definition scopePrefix :: string where "scopePrefix = ''vm-''"

definition scopeSuffix :: string where "scopeSuffix = ''.scope''"

definition subtreeControlName :: string where "subtreeControlName = ''cgroup.subtree_control''"

definition killName :: string where "killName = ''cgroup.kill''"

definition weightName :: string where "weightName = ''cpu.weight''"

definition maxName :: string where "maxName = ''cpu.max''"

definition burstName :: string where "burstName = ''cpu.max.burst''"

definition cpusetName :: string where "cpusetName = ''cpuset.cpus''"

definition cpusetEffName :: string where "cpusetEffName = ''cpuset.cpus.effective''"

definition statName :: string where "statName = ''cpu.stat''"

record Knobs =
  kn_Weight :: int
  kn_QuotaUs :: int
  kn_PeriodUs :: int
  kn_BurstUs :: int
  kn_BurstDefaulted :: bool
  kn_CPUSet :: string

definition ResolveKnobs :: "'a config_scheme \<Rightarrow> Knobs" where
  "ResolveKnobs cfg =
     (let period = cmp_or_int (CPUPeriodUs cfg) defaultPeriodUs;
          quota = cmp_or_int (CPUQuotaUs cfg) (wrap64 (CPU cfg * period));
          k = \<lparr>kn_Weight = cmp_or_int (CPUWeight cfg) (CPU cfg), kn_QuotaUs = quota, kn_PeriodUs = period,
               kn_BurstUs = CPUBurstUs cfg, kn_BurstDefaulted = False, kn_CPUSet = CPUSetCPUs cfg\<rparr>
      in if kn_BurstUs k = 0 then k\<lparr>kn_BurstUs := quota, kn_BurstDefaulted := True\<rparr>
         else if kn_BurstUs k = -1 then k\<lparr>kn_BurstUs := 0\<rparr>
         else k)"

section \<open>CPU lists\<close>

definition cpu_list_part :: "string \<Rightarrow> int list \<Rightarrow> int list res" where
  "cpu_list_part part cpus =
     (case Cut (CHR ''-'') (TrimSpace part) of (lo, hi, ok) \<Rightarrow>
        (case atoi lo of
           None \<Rightarrow> Inl (ErrMsg ''invalid cpu list'')
         | Some start \<Rightarrow>
             if start < 0 then Inl (ErrMsg ''invalid cpu list'')
             else if \<not> ok then Inr (cpus @ [start..start])
             else (case atoi hi of
                     None \<Rightarrow> Inl (ErrMsg ''invalid cpu list'')
                   | Some fin \<Rightarrow>
                       if fin < start then Inl (ErrMsg ''invalid cpu list'')
                       else Inr (cpus @ [start..fin]))))"

definition ParseCPUList :: "string \<Rightarrow> int list res" where
  "ParseCPUList s =
     (if s = '''' then Inr []
      else res_map (\<lambda>cpus. remdups_adj (sort cpus)) (fold_res cpu_list_part (SplitSeq (CHR '','') s) []))"

text \<open>The inner loop of \<open>FormatCPUList\<close>: the last cpu of the run that starts at \<open>c\<close>, and the rest.\<close>

fun take_run :: "int \<Rightarrow> int list \<Rightarrow> int \<times> int list" where
  "take_run c [] = (c, [])"
| "take_run c (d # ds) = (if d = c + 1 then take_run d ds else (c, d # ds))"

lemma take_run_length: "length (snd (take_run c cs)) \<le> length cs"
  by (induction c cs rule: take_run.induct) auto

function format_parts :: "int list \<Rightarrow> string list" where
  "format_parts [] = []"
| "format_parts (c # cs) =
     (case take_run c cs of (e, rest) \<Rightarrow>
        (if e = c then itoa_int c else itoa_int c @ ''-'' @ itoa_int e) # format_parts rest)"
  by pat_completeness auto
termination
  by (relation "measure length") (auto simp: less_Suc_eq_le, metis snd_conv take_run_length)

definition FormatCPUList :: "int list \<Rightarrow> string" where
  "FormatCPUList cpus = joined (CHR '','') (format_parts cpus)"

definition sameCPUList :: "string \<Rightarrow> string \<Rightarrow> bool" where
  "sameCPUList a b =
     (case ParseCPUList a of
        Inl _ \<Rightarrow> False
      | Inr as \<Rightarrow> (case ParseCPUList b of Inl _ \<Rightarrow> False | Inr bs \<Rightarrow> as = bs))"

definition Knobs_Validate :: "Knobs \<Rightarrow> unit res" where
  "Knobs_Validate k =
     (if kn_Weight k < minWeight \<or> kn_Weight k > maxWeight then Inl (ErrMsg ''--cpu-weight out of range'')
      else if kn_PeriodUs k < minPeriodUs \<or> kn_PeriodUs k > maxPeriodUs
        then Inl (ErrMsg ''--cpu-period-us out of range'')
      else if kn_QuotaUs k < minQuotaUs then Inl (ErrMsg ''--cpu-quota-us too small'')
      else if kn_BurstUs k < 0 \<or> kn_BurstUs k > kn_QuotaUs k then Inl (ErrMsg ''--cpu-burst-us out of range'')
      else (case ParseCPUList (kn_CPUSet k) of
              Inl e \<Rightarrow> if kn_CPUSet k \<noteq> AutoCPUSet then Inl e else Inr ()
            | Inr _ \<Rightarrow> Inr ()))"

section \<open>Control files\<close>

definition ScopeDir :: "string \<Rightarrow> string \<Rightarrow> string" where
  "ScopeDir parentDir vmID = Join [parentDir, scopePrefix @ vmID @ scopeSuffix]"

definition readControl :: "'k host \<Rightarrow> 'k \<Rightarrow> string \<Rightarrow> string \<Rightarrow> string res" where
  "readControl K s dir name = res_map TrimSpace (sys_read K s (Join [dir, name]))"

definition writeControl :: "'k host \<Rightarrow> string \<Rightarrow> string \<Rightarrow> string \<Rightarrow> ('k, unit) act" where
  "writeControl K dir name val = sys_write K (Join [dir, name]) val"

definition burstFileMissing :: "'k host \<Rightarrow> 'k \<Rightarrow> string \<Rightarrow> bool" where
  "burstFileMissing K s dir = (sys_stat K s (Join [dir, burstName]) = Inl ErrNotExist)"

definition armQuota :: "'k host \<Rightarrow> string \<Rightarrow> Knobs \<Rightarrow> ('k, unit) act" where
  "armQuota K dir k =
     act_bind (writeControl K dir maxName (itoa_int (kn_QuotaUs k) @ '' '' @ itoa_int (kn_PeriodUs k))) (\<lambda>_.
       if kn_BurstUs k \<le> 0 then act_return ()
       else act_try (writeControl K dir burstName (itoa_int (kn_BurstUs k))) (\<lambda>r s.
         (case r of
            Inr _ \<Rightarrow> (Inr (), s)
          | Inl e \<Rightarrow> if \<not> kn_BurstDefaulted k \<or> \<not> burstFileMissing K s dir then (Inl e, s) else (Inr (), s))))"

definition Arm :: "'k host \<Rightarrow> string \<Rightarrow> string \<Rightarrow> Knobs \<Rightarrow> ('k, unit) act" where
  "Arm K parentDir vmID k = armQuota K (ScopeDir parentDir vmID) k"

definition enableControllers :: "'k host \<Rightarrow> string \<Rightarrow> string list \<Rightarrow> ('k, unit) act" where
  "enableControllers K dir ctrls s =
     (let have = (case readControl K s dir subtreeControlName of Inl _ \<Rightarrow> '''' | Inr h \<Rightarrow> h);
          enabled = Fields have;
          missing = map (\<lambda>c. CHR ''+'' # c) (filter (\<lambda>c. c \<notin> set enabled) ctrls)
      in if missing = [] then (Inr (), s)
         else writeControl K dir subtreeControlName (joined (CHR '' '') missing) s)"

definition scope_ids :: "string list \<Rightarrow> string list" where
  "scope_ids names =
     concat (map (\<lambda>name.
       (case CutPrefix name scopePrefix of (rest, hasPrefix) \<Rightarrow>
          (case CutSuffix rest scopeSuffix of (rid, hasSuffix) \<Rightarrow>
             if hasPrefix \<and> hasSuffix then [rid] else []))) names)"

definition ListScopeVMIDs :: "'k host \<Rightarrow> 'k \<Rightarrow> string \<Rightarrow> string list res" where
  "ListScopeVMIDs K s parentDir = res_map scope_ids (ScanSubdirs K s parentDir)"

definition checkSubset :: "'k host \<Rightarrow> 'k \<Rightarrow> string \<Rightarrow> string \<Rightarrow> unit res" where
  "checkSubset K s cpuset dir =
     (case ParseCPUList cpuset of
        Inl e \<Rightarrow> Inl e
      | Inr want \<Rightarrow>
          (case readControl K s dir cpusetEffName of
             Inl e \<Rightarrow> Inl e
           | Inr effRaw \<Rightarrow>
               (case ParseCPUList effRaw of
                  Inl e \<Rightarrow> Inl e
                | Inr eff \<Rightarrow>
                    if list_ex (\<lambda>c. c \<notin> set eff) want then Inl (ErrMsg ''cpu not in effective set'')
                    else Inr ())))"

definition placeScope :: "'k host \<Rightarrow> string \<Rightarrow> string \<Rightarrow> string \<Rightarrow> ('k, unit) act" where
  "placeScope K parentDir dir cpuset s =
     (if cpuset = '''' then (Inr (), s)
      else (case checkSubset K s cpuset parentDir of
              Inl e \<Rightarrow> (Inl e, s)
            | Inr _ \<Rightarrow> writeControl K dir cpusetName cpuset s))"

text \<open>One scope of the loop of \<open>checkScopePlacements\<close>: unreadable placements are skipped.\<close>

definition placement_ok :: "'k host \<Rightarrow> 'k \<Rightarrow> string \<Rightarrow> int list \<Rightarrow> string \<Rightarrow> bool" where
  "placement_ok K s parentDir fenceCPUs rid =
     (case readControl K s (ScopeDir parentDir rid) cpusetName of
        Inl _ \<Rightarrow> True
      | Inr placement \<Rightarrow>
          if placement = '''' then True
          else (case ParseCPUList placement of
                  Inl _ \<Rightarrow> True
                | Inr cpus \<Rightarrow> list_all (\<lambda>c. c \<in> set fenceCPUs) cpus))"

definition checkScopePlacements :: "'k host \<Rightarrow> 'k \<Rightarrow> string \<Rightarrow> string \<Rightarrow> unit res" where
  "checkScopePlacements K s parentDir fence =
     (case ListScopeVMIDs K s parentDir of
        Inl e \<Rightarrow> Inl e
      | Inr ids \<Rightarrow>
          (let fenceCPUs = (case ParseCPUList fence of Inl _ \<Rightarrow> [] | Inr f \<Rightarrow> f)
           in if list_all (placement_ok K s parentDir fenceCPUs) ids then Inr ()
              else Inl (ErrMsg ''fence excludes a cpu in use'')))"

text \<open>\<open>explainFenceWrite\<close> wraps the error it is given, so the error kind is kept.\<close>

definition explainFenceWrite :: "'k host \<Rightarrow> string \<Rightarrow> unit res \<Rightarrow> ('k, unit) act" where
  "explainFenceWrite K parentDir r s =
     (case r of
        Inr _ \<Rightarrow> (Inr (), s)
      | Inl e \<Rightarrow> (case ListScopeVMIDs K s parentDir of Inl _ \<Rightarrow> (Inl e, s) | Inr ids \<Rightarrow> (Inl e, s)))"

definition reconcileFence :: "'k host \<Rightarrow> string \<Rightarrow> string \<Rightarrow> ('k, unit) act" where
  "reconcileFence K parentDir fence s =
     (let current = readControl K s parentDir cpusetName;
          cur = (case current of Inl _ \<Rightarrow> '''' | Inr c \<Rightarrow> c)
      in if fence = '''' then
           (case current of
              Inl _ \<Rightarrow> (Inr (), s)
            | Inr c \<Rightarrow>
                if c = '''' then (Inr (), s)
                else act_try (writeControl K parentDir cpusetName [char_of (10 :: nat)]) (explainFenceWrite K parentDir) s)
         else if sameCPUList cur fence then (Inr (), s)
         else
           (case checkSubset K s fence (Dir parentDir) of
              Inl e \<Rightarrow> (Inl e, s)
            | Inr _ \<Rightarrow>
                (case checkScopePlacements K s parentDir fence of
                   Inl e \<Rightarrow> (Inl e, s)
                 | Inr _ \<Rightarrow> act_try (writeControl K parentDir cpusetName fence) (explainFenceWrite K parentDir) s)))"

text \<open>The directories below the root, down to the parent.\<close>

fun ancestors :: "string \<Rightarrow> string list \<Rightarrow> string list" where
  "ancestors dir [] = []"
| "ancestors dir (p # ps) = Join [dir, p] # ancestors (Join [dir, p]) ps"

definition ensureParent :: "'k host \<Rightarrow> string \<Rightarrow> string \<Rightarrow> bool \<Rightarrow> ('k, unit) act" where
  "ensureParent K parentDir fence placed =
     (let rel = Rel Root parentDir;
          ctrls = (if fence \<noteq> '''' \<or> placed then [''cpu'', ''cpuset''] else [''cpu''])
      in if rel = ''.'' \<or> has_prefix rel ''..'' then act_fail (ErrMsg ''cgroup parent must be under the root'')
         else
           act_bind (EnsureDirs K [parentDir]) (\<lambda>_.
           act_bind (enableControllers K Root ctrls) (\<lambda>_.
           act_bind (act_each (\<lambda>dir. enableControllers K dir ctrls) (ancestors Root (SplitSeq (CHR ''/'') rel))) (\<lambda>_.
           reconcileFence K parentDir fence))))"

definition remove_check :: "'k host \<Rightarrow> string \<Rightarrow> ('k, bool) act" where
  "remove_check K dir s =
     (case sys_remove K dir s of
        (Inr _, s') \<Rightarrow> (Inr True, s')
      | (Inl e, s') \<Rightarrow>
          if e = ErrNotExist then (Inr True, s')
          else if e = EBUSY then (Inr False, s')
          else (Inl e, s'))"

text \<open>\<open>evs\<close> is what the polling loop sees; the kill before it is best effort.\<close>

definition cg_Remove :: "'k host \<Rightarrow> wait_event list \<Rightarrow> string \<Rightarrow> string \<Rightarrow> ('k, unit) act" where
  "cg_Remove K evs parentDir vmID =
     act_try (writeControl K (ScopeDir parentDir vmID) killName ''1'') (\<lambda>_.
       WaitFor (remove_check K (ScopeDir parentDir vmID)) evs)"

definition RemoveEmpty :: "'k host \<Rightarrow> string \<Rightarrow> string \<Rightarrow> ('k, unit) act" where
  "RemoveEmpty K parentDir vmID s =
     (case sys_remove K (ScopeDir parentDir vmID) s of
        (Inr _, s') \<Rightarrow> (Inr (), s')
      | (Inl e, s') \<Rightarrow> if e = ErrNotExist then (Inr (), s') else (Inl e, s'))"

text \<open>\<open>Prepare\<close> returns the open scope directory; the model returns its path.\<close>

definition Prepare ::
    "'k host \<Rightarrow> wait_event list \<Rightarrow> string \<Rightarrow> string \<Rightarrow> string \<Rightarrow> Knobs \<Rightarrow> bool \<Rightarrow> ('k, string) act" where
  "Prepare K evs parentDir fence vmID k deferQuota =
     (let dir = ScopeDir parentDir vmID in
      act_bind (ensureParent K parentDir fence (kn_CPUSet k \<noteq> '''')) (\<lambda>_.
      act_bind (act_try (sys_mkdir K dir) (\<lambda>mkErr.
          (case mkErr of
             Inl e \<Rightarrow> if e = ErrExist
               then act_bind (cg_Remove K evs parentDir vmID) (\<lambda>_. sys_mkdir K dir)
               else act_fail e
           | Inr _ \<Rightarrow> act_return ()))) (\<lambda>_.
      act_bind (placeScope K parentDir dir (kn_CPUSet k)) (\<lambda>_.
      act_bind (writeControl K dir weightName (itoa_int (kn_Weight k))) (\<lambda>_.
      act_bind (if deferQuota then writeControl K dir maxName (''max '' @ itoa_int (kn_PeriodUs k))
                else armQuota K dir k) (\<lambda>_ s.
      (case sys_stat K s dir of Inl e \<Rightarrow> (Inl e, s) | Inr _ \<Rightarrow> (Inr dir, s))))))))"

text \<open>\<open>strings.Lines\<close> keeps each line's newline, which the trim removes.\<close>

definition parse_stat_line :: "string \<Rightarrow> int tbl \<Rightarrow> int tbl" where
  "parse_stat_line line stat =
     (case Cut (CHR '' '') (TrimSpace line) of (key, val, ok) \<Rightarrow>
        if \<not> ok then stat
        else (case atoi val of None \<Rightarrow> stat | Some n \<Rightarrow> tput key n stat))"

definition parseStat :: "string \<Rightarrow> int tbl" where
  "parseStat data = fold parse_stat_line (SplitSeq (char_of (10 :: nat)) data) []"

definition ReadStat :: "'k host \<Rightarrow> 'k \<Rightarrow> string \<Rightarrow> string \<Rightarrow> int tbl res" where
  "ReadStat K s parentDir vmID = res_map parseStat (sys_read K s (Join [ScopeDir parentDir vmID, statName]))"

section \<open>Topology\<close>

record Topology =
  tp_root :: string
  tp_domains :: "int list list"
  tp_soleDomainCores :: "int list list"

definition ReadCPUList :: "'k host \<Rightarrow> 'k \<Rightarrow> string \<Rightarrow> int list res" where
  "ReadCPUList K s path = res_bind (sys_read K s path) (\<lambda>data. ParseCPUList (TrimSpace data))"

definition cpuDir :: "string \<Rightarrow> int \<Rightarrow> string" where
  "cpuDir root cpu = Join [root, ''cpu'' @ itoa_int cpu]"

definition cache_level :: "'k host \<Rightarrow> 'k \<Rightarrow> string \<Rightarrow> string \<times> bool \<Rightarrow> string \<times> int \<Rightarrow> string \<times> int" where
  "cache_level K s cacheDir e best =
     (case sys_read K s (Join [cacheDir, fst e, ''level'']) of
        Inl _ \<Rightarrow> best
      | Inr data \<Rightarrow>
          (case atoi (TrimSpace data) of
             None \<Rightarrow> best
           | Some level \<Rightarrow> if level > snd best then (fst e, level) else best))"

definition lastCacheIndex :: "'k host \<Rightarrow> 'k \<Rightarrow> string \<Rightarrow> int \<Rightarrow> string" where
  "lastCacheIndex K s root cpu =
     (let cacheDir = Join [cpuDir root cpu, ''cache''] in
      case sys_readdir K s cacheDir of
        Inl _ \<Rightarrow> ''''
      | Inr entries \<Rightarrow> fst (fold (cache_level K s cacheDir) entries ('''', 0)))"

text \<open>The loop of \<open>coresOf\<close>; \<open>sibs\<close> reads a cpu's \<open>thread_siblings_list\<close>.\<close>

fun cores_loop :: "(int \<Rightarrow> int list res) \<Rightarrow> int list \<Rightarrow> int list \<Rightarrow> int list \<Rightarrow> int list list \<Rightarrow> int list list res" where
  "cores_loop sibs domain [] seen cores = Inr cores"
| "cores_loop sibs domain (c # cs) seen cores =
     (if c \<in> set seen then cores_loop sibs domain cs seen cores
      else
        (case (case sibs c of Inl e \<Rightarrow> if e = ErrNotExist then Inr [c] else Inl e | Inr siblings \<Rightarrow> Inr siblings) of
           Inl e \<Rightarrow> Inl e
         | Inr siblings \<Rightarrow>
             (let core = filter (\<lambda>s. s \<in> set domain) siblings
              in cores_loop sibs domain cs (core @ seen) (cores @ [core]))))"

definition coresOf :: "'k host \<Rightarrow> 'k \<Rightarrow> string \<Rightarrow> int list \<Rightarrow> int list list res" where
  "coresOf K s root domain =
     cores_loop (\<lambda>c. ReadCPUList K s (Join [cpuDir root c, ''topology'', ''thread_siblings_list'']))
       domain domain [] []"

text \<open>
  The loop that groups the online cpus by their cache. A cpu whose \<open>shared_cpu_list\<close> does not name
  the cpu itself would keep the loop going; it has fuel, and running out of it is \<open>None\<close>.
\<close>

fun domains_loop :: "(int \<Rightarrow> int list res) \<Rightarrow> nat \<Rightarrow> int list \<Rightarrow> int list list res option" where
  "domains_loop shared fuel [] = Some (Inr [])"
| "domains_loop shared 0 (c # rest) = None"
| "domains_loop shared (Suc fuel) (c # rest) =
     (case shared c of
        Inl e \<Rightarrow> Some (Inl e)
      | Inr sh \<Rightarrow>
          map_option (res_map (\<lambda>ds. filter (\<lambda>x. x \<in> set sh) (c # rest) # ds))
            (domains_loop shared fuel (filter (\<lambda>x. x \<notin> set sh) (c # rest))))"

definition shared_cpus :: "'k host \<Rightarrow> 'k \<Rightarrow> string \<Rightarrow> string \<Rightarrow> int \<Rightarrow> int list res" where
  "shared_cpus K s root llc c = ReadCPUList K s (Join [cpuDir root c, ''cache'', llc, ''shared_cpu_list''])"

definition ReadTopology :: "'k host \<Rightarrow> 'k \<Rightarrow> string \<Rightarrow> int list \<Rightarrow> Topology res option" where
  "ReadTopology K s root fence =
     (case ReadCPUList K s (Join [root, ''online'']) of
        Inl e \<Rightarrow> Some (Inl e)
      | Inr online0 \<Rightarrow>
          (let online = (if fence \<noteq> [] then filter (\<lambda>c. c \<in> set fence) online0 else online0)
           in if online = [] then Some (Inl (ErrMsg ''no online cpu inside the cgroup_cpus fence''))
              else
                (let llc = lastCacheIndex K s root (hd online);
                     doms = (if llc = '''' then Some (Inr [online])
                       else domains_loop (shared_cpus K s root llc) (length online) online)
                 in case doms of
                      None \<Rightarrow> None
                    | Some (Inl e) \<Rightarrow> Some (Inl e)
                    | Some (Inr ds) \<Rightarrow>
                        (if length ds = 1 then
                           Some (res_map (\<lambda>cores. \<lparr>tp_root = root, tp_domains = ds, tp_soleDomainCores = cores\<rparr>)
                             (coresOf K s root (hd ds)))
                         else Some (Inr \<lparr>tp_root = root, tp_domains = ds, tp_soleDomainCores = []\<rparr>)))))"

definition sumLoad :: "int list \<Rightarrow> (int \<Rightarrow> int) \<Rightarrow> int" where
  "sumLoad cpus load = foldl (\<lambda>total c. total + load c) 0 cpus"

fun pick_domain :: "(int \<Rightarrow> int) \<Rightarrow> int list list \<Rightarrow> int list \<Rightarrow> int \<Rightarrow> int list" where
  "pick_domain load [] pick best = pick"
| "pick_domain load (d # ds) pick best =
     (if sumLoad d load < best then pick_domain load ds d (sumLoad d load) else pick_domain load ds pick best)"

text \<open>\<open>byLoad\<close> orders by load and then by cpu number.\<close>

definition byLoad :: "(int \<Rightarrow> int) \<Rightarrow> int \<Rightarrow> int \<times> int" where
  "byLoad load c = (load c, c)"

fun set_layers :: "nat \<Rightarrow> int list \<Rightarrow> (int \<Rightarrow> nat) \<Rightarrow> int \<Rightarrow> nat" where
  "set_layers i [] layer = layer"
| "set_layers i (c # cs) layer = set_layers (Suc i) cs (layer(c := i))"

fun rank_cores :: "(int \<Rightarrow> int) \<Rightarrow> int list list \<Rightarrow> (int \<Rightarrow> nat) \<Rightarrow> int list \<Rightarrow> (int \<Rightarrow> nat) \<times> int list" where
  "rank_cores load [] layer ranked = (layer, ranked)"
| "rank_cores load (c # cs) layer ranked =
     (let core = sort_key (byLoad load) c
      in rank_cores load cs (set_layers 0 core layer) (ranked @ core))"

definition choose_pins :: "(int \<Rightarrow> int) \<Rightarrow> int list list \<Rightarrow> int \<Rightarrow> int list" where
  "choose_pins load cores queues =
     (case rank_cores load cores (\<lambda>_. 0) [] of (layer, ranked) \<Rightarrow>
        sort (take (nat queues) (sort_key (\<lambda>c. (layer c, byLoad load c)) ranked)))"

text \<open>A topology read from the host has at least one domain; a cpu missing from the load map has load 0.\<close>

definition Place ::
    "'k host \<Rightarrow> 'k \<Rightarrow> Topology \<Rightarrow> int \<Rightarrow> (int \<Rightarrow> int) \<Rightarrow> (int list \<times> int list) res" where
  "Place K s t queues load =
     (let domain = pick_domain load (tl (tp_domains t)) (hd (tp_domains t)) (sumLoad (hd (tp_domains t)) load)
      in if queues < 2 then Inr (domain, [])
         else
           res_map (\<lambda>cores. (domain, choose_pins load cores queues))
             (if tp_soleDomainCores t \<noteq> [] then Inr (tp_soleDomainCores t) else coresOf K s (tp_root t) domain))"

section \<open>Correctness of cpu lists\<close>

lemma TrimSpace_digits:
  "(\<And>c. c \<in> set s \<Longrightarrow> \<not> is_space c) \<Longrightarrow> TrimSpace s = s"
  using dropWhile_id [of "rev s" is_space] by (simp add: TrimSpace_def dropWhile_id)

lemma Cut_absent: "sep \<notin> set s \<Longrightarrow> Cut sep s = (s, '''', False)"
  by (induction s) auto

lemma Cut_present: "sep \<notin> set s \<Longrightarrow> Cut sep (s @ sep # t) = (s, t, True)"
  by (induction s) auto

lemma itoa_int_char: "0 \<le> i \<Longrightarrow> c \<in> set (itoa_int i) \<Longrightarrow> is_digit c"
  by (simp add: itoa_int_def itoa_digits)

lemma itoa_int_plain:
  assumes "0 \<le> i"
  shows "CHR ''-'' \<notin> set (itoa_int i)" "CHR '','' \<notin> set (itoa_int i)"
    "\<And>c. c \<in> set (itoa_int i) \<Longrightarrow> \<not> is_space c"
  using itoa_int_char [OF assms] digit_not_sign by blast+

lemma atoi_itoa_int: "0 \<le> i \<Longrightarrow> i < 2 ^ 63 \<Longrightarrow> atoi (itoa_int i) = Some i"
  using atoi_itoa [of "nat i"] by (simp add: itoa_int_def)

lemma cpu_list_part_single:
  "0 \<le> c \<Longrightarrow> c < 2 ^ 63 \<Longrightarrow> cpu_list_part (itoa_int c) acc = Inr (acc @ [c..c])"
  by (simp add: cpu_list_part_def TrimSpace_digits itoa_int_plain Cut_absent atoi_itoa_int)

lemma cpu_list_part_range:
  assumes "0 \<le> c" "c \<le> e" "e < 2 ^ 63"
  shows "cpu_list_part (itoa_int c @ ''-'' @ itoa_int e) acc = Inr (acc @ [c..e])"
proof -
  have "\<not> is_space (CHR ''-'')" by (simp add: is_space_def)
  then have "TrimSpace (itoa_int c @ ''-'' @ itoa_int e) = itoa_int c @ ''-'' @ itoa_int e"
    using assms itoa_int_plain(3) [of c] itoa_int_plain(3) [of e] by (intro TrimSpace_digits) auto
  moreover have "atoi (itoa_int c) = Some c" "atoi (itoa_int e) = Some e" "CHR ''-'' \<notin> set (itoa_int c)"
    using assms by (simp_all add: atoi_itoa_int itoa_int_plain)
  ultimately show ?thesis
    using assms by (simp add: cpu_list_part_def Cut_present)
qed

lemma take_run_spec: "take_run c cs = (e, rest) \<Longrightarrow> c \<le> e \<and> c # cs = [c..e] @ rest"
proof (induction c cs rule: take_run.induct)
  case (2 c d ds)
  show ?case
  proof (cases "d = c + 1")
    case True
    with 2 have "d \<le> e" "d # ds = [d..e] @ rest" by simp_all
    with True show ?thesis by (simp add: upto_rec1 [of c e])
  qed (use 2 in auto)
qed auto

lemma fold_format_parts:
  "(\<And>c. c \<in> set cs \<Longrightarrow> 0 \<le> c \<and> c < 2 ^ 63) \<Longrightarrow>
   fold_res cpu_list_part (format_parts cs) acc = Inr (acc @ cs)"
proof (induction cs arbitrary: acc rule: format_parts.induct)
  case (2 c cs)
  obtain e rest where r: "take_run c cs = (e, rest)" by fastforce
  with take_run_spec have run: "c \<le> e" "c # cs = [c..e] @ rest" by blast+
  then have "e \<in> set (c # cs)" by simp
  then have b: "0 \<le> c" "e < 2 ^ 63" using 2(2) [of c] 2(2) [of e] by auto
  have "set rest \<subseteq> set (c # cs)" using run(2) by simp
  then have "\<And>x. x \<in> set rest \<Longrightarrow> 0 \<le> x \<and> x < 2 ^ 63" using 2(2) by blast
  from 2(1) [OF r [symmetric] this]
  have IH: "fold_res cpu_list_part (format_parts rest) (acc @ [c..e]) = Inr (acc @ [c..e] @ rest)" by simp
  have "cpu_list_part (if e = c then itoa_int c else itoa_int c @ ''-'' @ itoa_int e) acc = Inr (acc @ [c..e])"
    using b run(1) cpu_list_part_single [of c acc] cpu_list_part_range [of c e acc] by simp
  with IH r have "fold_res cpu_list_part (format_parts (c # cs)) acc = Inr (acc @ [c..e] @ rest)" by simp
  then show ?case by (simp only: run(2))
qed simp

lemma format_parts_plain:
  "(\<And>c. c \<in> set cs \<Longrightarrow> 0 \<le> c) \<Longrightarrow> p \<in> set (format_parts cs) \<Longrightarrow> CHR '','' \<notin> set p \<and> p \<noteq> ''''"
proof (induction cs rule: format_parts.induct)
  case (2 c cs)
  obtain e rest where r: "take_run c cs = (e, rest)" by fastforce
  with take_run_spec have run: "c \<le> e" "c # cs = [c..e] @ rest" by blast+
  have "set rest \<subseteq> set (c # cs)" using run(2) by simp
  then have IH: "p \<in> set (format_parts rest) \<Longrightarrow> CHR '','' \<notin> set p \<and> p \<noteq> ''''"
    using 2(1) [OF r [symmetric]] 2(2) by auto
  have "0 \<le> c" "0 \<le> e" using 2(2) [of c] run(1) by auto
  moreover have "itoa_int c \<noteq> ''''" using \<open>0 \<le> c\<close> by (simp add: itoa_int_def)
  ultimately show ?case
    using 2(3) r IH itoa_int_plain(2) [of c] itoa_int_plain(2) [of e] by (auto split: if_splits)
qed simp

lemma strict_sorted_remdups_adj: "sorted_wrt (<) cs \<Longrightarrow> remdups_adj (sort cs) = (cs :: int list)"
  by (simp add: strict_sorted_iff sort_key_id_if_sorted remdups_adj_distinct)

lemma Parse_Format:
  assumes "sorted_wrt (<) cs" and "\<And>c. c \<in> set cs \<Longrightarrow> 0 \<le> c \<and> c < 2 ^ 63"
  shows "ParseCPUList (FormatCPUList cs) = Inr cs"
proof (cases cs)
  case Nil
  then show ?thesis by (simp add: FormatCPUList_def ParseCPUList_def)
next
  case (Cons c rest)
  then have ne: "format_parts cs \<noteq> []" by (simp split: prod.splits)
  have plain: "\<And>p. p \<in> set (format_parts cs) \<Longrightarrow> CHR '','' \<notin> set p \<and> p \<noteq> ''''"
    using format_parts_plain assms(2) by blast
  have "SplitSeq (CHR '','') (FormatCPUList cs) = format_parts cs"
    using plain ne unfolding FormatCPUList_def by (intro SplitSeq_joined) auto
  moreover have "FormatCPUList cs \<noteq> ''''"
    using ne plain by (cases "format_parts cs" rule: remdups_adj.cases) (auto simp: FormatCPUList_def)
  moreover have "fold_res cpu_list_part (format_parts cs) [] = Inr cs"
    using fold_format_parts [of cs "[]"] assms(2) by simp
  ultimately show ?thesis
    using strict_sorted_remdups_adj [OF assms(1)] by (simp add: ParseCPUList_def)
qed

lemma atoi_range: "atoi s = Some v \<Longrightarrow> v < 2 ^ 63"
  by (auto simp: atoi_def Let_def split: if_splits prod.splits)

lemma cpu_list_part_bounds:
  assumes "cpu_list_part p acc = Inr acc'" "\<forall>c\<in>set acc. 0 \<le> c \<and> c < 2 ^ 63"
  shows "\<forall>c\<in>set acc'. 0 \<le> c \<and> c < 2 ^ 63"
  using assms
  by (auto simp: cpu_list_part_def split: prod.splits option.splits if_splits dest!: atoi_range)

lemma sorted_remdups_adj_strict: "sorted cs \<Longrightarrow> sorted_wrt (<) (remdups_adj (cs :: int list))"
  by (induction cs rule: remdups_adj.induct) (auto simp: less_le)

lemma ParseCPUList_strict:
  assumes "ParseCPUList s = Inr cs"
  shows "sorted_wrt (<) cs" "\<forall>c\<in>set cs. 0 \<le> c \<and> c < 2 ^ 63"
proof -
  have "sorted_wrt (<) cs \<and> (\<forall>c\<in>set cs. 0 \<le> c \<and> c < 2 ^ 63)"
  proof (cases "s = ''''")
    case True
    with assms show ?thesis by (simp add: ParseCPUList_def)
  next
    case False
    with assms obtain ds where d: "fold_res cpu_list_part (SplitSeq (CHR '','') s) [] = Inr ds"
      and cs: "cs = remdups_adj (sort ds)"
      by (auto simp: ParseCPUList_def res_simps)
    have "\<forall>c\<in>set ds. 0 \<le> c \<and> c < 2 ^ 63"
    proof (rule fold_res_invariant [OF d])
      show "\<forall>c\<in>set b. 0 \<le> c \<and> c < 2 ^ 63"
        if "\<forall>c\<in>set a. 0 \<le> c \<and> c < 2 ^ 63" "cpu_list_part x a = Inr b" for x a b
        using cpu_list_part_bounds [OF that(2,1)] .
    qed simp
    then show ?thesis by (simp add: cs sorted_remdups_adj_strict)
  qed
  then show "sorted_wrt (<) cs" "\<forall>c\<in>set cs. 0 \<le> c \<and> c < 2 ^ 63" by blast+
qed

section \<open>Correctness of the placement\<close>

lemma sumLoad_sum: "sumLoad cpus load = sum_list (map load cpus)"
proof -
  have "foldl (\<lambda>total c. total + load c) a cpus = a + sum_list (map load cpus)" for a
    by (induction cpus arbitrary: a) simp_all
  then show ?thesis by (simp add: sumLoad_def)
qed

lemma pick_domain_least:
  assumes "best = sumLoad pick load"
  shows "pick_domain load ds pick best \<in> set (pick # ds) \<and>
    (\<forall>d\<in>set (pick # ds). sumLoad (pick_domain load ds pick best) load \<le> sumLoad d load)"
  using assms
proof (induction ds arbitrary: pick best)
  case (Cons d ds)
  show ?case
  proof (cases "sumLoad d load < best")
    case True
    with Cons.IH [of "sumLoad d load" d] Cons.prems show ?thesis by auto
  next
    case False
    with Cons.IH [of best pick] Cons.prems show ?thesis by auto
  qed
qed simp

lemma set_layers_other: "c \<notin> set cs \<Longrightarrow> set_layers i cs layer c = layer c"
  by (induction cs arbitrary: i layer) auto

lemma set_layers_nth: "distinct cs \<Longrightarrow> j < length cs \<Longrightarrow> set_layers i cs layer (cs ! j) = i + j"
proof (induction cs arbitrary: i layer j)
  case (Cons c cs)
  then show ?case by (cases j) (simp_all add: set_layers_other)
qed simp

lemma rank_cores_ranked:
  "snd (rank_cores load cores layer ranked) = ranked @ concat (map (sort_key (byLoad load)) cores)"
  by (induction cores arbitrary: layer ranked) (simp_all add: Let_def)

lemma rank_cores_other:
  "c \<notin> set (concat cores) \<Longrightarrow> fst (rank_cores load cores layer ranked) c = layer c"
  by (induction cores arbitrary: layer ranked) (simp_all add: Let_def set_layers_other)

lemma rank_cores_layer:
  "distinct (concat cores) \<Longrightarrow> core \<in> set cores \<Longrightarrow> j < length core \<Longrightarrow>
   fst (rank_cores load cores layer ranked) (sort_key (byLoad load) core ! j) = j"
proof (induction cores arbitrary: layer ranked)
  case (Cons c cs)
  let ?srt = "sort_key (byLoad load)"
  show ?case
  proof (cases "core \<in> set cs")
    case True
    with Cons show ?thesis by (simp add: Let_def)
  next
    case False
    with Cons.prems have c: "core = c" by simp
    have "?srt c ! j \<in> set c" using Cons.prems c by (metis length_sort nth_mem set_sort)
    then have "?srt c ! j \<notin> set (concat cs)" using Cons.prems by auto
    then show ?thesis
      using Cons.prems c by (simp add: Let_def rank_cores_other set_layers_nth [where i = 0, simplified])
  qed
qed simp

text \<open>The layers of a core number its cpus from 0.\<close>

lemma rank_cores_bij:
  assumes "distinct (concat cores)" "core \<in> set cores"
  shows "bij_betw (fst (rank_cores load cores layer ranked)) (set core) {..<length core}"
proof -
  let ?L = "fst (rank_cores load cores layer ranked)" and ?s = "sort_key (byLoad load) core"
  have d: "distinct ?s" using assms by (auto simp: distinct_concat_iff)
  have l: "\<And>j. j < length core \<Longrightarrow> ?L (?s ! j) = j" using rank_cores_layer [OF assms] by blast
  have "map ?L ?s = [0..<length core]" by (rule nth_equalityI) (simp_all add: l)
  then have "?L ` set ?s = {..<length core}" "distinct (map ?L ?s)"
    by (metis atLeast_upt set_map, simp)
  then show ?thesis by (simp add: bij_betw_def distinct_map)
qed

lemma take_sort_le:
  assumes "x \<in> set (take n (sort_key f xs))" "y \<in> set xs" "y \<notin> set (take n (sort_key f xs))"
  shows "f x \<le> f y"
proof -
  have "sort_key f xs = take n (sort_key f xs) @ drop n (sort_key f xs)" by simp
  moreover from this have "y \<in> set (drop n (sort_key f xs))" using assms(2,3)
    by (metis Un_iff set_append set_sort)
  moreover have "sorted (map f (take n (sort_key f xs)) @ map f (drop n (sort_key f xs)))"
    by (simp only: map_append [symmetric] append_take_drop_id sorted_sort_key)
  ultimately show ?thesis using assms(1) unfolding sorted_append by auto
qed

lemma choose_pins_basic:
  assumes "distinct (concat cores)"
  shows "sorted (choose_pins load cores q)" "distinct (choose_pins load cores q)"
    "set (choose_pins load cores q) \<subseteq> set (concat cores)"
    "length (choose_pins load cores q) = min (nat q) (length (concat cores))"
proof -
  let ?r = "snd (rank_cores load cores (\<lambda>_. 0) [])"
  have s: "set ?r = set (concat cores)" by (auto simp: rank_cores_ranked)
  have m: "mset ?r = mset (concat cores)"
    unfolding rank_cores_ranked by (induction cores) simp_all
  from m have l: "length ?r = length (concat cores)" by (rule mset_eq_length)
  from m have d: "distinct ?r" using assms by (metis mset_eq_imp_distinct_iff)
  show "sorted (choose_pins load cores q)"
    by (simp add: choose_pins_def case_prod_beta)
  show "distinct (choose_pins load cores q)"
    using d by (simp add: choose_pins_def case_prod_beta)
  show "set (choose_pins load cores q) \<subseteq> set (concat cores)"
    using s by (fastforce simp: choose_pins_def case_prod_beta dest: in_set_takeD)
  show "length (choose_pins load cores q) = min (nat q) (length (concat cores))"
    using l by (simp add: choose_pins_def case_prod_beta)
qed

lemma choose_pins_balanced:
  assumes dist: "distinct (concat cores)" and A: "A \<in> set cores" and B: "B \<in> set cores"
    and left: "\<not> set B \<subseteq> set (choose_pins load cores q)"
  shows "card (set (choose_pins load cores q) \<inter> set A) \<le> card (set (choose_pins load cores q) \<inter> set B) + 1"
proof -
  let ?L = "fst (rank_cores load cores (\<lambda>_. 0) [])" and ?P = "set (choose_pins load cores q)"
  let ?r = "snd (rank_cores load cores (\<lambda>_. 0) [])"
  have sr: "set ?r = set (concat cores)" by (auto simp: rank_cores_ranked)
  have P: "?P = set (take (nat q) (sort_key (\<lambda>c. (?L c, byLoad load c)) ?r))"
    by (simp add: choose_pins_def case_prod_beta)
  have le: "?L x \<le> ?L y" if "x \<in> ?P" "y \<in> set (concat cores)" "y \<notin> ?P" for x y
    using take_sort_le [of x "nat q" "\<lambda>c. (?L c, byLoad load c)" ?r y] that sr P
    by (auto simp: less_eq_prod_def)
  let ?U = "set B - ?P"
  define m where "m = Min (?L ` ?U)"
  have U: "finite ?U" "?U \<noteq> {}" using left by auto
  then have "m \<in> ?L ` ?U" unfolding m_def by (intro Min_in) auto
  then obtain b where b: "b \<in> ?U" "?L b = m" by blast
  have mmin: "\<And>x. x \<in> ?U \<Longrightarrow> m \<le> ?L x" using U unfolding m_def by simp
  have bijA: "inj_on ?L (set A)" using rank_cores_bij [OF dist A] by (simp add: bij_betw_def)
  have bijB: "inj_on ?L (set B)" "?L ` set B = {..<length B}"
    using rank_cores_bij [OF dist B] by (simp_all add: bij_betw_def)
  have "b \<in> set (concat cores)" using b B by auto
  then have "?L ` (?P \<inter> set A) \<subseteq> {..m}" using le b by fastforce
  then have a: "card (?P \<inter> set A) \<le> m + 1"
    using card_inj_on_le [of ?L "?P \<inter> set A" "{..m}"] inj_on_subset [OF bijA] by simp
  have "m < length B" using b bijB(2) by auto
  then have "{..<m} \<subseteq> ?L ` (?P \<inter> set B)"
  proof (intro subsetI)
    fix i assume "i \<in> {..<m}" and "m < length B"
    then have "i \<in> ?L ` set B" using bijB(2) by simp
    then obtain x where "x \<in> set B" "?L x = i" by blast
    with mmin [of x] \<open>i \<in> {..<m}\<close> show "i \<in> ?L ` (?P \<inter> set B)" by force
  qed
  then have "m \<le> card (?L ` (?P \<inter> set B))" using card_mono [of "?L ` (?P \<inter> set B)" "{..<m}"] by simp
  also have "\<dots> \<le> card (?P \<inter> set B)" by (simp add: card_image_le)
  finally show ?thesis using a by simp
qed

text \<open>
  What the kernel documents of \<open>thread_siblings_list\<close>: a cpu is in its own list, and the cpus of a
  list all show that list.
\<close>

definition siblings_ok :: "(int \<Rightarrow> int list res) \<Rightarrow> bool" where
  "siblings_ok sibs =
     (\<forall>c ss. sibs c = Inr ss \<longrightarrow> c \<in> set ss \<and> distinct ss \<and> (\<forall>x\<in>set ss. sibs x = Inr ss))"

lemma siblings_okD:
  assumes "siblings_ok sibs" "sibs c = Inr ss"
  shows "c \<in> set ss" "distinct ss" "\<And>x. x \<in> set ss \<Longrightarrow> sibs x = Inr ss"
  using assms unfolding siblings_ok_def by blast+

lemma cores_loop_partition:
  assumes "cores_loop sibs domain cs seen cores = Inr out" and sib: "siblings_ok sibs"
    and "set cs \<subseteq> set domain" "distinct (concat cores)" "set seen = set (concat cores)" "[] \<notin> set cores"
    and "\<And>x ss. x \<in> set seen \<Longrightarrow> sibs x = Inr ss \<Longrightarrow> set ss \<inter> set domain \<subseteq> set seen"
    and "set seen \<subseteq> set domain"
  shows "distinct (concat out) \<and> [] \<notin> set out \<and> set (concat out) \<subseteq> set domain \<and>
    set seen \<union> set cs \<subseteq> set (concat out)"
  using assms(1,3-8)
proof (induction cs arbitrary: seen cores)
  case (Cons c cs)
  show ?case
  proof (cases "c \<in> set seen")
    case True
    with Cons.prems have "distinct (concat out) \<and> [] \<notin> set out \<and> set (concat out) \<subseteq> set domain \<and>
        set seen \<union> set cs \<subseteq> set (concat out)"
      by (intro Cons.IH) auto
    with True show ?thesis by auto
  next
    case False
    from Cons.prems(1) False obtain ss where
      ss: "sibs c = Inr ss \<or> sibs c = Inl ErrNotExist \<and> ss = [c]" and
      rec: "cores_loop sibs domain cs (filter (\<lambda>s. s \<in> set domain) ss @ seen)
              (cores @ [filter (\<lambda>s. s \<in> set domain) ss]) = Inr out"
      by (auto simp: Let_def split: sum.splits if_splits)
    let ?core = "filter (\<lambda>s. s \<in> set domain) ss"
    have ok: "c \<in> set ss" "distinct ss" using ss siblings_okD [OF sib, of c ss] by auto
    have c: "c \<in> set ?core" using ok Cons.prems(2) by simp
    have disj: "set ?core \<inter> set seen = {}"
    proof (rule ccontr)
      assume "set ?core \<inter> set seen \<noteq> {}"
      then obtain x where x: "x \<in> set ss" "x \<in> set seen" by auto
      moreover from x False have "x \<noteq> c" by blast
      ultimately have "sibs x = Inr ss" using ss siblings_okD(3) [OF sib, of c ss x] by auto
      then have "set ss \<inter> set domain \<subseteq> set seen" using Cons.prems(6) x by blast
      then show False using ok(1) False Cons.prems(2) by auto
    qed
    have closed: "set ts \<inter> set domain \<subseteq> set (?core @ seen)" if "x \<in> set (?core @ seen)" "sibs x = Inr ts" for x ts
    proof (cases "x \<in> set seen")
      case True
      with Cons.prems(6) [OF _ that(2)] show ?thesis by auto
    next
      case False
      then have "x \<in> set ss" using that by simp
      then have "ts = ss" using ss that(2) siblings_okD(3) [OF sib, of c ss x] by auto
      then show ?thesis by auto
    qed
    have "distinct (concat out) \<and> [] \<notin> set out \<and> set (concat out) \<subseteq> set domain \<and>
        set (?core @ seen) \<union> set cs \<subseteq> set (concat out)"
    proof (rule Cons.IH [OF rec])
      show "distinct (concat (cores @ [?core]))" using Cons.prems(3,4) disj ok(2) by auto
      show "set (?core @ seen) = set (concat (cores @ [?core]))" using Cons.prems(4) by auto
      show "[] \<notin> set (cores @ [?core])" using Cons.prems(5) c by (auto simp del: set_filter)
    qed (use Cons.prems closed in auto)
    then show ?thesis using c by auto
  qed
qed auto

lemma coresOf_partition:
  assumes "coresOf K s root domain = Inr cores"
    and "siblings_ok (\<lambda>c. ReadCPUList K s (Join [cpuDir root c, ''topology'', ''thread_siblings_list'']))"
  shows "distinct (concat cores)" "[] \<notin> set cores" "set (concat cores) = set domain"
  using cores_loop_partition [OF assms(1) [unfolded coresOf_def] assms(2)] by auto

text \<open>The documented behaviour of \<open>shared_cpu_list\<close> the loop over the domains needs.\<close>

definition self_shared :: "(int \<Rightarrow> int list res) \<Rightarrow> bool" where
  "self_shared shared = (\<forall>c sh. shared c = Inr sh \<longrightarrow> c \<in> set sh)"

lemma domains_loop_total:
  assumes "self_shared shared" "length cpus \<le> fuel"
  shows "domains_loop shared fuel cpus \<noteq> None"
  using assms
proof (induction shared fuel cpus rule: domains_loop.induct)
  case (3 shared fuel c rest)
  show ?case
  proof (cases "shared c")
    case (Inr sh)
    with 3(2) have "c \<in> set sh" by (simp add: self_shared_def)
    then have "length (filter (\<lambda>x. x \<notin> set sh) (c # rest)) \<le> fuel"
      using 3(3) le_trans [OF length_filter_le [of "\<lambda>x. x \<notin> set sh" rest]] by simp
    with 3(1) [OF Inr 3(2)] Inr show ?thesis by simp
  qed simp
qed auto

lemma mset_filter_split: "mset (filter P xs) + mset (filter (\<lambda>x. \<not> P x) xs) = mset xs"
  by (induction xs) simp_all

lemma domains_loop_partition:
  assumes "domains_loop shared fuel cpus = Some (Inr ds)"
  shows "mset (concat ds) = mset cpus"
  using assms
proof (induction shared fuel cpus arbitrary: ds rule: domains_loop.induct)
  case (3 shared fuel c rest)
  then obtain sh es where sh: "shared c = Inr sh"
      and es: "domains_loop shared fuel (filter (\<lambda>x. x \<notin> set sh) (c # rest)) = Some (Inr es)"
      and ds: "ds = filter (\<lambda>x. x \<in> set sh) (c # rest) # es"
    by (auto simp: res_simps split: sum.splits)
  from 3(1) [OF sh es] show ?case
    by (simp only: ds concat.simps mset_append mset_filter_split)
qed auto

lemma domains_loop_nonempty:
  assumes "self_shared shared" "domains_loop shared fuel cpus = Some (Inr ds)"
  shows "[] \<notin> set ds"
  using assms
proof (induction shared fuel cpus arbitrary: ds rule: domains_loop.induct)
  case (3 shared fuel c rest)
  then obtain sh es where sh: "shared c = Inr sh"
      and es: "domains_loop shared fuel (filter (\<lambda>x. x \<notin> set sh) (c # rest)) = Some (Inr es)"
      and ds: "ds = filter (\<lambda>x. x \<in> set sh) (c # rest) # es"
    by (auto simp: res_simps split: sum.splits)
  have "c \<in> set sh" using 3(2) sh by (simp add: self_shared_def)
  then have "c \<in> set (filter (\<lambda>x. x \<in> set sh) (c # rest))" by simp
  with 3(1) [OF sh 3(2) es] ds show ?case by (metis empty_iff list.set(1) set_ConsD)
qed auto

text \<open>A host with fixed files, whose writes set a flag: the concrete input of the witnesses.\<close>

definition demo_host :: "(string \<times> string) list \<Rightarrow> (string \<times> (string \<times> bool) list) list \<Rightarrow> bool host" where
  "demo_host files dirs =
     \<lparr>sys_read = (\<lambda>s p. case map_of files p of None \<Rightarrow> Inl ErrNotExist | Some d \<Rightarrow> Inr d),
      sys_write = (\<lambda>p d s. (Inr (), True)), sys_mkdir = (\<lambda>p s. (Inr (), True)),
      sys_mkdirall = (\<lambda>p s. (Inr (), True)), sys_remove = (\<lambda>p s. (Inr (), True)),
      sys_removeall = (\<lambda>p s. (Inr (), True)),
      sys_readdir = (\<lambda>s p. case map_of dirs p of None \<Rightarrow> Inl ErrNotExist | Some d \<Rightarrow> Inr d),
      sys_stat = (\<lambda>s p. Inr ())\<rparr>"

definition smt_host :: "bool host" where
  "smt_host = demo_host
     [(''/c/online'', ''0-3''),
      (''/c/cpu0/topology/thread_siblings_list'', ''0-1''),
      (''/c/cpu1/topology/thread_siblings_list'', ''0-1''),
      (''/c/cpu2/topology/thread_siblings_list'', ''2-3''),
      (''/c/cpu3/topology/thread_siblings_list'', ''2-3'')] []"

lemma itoa_int_inj: "0 \<le> d \<Longrightarrow> itoa_int c = itoa_int d \<Longrightarrow> c = d"
proof -
  assume d: "0 \<le> d" and eq: "itoa_int c = itoa_int d"
  have "0 \<le> c"
  proof (rule ccontr)
    assume "\<not> 0 \<le> c"
    then have "CHR ''-'' \<in> set (itoa_int c)" by (simp add: itoa_int_def)
    with eq itoa_int_plain(1) [OF d] show False by simp
  qed
  with d eq have "itoa (nat c) = itoa (nat d)" by (simp add: itoa_int_def)
  then have "nat c = nat d" by (metis dec_val_itoa)
  with \<open>0 \<le> c\<close> d show "c = d" by simp
qed

lemma itoa_int_digits:
  "itoa_int c = ''0'' \<longleftrightarrow> c = 0" "itoa_int c = ''1'' \<longleftrightarrow> c = 1" "itoa_int c = ''2'' \<longleftrightarrow> c = 2"
  "itoa_int c = ''3'' \<longleftrightarrow> c = 3"
proof -
  have "itoa_int 0 = ''0''" "itoa_int 1 = ''1''" "itoa_int 2 = ''2''" "itoa_int 3 = ''3''" by code_simp+
  then show "itoa_int c = ''0'' \<longleftrightarrow> c = 0" "itoa_int c = ''1'' \<longleftrightarrow> c = 1" "itoa_int c = ''2'' \<longleftrightarrow> c = 2"
    "itoa_int c = ''3'' \<longleftrightarrow> c = 3"
    using itoa_int_inj [of 0 c] itoa_int_inj [of 1 c] itoa_int_inj [of 2 c] itoa_int_inj [of 3 c] by auto
qed

lemma smt_siblings:
  "ReadCPUList smt_host False (Join [cpuDir ''/c'' c, ''topology'', ''thread_siblings_list'']) =
     (if c = 0 \<or> c = 1 then Inr [0, 1] else if c = 2 \<or> c = 3 then Inr [2, 3] else Inl ErrNotExist)"
proof -
  have p: "ParseCPUList (TrimSpace ''0-1'') = Inr [0, 1]" "ParseCPUList (TrimSpace ''2-3'') = Inr [2, 3]"
    by code_simp+
  show ?thesis
    by (simp add: ReadCPUList_def smt_host_def demo_host_def cpuDir_def Join_def itoa_int_digits p)
qed

lemma ReadTopology_domains:
  assumes "ReadTopology K s root fence = Some (Inr t)"
    and "\<And>llc. self_shared (shared_cpus K s root llc)"
  shows "\<exists>online0. ReadCPUList K s (Join [root, ''online'']) = Inr online0 \<and>
      mset (concat (tp_domains t)) = mset (if fence \<noteq> [] then filter (\<lambda>c. c \<in> set fence) online0 else online0)"
    "tp_domains t \<noteq> []" "[] \<notin> set (tp_domains t)" "tp_root t = root"
    "tp_soleDomainCores t \<noteq> [] \<Longrightarrow>
      tp_domains t = [hd (tp_domains t)] \<and> coresOf K s root (hd (tp_domains t)) = Inr (tp_soleDomainCores t)"
proof -
  from assms(1) obtain online0 where o: "ReadCPUList K s (Join [root, ''online'']) = Inr online0"
    by (auto simp: ReadTopology_def split: sum.splits)
  define online where "online = (if fence \<noteq> [] then filter (\<lambda>c. c \<in> set fence) online0 else online0)"
  define llc where "llc = lastCacheIndex K s root (hd online)"
  define doms where "doms = (if llc = '''' then Some (Inr [online])
    else domains_loop (shared_cpus K s root llc) (length online) online)"
  from assms(1) o have ne: "online \<noteq> []"
    by (auto simp: ReadTopology_def online_def [symmetric])
  from assms(1) o ne obtain ds where ds: "doms = Some (Inr ds)"
    by (auto simp: ReadTopology_def online_def [symmetric] llc_def [symmetric] doms_def [symmetric] Let_def
        split: option.splits sum.splits)
  have t: "tp_root t = root \<and> tp_domains t = ds \<and>
      (if length ds = 1 then coresOf K s root (hd ds) = Inr (tp_soleDomainCores t) else tp_soleDomainCores t = [])"
    using assms(1) o ne ds
    by (auto simp: ReadTopology_def online_def [symmetric] llc_def [symmetric] doms_def [symmetric] Let_def res_simps
        split: if_splits)
  have m: "mset (concat ds) = mset online"
    using ds domains_loop_partition [of "shared_cpus K s root llc" "length online" online ds]
    by (auto simp: doms_def split: if_splits)
  have n: "[] \<notin> set ds"
    using ds ne domains_loop_nonempty [OF assms(2) [of llc], of "length online" online ds]
    by (auto simp: doms_def split: if_splits)
  show "\<exists>online0. ReadCPUList K s (Join [root, ''online'']) = Inr online0 \<and>
      mset (concat (tp_domains t)) = mset (if fence \<noteq> [] then filter (\<lambda>c. c \<in> set fence) online0 else online0)"
    using o m t unfolding online_def by auto
  show "tp_domains t \<noteq> []" using m ne t by auto
  show "[] \<notin> set (tp_domains t)" using n t by simp
  show "tp_root t = root" using t by simp
  show "tp_domains t = [hd (tp_domains t)] \<and> coresOf K s root (hd (tp_domains t)) = Inr (tp_soleDomainCores t)"
    if "tp_soleDomainCores t \<noteq> []"
    using t that by (cases ds) (auto split: if_splits)
qed

lemma ReadTopology_distinct:
  assumes "ReadTopology K s root fence = Some (Inr t)"
    and "\<And>llc. self_shared (shared_cpus K s root llc)"
  shows "distinct (concat (tp_domains t))"
proof -
  obtain online0 where o: "ReadCPUList K s (Join [root, ''online'']) = Inr online0"
    and m: "mset (concat (tp_domains t)) = mset (if fence \<noteq> [] then filter (\<lambda>c. c \<in> set fence) online0 else online0)"
    using ReadTopology_domains(1) [OF assms] by blast
  from o obtain raw where "ParseCPUList raw = Inr online0"
    by (auto simp: ReadCPUList_def res_simps)
  then have "distinct online0" using ParseCPUList_strict(1) strict_sorted_iff by blast
  then have "distinct (if fence \<noteq> [] then filter (\<lambda>c. c \<in> set fence) online0 else online0)" by simp
  with m show ?thesis by (metis mset_eq_imp_distinct_iff)
qed

lemma Place_domain:
  assumes "Place K s t q load = Inr (domain, pins)" "tp_domains t \<noteq> []"
  shows "domain \<in> set (tp_domains t)" "\<forall>d\<in>set (tp_domains t). sumLoad domain load \<le> sumLoad d load"
proof -
  have "domain = pick_domain load (tl (tp_domains t)) (hd (tp_domains t)) (sumLoad (hd (tp_domains t)) load)"
    using assms(1) by (auto simp: Place_def Let_def res_simps split: if_splits)
  with pick_domain_least [OF refl, of load "tl (tp_domains t)" "hd (tp_domains t)"] assms(2)
  show "domain \<in> set (tp_domains t)" "\<forall>d\<in>set (tp_domains t). sumLoad domain load \<le> sumLoad d load"
    by simp_all
qed

lemma Place_pins:
  assumes t: "ReadTopology K s root fence = Some (Inr t)"
    and sh: "\<And>llc. self_shared (shared_cpus K s root llc)"
    and p: "Place K s t q load = Inr (domain, pins)" and "2 \<le> q"
  shows "\<exists>cores. coresOf K s root domain = Inr cores \<and> pins = choose_pins load cores q"
proof (cases "tp_soleDomainCores t = []")
  case True
  with p \<open>2 \<le> q\<close> ReadTopology_domains(4) [OF t sh] show ?thesis
    by (auto simp: Place_def Let_def res_simps)
next
  case False
  with ReadTopology_domains(5) [OF t sh] Place_domain(1) [OF p ReadTopology_domains(2) [OF t sh]]
  have "tp_domains t = [hd (tp_domains t)]" and c: "coresOf K s root (hd (tp_domains t)) = Inr (tp_soleDomainCores t)"
    and d: "domain \<in> set (tp_domains t)" by blast+
  then have "domain = hd (tp_domains t)" by (metis empty_iff empty_set set_ConsD)
  with c p False \<open>2 \<le> q\<close> show ?thesis by (auto simp: Place_def Let_def)
qed

section \<open>Properties\<close>

text \<open>
  C32. A cpu list that parses is strictly increasing, and printing it and parsing it again gives the
  same cpus: the canonical form names the same set as the text it came from.
\<close>

theorem cpu_list_canonical:
  assumes "ParseCPUList s = Inr cs"
  shows "sorted_wrt (<) cs \<and> ParseCPUList (FormatCPUList cs) = Inr cs \<and> sameCPUList (FormatCPUList cs) s"
proof -
  have "ParseCPUList (FormatCPUList cs) = Inr cs"
    using ParseCPUList_strict [OF assms] by (intro Parse_Format) auto
  with ParseCPUList_strict [OF assms] assms show ?thesis by (simp add: sameCPUList_def)
qed

theorem cpu_list_canonical_witness:
  "sameCPUList (FormatCPUList [0, 2, 3, 4]) ''2-4, 0,3''"
proof -
  have "ParseCPUList ''2-4, 0,3'' = Inr [0, 2, 3, 4]" by code_simp
  from cpu_list_canonical [OF this] show ?thesis by simp
qed


text \<open>
  C28. A placement takes a domain of least load, and with two or more queues it pins distinct cpus of
  that domain, one for each queue while there are any, spread over the cores: no core has two more
  pins than a core that still has a free cpu. The hypotheses are the documented shape of the
  kernel's \<open>shared_cpu_list\<close> and \<open>thread_siblings_list\<close>.
\<close>

theorem placement_balanced:
  assumes t: "ReadTopology K s root fence = Some (Inr t)"
    and sh: "\<And>llc. self_shared (shared_cpus K s root llc)"
    and sib: "siblings_ok (\<lambda>c. ReadCPUList K s (Join [cpuDir root c, ''topology'', ''thread_siblings_list'']))"
    and p: "Place K s t q load = Inr (domain, pins)" and q: "2 \<le> q"
  shows "domain \<in> set (tp_domains t) \<and> (\<forall>d\<in>set (tp_domains t). sumLoad domain load \<le> sumLoad d load) \<and>
    sorted pins \<and> distinct pins \<and> set pins \<subseteq> set domain \<and> length pins = min (nat q) (length domain) \<and>
    (\<exists>cores. coresOf K s root domain = Inr cores \<and> set (concat cores) = set domain \<and> distinct (concat cores) \<and>
      (\<forall>A\<in>set cores. \<forall>B\<in>set cores. \<not> set B \<subseteq> set pins \<longrightarrow>
        card (set pins \<inter> set A) \<le> card (set pins \<inter> set B) + 1))"
proof -
  note dom = Place_domain [OF p ReadTopology_domains(2) [OF t sh]]
  obtain cores where c: "coresOf K s root domain = Inr cores" and pins: "pins = choose_pins load cores q"
    using Place_pins [OF t sh p q] by blast
  note part = coresOf_partition [OF c sib]
  have "distinct domain" using dom(1) ReadTopology_distinct [OF t sh] by (auto simp: distinct_concat_iff)
  then have "length (concat cores) = length domain"
    using part(1,3) by (metis distinct_card)
  with choose_pins_basic [OF part(1), of load q] choose_pins_balanced [OF part(1)] dom c part pins
  show ?thesis by auto
qed

lemma act_try_explain:
  "act_try (writeControl K d n v) (explainFenceWrite K p) s = (r, s') \<Longrightarrow> writeControl K d n v s = (r, s')"
  by (auto simp: act_try_def explainFenceWrite_def split: prod.splits sum.splits if_splits)

lemma checkSubset_ok:
  "checkSubset K s cpuset dir = Inr () \<longleftrightarrow>
     (\<exists>want effRaw eff. ParseCPUList cpuset = Inr want \<and> readControl K s dir cpusetEffName = Inr effRaw \<and>
        ParseCPUList effRaw = Inr eff \<and> set want \<subseteq> set eff)"
  by (auto simp: checkSubset_def list_ex_iff split: sum.splits if_splits)


text \<open>
  C31. A scope that was prepared with a placement was given cpus that were all effective in its parent
  when the placement was written: the kernel had nothing to degrade silently.
\<close>

theorem prepare_placement_granted:
  assumes "Prepare K evs parentDir fence vmID k deferQuota s = (Inr dir, s')" "kn_CPUSet k \<noteq> ''''"
  shows "dir = ScopeDir parentDir vmID \<and>
    (\<exists>s1 s2 want effRaw eff. ParseCPUList (kn_CPUSet k) = Inr want \<and>
      readControl K s1 parentDir cpusetEffName = Inr effRaw \<and> ParseCPUList effRaw = Inr eff \<and>
      set want \<subseteq> set eff \<and> writeControl K dir cpusetName (kn_CPUSet k) s1 = (Inr (), s2))"
proof -
  obtain s1 s2 where pl: "placeScope K parentDir (ScopeDir parentDir vmID) (kn_CPUSet k) s1 = (Inr (), s2)"
    and dir: "dir = ScopeDir parentDir vmID"
    using assms(1) by (auto simp: Prepare_def Let_def act_bind_Inr split: sum.splits) (metis obj_sumE old.unit.exhaust)
  from pl assms(2) have "checkSubset K s1 (kn_CPUSet k) parentDir = Inr ()"
      "writeControl K (ScopeDir parentDir vmID) cpusetName (kn_CPUSet k) s1 = (Inr (), s2)"
    by (auto simp: placeScope_def split: sum.splits)
  with dir show ?thesis unfolding checkSubset_ok by blast
qed

lemma wrap64_small: "- (2 ^ 63) \<le> x \<Longrightarrow> x < 2 ^ 63 \<Longrightarrow> wrap64 x = x"
  by (simp add: wrap64_def sint_sbintrunc' signed_take_bit_int_eq_self)

text \<open>
  C33. The defaults are accepted: with no CPU option but a period in range or none, 1 to 10000 vCPUs
  give knobs that pass validation, and the quota grants exactly the vCPU count, without overflow.
\<close>

theorem default_knobs_valid:
  assumes "1 \<le> CPU cfg" "CPU cfg \<le> 10000" "CPUWeight cfg = 0" "CPUQuotaUs cfg = 0" "CPUBurstUs cfg = 0"
    "CPUSetCPUs cfg = ''''" "CPUPeriodUs cfg = 0 \<or> 1000 \<le> CPUPeriodUs cfg \<and> CPUPeriodUs cfg \<le> 1000000"
  shows "Knobs_Validate (ResolveKnobs cfg) = Inr () \<and>
    kn_QuotaUs (ResolveKnobs cfg) = CPU cfg * kn_PeriodUs (ResolveKnobs cfg) \<and>
    kn_BurstUs (ResolveKnobs cfg) = kn_QuotaUs (ResolveKnobs cfg)"
proof -
  define p where "p = cmp_or_int (CPUPeriodUs cfg) defaultPeriodUs"
  have p: "1000 \<le> p" "p \<le> 1000000" using assms(7) by (auto simp: p_def cmp_or_int_def defaultPeriodUs_def)
  have "CPU cfg * p \<le> 10000 * 1000000" using assms(1,2) p by (intro mult_mono) auto
  moreover have "1 * 1000 \<le> CPU cfg * p" using assms(1) p by (intro mult_mono) auto
  ultimately have q: "wrap64 (CPU cfg * p) = CPU cfg * p" "1000 \<le> CPU cfg * p" by (simp_all add: wrap64_small)
  have "ResolveKnobs cfg = \<lparr>kn_Weight = CPU cfg, kn_QuotaUs = CPU cfg * p, kn_PeriodUs = p,
      kn_BurstUs = CPU cfg * p, kn_BurstDefaulted = True, kn_CPUSet = ''''\<rparr>"
    using assms(1,3-6) q
    by (simp add: ResolveKnobs_def Let_def p_def [symmetric] cmp_or_int_def [of 0])
  with p q assms(1,2) show ?thesis
    by (simp add: Knobs_Validate_def minWeight_def maxWeight_def minPeriodUs_def maxPeriodUs_def minQuotaUs_def
        ParseCPUList_def)
qed

lemma smt_no_cache:
  "ReadCPUList smt_host False (Join [cpuDir ''/c'' c, ''cache'', llc, ''shared_cpu_list'']) = Inl ErrNotExist"
proof -
  let ?p = "Join [cpuDir ''/c'' c, ''cache'', llc, ''shared_cpu_list'']"
  have "take 6 (rev ?p) = ''tsil_u''" by (simp add: Join_def)
  then have "\<forall>q\<in>{''/c/online'', ''/c/cpu0/topology/thread_siblings_list'', ''/c/cpu1/topology/thread_siblings_list'',
      ''/c/cpu2/topology/thread_siblings_list'', ''/c/cpu3/topology/thread_siblings_list''}. ?p \<noteq> q"
    by auto
  then show ?thesis by (simp add: ReadCPUList_def smt_host_def demo_host_def del: Join_def)
qed

theorem placement_balanced_witness:
  "Place smt_host False \<lparr>tp_root = ''/c'', tp_domains = [[0, 1, 2, 3]], tp_soleDomainCores = [[0, 1], [2, 3]]\<rparr> 2
     (\<lambda>c. if c = 0 then 5 else 0) = Inr ([0, 1, 2, 3], [1, 2]) \<and>
   sorted [1, 2 :: int] \<and> length [1, 2 :: int] = min (nat 2) (length [0, 1, 2, 3 :: int])"
proof -
  let ?t = "\<lparr>tp_root = ''/c'', tp_domains = [[0, 1, 2, 3]], tp_soleDomainCores = [[0, 1], [2, 3]]\<rparr> :: Topology"
  have t: "ReadTopology smt_host False ''/c'' [] = Some (Inr ?t)" by code_simp
  have p: "Place smt_host False ?t 2 (\<lambda>c. if c = 0 then 5 else 0) = Inr ([0, 1, 2, 3], [1, 2])" by code_simp
  have sh: "\<And>llc. self_shared (shared_cpus smt_host False ''/c'' llc)"
    by (simp add: self_shared_def shared_cpus_def smt_no_cache)
  have sib: "siblings_ok (\<lambda>c. ReadCPUList smt_host False (Join [cpuDir ''/c'' c, ''topology'', ''thread_siblings_list'']))"
    unfolding smt_siblings by (auto simp: siblings_ok_def split: if_splits)
  from placement_balanced [OF t sh sib p] p show ?thesis by simp
qed


definition fence_host :: "bool host" where
  "fence_host = demo_host
     [(''/sys/fs/cgroup/cpuset.cpus.effective'', ''0-7''),
      (''/sys/fs/cgroup/cocoon.slice/cpuset.cpus.effective'', ''0-7''),
      (''/sys/fs/cgroup/cocoon.slice/vm-a.scope/cpuset.cpus'', ''2-3'')]
     [(''/sys/fs/cgroup/cocoon.slice'', [(''vm-a.scope'', True)])]"


definition placed_knobs :: Knobs where
  "placed_knobs = \<lparr>kn_Weight = 4, kn_QuotaUs = 8, kn_PeriodUs = 2, kn_BurstUs = 0,
     kn_BurstDefaulted = False, kn_CPUSet = ''2-3''\<rparr>"

theorem prepare_placement_granted_witness:
  "Prepare fence_host [] ''/sys/fs/cgroup/cocoon.slice'' '''' ''b'' placed_knobs False False =
     (Inr ''/sys/fs/cgroup/cocoon.slice/vm-b.scope'', True) \<and>
   (\<exists>s1 want effRaw eff. readControl fence_host s1 ''/sys/fs/cgroup/cocoon.slice'' cpusetEffName = Inr effRaw \<and>
      ParseCPUList effRaw = Inr eff \<and> ParseCPUList ''2-3'' = Inr want \<and> set want \<subseteq> set eff)"
proof -
  have p: "Prepare fence_host [] ''/sys/fs/cgroup/cocoon.slice'' '''' ''b'' placed_knobs False False =
     (Inr ''/sys/fs/cgroup/cocoon.slice/vm-b.scope'', True)" by code_simp
  have c: "kn_CPUSet placed_knobs = ''2-3''" by (simp add: placed_knobs_def)
  have "kn_CPUSet placed_knobs \<noteq> ''''" by (simp add: c)
  from prepare_placement_granted [OF p this] p show ?thesis unfolding c by blast
qed

theorem default_knobs_valid_witness:
  "Knobs_Validate (ResolveKnobs \<lparr>CPU = 4, Memory = 0, Storage = 0, QueueSize = 0, DiskQueueSize = 0,
     ImageName = '''', ImageDigest = '''', ImageType = '''', Network = '''', NoDirectIO = False, NoWatchdog = False,
     NoBalloon = False, Windows = False, SharedMemory = False, HugePages = False, Mergeable = False, PCI = False,
     CPUWeight = 0, CPUQuotaUs = 0, CPUPeriodUs = 0, CPUBurstUs = 0, CPUSetCPUs = ''''\<rparr>) = Inr ()"
  using default_knobs_valid [of "\<lparr>CPU = 4, Memory = 0, Storage = 0, QueueSize = 0, DiskQueueSize = 0,
     ImageName = '''', ImageDigest = '''', ImageType = '''', Network = '''', NoDirectIO = False, NoWatchdog = False,
     NoBalloon = False, Windows = False, SharedMemory = False, HugePages = False, Mergeable = False, PCI = False,
     CPUWeight = 0, CPUQuotaUs = 0, CPUPeriodUs = 0, CPUBurstUs = 0, CPUSetCPUs = ''''\<rparr>"] by simp

end
