(* ===== verification/Flock.thy ===== *)
theory Flock
  imports Prelude
begin

text \<open>
  \<open>src/lock/flock\<close>: the lock file that excludes goroutines (a one-slot channel per lock object) and
  processes (\<open>flock\<close> on the file's inode), and the transient lock, which unlinks its file on release
  and makes a waiter that got an unlinked inode try again. The code runs in many threads at once, so
  it is a step machine: one action for each point at which another thread can see a change. The
  kernel gives a \<open>flock\<close> to at most one open file of an inode at a time.
\<close>

section \<open>States\<close>

text \<open>
  Where a thread is. \<open>Token\<close>: it has the channel slot and is at the head of the loop of \<open>Lock\<close>, or
  in \<open>TryLock\<close>; \<open>Opened i\<close>: \<open>commitFlock\<close> has opened the file and waits for its lock; \<open>Flocked i\<close>:
  it has the lock and has yet to check the path; \<open>Holds i\<close>: \<open>Lock\<close> or \<open>TryLock\<close> has returned;
  \<open>Leaving i\<close>: \<open>Unlock\<close> is past the unlink.
\<close>

datatype fl_pc = Away | Token | Opened nat | Flocked nat | Holds nat | Leaving nat

text \<open>
  The inode the path is bound to, the next inode number, the holder of each inode's lock, the thread
  in each lock object's channel, and the threads.
\<close>

record fl_state =
  fl_path :: "nat option"
  fl_next :: nat
  fl_owner :: "nat \<Rightarrow> nat option"
  fl_chan :: "nat \<Rightarrow> nat option"
  fl_pcs :: "nat \<Rightarrow> fl_pc"

definition fl_init :: fl_state where
  "fl_init = \<lparr>fl_path = None, fl_next = 0, fl_owner = (\<lambda>_. None), fl_chan = (\<lambda>_. None), fl_pcs = (\<lambda>_. Away)\<rparr>"

text \<open>
  The actions of a thread. \<open>Enter\<close> sends to the channel. \<open>Open\<close> and \<open>Acquire\<close> are the two halves of
  the \<open>flock\<close> library's lock call, \<open>GiveUp\<close> its failure. \<open>Verify\<close> is \<open>pathBound\<close> when it holds,
  \<open>Requeue\<close> and \<open>Abandon\<close> when it does not, in \<open>Lock\<close> and in \<open>TryLock\<close>. \<open>Unlink\<close> is the removal in
  \<open>Unlock\<close>, \<open>UnlinkFails\<close> its failure, \<open>Release\<close> the rest. \<open>Crash\<close> ends the process that has a lock
  object: the kernel closes its files.
\<close>

datatype fl_action =
  Enter nat | Open nat | Acquire nat | GiveUp nat | Verify nat | Requeue nat | Abandon nat
  | Unlink nat | UnlinkFails nat | Release nat | Crash nat

section \<open>Operations\<close>

text \<open>\<open>obj t\<close> is the lock object thread \<open>t\<close> uses; all of them are for one path.\<close>

definition goto :: "nat \<Rightarrow> fl_pc \<Rightarrow> fl_state \<Rightarrow> fl_state" where
  "goto t p s = s\<lparr>fl_pcs := (fl_pcs s)(t := p)\<rparr>"

definition fl_enter :: "(nat \<Rightarrow> nat) \<Rightarrow> nat \<Rightarrow> fl_state \<Rightarrow> fl_state option" where
  "fl_enter obj t s =
     (if fl_pcs s t = Away \<and> fl_chan s (obj t) = None
      then Some (goto t Token (s\<lparr>fl_chan := (fl_chan s)(obj t := Some t)\<rparr>)) else None)"

text \<open>Opening creates the file when the path has none.\<close>

definition fl_open :: "nat \<Rightarrow> fl_state \<Rightarrow> fl_state option" where
  "fl_open t s =
     (if fl_pcs s t = Token
      then (case fl_path s of
              Some i \<Rightarrow> Some (goto t (Opened i) s)
            | None \<Rightarrow> Some (goto t (Opened (fl_next s)) (s\<lparr>fl_path := Some (fl_next s), fl_next := Suc (fl_next s)\<rparr>)))
      else None)"

definition fl_acquire :: "nat \<Rightarrow> fl_state \<Rightarrow> fl_state option" where
  "fl_acquire t s =
     (case fl_pcs s t of
        Opened i \<Rightarrow> if fl_owner s i = None
          then Some (goto t (Flocked i) (s\<lparr>fl_owner := (fl_owner s)(i := Some t)\<rparr>)) else None
      | _ \<Rightarrow> None)"

definition fl_giveup :: "(nat \<Rightarrow> nat) \<Rightarrow> nat \<Rightarrow> fl_state \<Rightarrow> fl_state option" where
  "fl_giveup obj t s =
     (case fl_pcs s t of
        Opened i \<Rightarrow> Some (goto t Away (s\<lparr>fl_chan := (fl_chan s)(obj t := None)\<rparr>))
      | Token \<Rightarrow> Some (goto t Away (s\<lparr>fl_chan := (fl_chan s)(obj t := None)\<rparr>))
      | _ \<Rightarrow> None)"

text \<open>\<open>BoundToPath\<close>: the path still names the inode that is held.\<close>

definition pathBound :: "bool \<Rightarrow> nat \<Rightarrow> fl_state \<Rightarrow> bool" where
  "pathBound transient i s = (\<not> transient \<or> fl_path s = Some i)"

definition fl_verify :: "bool \<Rightarrow> nat \<Rightarrow> fl_state \<Rightarrow> fl_state option" where
  "fl_verify transient t s =
     (case fl_pcs s t of
        Flocked i \<Rightarrow> if pathBound transient i s then Some (goto t (Holds i) s) else None
      | _ \<Rightarrow> None)"

text \<open>\<open>dropFlock\<close>. A check of the path may also fail for other reasons, so it is always possible.\<close>

definition fl_requeue :: "nat \<Rightarrow> fl_state \<Rightarrow> fl_state option" where
  "fl_requeue t s =
     (case fl_pcs s t of
        Flocked i \<Rightarrow> Some (goto t Token (s\<lparr>fl_owner := (fl_owner s)(i := None)\<rparr>))
      | _ \<Rightarrow> None)"

definition fl_abandon :: "(nat \<Rightarrow> nat) \<Rightarrow> nat \<Rightarrow> fl_state \<Rightarrow> fl_state option" where
  "fl_abandon obj t s =
     (case fl_pcs s t of
        Flocked i \<Rightarrow> Some (goto t Away
          (s\<lparr>fl_owner := (fl_owner s)(i := None), fl_chan := (fl_chan s)(obj t := None)\<rparr>))
      | _ \<Rightarrow> None)"

text \<open>The removal takes whatever file the path names.\<close>

definition fl_unlink :: "bool \<Rightarrow> nat \<Rightarrow> fl_state \<Rightarrow> fl_state option" where
  "fl_unlink transient t s =
     (case fl_pcs s t of
        Holds i \<Rightarrow> Some (goto t (Leaving i) (if transient then s\<lparr>fl_path := None\<rparr> else s))
      | _ \<Rightarrow> None)"

definition fl_unlink_fails :: "nat \<Rightarrow> fl_state \<Rightarrow> fl_state option" where
  "fl_unlink_fails t s = (case fl_pcs s t of Holds i \<Rightarrow> Some (goto t (Leaving i) s) | _ \<Rightarrow> None)"

definition fl_release :: "(nat \<Rightarrow> nat) \<Rightarrow> nat \<Rightarrow> fl_state \<Rightarrow> fl_state option" where
  "fl_release obj t s =
     (case fl_pcs s t of
        Leaving i \<Rightarrow> Some (goto t Away
          (s\<lparr>fl_owner := (fl_owner s)(i := None), fl_chan := (fl_chan s)(obj t := None)\<rparr>))
      | _ \<Rightarrow> None)"

definition fl_crash :: "(nat \<Rightarrow> nat) \<Rightarrow> nat \<Rightarrow> fl_state \<Rightarrow> fl_state" where
  "fl_crash obj l s =
     s\<lparr>fl_owner := (\<lambda>i. case fl_owner s i of None \<Rightarrow> None | Some t \<Rightarrow> if obj t = l then None else Some t),
       fl_chan := (fl_chan s)(l := None),
       fl_pcs := (\<lambda>t. if obj t = l then Away else fl_pcs s t)\<rparr>"

fun fl_step :: "bool \<Rightarrow> (nat \<Rightarrow> nat) \<Rightarrow> fl_action \<Rightarrow> fl_state \<Rightarrow> fl_state option" where
  "fl_step transient obj (Enter t) s = fl_enter obj t s"
| "fl_step transient obj (Open t) s = fl_open t s"
| "fl_step transient obj (Acquire t) s = fl_acquire t s"
| "fl_step transient obj (GiveUp t) s = fl_giveup obj t s"
| "fl_step transient obj (Verify t) s = fl_verify transient t s"
| "fl_step transient obj (Requeue t) s = fl_requeue t s"
| "fl_step transient obj (Abandon t) s = fl_abandon obj t s"
| "fl_step transient obj (Unlink t) s = fl_unlink transient t s"
| "fl_step transient obj (UnlinkFails t) s = fl_unlink_fails t s"
| "fl_step transient obj (Release t) s = fl_release obj t s"
| "fl_step transient obj (Crash l) s = Some (fl_crash obj l s)"

inductive fl_reach :: "bool \<Rightarrow> (nat \<Rightarrow> nat) \<Rightarrow> fl_state \<Rightarrow> bool" for transient obj where
  start: "fl_reach transient obj fl_init"
| step: "fl_reach transient obj s \<Longrightarrow> fl_step transient obj a s = Some s' \<Longrightarrow> fl_reach transient obj s'"

text \<open>A run of actions, for evaluation.\<close>

fun fl_run :: "bool \<Rightarrow> (nat \<Rightarrow> nat) \<Rightarrow> fl_action list \<Rightarrow> fl_state \<Rightarrow> fl_state option" where
  "fl_run transient obj [] s = Some s"
| "fl_run transient obj (a # as) s =
     (case fl_step transient obj a s of None \<Rightarrow> None | Some s' \<Rightarrow> fl_run transient obj as s')"

section \<open>The invariant\<close>

fun pc_inode :: "fl_pc \<Rightarrow> nat option" where
  "pc_inode (Flocked i) = Some i"
| "pc_inode (Holds i) = Some i"
| "pc_inode (Leaving i) = Some i"
| "pc_inode _ = None"

definition fl_inv :: "bool \<Rightarrow> (nat \<Rightarrow> nat) \<Rightarrow> fl_state \<Rightarrow> bool" where
  "fl_inv transient obj s \<longleftrightarrow>
     (\<forall>t. fl_pcs s t \<noteq> Away \<longrightarrow> fl_chan s (obj t) = Some t) \<and>
     (\<forall>t i. pc_inode (fl_pcs s t) = Some i \<longrightarrow> fl_owner s i = Some t) \<and>
     (\<forall>t i. fl_pcs s t = Holds i \<longrightarrow> fl_path s = Some i) \<and>
     (\<not> transient \<longrightarrow> (\<forall>t i. fl_pcs s t = Opened i \<or> pc_inode (fl_pcs s t) = Some i \<longrightarrow> fl_path s = Some i))"

lemmas fl_ops =
  fl_enter_def fl_open_def fl_acquire_def fl_giveup_def fl_verify_def fl_requeue_def fl_abandon_def
  fl_unlink_def fl_unlink_fails_def fl_release_def goto_def pathBound_def

lemma fl_inv_init: "fl_inv transient obj fl_init"
  by (simp add: fl_inv_def fl_init_def)

lemma fl_inv_parts:
  assumes "fl_inv transient obj s"
  shows "fl_pcs s t \<noteq> Away \<Longrightarrow> fl_chan s (obj t) = Some t"
    and "pc_inode (fl_pcs s t) = Some i \<Longrightarrow> fl_owner s i = Some t"
    and "fl_pcs s t = Holds i \<Longrightarrow> fl_path s = Some i"
    and "\<not> transient \<Longrightarrow> fl_pcs s t = Opened i \<Longrightarrow> fl_path s = Some i"
    and "\<not> transient \<Longrightarrow> pc_inode (fl_pcs s t) = Some i \<Longrightarrow> fl_path s = Some i"
  using assms by (simp_all add: fl_inv_def)

lemma fl_holder_unique:
  assumes "fl_inv transient obj s" "fl_pcs s t = Holds i" "fl_pcs s u = Holds j"
  shows "t = u"
proof -
  have "i = j" using fl_inv_parts(3) [OF assms(1,2)] fl_inv_parts(3) [OF assms(1,3)] by simp
  then show ?thesis using fl_inv_parts(2) [OF assms(1), of t i] fl_inv_parts(2) [OF assms(1), of u i] assms(2,3) by simp
qed

text \<open>Moving one thread keeps the invariant when its new place is justified and the rest is left alone.\<close>

lemma fl_inv_goto:
  assumes inv: "fl_inv transient obj s"
    and chan: "p \<noteq> Away \<Longrightarrow> ch (obj t) = Some t"
    and others: "\<And>u. u \<noteq> t \<Longrightarrow> fl_chan s (obj u) = Some u \<Longrightarrow> ch (obj u) = Some u"
    and own: "\<And>i. pc_inode p = Some i \<Longrightarrow> ow i = Some t"
    and owners: "\<And>u i. u \<noteq> t \<Longrightarrow> fl_owner s i = Some u \<Longrightarrow> ow i = Some u"
    and path: "\<And>u i. u \<noteq> t \<Longrightarrow> fl_pcs s u = Holds i \<Longrightarrow> pa = Some i"
    and keeps: "\<And>i. \<not> transient \<Longrightarrow> fl_path s = Some i \<Longrightarrow> pa = Some i"
    and here: "\<And>i. p = Holds i \<Longrightarrow> pa = Some i"
    and nt: "\<And>i. \<not> transient \<Longrightarrow> p = Opened i \<or> pc_inode p = Some i \<Longrightarrow> pa = Some i"
  shows "fl_inv transient obj
    \<lparr>fl_path = pa, fl_next = n, fl_owner = ow, fl_chan = ch, fl_pcs = (fl_pcs s)(t := p)\<rparr>"
  unfolding fl_inv_def fl_state.simps
proof (intro conjI allI impI)
  show "ch (obj u) = Some u" if "((fl_pcs s)(t := p)) u \<noteq> Away" for u
    using that chan others [of u] fl_inv_parts(1) [OF inv, of u] by (cases "u = t") auto
  show "ow i = Some u" if "pc_inode (((fl_pcs s)(t := p)) u) = Some i" for u i
    using that own [of i] owners [of u i] fl_inv_parts(2) [OF inv, of u i] by (cases "u = t") auto
  show "pa = Some i" if "((fl_pcs s)(t := p)) u = Holds i" for u i
    using that path [of u i] here [of i] by (cases "u = t") auto
  show "pa = Some i" if "\<not> transient" "((fl_pcs s)(t := p)) u = Opened i \<or> pc_inode (((fl_pcs s)(t := p)) u) = Some i" for u i
    using that nt [of i] keeps [of i] fl_inv_parts(4,5) [OF inv, of u i] by (cases "u = t") auto
qed

text \<open>The same when the path is left alone too.\<close>

lemma fl_inv_goto_path:
  assumes inv: "fl_inv transient obj s"
    and "p \<noteq> Away \<Longrightarrow> ch (obj t) = Some t"
    and "\<And>u. u \<noteq> t \<Longrightarrow> fl_chan s (obj u) = Some u \<Longrightarrow> ch (obj u) = Some u"
    and "\<And>i. pc_inode p = Some i \<Longrightarrow> ow i = Some t"
    and "\<And>u i. u \<noteq> t \<Longrightarrow> fl_owner s i = Some u \<Longrightarrow> ow i = Some u"
    and "\<And>i. p = Holds i \<Longrightarrow> fl_path s = Some i"
    and "\<And>i. \<not> transient \<Longrightarrow> p = Opened i \<or> pc_inode p = Some i \<Longrightarrow> fl_path s = Some i"
  shows "fl_inv transient obj
    \<lparr>fl_path = fl_path s, fl_next = n, fl_owner = ow, fl_chan = ch, fl_pcs = (fl_pcs s)(t := p)\<rparr>"
proof (rule fl_inv_goto [OF inv assms(2-5)])
  show "fl_path s = Some i" if "fl_pcs s u = Holds i" for u i using fl_inv_parts(3) [OF inv that] .
qed (use assms(6,7) in blast)+

lemma fl_inv_crash:
  assumes "fl_inv transient obj s"
  shows "fl_inv transient obj (fl_crash obj l s)"
proof -
  let ?pcs = "\<lambda>t. if obj t = l then Away else fl_pcs s t"
  let ?ow = "\<lambda>i. case fl_owner s i of None \<Rightarrow> None | Some t \<Rightarrow> if obj t = l then None else Some t"
  have "?pcs u \<noteq> Away \<Longrightarrow> ((fl_chan s)(l := None)) (obj u) = Some u" for u
    using fl_inv_parts(1) [OF assms, of u] by (auto split: if_splits)
  moreover have "pc_inode (?pcs u) = Some i \<Longrightarrow> ?ow i = Some u" for u i
    using fl_inv_parts(2) [OF assms, of u i] by (auto split: if_splits)
  moreover have "?pcs u = Holds i \<Longrightarrow> fl_path s = Some i" for u i
    using fl_inv_parts(3) [OF assms, of u i] by (auto split: if_splits)
  moreover have "\<not> transient \<Longrightarrow> ?pcs u = Opened i \<or> pc_inode (?pcs u) = Some i \<Longrightarrow> fl_path s = Some i" for u i
    using fl_inv_parts(4,5) [OF assms, of u i] by (auto split: if_splits)
  ultimately show ?thesis unfolding fl_inv_def fl_crash_def by simp
qed

lemma goto_eq:
  "goto t p s = \<lparr>fl_path = fl_path s, fl_next = fl_next s, fl_owner = fl_owner s, fl_chan = fl_chan s,
     fl_pcs = (fl_pcs s)(t := p)\<rparr>"
  by (simp add: goto_def)

lemma fl_inv_Enter:
  assumes inv: "fl_inv transient obj s" and step: "fl_enter obj t s = Some s'"
  shows "fl_inv transient obj s'"
proof -
  from step have s': "fl_chan s (obj t) = None"
      "s' = \<lparr>fl_path = fl_path s, fl_next = fl_next s, fl_owner = fl_owner s, fl_chan = (fl_chan s)(obj t := Some t),
        fl_pcs = (fl_pcs s)(t := Token)\<rparr>"
    by (auto simp: fl_enter_def goto_eq split: if_splits)
  show ?thesis unfolding s'(2)
    by (rule fl_inv_goto_path [OF inv]) (use s'(1) in auto)
qed

lemma fl_inv_Open:
  assumes inv: "fl_inv transient obj s" and step: "fl_open t s = Some s'"
  shows "fl_inv transient obj s'"
proof -
  from step have t: "fl_chan s (obj t) = Some t"
    using fl_inv_parts(1) [OF inv, of t] by (auto simp: fl_open_def split: if_splits)
  show ?thesis
  proof (cases "fl_path s")
    case None
    with step have s': "s' = \<lparr>fl_path = Some (fl_next s), fl_next = Suc (fl_next s), fl_owner = fl_owner s,
        fl_chan = fl_chan s, fl_pcs = (fl_pcs s)(t := Opened (fl_next s))\<rparr>"
      by (auto simp: fl_open_def goto_eq split: if_splits)
    have "fl_pcs s u \<noteq> Holds i" for u i using fl_inv_parts(3) [OF inv, of u i] None by auto
    then show ?thesis unfolding s' by (intro fl_inv_goto [OF inv]) (use t None in auto)
  next
    case (Some i)
    with step have s': "s' = \<lparr>fl_path = fl_path s, fl_next = fl_next s, fl_owner = fl_owner s,
        fl_chan = fl_chan s, fl_pcs = (fl_pcs s)(t := Opened i)\<rparr>"
      by (auto simp: fl_open_def goto_eq split: if_splits)
    show ?thesis unfolding s' by (rule fl_inv_goto_path [OF inv]) (use t Some in auto)
  qed
qed

lemma fl_inv_Acquire:
  assumes inv: "fl_inv transient obj s" and step: "fl_acquire t s = Some s'"
  shows "fl_inv transient obj s'"
proof -
  from step obtain i where i: "fl_pcs s t = Opened i" "fl_owner s i = None"
      "s' = \<lparr>fl_path = fl_path s, fl_next = fl_next s, fl_owner = (fl_owner s)(i := Some t), fl_chan = fl_chan s,
        fl_pcs = (fl_pcs s)(t := Flocked i)\<rparr>"
    by (auto simp: fl_acquire_def goto_eq split: if_splits fl_pc.splits)
  show ?thesis unfolding i(3)
    by (rule fl_inv_goto_path [OF inv])
       (use i fl_inv_parts(1) [OF inv, of t] fl_inv_parts(4) [OF inv, of t i] in auto)
qed

lemma fl_inv_GiveUp:
  assumes inv: "fl_inv transient obj s" and step: "fl_giveup obj t s = Some s'"
  shows "fl_inv transient obj s'"
proof -
  from step have g: "fl_pcs s t \<noteq> Away"
      "s' = \<lparr>fl_path = fl_path s, fl_next = fl_next s, fl_owner = fl_owner s, fl_chan = (fl_chan s)(obj t := None),
        fl_pcs = (fl_pcs s)(t := Away)\<rparr>"
    by (auto simp: fl_giveup_def goto_eq split: fl_pc.splits)
  show ?thesis unfolding g(2)
    by (rule fl_inv_goto_path [OF inv]) (use fl_inv_parts(1) [OF inv g(1)] in auto)
qed

lemma fl_inv_Verify:
  assumes inv: "fl_inv transient obj s" and step: "fl_verify transient t s = Some s'"
  shows "fl_inv transient obj s'"
proof -
  from step obtain i where i: "fl_pcs s t = Flocked i" "pathBound transient i s"
      "s' = \<lparr>fl_path = fl_path s, fl_next = fl_next s, fl_owner = fl_owner s, fl_chan = fl_chan s,
        fl_pcs = (fl_pcs s)(t := Holds i)\<rparr>"
    by (auto simp: fl_verify_def goto_eq split: if_splits fl_pc.splits)
  have "fl_path s = Some i" using i(1,2) fl_inv_parts(5) [OF inv, of t i] by (auto simp: pathBound_def)
  then show ?thesis unfolding i(3)
    by (intro fl_inv_goto_path [OF inv])
       (use i(1) fl_inv_parts(1,2) [OF inv, of t] in auto)
qed

lemma fl_inv_Requeue:
  assumes inv: "fl_inv transient obj s" and step: "fl_requeue t s = Some s'"
  shows "fl_inv transient obj s'"
proof -
  from step obtain i where i: "fl_pcs s t = Flocked i"
      "s' = \<lparr>fl_path = fl_path s, fl_next = fl_next s, fl_owner = (fl_owner s)(i := None), fl_chan = fl_chan s,
        fl_pcs = (fl_pcs s)(t := Token)\<rparr>"
    by (auto simp: fl_requeue_def goto_eq split: fl_pc.splits)
  show ?thesis unfolding i(2)
    by (rule fl_inv_goto_path [OF inv])
       (use i(1) fl_inv_parts(1) [OF inv, of t] fl_inv_parts(2) [OF inv, of t i] in auto)
qed

lemma fl_inv_Abandon:
  assumes inv: "fl_inv transient obj s" and step: "fl_abandon obj t s = Some s'"
  shows "fl_inv transient obj s'"
proof -
  from step obtain i where i: "fl_pcs s t = Flocked i"
      "s' = \<lparr>fl_path = fl_path s, fl_next = fl_next s, fl_owner = (fl_owner s)(i := None),
        fl_chan = (fl_chan s)(obj t := None), fl_pcs = (fl_pcs s)(t := Away)\<rparr>"
    by (auto simp: fl_abandon_def goto_eq split: fl_pc.splits)
  show ?thesis unfolding i(2)
    by (rule fl_inv_goto_path [OF inv])
       (use i(1) fl_inv_parts(1) [OF inv, of t] fl_inv_parts(2) [OF inv, of t i] in auto)
qed

lemma fl_inv_Unlink:
  assumes inv: "fl_inv transient obj s" and step: "fl_unlink transient t s = Some s'"
  shows "fl_inv transient obj s'"
proof -
  from step obtain i where i: "fl_pcs s t = Holds i"
      "s' = \<lparr>fl_path = (if transient then None else fl_path s), fl_next = fl_next s, fl_owner = fl_owner s,
        fl_chan = fl_chan s, fl_pcs = (fl_pcs s)(t := Leaving i)\<rparr>"
    by (auto simp: fl_unlink_def goto_eq split: fl_pc.splits)
  show ?thesis unfolding i(2)
  proof (rule fl_inv_goto [OF inv])
    show "(if transient then None else fl_path s) = Some j" if "u \<noteq> t" "fl_pcs s u = Holds j" for u j
      using fl_holder_unique [OF inv that(2) i(1)] that(1) by simp
  qed (use i(1) fl_inv_parts(1) [OF inv, of t] fl_inv_parts(2) [OF inv, of t i] fl_inv_parts(5) [OF inv, of t i] in auto)
qed

lemma fl_inv_UnlinkFails:
  assumes inv: "fl_inv transient obj s" and step: "fl_unlink_fails t s = Some s'"
  shows "fl_inv transient obj s'"
proof -
  from step obtain i where i: "fl_pcs s t = Holds i"
      "s' = \<lparr>fl_path = fl_path s, fl_next = fl_next s, fl_owner = fl_owner s, fl_chan = fl_chan s,
        fl_pcs = (fl_pcs s)(t := Leaving i)\<rparr>"
    by (auto simp: fl_unlink_fails_def goto_eq split: fl_pc.splits)
  show ?thesis unfolding i(2)
    by (rule fl_inv_goto_path [OF inv])
       (use i(1) fl_inv_parts(1) [OF inv, of t] fl_inv_parts(2) [OF inv, of t i] fl_inv_parts(3) [OF inv i(1)] in auto)
qed

lemma fl_inv_Release:
  assumes inv: "fl_inv transient obj s" and step: "fl_release obj t s = Some s'"
  shows "fl_inv transient obj s'"
proof -
  from step obtain i where i: "fl_pcs s t = Leaving i"
      "s' = \<lparr>fl_path = fl_path s, fl_next = fl_next s, fl_owner = (fl_owner s)(i := None),
        fl_chan = (fl_chan s)(obj t := None), fl_pcs = (fl_pcs s)(t := Away)\<rparr>"
    by (auto simp: fl_release_def goto_eq split: fl_pc.splits)
  show ?thesis unfolding i(2)
    by (rule fl_inv_goto_path [OF inv])
       (use i(1) fl_inv_parts(1) [OF inv, of t] fl_inv_parts(2) [OF inv, of t i] in auto)
qed

lemma fl_inv_step:
  "fl_inv transient obj s \<Longrightarrow> fl_step transient obj a s = Some s' \<Longrightarrow> fl_inv transient obj s'"
  by (cases a) (auto intro: fl_inv_Enter fl_inv_Open fl_inv_Acquire fl_inv_GiveUp fl_inv_Verify fl_inv_Requeue fl_inv_Abandon fl_inv_Unlink fl_inv_UnlinkFails fl_inv_Release fl_inv_crash)

lemma fl_reach_inv: "fl_reach transient obj s \<Longrightarrow> fl_inv transient obj s"
  by (induction rule: fl_reach.induct) (auto intro: fl_inv_init fl_inv_step)

lemma fl_run_reach:
  "fl_reach transient obj s \<Longrightarrow> fl_run transient obj as s = Some s' \<Longrightarrow> fl_reach transient obj s'"
  by (induction as arbitrary: s) (auto split: option.splits intro: fl_reach.step)

section \<open>Properties\<close>

text \<open>
  C12. At most one thread holds the lock, in any interleaving of threads and processes: with waiters
  on an inode that the holder unlinks, with failed removals, with attempts that are given up, and with
  processes that die at any point.
\<close>

theorem flock_mutual_exclusion:
  assumes "fl_reach transient obj s" "fl_pcs s t = Holds i" "fl_pcs s u = Holds j"
  shows "t = u"
  using fl_holder_unique [OF fl_reach_inv] assms .

text \<open>Two threads wait on the first file; the holder unlinks it, and only the second round holds.\<close>

definition fl_example :: "fl_action list" where
  "fl_example = [Enter 0, Open 0, Acquire 0, Verify 0, Enter 1, Open 1, Unlink 0, Release 0, Acquire 1,
     Requeue 1, Open 1, Acquire 1, Verify 1]"

theorem flock_mutual_exclusion_witness:
  "\<exists>s. fl_run True id fl_example fl_init = Some s \<and> fl_reach True id s \<and> fl_pcs s 1 = Holds 1 \<and> fl_pcs s 0 \<noteq> Holds 1"
proof -
  have r: "\<exists>s. fl_run True id fl_example fl_init = Some s \<and> fl_pcs s 1 = Holds 1"
    by (simp add: fl_example_def fl_init_def fl_ops)
  then obtain s where s: "fl_run True id fl_example fl_init = Some s" "fl_pcs s 1 = Holds 1" by blast
  have "fl_reach True id s" using fl_run_reach [OF fl_reach.start s(1)] .
  with flock_mutual_exclusion [OF this s(2), of 0 1] s show ?thesis by auto
qed

text \<open>Inode numbers are not used twice, so an inode that lost the path never gets it back.\<close>

lemma fl_path_fresh:
  assumes "fl_step transient obj a s = Some s'"
  shows "(\<forall>i. fl_path s = Some i \<longrightarrow> i < fl_next s) \<Longrightarrow> (\<forall>i. fl_path s' = Some i \<longrightarrow> i < fl_next s')"
    and "i < fl_next s \<and> fl_path s \<noteq> Some i \<Longrightarrow> i < fl_next s' \<and> fl_path s' \<noteq> Some i"
  using assms by (cases a; auto simp: fl_ops fl_crash_def split: fl_pc.splits if_splits option.splits)+

lemma fl_reach_path: "fl_reach transient obj s \<Longrightarrow> fl_path s = Some i \<Longrightarrow> i < fl_next s"
proof -
  assume "fl_reach transient obj s"
  then have "\<forall>i. fl_path s = Some i \<longrightarrow> i < fl_next s"
    by (induction rule: fl_reach.induct) (simp add: fl_init_def, metis fl_path_fresh(1))
  then show "fl_path s = Some i \<Longrightarrow> i < fl_next s" by blast
qed

lemma fl_run_stale:
  "fl_run transient obj as s = Some r \<Longrightarrow> i < fl_next s \<Longrightarrow> fl_path s \<noteq> Some i \<Longrightarrow> fl_path r \<noteq> Some i"
proof (induction as arbitrary: s)
  case (Cons a as)
  then obtain s' where "fl_step transient obj a s = Some s'" "fl_run transient obj as s' = Some r"
    by (auto split: option.splits)
  with Cons.IH [of s'] Cons.prems fl_path_fresh(2) show ?case by metis
qed simp

text \<open>
  C34. Once the holder of a transient lock has unlinked its file, no thread ever holds the lock through
  that inode again, whatever the threads do next: a waiter that gets the stale inode has to go around.
\<close>

theorem flock_stale_inode_refused:
  assumes "fl_reach True obj s" "fl_pcs s t = Holds i" "fl_step True obj (Unlink t) s = Some s'"
    and "fl_run True obj as s' = Some r"
  shows "fl_pcs r u \<noteq> Holds i"
proof -
  have "i < fl_next s" using fl_inv_parts(3) [OF fl_reach_inv [OF assms(1)] assms(2)] fl_reach_path [OF assms(1)] by blast
  moreover have "fl_path s' = None" "fl_next s' = fl_next s"
    using assms(2,3) by (auto simp: fl_unlink_def goto_def)
  ultimately have "fl_path r \<noteq> Some i" using fl_run_stale [OF assms(4), of i] by simp
  moreover have "fl_inv True obj r"
    using fl_reach_inv fl_run_reach [OF fl_reach.step [OF assms(1,3)] assms(4)] by blast
  ultimately show ?thesis using fl_inv_parts(3) by blast
qed

theorem flock_stale_inode_refused_witness:
  "\<exists>s s' r. fl_run True id [Enter 0, Open 0, Acquire 0, Verify 0, Enter 1, Open 1] fl_init = Some s \<and>
     fl_step True id (Unlink 0) s = Some s' \<and> fl_run True id [Release 0, Acquire 1] s' = Some r \<and>
     fl_pcs r 1 = Flocked 0 \<and> fl_pcs r 1 \<noteq> Holds 0"
proof -
  let ?as = "[Enter 0, Open 0, Acquire 0, Verify 0, Enter 1, Open 1]"
  have "\<exists>s s' r. fl_run True id ?as fl_init = Some s \<and> fl_pcs s 0 = Holds 0 \<and> fl_step True id (Unlink 0) s = Some s' \<and>
      fl_run True id [Release 0, Acquire 1] s' = Some r \<and> fl_pcs r 1 = Flocked 0"
    by (simp add: fl_init_def fl_ops)
  then obtain s s' r where r: "fl_run True id ?as fl_init = Some s" "fl_pcs s 0 = Holds 0"
      "fl_step True id (Unlink 0) s = Some s'" "fl_run True id [Release 0, Acquire 1] s' = Some r" "fl_pcs r 1 = Flocked 0"
    by blast
  from flock_stale_inode_refused [OF fl_run_reach [OF fl_reach.start r(1)] r(2-4), of 1] r show ?thesis by blast
qed

end
