(* ===== verification/DiskDelta.thy ===== *)
theory DiskDelta
  imports Host
begin

text \<open>
  Disk deltas of a live migration, from \<open>src/hypervisor/diskdelta.go\<close>: the difference of two extent maps, the
  delta file written from it, and its replay over a copy of the reference. A file is a string of bytes, every
  call on files may fail, and a failed write may leave a part of its bytes. The encoding of the header and the
  extents of a file, which the kernel reports, are arguments.
\<close>

section \<open>Extents\<close>

record Extent =
  ex_Logical :: int
  ex_Physical :: int
  ex_Length :: int
  ex_Unwritten :: bool

record diskMapping =
  mp_physical :: int
  mp_unwritten :: bool
  mp_mapped :: bool

record deltaRange =
  rg_Offset :: int
  rg_Length :: int
  rg_Zero :: bool

record diskDelta =
  dd_Size :: int
  dd_Ranges :: "deltaRange list"

definition MaxInt64 :: int where "MaxInt64 = 2 ^ 63 - 1"

definition no_mapping :: diskMapping where
  "no_mapping = \<lparr>mp_physical = 0, mp_unwritten = False, mp_mapped = False\<rparr>"

definition skip_extents :: "Extent list \<Rightarrow> int \<Rightarrow> Extent list" where
  "skip_extents extents pos = dropWhile (\<lambda>e. ex_Logical e + ex_Length e \<le> pos) extents"

text \<open>The mapping at \<open>pos\<close>, the offset where it stops holding, and the extents that are left.\<close>

definition extentAt :: "Extent list \<Rightarrow> int \<Rightarrow> diskMapping \<times> int \<times> Extent list" where
  "extentAt extents pos =
     (case skip_extents extents pos of
        [] \<Rightarrow> (no_mapping, MaxInt64, [])
      | e # es \<Rightarrow>
          if pos < ex_Logical e then (no_mapping, ex_Logical e, e # es)
          else (\<lparr>mp_physical = ex_Physical e + pos - ex_Logical e, mp_unwritten = ex_Unwritten e, mp_mapped = True\<rparr>,
                ex_Logical e + ex_Length e, e # es))"

definition add_range :: "deltaRange list \<Rightarrow> int \<Rightarrow> int \<Rightarrow> bool \<Rightarrow> deltaRange list" where
  "add_range out pos e zero =
     (if out \<noteq> [] \<and> rg_Zero (last out) = zero \<and> rg_Offset (last out) + rg_Length (last out) = pos
      then butlast out @ [(last out)\<lparr>rg_Length := rg_Length (last out) + (e - pos)\<rparr>]
      else out @ [\<lparr>rg_Offset = pos, rg_Length = e - pos, rg_Zero = zero\<rparr>])"

text \<open>
  The loop moves at least one byte ahead as long as \<open>size\<close> is a 64-bit integer, so \<open>size\<close> rounds are enough.
\<close>

fun diff_loop :: "nat \<Rightarrow> Extent list \<Rightarrow> Extent list \<Rightarrow> int \<Rightarrow> int \<Rightarrow> deltaRange list \<Rightarrow> deltaRange list" where
  "diff_loop 0 ref cur sz pos out = out"
| "diff_loop (Suc n) ref cur sz pos out =
     (if pos < sz
      then
        (let (refAt, refEnd, ref') = extentAt ref pos; (curAt, curEnd, cur') = extentAt cur pos;
             e = min (min refEnd curEnd) sz
         in diff_loop n ref' cur' sz e
              (if refAt \<noteq> curAt then add_range out pos e (\<not> mp_mapped curAt \<or> mp_unwritten curAt) else out))
      else out)"

definition diffExtents :: "Extent list \<Rightarrow> Extent list \<Rightarrow> int \<Rightarrow> deltaRange list" where
  "diffExtents ref cur sz = diff_loop (nat sz) ref cur sz 0 []"

section \<open>Delta files\<close>

text \<open>
  The files of a directory tree by path, and the faults to come: the head of \<open>df_faults\<close> says what the next
  call does, \<open>Some n\<close> that it fails and, if it writes, leaves at most \<open>n\<close> bytes behind.
\<close>

record dfs =
  df_files :: "string \<rightharpoonup> string"
  df_faults :: "nat option list"

definition df_call :: "(nat \<Rightarrow> (string \<rightharpoonup> string) \<Rightarrow> (string \<rightharpoonup> string)) \<Rightarrow> (dfs, 'a) act \<Rightarrow> (dfs, 'a) act" where
  "df_call torn m st =
     (case df_faults st of
        [] \<Rightarrow> m st
      | None # fs \<Rightarrow> m (st\<lparr>df_faults := fs\<rparr>)
      | Some n # fs \<Rightarrow> (Inl ErrIO, \<lparr>df_files = torn n (df_files st), df_faults = fs\<rparr>))"

definition df_put :: "dfs \<Rightarrow> string \<Rightarrow> string \<Rightarrow> dfs" where
  "df_put st path data = st\<lparr>df_files := (df_files st)(path \<mapsto> data)\<rparr>"

definition df_set :: "string \<Rightarrow> string \<Rightarrow> (dfs, unit) act" where
  "df_set path data st = (Inr (), df_put st path data)"

definition df_open :: "string \<Rightarrow> (dfs, string) act" where
  "df_open path = df_call (\<lambda>_ m. m) (\<lambda>st. (case df_files st path of None \<Rightarrow> Inl ErrNotExist | Some data \<Rightarrow> Inr data, st))"

definition df_create :: "string \<Rightarrow> (dfs, unit) act" where
  "df_create path = df_call (\<lambda>_ m. m) (df_set path [])"

definition df_close :: "(dfs, unit) act" where
  "df_close = df_call (\<lambda>_ m. m) (act_return ())"

definition df_rename :: "string \<Rightarrow> string \<Rightarrow> (dfs, unit) act" where
  "df_rename old new =
     df_call (\<lambda>_ m. m) (\<lambda>st. case df_files st old of
         None \<Rightarrow> (Inl ErrNotExist, st)
       | Some data \<Rightarrow> (Inr (), st\<lparr>df_files := (df_files st)(old := None, new \<mapsto> data)\<rparr>))"

definition df_remove :: "string \<Rightarrow> (dfs, unit) act" where
  "df_remove path = df_call (\<lambda>_ m. m) (\<lambda>st. (Inr (), st\<lparr>df_files := (df_files st)(path := None)\<rparr>))"

definition zero_byte :: char where "zero_byte = CHR 0x00"

text \<open>A write at an offset; a gap before it reads as zeros.\<close>

definition write_at :: "nat \<Rightarrow> string \<Rightarrow> string \<Rightarrow> string" where
  "write_at off bs f = take off f @ replicate (off - length f) zero_byte @ bs @ drop (off + length bs) f"

definition content :: "(string \<rightharpoonup> string) \<Rightarrow> string \<Rightarrow> string" where
  "content m path = (case m path of None \<Rightarrow> [] | Some data \<Rightarrow> data)"

definition df_write :: "string \<Rightarrow> nat \<Rightarrow> string \<Rightarrow> (dfs, unit) act" where
  "df_write path off bs =
     df_call (\<lambda>n m. m(path \<mapsto> write_at off (take n bs) (content m path)))
       (\<lambda>st. df_set path (write_at off bs (content (df_files st) path)) st)"

definition df_append :: "string \<Rightarrow> string \<Rightarrow> (dfs, unit) act" where
  "df_append path bs st = df_write path (length (content (df_files st) path)) bs st"

text \<open>\<open>truncate f n\<close>: cut, or filled with zeros.\<close>

definition truncate_to :: "nat \<Rightarrow> string \<Rightarrow> string" where
  "truncate_to n f = take n f @ replicate (n - length f) zero_byte"

definition df_truncate :: "string \<Rightarrow> int \<Rightarrow> (dfs, unit) act" where
  "df_truncate path n =
     df_call (\<lambda>_ m. m)
       (\<lambda>st. if n < 0 then (Inl (ErrMsg ''invalid argument''), st)
        else df_set path (truncate_to (nat n) (content (df_files st) path)) st)"

text \<open>\<open>PunchHole\<close> with \<open>FALLOC_FL_KEEP_SIZE\<close>: the part of the range inside the file reads as zeros.\<close>

definition punched :: "nat \<Rightarrow> nat \<Rightarrow> string \<Rightarrow> string" where
  "punched off len f = take off f @ replicate (min len (length f - off)) zero_byte @ drop (off + len) f"

definition PunchHole :: "string \<Rightarrow> int \<Rightarrow> int \<Rightarrow> (dfs, unit) act" where
  "PunchHole path off len =
     df_call (\<lambda>_ m. m)
       (\<lambda>st. if off < 0 \<or> len \<le> 0 then (Inl (ErrMsg ''punch hole''), st)
        else df_set path (punched (nat off) (nat len) (content (df_files st) path)) st)"

text \<open>\<open>binary.BigEndian\<close> on a 64-bit integer.\<close>

fun be_bytes :: "nat \<Rightarrow> nat \<Rightarrow> string" where
  "be_bytes 0 n = []"
| "be_bytes (Suc k) n = be_bytes k (n div 256) @ [char_of (n mod 256)]"

definition be_int64 :: "string \<Rightarrow> int" where
  "be_int64 bs =
     (let v = int (foldl (\<lambda>a c. a * 256 + of_char c) 0 bs) in if v \<le> MaxInt64 then v else v - 2 ^ 64)"

text \<open>The data of a range, when the source still has it: \<open>io.CopyN\<close> fails on a short read.\<close>

definition copy_range :: "string \<Rightarrow> string \<Rightarrow> deltaRange \<Rightarrow> (dfs, unit) act" where
  "copy_range tmp src r =
     (if rg_Offset r < 0 then act_fail (ErrMsg ''seek delta source'')
      else
        (let bs = take (nat (rg_Length r)) (drop (nat (rg_Offset r)) src) in
         act_bind (df_append tmp bs) (\<lambda>_.
         if length bs < nat (rg_Length r) then act_fail (ErrMsg ''EOF'') else act_return ())))"

text \<open>The body of the delta goes to a temporary file, which is renamed once it is closed without an error.\<close>

definition writeDeltaFile :: "(diskDelta \<Rightarrow> string) \<Rightarrow> string \<Rightarrow> diskDelta \<Rightarrow> string \<Rightarrow> (dfs, unit) act" where
  "writeDeltaFile enc dst header src =
     (let raw = enc header; tmp = dst @ ''.tmp'' in
      act_bind (df_create tmp) (\<lambda>_.
      act_try
        (act_bind (df_append tmp (be_bytes 8 (length raw))) (\<lambda>_.
         act_bind (df_append tmp raw) (\<lambda>_.
         act_each (copy_range tmp src) (filter (\<lambda>r. \<not> rg_Zero r) (dd_Ranges header))))) (\<lambda>r.
      act_try df_close (\<lambda>c. case (r, c) of
          (Inr _, Inr _) \<Rightarrow> df_rename tmp dst
        | (Inl e, _) \<Rightarrow> act_try (df_remove tmp) (\<lambda>_. act_fail e)
        | (Inr _, Inl e) \<Rightarrow> act_try (df_remove tmp) (\<lambda>_. act_fail e)))))"

text \<open>\<open>FileExtents\<close> asks the kernel for the extents of a file; it is an argument.\<close>

definition writeDiskDelta ::
    "((string \<rightharpoonup> string) \<Rightarrow> string \<Rightarrow> Extent list res) \<Rightarrow> (diskDelta \<Rightarrow> string) \<Rightarrow> string \<Rightarrow> string \<Rightarrow> string \<Rightarrow> (dfs, unit) act" where
  "writeDiskDelta FileExtents enc dst ref src =
     act_bind (df_open src) (\<lambda>srcData.
     act_bind (\<lambda>st. (FileExtents (df_files st) src, st)) (\<lambda>srcExtents.
     act_bind (df_open ref) (\<lambda>_.
     act_bind (\<lambda>st. (FileExtents (df_files st) ref, st)) (\<lambda>refExtents.
     let sz = int (length srcData) in
     writeDeltaFile enc dst \<lparr>dd_Size = sz, dd_Ranges = diffExtents refExtents srcExtents sz\<rparr> srcData))))"

text \<open>The header and the bytes after it.\<close>

definition readDeltaHeader :: "(string \<Rightarrow> diskDelta res) \<Rightarrow> string \<Rightarrow> (diskDelta \<times> string) res" where
  "readDeltaHeader dec f =
     (if length f < 8 then Inl (ErrMsg ''read delta header length'')
      else
        (let n = nat (be_int64 (take 8 f)); rest = drop 8 f in
         case dec (take n rest) of Inl e \<Rightarrow> Inl e | Inr header \<Rightarrow> Inr (header, drop n rest)))"

fun apply_ranges :: "string \<Rightarrow> deltaRange list \<Rightarrow> string \<Rightarrow> (dfs, unit) act" where
  "apply_ranges dst [] data = act_return ()"
| "apply_ranges dst (r # rs) data =
     (if rg_Zero r then act_bind (PunchHole dst (rg_Offset r) (rg_Length r)) (\<lambda>_. apply_ranges dst rs data)
      else if rg_Offset r < 0 then act_fail (ErrMsg ''seek'')
      else
        (let bs = take (nat (rg_Length r)) data in
         act_bind (df_write dst (nat (rg_Offset r)) bs) (\<lambda>_.
         if length bs < nat (rg_Length r) then act_fail (ErrMsg ''EOF'')
         else apply_ranges dst rs (drop (nat (rg_Length r)) data))))"

definition applyDiskDelta :: "(string \<Rightarrow> diskDelta res) \<Rightarrow> string \<Rightarrow> string \<Rightarrow> (dfs, unit) act" where
  "applyDiskDelta dec dst delta =
     act_bind (df_open delta) (\<lambda>f.
     case readDeltaHeader dec f of
       Inl e \<Rightarrow> act_fail e
     | Inr (header, data) \<Rightarrow>
         act_bind (df_open dst) (\<lambda>old.
         act_bind (if int (length old) \<noteq> dd_Size header then df_truncate dst (dd_Size header) else act_return ()) (\<lambda>_.
         apply_ranges dst (dd_Ranges header) data)))"

definition diskDeltaInfix :: string where "diskDeltaInfix = ''.delta.''"

definition diskDeltaName :: "string \<Rightarrow> nat \<Rightarrow> string" where
  "diskDeltaName disk round = disk @ diskDeltaInfix @ itoa round"

text \<open>Disks are replayed one after another; the code does it in parallel, on files of their own.\<close>

definition apply_rounds ::
    "(string \<Rightarrow> string \<Rightarrow> ('k, unit) act) \<Rightarrow> string \<Rightarrow> string \<Rightarrow> string list \<Rightarrow> nat \<Rightarrow> ('k, unit) act" where
  "apply_rounds apply_delta dstDir srcDir disks rounds =
     act_each (\<lambda>name. act_each (\<lambda>n. apply_delta (Join [dstDir, name]) (Join [srcDir, diskDeltaName name n])) [1..<Suc rounds])
       disks"

definition ApplyDiskDeltas :: "(string \<Rightarrow> diskDelta res) \<Rightarrow> string \<Rightarrow> string \<Rightarrow> string list \<Rightarrow> nat \<Rightarrow> (dfs, unit) act" where
  "ApplyDiskDeltas dec = apply_rounds (applyDiskDelta dec)"

section \<open>What a difference of extents says\<close>

definition map_at :: "Extent list \<Rightarrow> int \<Rightarrow> diskMapping" where
  "map_at es p = fst (extentAt es p)"

definition reads_zero :: "diskMapping \<Rightarrow> bool" where
  "reads_zero m \<longleftrightarrow> \<not> mp_mapped m \<or> mp_unwritten m"

definition in_range :: "deltaRange \<Rightarrow> int \<Rightarrow> bool" where
  "in_range r p \<longleftrightarrow> rg_Offset r \<le> p \<and> p < rg_Offset r + rg_Length r"

text \<open>The ranges \<open>rs\<close> account for every position below \<open>lim\<close>.\<close>

definition accounts :: "Extent list \<Rightarrow> Extent list \<Rightarrow> deltaRange list \<Rightarrow> int \<Rightarrow> bool" where
  "accounts ref cur rs lim \<longleftrightarrow>
     (\<forall>r \<in> set rs. 0 \<le> rg_Offset r \<and> 0 < rg_Length r \<and> rg_Offset r + rg_Length r \<le> lim \<and>
        (\<forall>p. in_range r p \<longrightarrow> rg_Zero r = reads_zero (map_at cur p))) \<and>
     (\<forall>p. 0 \<le> p \<and> p < lim \<longrightarrow> (\<exists>r \<in> set rs. in_range r p) \<or> map_at ref p = map_at cur p)"

lemma skip_extents_hd: "skip_extents es pos = e # es' \<Longrightarrow> pos < ex_Logical e + ex_Length e"
  using hd_dropWhile [of "\<lambda>x. ex_Logical x + ex_Length x \<le> pos" es] by (auto simp: skip_extents_def)

lemma skip_extents_skip: "pos \<le> q \<Longrightarrow> skip_extents (skip_extents es pos) q = skip_extents es q"
  unfolding skip_extents_def by (induction es) auto

lemma skip_extents_same: "q < ex_Logical e + ex_Length e \<Longrightarrow> skip_extents (e # es) q = e # es"
  by (simp add: skip_extents_def)

lemma extentAt_ahead:
  assumes "extentAt es pos = (m, e, es')" "pos < MaxInt64"
  shows "pos < e"
  using assms skip_extents_hd [of es pos] by (auto simp: extentAt_def split: list.splits if_splits)

lemma extentAt_left:
  assumes "extentAt es pos = (m, e, es')" "pos \<le> q"
  shows "extentAt es' q = extentAt es q"
proof -
  have "es' = skip_extents es pos"
    using assms(1) by (auto simp: extentAt_def split: list.splits if_splits)
  then show ?thesis unfolding extentAt_def using skip_extents_skip [OF assms(2)] by simp
qed

text \<open>Up to its end a mapping only moves along.\<close>

lemma extentAt_along:
  assumes "extentAt es pos = (m, e, es')" "pos \<le> q" "q < e" "\<forall>x \<in> set es. 0 \<le> ex_Length x"
  shows "map_at es q = (if mp_mapped m then m\<lparr>mp_physical := mp_physical m + (q - pos)\<rparr> else no_mapping)"
proof (cases "skip_extents es pos")
  case Nil
  moreover have "skip_extents [] q = []" by (simp add: skip_extents_def)
  ultimately have "skip_extents es q = []" using skip_extents_skip [OF assms(2), of es] by simp
  then show ?thesis using assms(1) \<open>skip_extents es pos = []\<close> by (auto simp: map_at_def extentAt_def no_mapping_def)
next
  case (Cons a es1)
  then have "a \<in> set es" unfolding skip_extents_def by (metis list.set_intros(1) set_dropWhileD)
  then have "q < ex_Logical a + ex_Length a"
    using assms Cons skip_extents_hd [OF Cons] by (auto simp: extentAt_def split: if_splits)
  then have "skip_extents es q = a # es1"
    using skip_extents_skip [OF assms(2), of es] skip_extents_same [of q a es1] Cons by simp
  then show ?thesis using assms Cons by (auto simp: map_at_def extentAt_def no_mapping_def split: if_splits)
qed

lemma accounts_extend:
  assumes "accounts ref cur rs pos" "pos \<le> e" "\<And>p. pos \<le> p \<Longrightarrow> p < e \<Longrightarrow> map_at ref p = map_at cur p"
  shows "accounts ref cur rs e"
  unfolding accounts_def
proof (intro conjI ballI allI impI)
  fix p assume p: "0 \<le> p \<and> p < e"
  show "(\<exists>r \<in> set rs. in_range r p) \<or> map_at ref p = map_at cur p"
    using assms(1,3) p by (cases "p < pos") (auto simp: accounts_def)
qed (use assms(1,2) in \<open>force simp: accounts_def\<close>)+

lemma accounts_more:
  assumes "accounts ref cur rs pos" "0 \<le> pos" "pos < e"
    and "\<And>p. pos \<le> p \<Longrightarrow> p < e \<Longrightarrow> zero = reads_zero (map_at cur p)"
  shows "accounts ref cur (rs @ [\<lparr>rg_Offset = pos, rg_Length = e - pos, rg_Zero = zero\<rparr>]) e"
proof -
  let ?r = "\<lparr>rg_Offset = pos, rg_Length = e - pos, rg_Zero = zero\<rparr>"
  have r: "in_range ?r p \<longleftrightarrow> pos \<le> p \<and> p < e" for p by (auto simp: in_range_def)
  show ?thesis
    unfolding accounts_def
  proof (intro conjI ballI allI impI)
    fix p assume "0 \<le> p \<and> p < e"
    then show "(\<exists>x \<in> set (rs @ [?r]). in_range x p) \<or> map_at ref p = map_at cur p"
      using assms(1) r by (cases "p < pos") (auto simp: accounts_def)
  qed (use assms r in \<open>force simp: accounts_def\<close>)+
qed

text \<open>Two adjacent ranges of one kind are one range.\<close>

lemma accounts_join:
  assumes "accounts ref cur (rs @ [l, r]) e" "rg_Zero l = rg_Zero r" "rg_Offset r = rg_Offset l + rg_Length l"
  shows "accounts ref cur (rs @ [l\<lparr>rg_Length := rg_Length l + rg_Length r\<rparr>]) e"
proof -
  let ?l = "l\<lparr>rg_Length := rg_Length l + rg_Length r\<rparr>"
  have pos: "0 < rg_Length l" "0 < rg_Length r" using assms(1) by (auto simp: accounts_def)
  then have l: "in_range ?l p \<longleftrightarrow> in_range l p \<or> in_range r p" for p
    using assms(3) by (auto simp: in_range_def)
  show ?thesis
    unfolding accounts_def
  proof (intro conjI ballI allI impI)
    fix x p assume x: "x \<in> set (rs @ [?l])" and p: "in_range x p"
    show "rg_Zero x = reads_zero (map_at cur p)"
    proof (cases "x \<in> set rs")
      case False
      then have "x = ?l" using x by simp
      then have "in_range l p \<or> in_range r p" "rg_Zero x = rg_Zero l" using p l by simp_all
      then show ?thesis using assms(1,2) by (auto simp: accounts_def)
    qed (use assms(1) p in \<open>auto simp: accounts_def\<close>)
  next
    fix p assume "0 \<le> p \<and> p < e"
    then have "(\<exists>x \<in> set (rs @ [l, r]). in_range x p) \<or> map_at ref p = map_at cur p"
      using assms(1) by (simp add: accounts_def)
    then show "(\<exists>x \<in> set (rs @ [?l]). in_range x p) \<or> map_at ref p = map_at cur p" using l by auto
  qed (use assms pos in \<open>force simp: accounts_def\<close>)+
qed

lemma add_range_accounts:
  assumes "accounts ref cur rs pos" "0 \<le> pos" "pos < e"
    and "\<And>p. pos \<le> p \<Longrightarrow> p < e \<Longrightarrow> zero = reads_zero (map_at cur p)"
  shows "accounts ref cur (add_range rs pos e zero) e"
proof (cases "rs \<noteq> [] \<and> rg_Zero (last rs) = zero \<and> rg_Offset (last rs) + rg_Length (last rs) = pos")
  case True
  then have "accounts ref cur (butlast rs @ [last rs, \<lparr>rg_Offset = pos, rg_Length = e - pos, rg_Zero = zero\<rparr>]) e"
    using accounts_more [OF assms] append_butlast_last_id [of rs] by (metis append.assoc append_Cons append_Nil)
  from accounts_join [OF this] show ?thesis using True by (simp add: add_range_def)
next
  case False
  then have "add_range rs pos e zero = rs @ [\<lparr>rg_Offset = pos, rg_Length = e - pos, rg_Zero = zero\<rparr>]"
    unfolding add_range_def by (rule if_not_P)
  then show ?thesis using accounts_more [OF assms] by simp
qed

lemma diff_loop_accounts:
  assumes "accounts ref cur out pos" "0 \<le> pos" "pos \<le> sz" "sz \<le> MaxInt64" "nat (sz - pos) \<le> n"
    and "\<And>q. pos \<le> q \<Longrightarrow> extentAt ref' q = extentAt ref q" "\<And>q. pos \<le> q \<Longrightarrow> extentAt cur' q = extentAt cur q"
    and len: "\<forall>x \<in> set ref. 0 \<le> ex_Length x" "\<forall>x \<in> set cur. 0 \<le> ex_Length x"
  shows "accounts ref cur (diff_loop n ref' cur' sz pos out) sz"
  using assms(1-7)
proof (induction n arbitrary: ref' cur' pos out)
  case 0
  then have "pos = sz" by simp
  then show ?case using 0 by simp
next
  case (Suc n)
  show ?case
  proof (cases "pos < sz")
    case True
    obtain rm re rr where R: "extentAt ref pos = (rm, re, rr)" by (metis prod_cases3)
    obtain cm ce cr where C: "extentAt cur pos = (cm, ce, cr)" by (metis prod_cases3)
    let ?e = "min (min re ce) sz"
    let ?out = "if rm \<noteq> cm then add_range out pos ?e (\<not> mp_mapped cm \<or> mp_unwritten cm) else out"
    have e: "pos < ?e" "?e \<le> sz"
      using extentAt_ahead [OF R] extentAt_ahead [OF C] True Suc.prems(4) by auto
    have cur: "map_at cur p = (if mp_mapped cm then cm\<lparr>mp_physical := mp_physical cm + (p - pos)\<rparr> else no_mapping)"
      and ref: "map_at ref p = (if mp_mapped rm then rm\<lparr>mp_physical := mp_physical rm + (p - pos)\<rparr> else no_mapping)"
      if "pos \<le> p" "p < ?e" for p
      using extentAt_along [OF C, of p] extentAt_along [OF R, of p] that len by auto
    have "accounts ref cur ?out ?e"
    proof (cases "rm = cm")
      case True
      then show ?thesis using accounts_extend [OF Suc.prems(1), of ?e] e cur ref by auto
    next
      case False
      have "(\<not> mp_mapped cm \<or> mp_unwritten cm) = reads_zero (map_at cur p)" if "pos \<le> p" "p < ?e" for p
        using cur [OF that] by (auto simp: reads_zero_def no_mapping_def)
      then show ?thesis using False add_range_accounts [OF Suc.prems(1,2) e(1)] by simp
    qed
    moreover have "diff_loop (Suc n) ref' cur' sz pos out = diff_loop n rr cr sz ?e ?out"
      using True R C Suc.prems(6) [of pos] Suc.prems(7) [of pos] by (simp add: Let_def)
    moreover have "nat (sz - ?e) \<le> n" using e(1) Suc.prems(5) by linarith
    moreover have "extentAt rr q = extentAt ref q" "extentAt cr q = extentAt cur q" if "?e \<le> q" for q
      using extentAt_left [OF R, of q] extentAt_left [OF C, of q] e(1) that by linarith+
    ultimately show ?thesis
      using Suc.IH [of ?out ?e rr cr] e Suc.prems(2,4) by (simp only:)
  next
    case False
    then have "pos = sz" using Suc.prems(3) by simp
    then show ?thesis using Suc.prems(1) by simp
  qed
qed

lemma diffExtents_accounts:
  assumes "0 \<le> sz" "sz \<le> MaxInt64" "\<forall>x \<in> set ref. 0 \<le> ex_Length x" "\<forall>x \<in> set cur. 0 \<le> ex_Length x"
  shows "accounts ref cur (diffExtents ref cur sz) sz"
  unfolding diffExtents_def
  by (rule diff_loop_accounts) (use assms in \<open>auto simp: accounts_def\<close>)
section \<open>Replaying a delta\<close>

definition mbyte :: "(int \<Rightarrow> char) \<Rightarrow> diskMapping \<Rightarrow> char" where
  "mbyte store m = (if reads_zero m then zero_byte else store (mp_physical m))"

text \<open>
  The extents \<open>es\<close> on the storage \<open>store\<close> hold the file \<open>f\<close>, and zeros after its end.
\<close>

definition backs :: "(int \<Rightarrow> char) \<Rightarrow> Extent list \<Rightarrow> string \<Rightarrow> bool" where
  "backs store es f \<longleftrightarrow>
     (\<forall>x \<in> set es. 0 \<le> ex_Length x) \<and>
     (\<forall>p. mbyte store (map_at es (int p)) = (if p < length f then f ! p else zero_byte))"

definition segment :: "string \<Rightarrow> deltaRange \<Rightarrow> string" where
  "segment src r = take (nat (rg_Length r)) (drop (nat (rg_Offset r)) src)"

fun patch :: "deltaRange list \<Rightarrow> string \<Rightarrow> string \<Rightarrow> string" where
  "patch [] data g = g"
| "patch (r # rs) data g =
     (if rg_Zero r then patch rs data (punched (nat (rg_Offset r)) (nat (rg_Length r)) g)
      else patch rs (drop (nat (rg_Length r)) data) (write_at (nat (rg_Offset r)) (take (nat (rg_Length r)) data) g))"

definition body_of :: "string \<Rightarrow> deltaRange list \<Rightarrow> string" where
  "body_of src rs = concat (map (segment src) (filter (\<lambda>r. \<not> rg_Zero r) rs))"

definition inside :: "nat \<Rightarrow> deltaRange \<Rightarrow> bool" where
  "inside n r \<longleftrightarrow> 0 \<le> rg_Offset r \<and> 0 < rg_Length r \<and> rg_Offset r + rg_Length r \<le> int n"

lemma punched_nth:
  assumes "off + len \<le> length f"
  shows "length (punched off len f) = length f"
    "p < length f \<Longrightarrow> punched off len f ! p = (if off \<le> p \<and> p < off + len then zero_byte else f ! p)"
  using assms by (auto simp: punched_def nth_append min_def)

lemma write_at_nth:
  assumes "off + length bs \<le> length f"
  shows "length (write_at off bs f) = length f"
    "p < length f \<Longrightarrow> write_at off bs f ! p = (if off \<le> p \<and> p < off + length bs then bs ! (p - off) else f ! p)"
  using assms by (auto simp: write_at_def nth_append)

lemma segment_length: "inside (length src) r \<Longrightarrow> length (segment src r) = nat (rg_Length r)"
  by (auto simp: segment_def inside_def)

lemma segment_nth:
  "inside (length src) r \<Longrightarrow> nat (rg_Offset r) \<le> p \<Longrightarrow> p < nat (rg_Offset r) + nat (rg_Length r) \<Longrightarrow>
     segment src r ! (p - nat (rg_Offset r)) = src ! p"
  by (auto simp: segment_def inside_def)

lemma backs_nth: "backs store es f \<Longrightarrow> mbyte store (map_at es (int p)) = (if p < length f then f ! p else zero_byte)"
  by (simp add: backs_def)

lemma in_range_nat: "inside n r \<Longrightarrow>
  in_range r (int p) \<longleftrightarrow> nat (rg_Offset r) \<le> p \<and> p < nat (rg_Offset r) + nat (rg_Length r)"
  by (auto simp: in_range_def inside_def)

lemma patch_nth:
  assumes "\<forall>r \<in> set rs. inside (length src) r \<and> (\<forall>p. rg_Zero r \<and> in_range r (int p) \<longrightarrow> src ! p = zero_byte)"
    and "length g = length src"
  shows "length (patch rs (body_of src rs) g) = length src \<and>
    (\<forall>p < length src. patch rs (body_of src rs) g ! p = (if \<exists>r \<in> set rs. in_range r (int p) then src ! p else g ! p))"
  using assms
proof (induction rs arbitrary: g)
  case (Cons r rs)
  let ?o = "nat (rg_Offset r)" and ?l = "nat (rg_Length r)"
  have r: "inside (length src) r" and len: "?o + ?l \<le> length src"
    using Cons.prems(1) by (auto simp: inside_def)
  note ir = in_range_nat [OF r]
  show ?case
  proof (cases "rg_Zero r")
    case True
    let ?g = "punched ?o ?l g"
    have g: "length ?g = length src" "\<And>p. p < length src \<Longrightarrow> ?g ! p = (if in_range r (int p) then src ! p else g ! p)"
      using punched_nth [of ?o ?l g] len Cons.prems True by (auto simp: ir)
    then show ?thesis using Cons.IH [of ?g] Cons.prems(1) True by (auto simp: body_of_def)
  next
    case False
    let ?g = "write_at ?o (segment src r) g"
    have "body_of src (r # rs) = segment src r @ body_of src rs" using False by (simp add: body_of_def)
    then have p: "patch (r # rs) (body_of src (r # rs)) g = patch rs (body_of src rs) ?g"
      using False segment_length [OF r] by simp
    have g: "length ?g = length src" "\<And>p. p < length src \<Longrightarrow> ?g ! p = (if in_range r (int p) then src ! p else g ! p)"
      using write_at_nth [of ?o "segment src r" g] len Cons.prems(2) segment_length [OF r] segment_nth [OF r]
      by (auto simp: ir)
    then show ?thesis using Cons.IH [of ?g] Cons.prems(1) unfolding p by auto
  qed
qed (simp add: body_of_def)

text \<open>Over a file that holds the reference, the ranges of the difference give the source.\<close>

lemma patch_diff:
  assumes ref: "backs store refs f" and cur: "backs store curs src" and "int (length src) \<le> MaxInt64"
  defines "rs \<equiv> diffExtents refs curs (int (length src))"
  shows "\<forall>r \<in> set rs. inside (length src) r" "patch rs (body_of src rs) (truncate_to (length src) f) = src"
proof -
  let ?g = "truncate_to (length src) f"
  have acc: "accounts refs curs rs (int (length src))"
    unfolding rs_def by (rule diffExtents_accounts) (use assms in \<open>auto simp: backs_def\<close>)
  then show ins: "\<forall>r \<in> set rs. inside (length src) r" by (auto simp: accounts_def inside_def)
  have z: "src ! p = zero_byte" if "r \<in> set rs" "rg_Zero r" "in_range r (int p)" for r p
  proof -
    have "reads_zero (map_at curs (int p))" using acc that by (auto simp: accounts_def)
    moreover have "p < length src" using ins that by (auto simp: inside_def in_range_def)
    ultimately show ?thesis using backs_nth [OF cur, of p] by (simp add: mbyte_def)
  qed
  have g: "length ?g = length src" "\<And>p. p < length src \<Longrightarrow> ?g ! p = (if p < length f then f ! p else zero_byte)"
    by (auto simp: truncate_to_def nth_append min_def)
  show "patch rs (body_of src rs) ?g = src"
  proof (rule nth_equalityI)
    have P: "length (patch rs (body_of src rs) ?g) = length src \<and>
      (\<forall>p < length src. patch rs (body_of src rs) ?g ! p = (if \<exists>r \<in> set rs. in_range r (int p) then src ! p else ?g ! p))"
      by (rule patch_nth) (use ins z g in auto)
    then show "length (patch rs (body_of src rs) ?g) = length src" by simp
    fix p assume "p < length (patch rs (body_of src rs) ?g)"
    then have p: "p < length src" using P by simp
    show "patch rs (body_of src rs) ?g ! p = src ! p"
    proof (cases "\<exists>r \<in> set rs. in_range r (int p)")
      case False
      then have "map_at refs (int p) = map_at curs (int p)" using acc p unfolding accounts_def by (metis of_nat_0_le_iff of_nat_less_iff)
      then have "?g ! p = src ! p" using backs_nth [OF ref, of p] backs_nth [OF cur, of p] g(2) [OF p] p by simp
      then show ?thesis using P p False by simp
    qed (use P p in simp)
  qed
qed

text \<open>The header's length survives the eight bytes.\<close>

lemma be_bytes_value: "n < 256 ^ k \<Longrightarrow> foldl (\<lambda>a c. a * 256 + of_char c) 0 (be_bytes k n) = (n :: nat)"
  by (induction k arbitrary: n) (auto simp: less_mult_imp_div_less)

lemma be_bytes_length [simp]: "length (be_bytes k n) = k"
  by (induction k arbitrary: n) auto

lemma be_int64_bytes: "int n \<le> MaxInt64 \<Longrightarrow> be_int64 (be_bytes 8 n) = int n"
  using be_bytes_value [of n 8] by (simp add: be_int64_def MaxInt64_def)

definition delta_file :: "(diskDelta \<Rightarrow> string) \<Rightarrow> diskDelta \<Rightarrow> string \<Rightarrow> string" where
  "delta_file enc header src = be_bytes 8 (length (enc header)) @ enc header @ body_of src (dd_Ranges header)"

lemma readDeltaHeader_file:
  assumes "dec (enc header) = Inr header" "int (length (enc header)) \<le> MaxInt64"
  shows "readDeltaHeader dec (delta_file enc header src) = Inr (header, body_of src (dd_Ranges header))"
  using assms be_int64_bytes by (simp add: readDeltaHeader_def delta_file_def)
section \<open>The files of a round\<close>

lemma df_put_simps [simp]:
  "df_put (df_put st p x) p y = df_put st p y" "df_faults (df_put st p x) = df_faults st"
  "df_files (df_put st p x) q = (if q = p then Some x else df_files st q)"
  by (simp_all add: df_put_def)

lemma df_put_same: "df_files st p = Some x \<Longrightarrow> df_put st p x = st"
  by (simp add: df_put_def map_upd_triv)

text \<open>An action on files that leaves every path outside \<open>A\<close> as it was, whatever fails.\<close>

definition touches :: "string set \<Rightarrow> (dfs, 'a) act \<Rightarrow> bool" where
  "touches A m \<longleftrightarrow> (\<forall>st p. p \<notin> A \<longrightarrow> df_files (snd (m st)) p = df_files st p)"

lemma touchesD: "touches A m \<Longrightarrow> m st = (r, st') \<Longrightarrow> p \<notin> A \<Longrightarrow> df_files st' p = df_files st p"
  unfolding touches_def by (metis snd_conv)

lemma touches_bind: "touches A m \<Longrightarrow> (\<And>x. touches A (f x)) \<Longrightarrow> touches A (act_bind m f)"
  unfolding touches_def act_bind_def by (simp split: prod.splits sum.splits) (metis snd_conv)

lemma touches_try: "touches A m \<Longrightarrow> (\<And>r. touches A (f r)) \<Longrightarrow> touches A (act_try m f)"
  unfolding touches_def act_try_def by (simp split: prod.splits) (metis snd_conv)

lemma touches_basic:
  "touches A (act_return x)" "touches A (act_fail e)" "touches {path} (df_set path d)"
  by (simp_all add: touches_def df_set_def)

lemma touches_call:
  assumes "touches A m" "\<And>n f p. p \<notin> A \<Longrightarrow> torn n f p = f p"
  shows "touches A (df_call torn m)"
  unfolding touches_def
proof (intro allI impI)
  fix st p assume p: "p \<notin> A"
  show "df_files (snd (df_call torn m st)) p = df_files st p"
    using assms p unfolding df_call_def touches_def by (auto split: list.splits option.splits)
qed

lemma touches_each: "(\<And>x. touches A (f x)) \<Longrightarrow> touches A (act_each f xs)"
  by (induction xs) (simp_all add: touches_basic touches_bind)

lemma touches_write: "touches {path} (df_write path off bs)" "touches {path} (df_append path bs)"
proof -
  show w: "touches {path} (df_write path off bs)" for off bs
    unfolding df_write_def by (rule touches_call) (auto simp: touches_def df_set_def)
  show "touches {path} (df_append path bs)"
    using w unfolding touches_def df_append_def by blast
qed

lemma touches_files:
  "touches A (df_open path)" "touches {path} (df_create path)" "touches A df_close"
  "touches {path} (df_remove path)" "touches {path} (df_truncate path n)" "touches {path} (PunchHole path off len)"
  unfolding df_open_def df_create_def df_close_def df_remove_def df_truncate_def PunchHole_def
  by (rule touches_call; auto simp: touches_def df_set_def)+

lemma touches_copy_range: "touches {tmp} (copy_range tmp src r)"
  unfolding copy_range_def Let_def by (auto intro!: touches_bind touches_write touches_basic)

lemma df_append_Inr:
  assumes "df_append path bs st = (Inr u, st')"
  shows "df_files st' path = Some (content (df_files st) path @ bs)"
proof -
  have "write_at (length f) bs f = f @ bs" for f by (simp add: write_at_def)
  then show ?thesis
    using assms by (auto simp: df_append_def df_write_def df_call_def df_set_def split: list.splits option.splits)
qed

lemma df_create_Inr: "df_create path st = (Inr u, st') \<Longrightarrow> df_files st' path = Some []"
  by (auto simp: df_create_def df_call_def df_set_def split: list.splits option.splits)

lemma df_close_files: "df_close st = (r, st') \<Longrightarrow> df_files st' = df_files st"
  by (auto simp: df_close_def df_call_def split: list.splits option.splits)

lemma df_open_Inr: "df_open path st = (Inr d, st') \<Longrightarrow> df_files st path = Some d \<and> df_files st' = df_files st"
  by (auto simp: df_open_def df_call_def split: list.splits option.splits)

lemma df_rename_cases:
  assumes "df_rename old new st = (r, st')" "old \<noteq> new"
  shows "case r of Inr _ \<Rightarrow> df_files st' = (df_files st)(old := None, new := df_files st old) | Inl _ \<Rightarrow> df_files st' = df_files st"
  using assms by (auto simp: df_rename_def df_call_def split: list.splits option.splits)

lemma copy_ranges_Inr:
  assumes "act_each (copy_range tmp src) rs st = (Inr u, st')" "df_files st tmp = Some f"
  shows "df_files st' tmp = Some (f @ concat (map (segment src) rs))"
  using assms
proof (induction rs arbitrary: st f)
  case (Cons r rs)
  from Cons.prems(1) obtain st1 where 1: "copy_range tmp src r st = (Inr (), st1)"
    and 2: "act_each (copy_range tmp src) rs st1 = (Inr u, st')" by (auto simp: act_bind_Inr)
  from 1 have "df_append tmp (segment src r) st = (Inr (), st1)"
    by (auto simp: copy_range_def segment_def Let_def act_bind_Inr split: if_splits)
  then have "df_files st1 tmp = Some (f @ segment src r)" using Cons.prems(2) df_append_Inr by (fastforce simp: content_def)
  then show ?case using Cons.IH [OF 2] by simp
qed simp

text \<open>A delta file appears whole or not at all.\<close>

lemma writeDeltaFile_atomic:
  assumes "writeDeltaFile enc dst header src st = (r, st')"
  shows "case r of Inr _ \<Rightarrow> df_files st' dst = Some (delta_file enc header src) | Inl _ \<Rightarrow> df_files st' dst = df_files st dst"
    "p \<noteq> dst \<Longrightarrow> p \<noteq> dst @ ''.tmp'' \<Longrightarrow> df_files st' p = df_files st p"
proof -
  let ?tmp = "dst @ ''.tmp''" and ?raw = "enc header"
  let ?body = "act_bind (df_append ?tmp (be_bytes 8 (length ?raw))) (\<lambda>_. act_bind (df_append ?tmp ?raw) (\<lambda>_.
      act_each (copy_range ?tmp src) (filter (\<lambda>r. \<not> rg_Zero r) (dd_Ranges header))))"
  have T: "touches {?tmp} ?body" by (intro touches_bind touches_write touches_each touches_copy_range)
  have ne: "?tmp \<noteq> dst" by simp
  have "(case r of Inr _ \<Rightarrow> df_files st' dst = Some (delta_file enc header src) | Inl _ \<Rightarrow> df_files st' dst = df_files st dst) \<and>
    (\<forall>p. p \<noteq> dst \<and> p \<noteq> ?tmp \<longrightarrow> df_files st' p = df_files st p)"
  proof (cases "df_create ?tmp st")
    case (Pair r0 st0)
    note f0 = touchesD [OF touches_files(2) Pair]
    show ?thesis
    proof (cases r0)
      case (Inl e)
      then show ?thesis using assms Pair f0 ne by (auto simp: writeDeltaFile_def Let_def act_bind_def)
    next
      case (Inr u)
      obtain r1 st1 where B: "?body st0 = (r1, st1)" by (cases "?body st0")
      obtain r2 st2 where C: "df_close st1 = (r2, st2)" by (cases "df_close st1")
      have f2: "df_files st2 p = df_files st p" if "p \<noteq> ?tmp" for p
        using df_close_files [OF C] touchesD [OF T B, of p] f0 [of p] that by simp
      have rest: "(r, st') = (case (r1, r2) of
          (Inr _, Inr _) \<Rightarrow> df_rename ?tmp dst
        | (Inl e, _) \<Rightarrow> act_try (df_remove ?tmp) (\<lambda>_. act_fail e)
        | (Inr _, Inl e) \<Rightarrow> act_try (df_remove ?tmp) (\<lambda>_. act_fail e)) st2"
        using assms Pair Inr B C by (simp add: writeDeltaFile_def Let_def act_bind_def act_try_def)
      show ?thesis
      proof (cases "(\<exists>u. r1 = Inr u) \<and> (\<exists>u. r2 = Inr u)")
        case True
        then obtain a b where R: "r1 = Inr a" "r2 = Inr b" by blast
        have "df_files st0 ?tmp = Some []" using df_create_Inr Pair Inr by blast
        then have "df_files st1 ?tmp = Some (delta_file enc header src)"
          using B R(1) by (auto simp: act_bind_Inr delta_file_def body_of_def content_def
              dest!: df_append_Inr copy_ranges_Inr)
        then have "df_files st2 ?tmp = Some (delta_file enc header src)" using df_close_files [OF C] by simp
        moreover have "df_rename ?tmp dst st2 = (r, st')" using rest R by simp
        ultimately show ?thesis using df_rename_cases [of ?tmp dst st2 r st'] ne f2 by (cases r) auto
      next
        case False
        then obtain e where e: "(r, st') = act_try (df_remove ?tmp) (\<lambda>_. act_fail e) st2"
          using rest by (cases r1; cases r2) auto
        then obtain e' where "r = Inl e'" by (auto simp: act_try_def split: prod.splits)
        moreover have "touches {?tmp} (act_try (df_remove ?tmp) (\<lambda>_. act_fail e :: (dfs, unit) act))"
          by (intro touches_try touches_files touches_basic)
        ultimately show ?thesis using touchesD [of "{?tmp}" _ st2 r st'] e f2 ne by (auto simp: eq_commute)
      qed
    qed
  qed
  then show "case r of Inr _ \<Rightarrow> df_files st' dst = Some (delta_file enc header src) | Inl _ \<Rightarrow> df_files st' dst = df_files st dst"
    "p \<noteq> dst \<Longrightarrow> p \<noteq> ?tmp \<Longrightarrow> df_files st' p = df_files st p" by blast+
qed

text \<open>Without faults the ranges of a delta are replayed as \<open>patch\<close> says.\<close>

lemma apply_ranges_run:
  assumes "\<forall>r \<in> set rs. inside (length src) r" "df_faults st = []" "df_files st dst = Some g"
  shows "apply_ranges dst rs (body_of src rs) st = (Inr (), df_put st dst (patch rs (body_of src rs) g))"
  using assms
proof (induction rs arbitrary: st g)
  case Nil
  then show ?case by (simp add: body_of_def df_put_same)
next
  case (Cons r rs)
  then have r: "inside (length src) r" by simp
  then have o: "\<not> rg_Offset r < 0" "\<not> rg_Length r \<le> 0" by (auto simp: inside_def)
  show ?case
  proof (cases "rg_Zero r")
    case True
    let ?st = "df_put st dst (punched (nat (rg_Offset r)) (nat (rg_Length r)) g)"
    have "PunchHole dst (rg_Offset r) (rg_Length r) st = (Inr (), ?st)"
      using o Cons.prems(2,3) by (simp add: PunchHole_def df_call_def df_set_def content_def)
    then show ?thesis using Cons.IH [of ?st] Cons.prems True by (simp add: act_bind_def body_of_def)
  next
    case False
    let ?st = "df_put st dst (write_at (nat (rg_Offset r)) (segment src r) g)"
    have b: "body_of src (r # rs) = segment src r @ body_of src rs" using False by (simp add: body_of_def)
    have "df_write dst (nat (rg_Offset r)) (segment src r) st = (Inr (), ?st)"
      using Cons.prems(2,3) by (simp add: df_write_def df_call_def df_set_def content_def)
    then show ?thesis using Cons.IH [of ?st] Cons.prems False o segment_length [OF r] b
      by (simp add: act_bind_def)
  qed
qed

lemma applyDiskDelta_run:
  assumes "dec (enc header) = Inr header" "int (length (enc header)) \<le> MaxInt64"
    and "\<forall>r \<in> set (dd_Ranges header). inside (length src) r" "dd_Size header = int (length src)"
    and "df_faults st = []" "df_files st dst = Some g" "df_files st delta = Some (delta_file enc header src)"
  shows "applyDiskDelta dec dst delta st =
    (Inr (), df_put st dst (patch (dd_Ranges header) (body_of src (dd_Ranges header)) (truncate_to (length src) g)))"
proof -
  let ?g = "truncate_to (length src) g"
  let ?st = "df_put st dst ?g"
  have "(if int (length g) \<noteq> dd_Size header then df_truncate dst (dd_Size header) else act_return ()) st = (Inr (), ?st)"
    using assms(4,5,6) by (auto simp: df_truncate_def df_call_def df_set_def content_def truncate_to_def df_put_same)
  moreover have "df_open dst st = (Inr g, st)" "df_open delta st = (Inr (delta_file enc header src), st)"
    using assms(5-7) by (simp_all add: df_open_def df_call_def)
  moreover have "apply_ranges dst (dd_Ranges header) (body_of src (dd_Ranges header)) ?st =
      (Inr (), df_put st dst (patch (dd_Ranges header) (body_of src (dd_Ranges header)) ?g))"
    using apply_ranges_run [of "dd_Ranges header" src ?st dst ?g] assms(3,5) by simp
  ultimately show ?thesis
    unfolding applyDiskDelta_def by (simp add: act_bind_def readDeltaHeader_file [of dec enc header src, OF assms(1,2)])
qed
text \<open>The header of a round and what a round leaves: a delta that leads from \<open>f\<close> to \<open>g\<close>.\<close>

definition round_header :: "Extent list \<Rightarrow> Extent list \<Rightarrow> string \<Rightarrow> diskDelta" where
  "round_header refs curs g =
     \<lparr>dd_Size = int (length g), dd_Ranges = diffExtents refs curs (int (length g))\<rparr>"

definition leads :: "(diskDelta \<Rightarrow> string) \<Rightarrow> (string \<Rightarrow> diskDelta res) \<Rightarrow> string \<Rightarrow> string \<Rightarrow> string \<Rightarrow> bool" where
  "leads enc dec f g d \<longleftrightarrow>
     int (length g) \<le> MaxInt64 \<and>
     (\<exists>store refs curs. backs store refs f \<and> backs store curs g \<and> d = delta_file enc (round_header refs curs g) g \<and>
        dec (enc (round_header refs curs g)) = Inr (round_header refs curs g) \<and>
        int (length (enc (round_header refs curs g))) \<le> MaxInt64)"

lemma leads_apply:
  assumes "leads enc dec f g d" "df_faults st = []" "df_files st target = Some f" "df_files st delta = Some d"
  shows "applyDiskDelta dec target delta st = (Inr (), df_put st target g)"
proof -
  from assms(1) obtain store refs curs where B: "backs store refs f" "backs store curs g"
    and d: "d = delta_file enc (round_header refs curs g) g" "int (length g) \<le> MaxInt64"
      "dec (enc (round_header refs curs g)) = Inr (round_header refs curs g)"
      "int (length (enc (round_header refs curs g))) \<le> MaxInt64"
    unfolding leads_def by blast
  note P = patch_diff [OF B d(2)]
  show ?thesis
    using applyDiskDelta_run [of dec enc "round_header refs curs g" g st target f delta] P d assms(2-4)
    by (simp add: round_header_def)
qed

lemma writeDiskDelta_Inr:
  assumes "writeDiskDelta FileExtents enc dst ref src st = (Inr u, st')"
    and "df_files st ref = Some f" "df_files st src = Some g"
    and "FileExtents (df_files st) ref = Inr refs" "FileExtents (df_files st) src = Inr curs"
  shows "df_files st' dst = Some (delta_file enc (round_header refs curs g) g)"
proof -
  from assms obtain sa sb where "df_files sb = df_files st"
    and "writeDeltaFile enc dst (round_header refs curs g) g sb = (Inr u, st')"
    by (auto simp: writeDiskDelta_def act_bind_Inr round_header_def Let_def dest!: df_open_Inr)
  then show ?thesis using writeDeltaFile_atomic(1) by fastforce
qed

text \<open>When no call fails, the delta is written.\<close>

lemma df_append_run:
  "df_faults st = [] \<Longrightarrow> df_files st path = Some f \<Longrightarrow> df_append path bs st = (Inr (), df_put st path (f @ bs))"
  by (simp add: df_append_def df_write_def df_call_def df_set_def content_def write_at_def)

lemma copy_ranges_run:
  assumes "df_faults st = []" "df_files st tmp = Some f" "\<forall>r \<in> set rs. inside (length src) r"
  shows "act_each (copy_range tmp src) rs st = (Inr (), df_put st tmp (f @ concat (map (segment src) rs)))"
  using assms
proof (induction rs arbitrary: st f)
  case (Cons r rs)
  then have "inside (length src) r" by simp
  then have "\<not> rg_Offset r < 0" "length (segment src r) = nat (rg_Length r)" by (auto simp: inside_def segment_length)
  then have "copy_range tmp src r st = (Inr (), df_put st tmp (f @ segment src r))"
    using df_append_run [OF Cons.prems(1,2)] by (simp add: copy_range_def segment_def act_bind_def Let_def)
  then show ?case using Cons.IH [of "df_put st tmp (f @ segment src r)"] Cons.prems by (simp add: act_bind_def)
qed (simp add: df_put_same)

lemma writeDeltaFile_run:
  assumes "df_faults st = []" "\<forall>r \<in> set (dd_Ranges header). inside (length src) r"
  shows "writeDeltaFile enc dst header src st =
    (Inr (), st\<lparr>df_files := (df_files st)(dst @ ''.tmp'' := None, dst \<mapsto> delta_file enc header src)\<rparr>)"
proof -
  let ?tmp = "dst @ ''.tmp''" and ?n = "be_bytes 8 (length (enc header))"
  have c: "df_create ?tmp st = (Inr (), df_put st ?tmp [])" using assms(1) by (simp add: df_create_def df_call_def df_set_def)
  have a: "df_append ?tmp ?n (df_put st ?tmp []) = (Inr (), df_put st ?tmp ?n)"
    "df_append ?tmp (enc header) (df_put st ?tmp ?n) = (Inr (), df_put st ?tmp (?n @ enc header))"
    using assms(1) by (simp_all add: df_append_run)
  have r: "act_each (copy_range ?tmp src) (filter (\<lambda>r. \<not> rg_Zero r) (dd_Ranges header)) (df_put st ?tmp (?n @ enc header)) =
      (Inr (), df_put st ?tmp (delta_file enc header src))"
    by (subst copy_ranges_run) (use assms in \<open>auto simp: delta_file_def body_of_def\<close>)
  show ?thesis
    using assms(1) unfolding writeDeltaFile_def Let_def
    by (simp add: act_bind_def act_try_def c a r df_close_def df_rename_def df_call_def) (simp add: df_put_def fun_upd_twist)
qed

lemma writeDiskDelta_run:
  assumes "df_faults st = []" "df_files st ref = Some f" "df_files st src = Some g" "int (length g) \<le> MaxInt64"
    and "FileExtents (df_files st) ref = Inr refs" "FileExtents (df_files st) src = Inr curs"
    and "backs store refs f" "backs store curs g"
  shows "writeDiskDelta FileExtents enc dst ref src st =
    (Inr (), st\<lparr>df_files := (df_files st)(dst @ ''.tmp'' := None, dst \<mapsto> delta_file enc (round_header refs curs g) g)\<rparr>)"
proof -
  have "\<forall>r \<in> set (dd_Ranges (round_header refs curs g)). inside (length g) r"
    using patch_diff(1) [OF assms(7,8,4)] by (simp add: round_header_def)
  from writeDeltaFile_run [OF assms(1) this] show ?thesis
    using assms(1-3,5,6) by (simp add: writeDiskDelta_def act_bind_def df_open_def df_call_def round_header_def Let_def)
qed

text \<open>
  C5. A disk delta carries a disk across. When the reference and the source share their storage, a delta
  written from their extents and replayed over a copy of the reference gives the source, byte for byte:
  ranges that both map are left out, holes and unwritten extents become holes, and a changed size is
  followed.
\<close>

theorem disk_delta_round_trip:
  assumes "writeDiskDelta FileExtents enc dst ref src st = (Inr (), st1)"
    and "df_files st ref = Some f" "df_files st src = Some g"
    and "FileExtents (df_files st) ref = Inr refs" "FileExtents (df_files st) src = Inr curs"
    and "backs store refs f" "backs store curs g" "int (length g) \<le> MaxInt64"
    and "dec (enc (round_header refs curs g)) = Inr (round_header refs curs g)"
    and "int (length (enc (round_header refs curs g))) \<le> MaxInt64"
    and "df_faults st2 = []" "df_files st2 target = Some f" "df_files st2 delta = df_files st1 dst"
  shows "applyDiskDelta dec target delta st2 = (Inr (), df_put st2 target g)"
proof (rule leads_apply)
  have d: "df_files st1 dst = Some (delta_file enc (round_header refs curs g) g)"
    by (rule writeDiskDelta_Inr [OF assms(1-5)])
  then show "df_files st2 delta = Some (delta_file enc (round_header refs curs g) g)" using assms(13) by simp
  show "leads enc dec f g (delta_file enc (round_header refs curs g) g)" using assms(6-10) unfolding leads_def by blast
qed (use assms in simp_all)

lemma rounds_apply:
  assumes "\<forall>n \<in> {lo..<hi}. \<exists>d. df_files st (delta n) = Some d \<and> leads enc dec (img n) (img (Suc n)) d"
    and "lo \<le> hi" "df_faults st = []" "df_files st target = Some (img lo)" "\<forall>n. delta n \<noteq> target"
  shows "act_each (\<lambda>n. applyDiskDelta dec target (delta n)) [lo..<hi] st = (Inr (), df_put st target (img hi))"
  using assms
proof (induction "hi - lo" arbitrary: lo st)
  case 0
  then show ?case by (simp add: df_put_same)
next
  case (Suc k)
  then have lt: "lo < hi" by simp
  then obtain d where d: "df_files st (delta lo) = Some d" "leads enc dec (img lo) (img (Suc lo)) d"
    using bspec [OF Suc.prems(1), of lo] by auto
  let ?st = "df_put st target (img (Suc lo))"
  have "applyDiskDelta dec target (delta lo) st = (Inr (), ?st)"
    using leads_apply [OF d(2) Suc.prems(3,4) d(1)] .
  moreover have "act_each (\<lambda>n. applyDiskDelta dec target (delta n)) [Suc lo..<hi] ?st = (Inr (), df_put ?st target (img hi))"
    by (rule Suc.hyps(1)) (use Suc lt in auto)
  ultimately show ?case using lt by (simp add: upt_rec [of lo hi] act_bind_def)
qed

lemma each_disk:
  assumes "\<And>d st. d \<in> set ds \<Longrightarrow> I st \<Longrightarrow> pre d st \<Longrightarrow> f d st = (Inr (), df_put st (path d) (out d))"
    and "\<And>d e st. d \<in> set ds \<Longrightarrow> e \<in> set ds \<Longrightarrow> d \<noteq> e \<Longrightarrow> pre e st \<Longrightarrow> pre e (df_put st (path d) (out d))"
    and "\<And>d st. I st \<Longrightarrow> I (df_put st (path d) (out d))"
    and "distinct ds" "inj_on path (set ds)" "I st" "\<forall>d \<in> set ds. pre d st"
  shows "\<exists>st'. act_each f ds st = (Inr (), st') \<and> (\<forall>d \<in> set ds. df_files st' (path d) = Some (out d)) \<and>
    (\<forall>p. p \<notin> path ` set ds \<longrightarrow> df_files st' p = df_files st p)"
  using assms
proof (induction ds arbitrary: st)
  case (Cons d ds)
  let ?st = "df_put st (path d) (out d)"
  have "f d st = (Inr (), ?st)" using Cons.prems by simp
  moreover have "\<exists>st'. act_each f ds ?st = (Inr (), st') \<and> (\<forall>d \<in> set ds. df_files st' (path d) = Some (out d)) \<and>
      (\<forall>p. p \<notin> path ` set ds \<longrightarrow> df_files st' p = df_files ?st p)"
  proof (rule Cons.IH)
    show "\<forall>e \<in> set ds. pre e ?st"
    proof
      fix e assume "e \<in> set ds"
      then show "pre e ?st" using Cons.prems(2) [of d e st] Cons.prems(4,7) by auto
    qed
  qed (use Cons.prems in \<open>simp_all\<close>)
  moreover have "path d \<notin> path ` set ds" using Cons.prems(4,5) by auto
  ultimately show ?case by (auto simp: act_bind_def)
qed simp

text \<open>
  When every round's delta leads from the image before it to the image it froze, \<open>ApplyDiskDeltas\<close> replays the
  rounds in order over the copies of the baseline: it succeeds, and each disk ends as the image of the last round.
\<close>

lemma disk_rounds_converge:
  assumes "\<forall>d \<in> set disks. \<forall>n < rounds. \<exists>file. df_files st (Join [srcDir, diskDeltaName d (Suc n)]) = Some file \<and>
      leads enc dec (img d n) (img d (Suc n)) file"
    and "\<forall>d \<in> set disks. df_files st (Join [dstDir, d]) = Some (img d 0)"
    and "distinct disks" "inj_on (\<lambda>d. Join [dstDir, d]) (set disks)"
    and "\<forall>d \<in> set disks. \<forall>e. \<forall>n. Join [srcDir, diskDeltaName e n] \<noteq> Join [dstDir, d]"
    and "df_faults st = []"
  shows "\<exists>st'. ApplyDiskDeltas dec dstDir srcDir disks rounds st = (Inr (), st') \<and>
    (\<forall>d \<in> set disks. df_files st' (Join [dstDir, d]) = Some (img d rounds)) \<and>
    (\<forall>p. p \<notin> (\<lambda>d. Join [dstDir, d]) ` set disks \<longrightarrow> df_files st' p = df_files st p)"
  unfolding ApplyDiskDeltas_def apply_rounds_def
proof (rule each_disk [where I = "\<lambda>st. df_faults st = []"
      and pre = "\<lambda>d s. df_files s (Join [dstDir, d]) = Some (img d 0) \<and>
        (\<forall>n. df_files s (Join [srcDir, diskDeltaName d n]) = df_files st (Join [srcDir, diskDeltaName d n]))"])
  fix d and s :: dfs
  assume d: "d \<in> set disks" and s: "df_faults s = []"
    and p: "df_files s (Join [dstDir, d]) = Some (img d 0) \<and>
      (\<forall>n. df_files s (Join [srcDir, diskDeltaName d n]) = df_files st (Join [srcDir, diskDeltaName d n]))"
  have L: "\<exists>file. df_files s (Join [srcDir, diskDeltaName d n]) = Some file \<and> leads enc dec (img d (n - 1)) (img d (Suc n - 1)) file"
    if "n \<in> {1..<Suc rounds}" for n
  proof -
    from that obtain m where "n = Suc m" "m < rounds" by (cases n) auto
    then show ?thesis using assms(1) d p by simp
  qed
  have "act_each (\<lambda>n. applyDiskDelta dec (Join [dstDir, d]) (Join [srcDir, diskDeltaName d n])) [1..<Suc rounds] s =
      (Inr (), df_put s (Join [dstDir, d]) ((\<lambda>n. img d (n - 1)) (Suc rounds)))"
    by (rule rounds_apply [where enc = enc]) (use L assms(5) d s p in simp_all)
  then show "act_each (\<lambda>n. applyDiskDelta dec (Join [dstDir, d]) (Join [srcDir, diskDeltaName d n])) [1..<Suc rounds] s =
      (Inr (), df_put s (Join [dstDir, d]) (img d rounds))" by simp
next
  fix d e and s :: dfs
  assume "d \<in> set disks" "e \<in> set disks" "d \<noteq> e"
    and "df_files s (Join [dstDir, e]) = Some (img e 0) \<and>
      (\<forall>n. df_files s (Join [srcDir, diskDeltaName e n]) = df_files st (Join [srcDir, diskDeltaName e n]))"
  then show "df_files (df_put s (Join [dstDir, d]) (img d rounds)) (Join [dstDir, e]) = Some (img e 0) \<and>
      (\<forall>n. df_files (df_put s (Join [dstDir, d]) (img d rounds)) (Join [srcDir, diskDeltaName e n]) =
        df_files st (Join [srcDir, diskDeltaName e n]))"
    using assms(4,5) by (auto dest: inj_onD)
qed (use assms in \<open>auto\<close>)
section \<open>A round on a disk of a few bytes\<close>

lemma backs_check:
  assumes "\<forall>x \<in> set es. 0 \<le> ex_Length x \<and> ex_Logical x + ex_Length x \<le> int (length f)"
    and "\<forall>p \<in> set [0..<length f]. mbyte store (map_at es (int p)) = f ! p"
  shows "backs store es f"
  unfolding backs_def
proof (intro conjI allI)
  fix p
  show "mbyte store (map_at es (int p)) = (if p < length f then f ! p else zero_byte)"
  proof (cases "p < length f")
    case False
    then have "skip_extents es (int p) = []" using assms(1) by (force simp: skip_extents_def)
    then show ?thesis using False by (simp add: map_at_def extentAt_def mbyte_def reads_zero_def no_mapping_def)
  qed (use assms(2) in simp)
qed (use assms(1) in auto)

definition demo_store :: "int \<Rightarrow> char" where
  "demo_store p = (if p < 200 then ''abcd'' ! nat (p - 100) else ''XYZ'' ! nat (p - 200))"

definition demo_refs :: "Extent list" where
  "demo_refs = [\<lparr>ex_Logical = 0, ex_Physical = 100, ex_Length = 4, ex_Unwritten = False\<rparr>]"

definition demo_curs :: "Extent list" where
  "demo_curs = [\<lparr>ex_Logical = 0, ex_Physical = 100, ex_Length = 2, ex_Unwritten = False\<rparr>,
     \<lparr>ex_Logical = 2, ex_Physical = 200, ex_Length = 3, ex_Unwritten = False\<rparr>]"

definition demo_header :: diskDelta where
  "demo_header = \<lparr>dd_Size = 5, dd_Ranges = [\<lparr>rg_Offset = 2, rg_Length = 3, rg_Zero = False\<rparr>]\<rparr>"

definition demo_extents :: "(string \<rightharpoonup> string) \<Rightarrow> string \<Rightarrow> Extent list res" where
  "demo_extents m p = Inr (if p = ''ref'' then demo_refs else demo_curs)"

definition demo_source :: dfs where
  "demo_source = \<lparr>df_files = [''ref'' \<mapsto> ''abcd'', ''live'' \<mapsto> ''abXYZ''], df_faults = []\<rparr>"

definition demo_delta :: string where
  "demo_delta = be_bytes 8 1 @ ''h'' @ ''XYZ''"

lemma demo_header_eq: "round_header demo_refs demo_curs ''abXYZ'' = demo_header"
  by (simp add: round_header_def demo_header_def diffExtents_def extentAt_def skip_extents_def demo_refs_def demo_curs_def
      eval_nat_numeral Let_def add_range_def no_mapping_def MaxInt64_def)

lemma demo_backs: "backs demo_store demo_refs ''abcd''" "backs demo_store demo_curs ''abXYZ''"
  by (rule backs_check;
      simp add: demo_refs_def demo_curs_def map_at_def extentAt_def skip_extents_def mbyte_def reads_zero_def demo_store_def
        upt_rec no_mapping_def zero_byte_def)+

lemma demo_write:
  "writeDiskDelta demo_extents (\<lambda>_. ''h'') ''delta'' ''ref'' ''live'' demo_source =
     (Inr (), \<lparr>df_files = [''ref'' \<mapsto> ''abcd'', ''live'' \<mapsto> ''abXYZ'', ''delta'' \<mapsto> demo_delta], df_faults = []\<rparr>)"
proof -
  have "writeDeltaFile (\<lambda>_. ''h'') ''delta'' demo_header ''abXYZ'' demo_source =
     (Inr (), \<lparr>df_files = [''ref'' \<mapsto> ''abcd'', ''live'' \<mapsto> ''abXYZ'', ''delta'' \<mapsto> demo_delta], df_faults = []\<rparr>)"
    by (auto simp: writeDeltaFile_def demo_header_def demo_source_def act_bind_def act_try_def df_create_def df_call_def df_set_def
        df_put_def df_append_def df_write_def write_at_def content_def copy_range_def df_close_def df_rename_def demo_delta_def
        fun_eq_iff Let_def)
  then show ?thesis
    using demo_header_eq
    by (simp add: writeDiskDelta_def act_bind_def df_open_def df_call_def demo_source_def demo_extents_def round_header_def)
qed

theorem disk_delta_round_trip_witness:
  "writeDiskDelta demo_extents (\<lambda>_. ''h'') ''delta'' ''ref'' ''live'' demo_source =
     (Inr (), \<lparr>df_files = [''ref'' \<mapsto> ''abcd'', ''live'' \<mapsto> ''abXYZ'', ''delta'' \<mapsto> demo_delta], df_faults = []\<rparr>) \<and>
   applyDiskDelta (\<lambda>_. Inr demo_header) ''disk'' ''d1''
     \<lparr>df_files = [''disk'' \<mapsto> ''abcd'', ''d1'' \<mapsto> demo_delta], df_faults = []\<rparr> =
   (Inr (), df_put \<lparr>df_files = [''disk'' \<mapsto> ''abcd'', ''d1'' \<mapsto> demo_delta], df_faults = []\<rparr> ''disk'' ''abXYZ'')"
  using demo_write disk_delta_round_trip [where store = demo_store and dec = "\<lambda>_. Inr demo_header" and ?st2.0 =
      "\<lparr>df_files = [''disk'' \<mapsto> ''abcd'', ''d1'' \<mapsto> demo_delta], df_faults = []\<rparr>" and target = "''disk''" and delta = "''d1''",
      OF demo_write _ _ _ _ demo_backs]
  by (simp only:) (simp add: demo_source_def demo_extents_def demo_header_eq MaxInt64_def)

end
