(* ===== verification/VmStore.thy ===== *)
theory VmStore
  imports Tombstone Process Cgroup
begin

text \<open>
  The store layer of \<open>src/hypervisor\<close>: the VM record (\<open>db.go\<close>), the metering ledger (\<open>metering.go\<close>),
  the transactions of a VM namespace (\<open>repo.go\<close>, \<open>inspect.go\<close>) and the record's state changes
  (\<open>state.go\<close>).

  A namespace is its typed tables, as the meta layer gives them to its clients. A world is the tables,
  the ledger, the clock, the ids that will be generated, what the store will answer to the next
  transactions, and the host. A transaction that fails may or may not have landed: this is what an
  update of the json store can do when its last step fails.
\<close>

section \<open>Records\<close>

record BootConfig =
  KernelPath :: string
  InitrdPath :: string
  FirmwarePath :: string

record VMRecord = VM +
  BootCfg :: "BootConfig option"
  ImageBlobIDs :: "string set"
  RunDir :: string
  LogDir :: string
  Quarantine :: string
  QuiescePending :: bool

datatype Kind =
  KindVMComputeStart | KindVMComputeStop | KindVMStorageStart | KindVMStorageStop
  | KindSnapStorageStart | KindSnapStorageStop

datatype Reason =
  ReasonBoot | ReasonRestart | ReasonClone | ReasonRestore | ReasonMigrate | ReasonStopUser
  | ReasonStopCrash | ReasonVMRemove | ReasonSnapRemove

record Shape =
  sh_CPU :: int
  sh_MemBytes :: int
  sh_StorageBytes :: int

record Entry =
  en_Kind :: Kind
  en_VMID :: string
  en_SnapshotID :: string
  en_SourceSnapshotID :: string
  en_Reason :: Reason
  en_Hypervisor :: string
  en_Shape :: Shape
  en_EmittedAt :: nat

record vmCleanup =
  vc_Name :: string
  vc_RunDir :: string
  vc_LogDir :: string

section \<open>The world\<close>

definition VMNamespaceName :: "string \<Rightarrow> string" where
  "VMNamespaceName typ = ''vms_'' @ filter (\<lambda>c. c \<noteq> CHR ''-'') typ"

record vmdb =
  db_records :: "VMRecord tbl"
  db_names :: "string tbl"
  db_placements :: "string tbl"
  db_tombs :: "vmCleanup tomb tbl"

datatype store_fault = StoreOk | StoreLost err | StoreLanded err

record 'k world =
  w_db :: vmdb
  w_peers :: "string tbl list"
  w_ledger :: "Entry list"
  w_faults :: "store_fault list"
  w_clock :: nat
  w_ids :: "string list"
  w_topo :: "Topology res option"
  w_host :: 'k

type_synonym ('k, 'a) vmact = "('k world, 'a) act"

definition timeNow :: "('k, nat) vmact" where
  "timeNow w = (Inr (w_clock w), w\<lparr>w_clock := Suc (w_clock w)\<rparr>)"

definition GenerateID :: "('k, string) vmact" where
  "GenerateID w =
     (case w_ids w of [] \<Rightarrow> (Inr '''', w) | i # rest \<Rightarrow> (Inr i, w\<lparr>w_ids := rest\<rparr>))"

definition on_host :: "('k, 'a) act \<Rightarrow> ('k, 'a) vmact" where
  "on_host m w = (case m (w_host w) of (r, h) \<Rightarrow> (r, w\<lparr>w_host := h\<rparr>))"

definition get_host :: "('k \<Rightarrow> 'a) \<Rightarrow> ('k, 'a) vmact" where
  "get_host f w = (Inr (f (w_host w)), w)"

text \<open>Lifts a result, and runs an action for its effect only.\<close>

definition act_res :: "'a res \<Rightarrow> ('s, 'a) act" where
  "act_res r s = (r, s)"

definition act_ignore :: "('s, 'a) act \<Rightarrow> ('s, unit) act" where
  "act_ignore m = act_try m (\<lambda>_. act_return ())"

definition next_fault :: "'k world \<Rightarrow> store_fault \<times> 'k world" where
  "next_fault w =
     (case w_faults w of [] \<Rightarrow> (StoreOk, w) | f # rest \<Rightarrow> (f, w\<lparr>w_faults := rest\<rparr>))"

definition vm_view :: "(vmdb \<Rightarrow> 'a res) \<Rightarrow> ('k, 'a) vmact" where
  "vm_view fn w =
     (case next_fault w of
        (StoreOk, w') \<Rightarrow> (fn (w_db w'), w')
      | (StoreLost e, w') \<Rightarrow> (Inl e, w')
      | (StoreLanded e, w') \<Rightarrow> (Inl e, w'))"

definition vm_update :: "(vmdb \<Rightarrow> ('a \<times> vmdb) res) \<Rightarrow> ('k, 'a) vmact" where
  "vm_update fn w =
     (case next_fault w of
        (StoreOk, w') \<Rightarrow> (case fn (w_db w') of Inl e \<Rightarrow> (Inl e, w') | Inr (a, db) \<Rightarrow> (Inr a, w'\<lparr>w_db := db\<rparr>))
      | (StoreLost e, w') \<Rightarrow> (Inl e, w')
      | (StoreLanded e, w') \<Rightarrow>
          (case fn (w_db w') of Inl _ \<Rightarrow> (Inl e, w') | Inr (a, db) \<Rightarrow> (Inl e, w'\<lparr>w_db := db\<rparr>)))"

text \<open>
  A VM network as \<open>VMNetwork\<close>, and what a backend is made of: its configuration, its host and
  network, the VM operation locks, the API socket dial, the modification time of a file, and what its
  waits see.
\<close>

record 'k vmnet =
  net_Recover :: "VMRecord \<Rightarrow> ('k, unit) act"
  net_Quiesce :: "VMRecord \<Rightarrow> ('k, unit) act"
  net_Cleanup :: "string \<Rightarrow> ('k, unit) act"

record 'k backend =
  bk_Typ :: string
  bk_PinsQueues :: bool
  bk_Binary :: string
  bk_PIDFileName :: string
  bk_RunRoot :: string
  bk_LogRoot :: string
  bk_CgroupParentDir :: string
  bk_CgroupCPUFence :: string
  bk_NumCPU :: int
  bk_host :: "'k phost"
  bk_Net :: "'k vmnet option"
  bk_lock :: "string \<Rightarrow> ('k, unit) act"
  bk_trylock :: "string \<Rightarrow> ('k, bool) act"
  bk_unlock :: "string \<Rightarrow> ('k, unit) act"
  bk_dial :: "'k \<Rightarrow> string \<Rightarrow> unit res"
  bk_mtime :: "'k \<Rightarrow> string \<Rightarrow> nat res"
  bk_rename :: "string \<Rightarrow> string \<Rightarrow> ('k, unit) act"
  bk_grace :: "wait_event list"
  bk_hard :: "wait_event list"
  bk_rmwait :: "wait_event list"

abbreviation bk_os :: "'k backend \<Rightarrow> 'k host" where
  "bk_os b \<equiv> host.truncate (bk_host b)"

definition VMRunDir :: "'k backend \<Rightarrow> string \<Rightarrow> string" where
  "VMRunDir b vmID = Join [bk_RunRoot b, vmID]"

definition VMLogDir :: "'k backend \<Rightarrow> string \<Rightarrow> string" where
  "VMLogDir b vmID = Join [bk_LogRoot b, vmID]"

definition PIDFilePath :: "'k backend \<Rightarrow> string \<Rightarrow> string" where
  "PIDFilePath b runDir = Join [runDir, bk_PIDFileName b]"

definition vm_SocketPath :: "string \<Rightarrow> string" where
  "vm_SocketPath runDir = Join [runDir, ''api.sock'']"

definition restoreDirtyName :: string where "restoreDirtyName = ''.restore-dirty''"

section \<open>Transactions\<close>

definition tx_Put :: "string \<Rightarrow> VMRecord \<Rightarrow> vmdb \<Rightarrow> vmdb" where
  "tx_Put vid rec db =
     (let cpus = cmp_Or [QueueCPUs rec, CPUSet rec]
      in db\<lparr>db_records := tput vid rec (db_records db),
            db_placements := (if cpus \<noteq> '''' then tput vid cpus (db_placements db) else tdel vid (db_placements db))\<rparr>)"

definition tx_Del :: "string \<Rightarrow> vmdb \<Rightarrow> vmdb" where
  "tx_Del vid db = db\<lparr>db_records := tdel vid (db_records db), db_placements := tdel vid (db_placements db)\<rparr>"

definition getRecord :: "string \<Rightarrow> vmdb \<Rightarrow> VMRecord res" where
  "getRecord vid db =
     (case tget (db_records db) vid of
        None \<Rightarrow> Inl (ErrMsg ''vm disappeared from index'')
      | Some rec \<Rightarrow> Inr rec)"

definition tx_NameSet :: "string \<Rightarrow> string \<Rightarrow> vmdb \<Rightarrow> vmdb" where
  "tx_NameSet name vid db = db\<lparr>db_names := tput name vid (db_names db)\<rparr>"

definition tx_NameDelIfOwned :: "string \<Rightarrow> string \<Rightarrow> vmdb \<Rightarrow> vmdb" where
  "tx_NameDelIfOwned name vid db =
     (if name \<noteq> '''' \<and> tget (db_names db) name = Some vid then db\<lparr>db_names := tdel name (db_names db)\<rparr> else db)"

definition tx_resolve :: "string \<Rightarrow> vmdb \<Rightarrow> string res" where
  "tx_resolve ref db = resolve_spec (ids_of (db_records db)) (db_names db) ref ErrVMNotFound"

definition validateRecordInvariants :: "VMRecord \<Rightarrow> unit res" where
  "validateRecordInvariants rec =
     (case ValidateStorageConfigs (StorageConfigs rec) of
        Inl e \<Rightarrow> Inl e
      | Inr _ \<Rightarrow> ValidateNetworkConfigs (NetworkConfigs rec))"

definition PeekRecord :: "string \<Rightarrow> ('k, VMRecord option) vmact" where
  "PeekRecord vid = vm_view (\<lambda>db. Inr (tget (db_records db) vid))"

definition LoadRecord :: "string \<Rightarrow> ('k, VMRecord) vmact" where
  "LoadRecord vid = vm_view (getRecord vid)"

definition ResolveRef :: "string \<Rightarrow> ('k, string) vmact" where
  "ResolveRef ref = vm_view (tx_resolve ref)"

definition ResolveRefs :: "string list \<Rightarrow> ('k, string list) vmact" where
  "ResolveRefs refs =
     vm_view (\<lambda>db. fold_res (\<lambda>ref ids. case tx_resolve ref db of
         Inl e \<Rightarrow> Inl e
       | Inr vid \<Rightarrow> Inr (if vid \<in> set ids then ids else ids @ [vid])) refs [])"

definition ResolveAndLoad :: "string \<Rightarrow> ('k, string \<times> VMRecord) vmact" where
  "ResolveAndLoad ref =
     vm_view (\<lambda>db. case tx_resolve ref db of
         Inl e \<Rightarrow> Inl e
       | Inr vid \<Rightarrow> res_map (Pair vid) (getRecord vid db))"

definition UpdateRecord :: "string \<Rightarrow> (VMRecord \<Rightarrow> VMRecord res) \<Rightarrow> ('k, unit) vmact" where
  "UpdateRecord vid mutate =
     vm_update (\<lambda>db. case getRecord vid db of
         Inl e \<Rightarrow> Inl e
       | Inr r \<Rightarrow> res_map (\<lambda>r'. ((), tx_Put vid r' db)) (mutate r))"

definition PinnedBlobIDs :: "('k, string set) vmact" where
  "PinnedBlobIDs = vm_view (\<lambda>db. Inr (\<Union> (set (map (\<lambda>row. ImageBlobIDs (snd row)) (db_records db)))))"

section \<open>Metering\<close>

definition shapeFromConfig :: "VMConfig \<Rightarrow> Shape" where
  "shapeFromConfig c = \<lparr>sh_CPU = CPU c, sh_MemBytes = Memory c, sh_StorageBytes = Storage c\<rparr>"

definition makeEntry :: "'k backend \<Rightarrow> Kind \<Rightarrow> string \<Rightarrow> Reason \<Rightarrow> Shape \<Rightarrow> nat \<Rightarrow> Entry" where
  "makeEntry b kind vmID reason shape now =
     \<lparr>en_Kind = kind, en_VMID = vmID, en_SnapshotID = '''', en_SourceSnapshotID = '''', en_Reason = reason,
      en_Hypervisor = bk_Typ b, en_Shape = shape, en_EmittedAt = now\<rparr>"

definition makeSourceEntry :: "'k backend \<Rightarrow> Kind \<Rightarrow> string \<Rightarrow> string \<Rightarrow> Reason \<Rightarrow> Shape \<Rightarrow> nat \<Rightarrow> Entry" where
  "makeSourceEntry b kind vmID sourceSnapshotID reason shape now =
     (makeEntry b kind vmID reason shape now)\<lparr>en_SourceSnapshotID := sourceSnapshotID\<rparr>"

definition emitAll :: "Entry list \<Rightarrow> ('k, unit) vmact" where
  "emitAll entries w = (Inr (), w\<lparr>w_ledger := w_ledger w @ entries\<rparr>)"

abbreviation Emit :: "Entry \<Rightarrow> ('k, unit) vmact" where
  "Emit e \<equiv> emitAll [e]"

definition emitOpenInterval :: "'k backend \<Rightarrow> string \<Rightarrow> VMConfig \<Rightarrow> Reason \<Rightarrow> string \<Rightarrow> nat \<Rightarrow> ('k, unit) vmact" where
  "emitOpenInterval b vmID cfg reason sourceSnapshotID now =
     emitAll (map (\<lambda>kind. makeSourceEntry b kind vmID sourceSnapshotID reason (shapeFromConfig cfg) now)
       [KindVMStorageStart, KindVMComputeStart])"

definition emitDeleteClose :: "'k backend \<Rightarrow> string \<Rightarrow> Shape \<Rightarrow> Reason \<Rightarrow> bool \<Rightarrow> ('k, unit) vmact" where
  "emitDeleteClose b vmID shape computeReason hadRunningInterval =
     act_bind timeNow (\<lambda>now.
     act_bind (if hadRunningInterval then Emit (makeEntry b KindVMComputeStop vmID computeReason shape now)
               else act_return ()) (\<lambda>_.
     Emit (makeEntry b KindVMStorageStop vmID ReasonVMRemove shape now)))"

section \<open>State changes\<close>

definition hasOpenComputeInterval :: "VMRecord \<Rightarrow> bool" where
  "hasOpenComputeInterval r = (StartedAt r \<noteq> None \<and> StoppedAt r = None)"

definition markTransition :: "VMState \<Rightarrow> TransitionReason \<Rightarrow> nat \<Rightarrow> VMRecord \<Rightarrow> VMRecord" where
  "markTransition state reason at r =
     (let r = r\<lparr>State := state, TransitionGeneration := TransitionGeneration r + 1, LastTransitionReason := reason,
              LastTransitionAt := Some at, UpdatedAt := at\<rparr>
      in if state = VMStateStopped then r\<lparr>CPUSet := '''', QueueCPUs := ''''\<rparr> else r)"

definition needsQuiesce :: "VMRecord \<Rightarrow> bool" where
  "needsQuiesce r = (NetworkConfigs r \<noteq> [])"

definition bootReasons :: "bool \<Rightarrow> Reason \<times> TransitionReason" where
  "bootReasons firstBooted =
     (if firstBooted then (ReasonRestart, TransitionRestart) else (ReasonBoot, TransitionBoot))"

definition updateVM :: "string \<Rightarrow> (VMRecord \<Rightarrow> VMRecord \<times> Entry list) \<Rightarrow> ('k, unit) vmact" where
  "updateVM vid mutate =
     act_bind (vm_update (\<lambda>db. case tget (db_records db) vid of
         None \<Rightarrow> Inr ([], db)
       | Some r \<Rightarrow> (case mutate r of (r', emits) \<Rightarrow> Inr (emits, tx_Put vid r' db))))
       emitAll"

definition update_state_rec :: "'k backend \<Rightarrow> string \<Rightarrow> VMState \<Rightarrow> nat \<Rightarrow> VMRecord \<Rightarrow> VMRecord \<times> Entry list" where
  "update_state_rec b vid state now r =
     (if state \<noteq> VMStateStopped then (markTransition state TransitionError now r, [])
      else
        (let open = hasOpenComputeInterval r;
             wasUp = open \<or> State r = VMStateRunning;
             r = markTransition state TransitionStopUser now r;
             r = r\<lparr>QuiescePending := needsQuiesce r\<rparr>;
             r = (if wasUp then r\<lparr>StoppedAt := Some now\<rparr> else r)
         in (r, if \<not> open then []
                else [makeEntry b KindVMComputeStop vid ReasonStopUser (shapeFromConfig (Config r)) now])))"

definition UpdateState :: "'k backend \<Rightarrow> string \<Rightarrow> VMState \<Rightarrow> ('k, unit) vmact" where
  "UpdateState b vid state = act_bind timeNow (\<lambda>now. updateVM vid (update_state_rec b vid state now))"

definition MarkError :: "'k backend \<Rightarrow> string \<Rightarrow> ('k, unit) vmact" where
  "MarkError b vid = act_ignore (UpdateState b vid VMStateError)"

definition QuarantineVM :: "string \<Rightarrow> string \<Rightarrow> ('k, unit) vmact" where
  "QuarantineVM vid reason =
     act_bind timeNow (\<lambda>now.
     act_ignore (updateVM vid (\<lambda>r.
       ((markTransition VMStateError TransitionError now r)\<lparr>Quarantine := reason\<rparr>, []))))"

definition mark_started_rec :: "'k backend \<Rightarrow> string \<Rightarrow> nat \<Rightarrow> VMRecord \<Rightarrow> VMRecord \<times> Entry list" where
  "mark_started_rec b vid now r =
     (let shape = shapeFromConfig (Config r);
          (emitReason, transition) = bootReasons (FirstBooted r);
          staged = (if hasOpenComputeInterval r
                    then [makeEntry b KindVMComputeStop vid ReasonStopCrash shape now] else []);
          staged = staged @ [makeEntry b KindVMComputeStart vid emitReason shape now];
          r = markTransition VMStateRunning transition now r
      in (r\<lparr>StartedAt := Some now, StoppedAt := None, FirstBooted := True, QuiescePending := False\<rparr>, staged))"

definition MarkStarted :: "'k backend \<Rightarrow> string \<Rightarrow> ('k, unit) vmact" where
  "MarkStarted b vid = act_bind timeNow (\<lambda>now. updateVM vid (mark_started_rec b vid now))"

text \<open>The closure of \<open>ReconcileToRunning\<close>: the generation and the entry to emit, if any.\<close>

definition reconcile_rec ::
    "'k backend \<Rightarrow> string \<Rightarrow> nat \<Rightarrow> bool \<Rightarrow> VMRecord option \<Rightarrow> vmdb \<Rightarrow> ((64 word \<times> Entry list) \<times> vmdb) res" where
  "reconcile_rec b vid now dirty rr db =
     (case rr of
        None \<Rightarrow> Inr ((0, []), db)
      | Some r \<Rightarrow>
          if State r = VMStateRunning \<or> State r = VMStateCreating \<or> Quarantine r \<noteq> '''' \<or> dirty
          then Inr ((0, []), db)
          else
            (let (emitReason, transition) = bootReasons (FirstBooted r);
                 open = hasOpenComputeInterval r;
                 r = markTransition VMStateRunning transition now r;
                 r = r\<lparr>StoppedAt := None, QuiescePending := False\<rparr>;
                 emits = (if open then [] else [makeEntry b KindVMComputeStart vid emitReason (shapeFromConfig (Config r)) now]);
                 r = (if open then r else r\<lparr>StartedAt := Some now, FirstBooted := True\<rparr>)
             in Inr ((TransitionGeneration r, emits), tx_Put vid r db)))"

definition restore_dirty :: "'k backend \<Rightarrow> 'k \<Rightarrow> VMRecord option \<Rightarrow> bool" where
  "restore_dirty b h rr =
     (case rr of None \<Rightarrow> False | Some r \<Rightarrow> FileExists (bk_os b) h (Join [RunDir r, restoreDirtyName]))"

definition ReconcileToRunning :: "'k backend \<Rightarrow> string \<Rightarrow> ('k, 64 word) vmact" where
  "ReconcileToRunning b vid =
     act_bind timeNow (\<lambda>now w.
       act_bind (vm_update (\<lambda>db.
           (let rr = tget (db_records db) vid in reconcile_rec b vid now (restore_dirty b (w_host w) rr) rr db)))
         (\<lambda>(gen, emits). act_bind (emitAll emits) (\<lambda>_. act_return gen)) w)"

definition markFailedOperation :: "string \<Rightarrow> bool \<Rightarrow> ('k, unit) vmact" where
  "markFailedOperation vid markError =
     act_bind timeNow (\<lambda>now.
     act_ignore (updateVM vid (\<lambda>r.
       (let r = (if markError \<and> State r \<noteq> VMStateError then markTransition VMStateError TransitionError now r else r);
            r = r\<lparr>CPUSet := '''', QueueCPUs := ''''\<rparr>
        in (r\<lparr>QuiescePending := needsQuiesce r\<rparr>, [])))))"

text \<open>\<open>IsAPISocketLive\<close>: live, and the dial's error if it was neither of the two clean ones.\<close>

definition IsAPISocketLive :: "'k backend \<Rightarrow> 'k \<Rightarrow> VMRecord \<Rightarrow> bool \<times> err option" where
  "IsAPISocketLive b h rec =
     (case bk_dial b h (vm_SocketPath (RunDir rec)) of
        Inr _ \<Rightarrow> (True, None)
      | Inl e \<Rightarrow> if e = ErrNotExist \<or> e = ECONNREFUSED then (False, None) else (True, Some e))"

definition scanFor :: "'k backend \<Rightarrow> 'k \<Rightarrow> ProcScan option \<Rightarrow> string \<Rightarrow> int list res" where
  "scanFor b h scan sockPath =
     (case scan of
        Some sc \<Rightarrow> Inr (filter (\<lambda>pid. VerifyProcessCmdline (bk_host b) h pid sockPath) (Find sc sockPath))
      | None \<Rightarrow> FindVMMByCmdline (bk_host b) h (bk_Binary b) sockPath)"

text \<open>The pid of the record's live VMM, which \<open>withRunningVM\<close> hands to its callback.\<close>

definition running_pid :: "'k backend \<Rightarrow> 'k \<Rightarrow> VMRecord \<Rightarrow> ProcScan option \<Rightarrow> int res" where
  "running_pid b h rec scan =
     (let pid = (case ReadPIDFile (bk_host b) h (PIDFilePath b (RunDir rec)) of Inl _ \<Rightarrow> 0 | Inr p \<Rightarrow> p);
          sockPath = vm_SocketPath (RunDir rec)
      in if VerifyProcessCmdline (bk_host b) h pid sockPath then Inr pid
         else (case scanFor b h scan sockPath of
                 Inl _ \<Rightarrow> Inl (ErrMsg ''pidfile check failed and /proc scan errored'')
               | Inr [] \<Rightarrow> Inl ErrNotRunning
               | Inr (p # _) \<Rightarrow> Inr p))"

definition withRunningVM :: "'k backend \<Rightarrow> VMRecord \<Rightarrow> ProcScan option \<Rightarrow> (int \<Rightarrow> ('k, 'a) vmact) \<Rightarrow> ('k, 'a) vmact" where
  "withRunningVM b rec scan fn w =
     (case running_pid b (w_host w) rec scan of
        Inl e \<Rightarrow> (Inl e, w)
      | Inr pid \<Rightarrow> fn pid w)"

end
