(* ===== verification/VmOps.thy ===== *)
theory VmOps
  imports VmStore
begin

text \<open>
  The VM operations of \<open>src/hypervisor\<close>: networking (\<open>network.go\<close>), placement (\<open>placement.go\<close>), the
  tombstoned delete (\<open>teardown.go\<close>) and supervision (\<open>supervisor.go\<close>, with the try-lock and the kill of an
  orphaned VMM of \<open>gc.go\<close>). What a backend supplies as hooks is an argument of the operation.
\<close>

section \<open>Networking and cgroup scopes\<close>

definition RecoverNetwork :: "'k backend \<Rightarrow> VMRecord \<Rightarrow> ('k, unit) vmact" where
  "RecoverNetwork b rec = (case bk_Net b of None \<Rightarrow> act_return () | Some n \<Rightarrow> on_host (net_Recover n rec))"

definition quiesceNetwork :: "'k backend \<Rightarrow> VMRecord \<Rightarrow> ('k, unit) vmact" where
  "quiesceNetwork b rec = (case bk_Net b of None \<Rightarrow> act_return () | Some n \<Rightarrow> on_host (net_Quiesce n rec))"

definition cleanupNetwork :: "'k backend \<Rightarrow> string \<Rightarrow> ('k, unit) vmact" where
  "cleanupNetwork b vid = (case bk_Net b of None \<Rightarrow> act_return () | Some n \<Rightarrow> on_host (net_Cleanup n vid))"

definition removeCgroupScope :: "'k backend \<Rightarrow> string \<Rightarrow> ('k, unit) vmact" where
  "removeCgroupScope b vid =
     act_ignore (on_host (cg_Remove (bk_os b) (bk_rmwait b) (bk_CgroupParentDir b) vid))"

definition clearQuiescePending :: "string \<Rightarrow> 64 word \<Rightarrow> ('k, unit) vmact" where
  "clearQuiescePending vid gen =
     vm_update (\<lambda>db. case tget (db_records db) vid of
         None \<Rightarrow> Inr ((), db)
       | Some r \<Rightarrow>
           if TransitionGeneration r \<noteq> gen \<or> \<not> QuiescePending r then Inr ((), db)
           else Inr ((), tx_Put vid (r\<lparr>QuiescePending := False\<rparr>) db))"

definition quiesceAfterStop :: "'k backend \<Rightarrow> string \<Rightarrow> VMRecord \<Rightarrow> bool \<Rightarrow> bool \<Rightarrow> ('k, unit) vmact" where
  "quiesceAfterStop b vid rec wentDown transitioned =
     (let gen = (if transitioned then TransitionGeneration rec + 1 else TransitionGeneration rec);
          pending = (QuiescePending rec \<or> (wentDown \<and> needsQuiesce rec))
      in if \<not> pending then act_return ()
         else act_try (quiesceNetwork b rec) (\<lambda>r. case r of
             Inl _ \<Rightarrow> act_return ()
           | Inr _ \<Rightarrow> act_ignore (clearQuiescePending vid gen)))"

section \<open>Placement\<close>

definition sysCPURoot :: string where "sysCPURoot = ''/sys/devices/system/cpu''"

definition pinsQueues :: "'k backend \<Rightarrow> 'a config_scheme \<Rightarrow> bool" where
  "pinsQueues b cfg = (bk_PinsQueues b \<and> CPU cfg > 1)"

text \<open>The cpus another VM's placement row counts for; a row that does not parse counts for none.\<close>

definition row_cpus :: "string \<Rightarrow> string \<times> string \<Rightarrow> int list" where
  "row_cpus self row =
     (if fst row = self then [] else (case ParseCPUList (snd row) of Inl _ \<Rightarrow> [] | Inr cpus \<Rightarrow> cpus))"

definition placementLoad :: "string tbl list \<Rightarrow> string \<Rightarrow> int \<Rightarrow> int" where
  "placementLoad tables self c =
     int (length (filter (\<lambda>x. x = c) (concat (map (row_cpus self) (concat tables)))))"

text \<open>The topology is read once; a read that would not end is an error here.\<close>

definition placementTopology :: "'k backend \<Rightarrow> 'a config_scheme \<Rightarrow> ('k, Topology option) vmact" where
  "placementTopology b cfg w =
     (if CPUSetCPUs cfg \<noteq> AutoCPUSet \<and> (CPUSetCPUs cfg \<noteq> '''' \<or> \<not> pinsQueues b cfg) then (Inr None, w)
      else
        (let t = (case w_topo w of
             Some t \<Rightarrow> t
           | None \<Rightarrow>
               (case ParseCPUList (bk_CgroupCPUFence b) of
                  Inl e \<Rightarrow> Inl e
                | Inr fence \<Rightarrow>
                    (case ReadTopology (bk_os b) (w_host w) sysCPURoot fence of
                       None \<Rightarrow> Inl (ErrMsg ''cpu topology'')
                     | Some r \<Rightarrow> r)))
         in (res_map Some t, w\<lparr>w_topo := Some t\<rparr>)))"

definition placeVM ::
    "'k backend \<Rightarrow> 'k \<Rightarrow> string tbl list \<Rightarrow> VMRecord \<Rightarrow> 'a config_scheme \<Rightarrow> Topology option \<Rightarrow> VMRecord res" where
  "placeVM b h tables rec cfg topo =
     (let rec = rec\<lparr>CPUSet := '''', QueueCPUs := ''''\<rparr>;
          pins = pinsQueues b cfg
      in case topo of
           None \<Rightarrow>
             Inr (if CPUSetCPUs cfg \<noteq> ''''
                  then (let rec = rec\<lparr>CPUSet := CPUSetCPUs cfg\<rparr> in if pins then rec\<lparr>QueueCPUs := CPUSetCPUs cfg\<rparr> else rec)
                  else rec)
         | Some t \<Rightarrow>
             (case Place (bk_os b) h t (if pins then CPU cfg else 1) (placementLoad tables (ID rec)) of
                Inl e \<Rightarrow> Inl e
              | Inr (domain, queueCPUs) \<Rightarrow>
                  (let rec = (if pins then rec\<lparr>QueueCPUs := FormatCPUList queueCPUs\<rparr> else rec)
                   in Inr (if CPUSetCPUs cfg = AutoCPUSet then rec\<lparr>CPUSet := FormatCPUList domain\<rparr> else rec))))"

definition placeRecord :: "'k backend \<Rightarrow> string \<Rightarrow> 'a config_scheme \<Rightarrow> ('k, VMRecord) vmact" where
  "placeRecord b vid cfg =
     act_bind (placementTopology b cfg) (\<lambda>topo w.
       vm_update (\<lambda>db. case getRecord vid db of
           Inl e \<Rightarrow> Inl e
         | Inr r \<Rightarrow>
             (case placeVM b (w_host w) (db_placements db # w_peers w) r cfg topo of
                Inl e \<Rightarrow> Inl e
              | Inr r \<Rightarrow>
                  (let r = (if State r \<noteq> VMStateCreating \<and> needsQuiesce r then r\<lparr>QuiescePending := True\<rparr> else r)
                   in Inr (r, tx_Put vid r db)))) w)"

section \<open>Delete protocol\<close>

definition RemoveVMDirs :: "'k backend \<Rightarrow> string \<Rightarrow> string \<Rightarrow> ('k, unit) vmact" where
  "RemoveVMDirs b runDir logDir =
     act_try (on_host (sys_removeall (bk_host b) runDir)) (\<lambda>r1.
     act_try (on_host (sys_removeall (bk_host b) logDir)) (\<lambda>r2.
       act_res (case r1 of Inl e \<Rightarrow> Inl e | Inr _ \<Rightarrow> r2)))"

definition finishVMTeardown :: "'k backend \<Rightarrow> string \<Rightarrow> string \<Rightarrow> vmCleanup \<Rightarrow> ('k, unit) vmact" where
  "finishVMTeardown b vid leaseID cl =
     act_bind (cleanupNetwork b vid) (\<lambda>_.
     act_bind (RemoveVMDirs b (vc_RunDir cl) (vc_LogDir cl)) (\<lambda>_.
     act_bind (removeCgroupScope b vid) (\<lambda>_.
     act_try (vm_update (\<lambda>db.
         (let db = tx_NameDelIfOwned (vc_Name cl) vid (tx_Del vid db)
          in res_map (\<lambda>T. ((), db\<lparr>db_tombs := T\<rparr>)) (spec_Finalize (db_tombs db) vid leaseID))))
       (\<lambda>r. act_res (if r = Inl ErrLost then Inr () else r)))))"

text \<open>Decoding a payload into a value that is already there keeps the fields the payload leaves out.\<close>

definition merge_cleanup :: "vmCleanup \<Rightarrow> vmCleanup \<Rightarrow> vmCleanup" where
  "merge_cleanup cl p =
     \<lparr>vc_Name = cmp_Or [vc_Name p, vc_Name cl], vc_RunDir = cmp_Or [vc_RunDir p, vc_RunDir cl],
      vc_LogDir = cmp_Or [vc_LogDir p, vc_LogDir cl]\<rparr>"

definition deleteVMProtocol :: "'k backend \<Rightarrow> string \<Rightarrow> VMRecord \<Rightarrow> ('k, unit) vmact" where
  "deleteVMProtocol b vid rec =
     (let cl = \<lparr>vc_Name = Name (Config rec), vc_RunDir = RunDir rec, vc_LogDir = LogDir rec\<rparr> in
      act_bind timeNow (\<lambda>now.
      act_bind GenerateID (\<lambda>lease.
      act_bind (vm_update (\<lambda>db.
          if tget (db_records db) vid = None then Inl ErrVMNotFound
          else (case spec_Acquire lease now (db_tombs db) vid (Inr \<lparr>pl_mode = ModeAggregate, pl_cleanup = cl\<rparr>) of
                  Inl e \<Rightarrow> Inl e
                | Inr ((leaseID, resumed), T) \<Rightarrow>
                    Inr ((leaseID, case resumed of None \<Rightarrow> cl | Some t \<Rightarrow> merge_cleanup cl (pl_cleanup (tb_payload t))), db\<lparr>db_tombs := T\<rparr>))))
        (\<lambda>(leaseID, cl).
      act_bind (vm_update (\<lambda>db. res_map (\<lambda>T. ((), db\<lparr>db_tombs := T\<rparr>)) (spec_MarkDeleting (db_tombs db) vid leaseID)))
        (\<lambda>_. finishVMTeardown b vid leaseID cl)))))"

definition RecoverTombstone :: "'k backend \<Rightarrow> string \<Rightarrow> ('k, bool) vmact" where
  "RecoverTombstone b vid =
     act_bind timeNow (\<lambda>now.
     act_bind GenerateID (\<lambda>lease.
     act_bind (vm_update (\<lambda>db.
         (case spec_Recover Inr lease now (db_tombs db) vid of
            Inl e \<Rightarrow> Inl e
          | Inr (None, T) \<Rightarrow> Inr (None, db\<lparr>db_tombs := T\<rparr>)
          | Inr (Some (t, cl), T) \<Rightarrow> Inr (Some (tb_lease t, cl, tget (db_records db) vid), db\<lparr>db_tombs := T\<rparr>))))
       (\<lambda>found. case found of
           None \<Rightarrow> act_return False
         | Some (leaseID, cl, vm) \<Rightarrow>
             act_bind (finishVMTeardown b vid leaseID cl) (\<lambda>_.
             act_bind (case vm of
                 None \<Rightarrow> act_return ()
               | Some r \<Rightarrow>
                   if State r \<noteq> VMStateCreating
                   then emitDeleteClose b vid (shapeFromConfig (Config r)) ReasonStopCrash (hasOpenComputeInterval r)
                   else act_return ()) (\<lambda>_. act_return True)))))"

text \<open>
  The take-over happens under the VM's lock, so the tombstone the view saw is still there; its absence,
  on which the source would fault, is an error.
\<close>

definition entryGuard :: "'k backend \<Rightarrow> string \<Rightarrow> ('k, VMRecord option) vmact" where
  "entryGuard b vid =
     act_bind (vm_view (\<lambda>db. Inr (tget (db_tombs db) vid, tget (db_records db) vid))) (\<lambda>(ts, rec).
       case ts of
         None \<Rightarrow> act_return rec
       | Some t \<Rightarrow>
           if tb_phase t \<noteq> PhaseLeased
           then act_bind (RecoverTombstone b vid) (\<lambda>_. act_fail ErrVMNotFound)
           else
             act_bind timeNow (\<lambda>now.
             act_bind GenerateID (\<lambda>lease.
             vm_update (\<lambda>db.
               (case spec_TakeOver lease now (db_tombs db) vid of
                  (None, T) \<Rightarrow> Inl (ErrMsg ''nil tombstone'')
                | (Some taken, T) \<Rightarrow>
                    (case spec_Rollback T vid (tb_lease taken) of
                       Inl e \<Rightarrow> Inl e
                     | Inr T' \<Rightarrow> Inr (tget (db_records db) vid, db\<lparr>db_tombs := T'\<rparr>)))))))"

definition EntryGuardLoad :: "'k backend \<Rightarrow> string \<Rightarrow> ('k, VMRecord) vmact" where
  "EntryGuardLoad b vid =
     act_bind (entryGuard b vid) (\<lambda>rec. case rec of None \<Rightarrow> act_fail (ErrMsg ''not found'') | Some r \<Rightarrow> act_return r)"

text \<open>Kills any VMM on the run directory's socket: the one of the pid file, then those the scan finds.\<close>

definition terminate :: "'k backend \<Rightarrow> int \<Rightarrow> string \<Rightarrow> ('k, unit) vmact" where
  "terminate b pid sockPath = on_host (TerminateProcess (bk_host b) (bk_grace b) (bk_hard b) pid sockPath)"

definition ensureOrphanVMMDead :: "'k backend \<Rightarrow> string \<Rightarrow> ('k, unit) vmact" where
  "ensureOrphanVMMDead b runDir =
     act_bind (get_host (\<lambda>h. ReadPIDFile (bk_host b) h (PIDFilePath b runDir))) (\<lambda>pid.
     act_bind (case pid of Inl _ \<Rightarrow> act_return () | Inr p \<Rightarrow> terminate b p (vm_SocketPath runDir)) (\<lambda>_.
     act_bind (\<lambda>w. (FindVMMByCmdline (bk_host b) (w_host w) (bk_Binary b) (vm_SocketPath runDir), w)) (\<lambda>pids.
     act_each (\<lambda>p. terminate b p (vm_SocketPath runDir)) pids)))"

section \<open>Locks\<close>

text \<open>Runs an operation under the VM's lock; the unlock's own error is dropped.\<close>

definition with_lock :: "'k backend \<Rightarrow> string \<Rightarrow> ('k, 'a) vmact \<Rightarrow> ('k, 'a) vmact" where
  "with_lock b vid m =
     act_bind (on_host (bk_lock b vid)) (\<lambda>_.
     act_try m (\<lambda>r. act_try (on_host (bk_unlock b vid)) (\<lambda>_. act_res r)))"

definition withOpsTryLock :: "'k backend \<Rightarrow> string \<Rightarrow> ('k, 'a) vmact \<Rightarrow> ('k, 'a option) vmact" where
  "withOpsTryLock b vid fn =
     act_try (on_host (bk_trylock b vid)) (\<lambda>got. case got of
         Inl _ \<Rightarrow> act_return None
       | Inr False \<Rightarrow> act_return None
       | Inr True \<Rightarrow>
           act_try fn (\<lambda>r. act_try (on_host (bk_unlock b vid)) (\<lambda>_. act_res (res_map Some r))))"

section \<open>Supervision\<close>

definition NeedsDeadConvergence :: "VMRecord \<Rightarrow> bool" where
  "NeedsDeadConvergence r =
     (if State r = VMStateCreating then False else State r = VMStateRunning \<or> hasOpenComputeInterval r)"

definition converge_dead_rec :: "'k backend \<Rightarrow> string \<Rightarrow> nat \<Rightarrow> VMRecord \<Rightarrow> VMRecord \<times> Entry list" where
  "converge_dead_rec b vid observedAt r =
     (let emits = (if hasOpenComputeInterval r
          then [makeEntry b KindVMComputeStop vid ReasonStopCrash (shapeFromConfig (Config r)) observedAt] else []);
          r = r\<lparr>StoppedAt := Some observedAt\<rparr>;
          r = markTransition VMStateStopped TransitionUnexpectedExit observedAt r
      in (r\<lparr>QuiescePending := needsQuiesce r\<rparr>, emits))"

definition convergeDeadRecord :: "'k backend \<Rightarrow> string \<Rightarrow> 64 word \<Rightarrow> nat \<Rightarrow> ('k, unit) vmact" where
  "convergeDeadRecord b vid gen observedAt =
     act_bind (vm_update (\<lambda>db. case tget (db_records db) vid of
         None \<Rightarrow> Inr ([], db)
       | Some r \<Rightarrow>
           if TransitionGeneration r \<noteq> gen \<or> \<not> NeedsDeadConvergence r then Inr ([], db)
           else (case converge_dead_rec b vid observedAt r of (r', emits) \<Rightarrow> Inr (emits, tx_Put vid r' db))))
       emitAll"

definition QuiesceIfPending :: "'k backend \<Rightarrow> string \<Rightarrow> ('k, unit) vmact" where
  "QuiesceIfPending b vid =
     (if bk_Net b = None then act_return ()
      else
        act_bind (vm_view (\<lambda>db. Inr (case tget (db_records db) vid of
            None \<Rightarrow> None | Some r \<Rightarrow> if QuiescePending r then Some r else None))) (\<lambda>vm.
          case vm of
            None \<Rightarrow> act_return ()
          | Some r \<Rightarrow> act_bind (quiesceNetwork b r) (\<lambda>_. clearQuiescePending vid (TransitionGeneration r))))"

definition ConvergeDead :: "'k backend \<Rightarrow> string \<Rightarrow> 64 word \<Rightarrow> nat \<Rightarrow> ('k, unit) vmact" where
  "ConvergeDead b vid gen observedAt =
     act_bind (convergeDeadRecord b vid gen observedAt) (\<lambda>_.
     act_bind (removeCgroupScope b vid) (\<lambda>_. QuiesceIfPending b vid))"

definition convergeCrashedStart :: "'k backend \<Rightarrow> VMRecord \<Rightarrow> ('k, unit) vmact" where
  "convergeCrashedStart b rec =
     (if \<not> NeedsDeadConvergence rec then act_return ()
      else act_bind timeNow (\<lambda>now. act_ignore (convergeDeadRecord b (ID rec) (TransitionGeneration rec) now)))"

definition collectStaleCreate :: "'k backend \<Rightarrow> string \<Rightarrow> VMRecord \<Rightarrow> ('k, unit) vmact" where
  "collectStaleCreate b vid rec =
     act_bind (ensureOrphanVMMDead b (RunDir rec)) (\<lambda>_. deleteVMProtocol b vid rec)"

datatype StaleCreateOutcome =
  StaleCreateCollected | StaleCreateBusy | StaleCreateNotCreating | StaleCreateNotFound

definition ReconcileStaleCreate :: "'k backend \<Rightarrow> string \<Rightarrow> ('k, StaleCreateOutcome) vmact" where
  "ReconcileStaleCreate b vid =
     act_bind (on_host (bk_trylock b vid)) (\<lambda>ok.
       if \<not> ok then act_return StaleCreateBusy
       else
         act_try (act_bind (PeekRecord vid) (\<lambda>rec. case rec of
             None \<Rightarrow> act_return StaleCreateNotFound
           | Some r \<Rightarrow>
               if State r \<noteq> VMStateCreating then act_return StaleCreateNotCreating
               else act_bind (collectStaleCreate b vid r) (\<lambda>_. act_return StaleCreateCollected)))
           (\<lambda>r. act_try (on_host (bk_unlock b vid)) (\<lambda>_. act_res r)))"

definition observe :: "'k backend \<Rightarrow> VMRecord \<Rightarrow> ProcScan option \<Rightarrow> ('k, ProcRef) vmact" where
  "observe b rec scan = withRunningVM b rec scan (\<lambda>pid w. (ProcRefOf (bk_host b) (w_host w) pid, w))"

end
