(* ===== verification/VmLife.thy ===== *)
theory VmLife
  imports VmOps
begin

text \<open>
  The life of a VM, from \<open>src/hypervisor\<close>: create (\<open>create.go\<close>), clone (\<open>clone.go\<close>), start and launch
  (\<open>start.go\<close>), stop and delete (\<open>stop.go\<close>). The fan-out of a batch runs its VMs one after another.
\<close>

section \<open>Create\<close>

definition zero_net :: NetSetup where
  "zero_net = \<lparr>NetBackend = '''', NetnsPath = '''', NetBridgeDev = '''', NetworkConfigs = []\<rparr>"

text \<open>A VM record with the given fields and the zero value in every other.\<close>

definition new_record ::
    "string \<Rightarrow> string \<Rightarrow> VMState \<Rightarrow> VMConfig \<Rightarrow> NetSetup \<Rightarrow> StorageConfig option list \<Rightarrow> nat \<Rightarrow> nat \<Rightarrow>
     string set \<Rightarrow> string \<Rightarrow> string \<Rightarrow> VMRecord" where
  "new_record vid typ state cfg net storage created updated blobIDs runDir logDir =
     \<lparr>NetBackend = NetBackend net, NetnsPath = NetnsPath net, NetBridgeDev = NetBridgeDev net,
      NetworkConfigs = NetworkConfigs net, ID = vid, Hypervisor = typ, State = state, Config = cfg, PID = 0,
      SocketPath = '''', VsockSocket = '''', ConsolePath = '''', CPUSet = '''', QueueCPUs = '''',
      StorageConfigs = storage, FirstBooted = False, SnapshotIDs = {}, TransitionGeneration = 0,
      LastTransitionReason = TransitionNone, LastTransitionAt = None, CreatedAt = created, UpdatedAt = updated,
      StartedAt = None, StoppedAt = None, BootCfg = None, ImageBlobIDs = blobIDs, RunDir = runDir, LogDir = logDir,
      Quarantine = '''', QuiescePending = False\<rparr>"

definition ReserveVM ::
    "'k backend \<Rightarrow> string \<Rightarrow> VMConfig \<Rightarrow> string set \<Rightarrow> string \<Rightarrow> string \<Rightarrow> ('k, unit) vmact" where
  "ReserveVM b vid vmCfg blobIDs runDir logDir =
     act_bind timeNow (\<lambda>now.
     vm_update (\<lambda>db. case tget (db_records db) vid of
         Some existing \<Rightarrow>
           if State existing = VMStateCreating \<and> Name (Config existing) = Name vmCfg
           then Inr ((), tx_Put vid (existing\<lparr>ImageBlobIDs := blobIDs, RunDir := runDir, LogDir := logDir, UpdatedAt := now\<rparr>) db)
           else Inl (ErrMsg ''id collision'')
       | None \<Rightarrow>
           (case tget (db_names db) (Name vmCfg) of
              Some dup \<Rightarrow>
                if dup \<noteq> vid then Inl (ErrMsg ''vm name already exists'')
                else Inr ((), tx_NameSet (Name vmCfg) vid (tx_Put vid
                       (new_record vid (bk_Typ b) VMStateCreating vmCfg zero_net [] now now blobIDs runDir logDir) db))
            | None \<Rightarrow> Inr ((), tx_NameSet (Name vmCfg) vid (tx_Put vid
                       (new_record vid (bk_Typ b) VMStateCreating vmCfg zero_net [] now now blobIDs runDir logDir) db)))))"

definition PrereserveVM :: "'k backend \<Rightarrow> string \<Rightarrow> VMConfig \<Rightarrow> string set \<Rightarrow> ('k, unit) vmact" where
  "PrereserveVM b vid vmCfg blobIDs = ReserveVM b vid vmCfg blobIDs (VMRunDir b vid) (VMLogDir b vid)"

definition RollbackCreate :: "string \<Rightarrow> string \<Rightarrow> ('k, unit) vmact" where
  "RollbackCreate vid name = act_ignore (vm_update (\<lambda>db. Inr ((), tx_NameDelIfOwned name vid (tx_Del vid db))))"

text \<open>The new record is \<open>info\<close>, of which only the VM part is used, with the placeholder's directories.\<close>

definition FinalizeCreate ::
    "'k backend \<Rightarrow> string \<Rightarrow> VMRecord \<Rightarrow> BootConfig option \<Rightarrow> string set \<Rightarrow> ('k, unit) vmact" where
  "FinalizeCreate b vid info bootCfg blobIDs =
     act_bind timeNow (\<lambda>now.
     act_bind (vm_update (\<lambda>db. case getRecord vid db of
         Inl e \<Rightarrow> Inl e
       | Inr existing \<Rightarrow>
           (let rec = info\<lparr>BootCfg := bootCfg, ImageBlobIDs := blobIDs, RunDir := RunDir existing, LogDir := LogDir existing,
                        Quarantine := '''', QuiescePending := False\<rparr>
            in Inr ((), tx_Put vid (markTransition (State info) TransitionCreate now rec) db)))) (\<lambda>_.
     act_bind timeNow (\<lambda>later.
     Emit (makeEntry b KindVMStorageStart vid ReasonBoot (shapeFromConfig (Config info)) later))))"

definition hostCPUCountAt :: "'k host \<Rightarrow> 'k \<Rightarrow> string \<Rightarrow> int \<Rightarrow> int" where
  "hostCPUCountAt K h path numCPU =
     (case ReadCPUList K h path of
        Inl _ \<Rightarrow> numCPU
      | Inr cpus \<Rightarrow> if cpus = [] then numCPU else int (length cpus))"

definition ValidateHostCPU :: "'k backend \<Rightarrow> int \<Rightarrow> ('k, unit) vmact" where
  "ValidateHostCPU b cpu w =
     (if cpu > hostCPUCountAt (bk_os b) (w_host w) (Join [sysCPURoot, ''online'']) (bk_NumCPU b)
      then (Inl (ErrMsg ''requested vCPUs exceed host cores''), w) else (Inr (), w))"

definition create_cleanup :: "'k backend \<Rightarrow> string \<Rightarrow> string \<Rightarrow> string \<Rightarrow> string \<Rightarrow> ('k, unit) vmact" where
  "create_cleanup b vid name runDir logDir =
     act_bind (RollbackCreate vid name) (\<lambda>_. act_ignore (RemoveVMDirs b runDir logDir))"

text \<open>Gives the run directory and the time; a failure after the reservation has been rolled back.\<close>

definition reservePlaceholder :: "'k backend \<Rightarrow> string \<Rightarrow> VMConfig \<Rightarrow> string set \<Rightarrow> ('k, string \<times> nat) vmact" where
  "reservePlaceholder b vid vmCfg blobIDs =
     (let runDir = VMRunDir b vid; logDir = VMLogDir b vid in
      act_bind (ValidateHostCPU b (CPU vmCfg)) (\<lambda>_.
      act_bind timeNow (\<lambda>now.
      act_bind (ReserveVM b vid vmCfg blobIDs runDir logDir) (\<lambda>_.
      act_try (on_host (EnsureDirs (bk_os b) [runDir, logDir])) (\<lambda>r. case r of
          Inl e \<Rightarrow> act_bind (create_cleanup b vid (Name vmCfg) runDir logDir) (\<lambda>_. act_fail e)
        | Inr _ \<Rightarrow> act_return (runDir, now))))))"

definition IsDirectBoot :: "BootConfig option \<Rightarrow> bool" where
  "IsDirectBoot boot = (case boot of None \<Rightarrow> False | Some bc \<Rightarrow> KernelPath bc \<noteq> '''')"

definition BlobHexFromPath :: "string \<Rightarrow> string" where
  "BlobHexFromPath path = (let base = Base path in fst (CutSuffix base (Ext base)))"

definition ExtractBlobIDs :: "StorageConfig list \<Rightarrow> BootConfig option \<Rightarrow> string set" where
  "ExtractBlobIDs storageConfigs boot =
     (if IsDirectBoot boot
      then set (map (\<lambda>s. BlobHexFromPath (sc_Path s)) (filter (\<lambda>s. sc_Role s = StorageRoleLayer) storageConfigs)) \<union>
           {Base (Dir (KernelPath (the boot)))} \<union>
           (if InitrdPath (the boot) \<noteq> '''' then {Base (Dir (InitrdPath (the boot)))} else {})
      else (case storageConfigs of [] \<Rightarrow> {} | s # _ \<Rightarrow> {BlobHexFromPath (sc_Path s)}))"

record 'k CreateSpec =
  cs_VMCfg :: VMConfig
  cs_Storage :: "StorageConfig list"
  cs_Net :: NetSetup
  cs_Boot :: "BootConfig option"
  cs_Prepare :: "('k, StorageConfig option list \<times> BootConfig option) act"

text \<open>\<open>Prepare\<close> gives the disks and leaves the boot configuration changed or not.\<close>

definition CreateSequence :: "'k backend \<Rightarrow> string \<Rightarrow> 'k CreateSpec \<Rightarrow> ('k, VMRecord) vmact" where
  "CreateSequence b vid spec =
     (let blobIDs = ExtractBlobIDs (cs_Storage spec) (cs_Boot spec); cfg = cs_VMCfg spec in
      act_bind (reservePlaceholder b vid cfg blobIDs) (\<lambda>(runDir, now).
      act_try (
        act_bind (on_host (cs_Prepare spec)) (\<lambda>(prepared, boot).
        act_bind (act_res (ValidateStorageConfigs prepared)) (\<lambda>_.
        (let info = new_record vid (bk_Typ b) VMStateCreated cfg (cs_Net spec) prepared now now {} '''' '''' in
         act_bind (FinalizeCreate b vid info boot blobIDs) (\<lambda>_. act_return info)))))
      (\<lambda>r. case r of
          Inl e \<Rightarrow> act_bind (create_cleanup b vid (Name cfg) runDir (VMLogDir b vid)) (\<lambda>_. act_fail e)
        | Inr info \<Rightarrow> act_return info)))"

section \<open>Clone\<close>

definition consolePathFromRunDir :: "'k backend \<Rightarrow> 'k \<Rightarrow> string \<Rightarrow> string" where
  "consolePathFromRunDir b h runDir =
     (if FileExists (bk_os b) h (Join [runDir, ''console.sock'']) then Join [runDir, ''console.sock'']
      else (case sys_read (bk_host b) h (Join [runDir, ''console.pty'']) of Inl _ \<Rightarrow> '''' | Inr pty \<Rightarrow> TrimSpace pty))"

definition SetRunningSockets :: "'k backend \<Rightarrow> 'k \<Rightarrow> string \<Rightarrow> VMRecord \<Rightarrow> VMRecord" where
  "SetRunningSockets b h runDir info =
     (let info = info\<lparr>SocketPath := vm_SocketPath runDir\<rparr>;
          info = (if FileExists (bk_os b) h (Join [runDir, ''vsock.uds''])
                  then info\<lparr>VsockSocket := Join [runDir, ''vsock.uds'']\<rparr> else info)
      in info\<lparr>ConsolePath := consolePathFromRunDir b h runDir\<rparr>)"

definition ToVM :: "'k backend \<Rightarrow> 'k \<Rightarrow> VMRecord \<Rightarrow> VMRecord" where
  "ToVM b h rec =
     (let info = rec\<lparr>Hypervisor := bk_Typ b, SocketPath := '''', VsockSocket := '''', ConsolePath := ''''\<rparr>
      in if State info = VMStateRunning
         then
           (let info = SetRunningSockets b h (RunDir rec) info;
                pid = (case ReadPIDFile (bk_host b) h (PIDFilePath b (RunDir rec)) of Inl _ \<Rightarrow> 0 | Inr p \<Rightarrow> p)
            in info\<lparr>PID := (if VerifyProcessCmdline (bk_host b) h pid (SocketPath info) then pid else 0)\<rparr>)
         else info)"

definition RunningCloneRecord ::
    "'k backend \<Rightarrow> VMRecord \<Rightarrow> VMConfig \<Rightarrow> StorageConfig option list \<Rightarrow> NetSetup \<Rightarrow> ('k, VMRecord) vmact" where
  "RunningCloneRecord b rec vmCfg storage net =
     act_bind timeNow (\<lambda>now.
     get_host (\<lambda>h. SetRunningSockets b h (RunDir rec)
       ((new_record (ID rec) (bk_Typ b) VMStateRunning vmCfg net storage (CreatedAt rec) now {} '''' '''')
          \<lparr>CPUSet := CPUSet rec, QueueCPUs := QueueCPUs rec, StartedAt := Some now\<rparr>)))"

text \<open>\<open>r.VM = *info\<close>: the VM part of the record is replaced, the rest is kept.\<close>

definition set_vm :: "VMRecord \<Rightarrow> VMRecord \<Rightarrow> VMRecord" where
  "set_vm info r =
     info\<lparr>BootCfg := BootCfg r, ImageBlobIDs := ImageBlobIDs r, RunDir := RunDir r, LogDir := LogDir r,
          Quarantine := Quarantine r, QuiescePending := QuiescePending r\<rparr>"

definition FinalizeClone ::
    "'k backend \<Rightarrow> string \<Rightarrow> VMRecord \<Rightarrow> BootConfig option \<Rightarrow> string set option \<Rightarrow> string \<Rightarrow> Reason \<Rightarrow> ('k, unit) vmact" where
  "FinalizeClone b vid info bootCfg blobIDs sourceSnapshotID reason =
     act_bind timeNow (\<lambda>now.
     act_bind (UpdateRecord vid (\<lambda>r.
         (let r = markTransition (State info) TransitionClone now (set_vm info r);
              r = r\<lparr>BootCfg := bootCfg, FirstBooted := True\<rparr>
          in Inr (case blobIDs of None \<Rightarrow> r | Some ids \<Rightarrow> r\<lparr>ImageBlobIDs := ids\<rparr>)))) (\<lambda>_.
     act_bind timeNow (\<lambda>later. emitOpenInterval b (ID info) (Config info) reason sourceSnapshotID later)))"

text \<open>The population of the run directory hands what it read, of type \<open>'m\<close>, to the hook after it.\<close>

record ('k, 'm) CloneSpec =
  cl_VMCfg :: VMConfig
  cl_Snapshot :: SnapshotConfig
  cl_AfterExtract :: "'m \<Rightarrow> VMRecord \<Rightarrow> ('k, VMRecord) vmact"

definition cloneBase :: "'k backend \<Rightarrow> string \<Rightarrow> ('k, 'm) CloneSpec \<Rightarrow> (string \<Rightarrow> ('k, 'm) act) \<Rightarrow> ('k, VMRecord) vmact" where
  "cloneBase b vid spec populate =
     (let cfg = cl_VMCfg spec in
      act_bind (reservePlaceholder b vid cfg (sn_ImageBlobIDs (cl_Snapshot spec))) (\<lambda>(runDir, now).
      act_try (
        act_bind (placeRecord b vid cfg) (\<lambda>rec.
        act_bind (on_host (populate runDir)) (\<lambda>read. cl_AfterExtract spec read rec)))
      (\<lambda>r. case r of
          Inl e \<Rightarrow> act_bind (create_cleanup b vid (Name cfg) runDir (VMLogDir b vid)) (\<lambda>_. act_fail e)
        | Inr info \<Rightarrow> act_return info)))"

section \<open>Start\<close>

text \<open>A name with glob characters is expanded by \<open>expand\<close>.\<close>

definition CleanupRuntimeFiles :: "'k backend \<Rightarrow> ('k \<Rightarrow> string \<Rightarrow> string \<Rightarrow> string list) \<Rightarrow> string \<Rightarrow> string list \<Rightarrow> ('k, unit) vmact" where
  "CleanupRuntimeFiles b expand runDir files =
     act_each (\<lambda>pattern.
       act_bind (get_host (\<lambda>h. if ContainsAny pattern ''*?['' then expand h runDir pattern else [pattern])) (\<lambda>names.
       act_each (\<lambda>name. act_ignore (on_host (sys_remove (bk_host b) (Join [runDir, name])))) names)) files"

record 'k StartSpec =
  st_RuntimeFiles :: "string list"
  st_Expand :: "'k \<Rightarrow> string \<Rightarrow> string \<Rightarrow> string list"
  st_Launch :: "VMRecord \<Rightarrow> string \<Rightarrow> ('k, int) act"
  st_PostLaunch :: "(VMRecord \<Rightarrow> string \<Rightarrow> int \<Rightarrow> ('k, unit) act) option"
  st_ConvergeRunning :: "VMRecord \<Rightarrow> string \<Rightarrow> int \<Rightarrow> ('k, unit) act"

text \<open>The check of the restore marker: an older one is removed, a newer one or a failed check refuses.\<close>

definition check_restore_marker :: "'k backend \<Rightarrow> VMRecord \<Rightarrow> ('k, unit) vmact" where
  "check_restore_marker b rec =
     (let markerPath = Join [RunDir rec, restoreDirtyName] in
      act_bind (get_host (\<lambda>h. bk_mtime b h markerPath)) (\<lambda>st. case st of
          Inr mtime \<Rightarrow>
            if StartedAt rec \<noteq> None \<and> mtime < the (StartedAt rec)
            then act_try (on_host (sys_remove (bk_host b) markerPath)) (\<lambda>r. case r of
                Inl e \<Rightarrow> if e = ErrNotExist then act_return () else act_fail e
              | Inr _ \<Rightarrow> act_return ())
            else act_fail (ErrMsg ''interrupted restore'')
        | Inl e \<Rightarrow> if e = ErrNotExist then act_return () else act_fail e))"

definition PrepareStart :: "'k backend \<Rightarrow> string \<Rightarrow> ProcScan option \<Rightarrow> 'k StartSpec \<Rightarrow> ('k, VMRecord option) vmact" where
  "PrepareStart b vid scan spec =
     act_bind (EntryGuardLoad b vid) (\<lambda>rec.
       if Quarantine rec \<noteq> '''' then act_fail (ErrMsg ''quarantined'')
       else if State rec = VMStateCreating then act_fail (ErrMsg ''still being created'')
       else
         act_bind (check_restore_marker b rec) (\<lambda>_.
         act_try (withRunningVM b rec scan (\<lambda>pid.
             act_bind (on_host (st_ConvergeRunning spec rec (vm_SocketPath (RunDir rec)) pid)) (\<lambda>_.
             if State rec \<noteq> VMStateRunning then act_ignore (ReconcileToRunning b vid) else act_return ())))
           (\<lambda>runErr. case runErr of
              Inr _ \<Rightarrow> act_return None
            | Inl e \<Rightarrow>
                if e \<noteq> ErrNotRunning then act_fail e
                else
                  act_bind (convergeCrashedStart b rec) (\<lambda>_.
                  act_bind (on_host (EnsureDirs (bk_os b) [RunDir rec, LogDir rec])) (\<lambda>_.
                  act_bind (CleanupRuntimeFiles b (st_Expand spec) (RunDir rec) (st_RuntimeFiles spec)) (\<lambda>_.
                  (case validateRecordInvariants rec of
                     Inl e \<Rightarrow> act_bind (MarkError b vid) (\<lambda>_. act_fail e)
                   | Inr _ \<Rightarrow> act_bind (placeRecord b vid (Config rec)) (\<lambda>placed. act_return (Some placed)))))))))"

definition AbortLaunch :: "'k backend \<Rightarrow> 'k StartSpec \<Rightarrow> int \<Rightarrow> string \<Rightarrow> string \<Rightarrow> ('k, unit) vmact" where
  "AbortLaunch b spec pid sockPath runDir =
     act_bind (act_ignore (terminate b pid sockPath)) (\<lambda>_.
     CleanupRuntimeFiles b (st_Expand spec) runDir (st_RuntimeFiles spec))"

definition start_locked :: "'k backend \<Rightarrow> string \<Rightarrow> ProcScan option \<Rightarrow> 'k StartSpec \<Rightarrow> ('k, unit) vmact" where
  "start_locked b vid scan spec =
     act_bind (PrepareStart b vid scan spec) (\<lambda>prepared. case prepared of
         None \<Rightarrow> act_return ()
       | Some rec \<Rightarrow>
           act_try (RecoverNetwork b rec) (\<lambda>r. case r of
               Inl e \<Rightarrow> act_bind (markFailedOperation vid True) (\<lambda>_. act_fail e)
             | Inr _ \<Rightarrow>
                 (let sockPath = vm_SocketPath (RunDir rec) in
                  act_try (on_host (st_Launch spec rec sockPath)) (\<lambda>l. case l of
                      Inl e \<Rightarrow> act_bind (markFailedOperation vid True) (\<lambda>_. act_fail e)
                    | Inr pid \<Rightarrow>
                        act_try (case st_PostLaunch spec of
                            None \<Rightarrow> act_return ()
                          | Some post \<Rightarrow> on_host (post rec sockPath pid)) (\<lambda>p. case p of
                            Inl e \<Rightarrow>
                              act_bind (AbortLaunch b spec pid sockPath (RunDir rec)) (\<lambda>_.
                              act_bind (markFailedOperation vid True) (\<lambda>_. act_fail e))
                          | Inr _ \<Rightarrow> act_ignore (MarkStarted b vid))))))"

definition StartSequence :: "'k backend \<Rightarrow> string \<Rightarrow> ProcScan option \<Rightarrow> 'k StartSpec \<Rightarrow> ('k, unit) vmact" where
  "StartSequence b vid scan spec = with_lock b vid (start_locked b vid scan spec)"

text \<open>
  What a launch needs of the operating system: entering and leaving a network namespace, spawning the
  VMM into a scope, dialing its socket, and killing and reaping it.
\<close>

record 'k launch_hooks =
  lh_Enter :: "string \<Rightarrow> ('k, unit) act"
  lh_Leave :: "('k, unit) act"
  lh_Spawn :: "string \<Rightarrow> ('k, int) act"
  lh_Check :: "'k \<Rightarrow> string \<Rightarrow> bool"
  lh_Kill :: "int \<Rightarrow> ('k, unit) act"

definition WaitForSocket :: "'k backend \<Rightarrow> 'k launch_hooks \<Rightarrow> string \<Rightarrow> int \<Rightarrow> wait_event list \<Rightarrow> ('k, unit) act" where
  "WaitForSocket b H socketPath pid evs =
     WaitFor (\<lambda>h. if lh_Check H h socketPath then (Inr True, h)
       else if \<not> IsProcessAlive (bk_host b) h pid then (Inl (ErrMsg ''exited before socket was ready''), h)
       else (Inr False, h)) evs"

definition spawn_vmm :: "'k backend \<Rightarrow> 'k launch_hooks \<Rightarrow> VMRecord \<Rightarrow> string \<Rightarrow> wait_event list \<Rightarrow> ('k, int \<times> unit res) act" where
  "spawn_vmm b H rec scope evs =
     act_bind (lh_Spawn H scope) (\<lambda>pid.
     act_try (act_bind (sys_write (bk_host b) (PIDFilePath b (RunDir rec)) (itoa_int pid @ [char_of (10 :: nat)])) (\<lambda>_.
         WaitForSocket b H (vm_SocketPath (RunDir rec)) pid evs)) (\<lambda>r. act_return (pid, r)))"

definition LaunchVMProcess ::
    "'k backend \<Rightarrow> 'k launch_hooks \<Rightarrow> VMRecord \<Rightarrow> string \<Rightarrow> bool \<Rightarrow> wait_event list \<Rightarrow> ('k, int) act" where
  "LaunchVMProcess b H rec netns deferQuota evs =
     (let knobs = (ResolveKnobs (Config rec))\<lparr>kn_CPUSet := CPUSet rec\<rparr> in
      act_bind (Prepare (bk_os b) (bk_rmwait b) (bk_CgroupParentDir b) (bk_CgroupCPUFence b) (ID rec) knobs deferQuota)
        (\<lambda>scope.
      act_bind (if netns = '''' then spawn_vmm b H rec scope evs
                else act_bind (lh_Enter H netns) (\<lambda>_.
                  act_try (spawn_vmm b H rec scope evs) (\<lambda>r. act_try (lh_Leave H) (\<lambda>_. act_res r))))
        (\<lambda>(pid, r). case r of
            Inr _ \<Rightarrow> act_return pid
          | Inl e \<Rightarrow>
              act_bind (act_ignore (lh_Kill H pid)) (\<lambda>_.
              act_bind (act_ignore (sys_remove (bk_host b) (PIDFilePath b (RunDir rec)))) (\<lambda>_. act_fail e)))))"

definition ArmCPUQuota :: "'k backend \<Rightarrow> string \<Rightarrow> 'a config_scheme \<Rightarrow> ('k, unit) act" where
  "ArmCPUQuota b vid cfg = Arm (bk_os b) (bk_CgroupParentDir b) vid (ResolveKnobs cfg)"

definition ForEachVM :: "string list \<Rightarrow> (string \<Rightarrow> ('k, unit) vmact) \<Rightarrow> 'k world \<Rightarrow> string batch \<times> 'k world" where
  "ForEachVM ids fn w = ForEach ids fn w"

definition StartAll ::
    "'k backend \<Rightarrow> string list \<Rightarrow> (string \<Rightarrow> ProcScan \<Rightarrow> ('k, unit) vmact) \<Rightarrow> ('k, string batch) vmact" where
  "StartAll b refs startOne =
     act_bind (ResolveRefs refs) (\<lambda>ids.
     act_bind (\<lambda>w. (ScanProcsByBinary (bk_host b) (w_host w) (bk_Binary b), w)) (\<lambda>scan w.
       (case ForEachVM ids (\<lambda>vid. startOne vid scan) w of (r, w') \<Rightarrow> (Inr r, w'))))"

section \<open>Stop and delete\<close>

text \<open>\<open>ctx\<close> is the context's error after the wait, if it ended.\<close>

definition GracefulStop ::
    "'k backend \<Rightarrow> wait_event list \<Rightarrow> err option \<Rightarrow> int \<Rightarrow> ('k, unit) act \<Rightarrow> ('k, unit) act \<Rightarrow> ('k, unit) act" where
  "GracefulStop b evs ctx pid signal escalate =
     act_try signal (\<lambda>r. case r of
         Inl _ \<Rightarrow> escalate
       | Inr _ \<Rightarrow>
           act_try (WaitProcessExit (bk_host b) evs pid) (\<lambda>x. case x of
               Inr _ \<Rightarrow> act_return ()
             | Inl _ \<Rightarrow> (case ctx of Some e \<Rightarrow> act_fail e | None \<Rightarrow> escalate)))"

record 'k StopSpec =
  sp_RuntimeFiles :: "string list"
  sp_Expand :: "'k \<Rightarrow> string \<Rightarrow> string \<Rightarrow> string list"
  sp_Shutdown :: "VMRecord \<Rightarrow> string \<Rightarrow> int \<Rightarrow> ('k, unit) act"

definition StopOneLocked :: "'k backend \<Rightarrow> string \<Rightarrow> 'k StopSpec \<Rightarrow> ('k, unit) vmact" where
  "StopOneLocked b vid spec =
     act_bind (LoadRecord vid) (\<lambda>rec.
       if State rec = VMStateCreating then act_fail (ErrMsg ''still being created'')
       else
         act_try (withRunningVM b rec None (\<lambda>pid. on_host (sp_Shutdown spec rec (vm_SocketPath (RunDir rec)) pid)))
           (\<lambda>shutdownErr.
              if (case shutdownErr of Inl e \<Rightarrow> e \<noteq> ErrNotRunning | Inr _ \<Rightarrow> False)
              then act_bind (MarkError b vid) (\<lambda>_. act_res shutdownErr)
              else
                (let settled = (shutdownErr = Inl ErrNotRunning \<and> State rec = VMStateStopped \<and> \<not> hasOpenComputeInterval rec) in
                 act_bind (CleanupRuntimeFiles b (sp_Expand spec) (RunDir rec) (sp_RuntimeFiles spec)) (\<lambda>_.
                 act_bind (removeCgroupScope b vid) (\<lambda>_.
                 act_bind (if settled then act_return False
                           else act_try (UpdateState b vid VMStateStopped) (\<lambda>u. act_return (u = Inr ()))) (\<lambda>transitioned.
                 quiesceAfterStop b vid rec (\<not> settled) transitioned))))))"

definition StopOneSequence :: "'k backend \<Rightarrow> string \<Rightarrow> 'k StopSpec \<Rightarrow> ('k, unit) vmact" where
  "StopOneSequence b vid spec = with_lock b vid (StopOneLocked b vid spec)"

definition StopAll :: "'k backend \<Rightarrow> string list \<Rightarrow> 'k StopSpec \<Rightarrow> ('k, string batch) vmact" where
  "StopAll b refs spec =
     act_bind (ResolveRefs refs) (\<lambda>ids w.
       (case ForEachVM ids (\<lambda>vid. StopOneSequence b vid spec) w of (r, w') \<Rightarrow> (Inr r, w')))"

text \<open>The kill of the processes that the earlier scan found on the socket and that still match.\<close>

definition kill_found :: "'k backend \<Rightarrow> ProcScan \<Rightarrow> string \<Rightarrow> ('k, unit) vmact" where
  "kill_found b procScan sockPath =
     act_each (\<lambda>pid.
       act_bind (get_host (\<lambda>h. VerifyProcessCmdline (bk_host b) h pid sockPath)) (\<lambda>live.
         if \<not> live then act_return () else terminate b pid sockPath))
       (Find procScan sockPath)"

definition deleteOneLocked ::
    "'k backend \<Rightarrow> string \<Rightarrow> bool \<Rightarrow> (string \<Rightarrow> ('k, unit) vmact) \<Rightarrow> VMRecord \<Rightarrow> ProcScan \<Rightarrow> ('k, unit) vmact" where
  "deleteOneLocked b vid force stopLocked rec procScan =
     (let sockPath = vm_SocketPath (RunDir rec) in
      act_bind (get_host (\<lambda>h. running_pid b h rec (Some procScan))) (\<lambda>up.
      act_try (withRunningVM b rec (Some procScan) (\<lambda>_.
          if \<not> force then act_fail (ErrMsg ''running (force required)'')
          else if State rec = VMStateCreating then ensureOrphanVMMDead b (RunDir rec)
          else stopLocked vid))
        (\<lambda>runningErr.
           (let stoppedByUs = (force \<and> (case up of Inr _ \<Rightarrow> True | Inl _ \<Rightarrow> False)) in
            if (case runningErr of Inl e \<Rightarrow> e \<noteq> ErrNotRunning | Inr _ \<Rightarrow> False) then act_res runningErr
            else
              act_bind (get_host (\<lambda>h. IsAPISocketLive b h rec)) (\<lambda>(live, probeErr).
                if live then act_fail (ErrMsg ''refuse delete: api socket'')
                else
                  act_bind (kill_found b procScan sockPath) (\<lambda>_.
                  act_bind (if stoppedByUs
                      then act_try (LoadRecord vid) (\<lambda>f. act_return (case f of
                          Inr fresh \<Rightarrow> hasOpenComputeInterval fresh
                        | Inl _ \<Rightarrow> hasOpenComputeInterval rec))
                      else act_return (hasOpenComputeInterval rec)) (\<lambda>hadRunningInterval.
                  act_bind (deleteVMProtocol b vid rec) (\<lambda>_.
                    if State rec = VMStateCreating then act_return ()
                    else emitDeleteClose b vid (shapeFromConfig (Config rec))
                      (if stoppedByUs then ReasonStopUser else ReasonStopCrash) hadRunningInterval))))))))"

definition DeleteAll ::
    "'k backend \<Rightarrow> string list \<Rightarrow> bool \<Rightarrow> (string \<Rightarrow> ('k, unit) vmact) \<Rightarrow> ('k, string batch) vmact" where
  "DeleteAll b refs force stopLocked =
     act_bind (ResolveRefs refs) (\<lambda>ids.
     act_bind (\<lambda>w. (ScanProcsByBinary (bk_host b) (w_host w) (bk_Binary b), w)) (\<lambda>procScan w.
       (case ForEachVM ids (\<lambda>vid. with_lock b vid (
            act_bind (LoadRecord vid) (\<lambda>rec. deleteOneLocked b vid force stopLocked rec procScan))) w of
          (r, w') \<Rightarrow> (Inr r, w'))))"

end
