(* ===== verification/VmRestore.thy ===== *)
theory VmRestore
  imports VmLife
begin

text \<open>
  Restore (\<open>src/hypervisor/restore.go\<close>), snapshot and hibernate (\<open>snapshot.go\<close>), as sequences over the hooks of a
  driver.
\<close>

section \<open>Restore\<close>

definition sameImage :: "VMConfig \<Rightarrow> VMConfig \<Rightarrow> bool" where
  "sameImage a b =
     (if ImageType a \<noteq> ImageType b then False
      else if ImageDigest a \<noteq> '''' \<and> ImageDigest b \<noteq> '''' then ImageDigest a = ImageDigest b
      else ImageName a = ImageName b)"

definition restorableState :: "VMRecord \<Rightarrow> unit res" where
  "restorableState rec =
     (if State rec \<noteq> VMStateRunning \<and> State rec \<noteq> VMStateStopped \<and> State rec \<noteq> VMStateError
      then Inl (ErrMsg ''cannot be restored'') else Inr ())"

definition failRestore :: "'k backend \<Rightarrow> string \<Rightarrow> VMState \<Rightarrow> ('k, unit) vmact" where
  "failRestore b vid origin = (if origin = VMStateStopped then act_return () else MarkError b vid)"

definition KillForRestore ::
    "'k backend \<Rightarrow> ('k \<Rightarrow> string \<Rightarrow> string \<Rightarrow> string list) \<Rightarrow> string list \<Rightarrow> (int \<Rightarrow> ('k, unit) act) \<Rightarrow>
     string \<Rightarrow> VMRecord \<Rightarrow> ('k, unit) vmact" where
  "KillForRestore b expand runtimeFiles kill vid rec =
     act_try (withRunningVM b rec None (\<lambda>pid. on_host (kill pid))) (\<lambda>killErr.
       if (case killErr of Inl e \<Rightarrow> e \<noteq> ErrNotRunning | Inr _ \<Rightarrow> False)
       then act_bind (failRestore b vid (State rec)) (\<lambda>_. act_res killErr)
       else CleanupRuntimeFiles b expand (RunDir rec) runtimeFiles)"

definition emitRestoreComputeStop :: "'k backend \<Rightarrow> string \<Rightarrow> Shape \<Rightarrow> string \<Rightarrow> ('k, unit) vmact" where
  "emitRestoreComputeStop b vid oldShape sourceSnapshotID =
     act_bind timeNow (\<lambda>now.
     act_ignore (act_bind (vm_update (\<lambda>db. case tget (db_records db) vid of
         None \<Rightarrow> Inr (False, db)
       | Some r \<Rightarrow>
           if \<not> hasOpenComputeInterval r then Inr (False, db)
           else
             (let r = markTransition VMStateStopped TransitionRestore now r;
                  r = r\<lparr>StoppedAt := Some now\<rparr>
              in Inr (True, tx_Put vid (r\<lparr>QuiescePending := needsQuiesce r\<rparr>) db))))
       (\<lambda>closed. if \<not> closed then act_return ()
          else Emit (makeSourceEntry b KindVMComputeStop vid sourceSnapshotID ReasonRestore oldShape now))))"

definition FinalizeRestore :: "'k backend \<Rightarrow> string \<Rightarrow> VMConfig \<Rightarrow> VMRecord \<Rightarrow> int \<Rightarrow> ('k, VMRecord) vmact" where
  "FinalizeRestore b vid vmCfg rec pid =
     act_bind timeNow (\<lambda>now.
     act_bind (UpdateRecord vid (\<lambda>r.
         (let r = markTransition VMStateRunning TransitionRestore now (r\<lparr>Config := vmCfg\<rparr>)
          in Inr (r\<lparr>Quarantine := '''', StartedAt := Some now, StoppedAt := None, QuiescePending := False\<rparr>)))) (\<lambda>_.
     act_bind (act_ignore (on_host (sys_remove (bk_host b) (Join [RunDir rec, restoreDirtyName])))) (\<lambda>_.
     get_host (\<lambda>h.
       (SetRunningSockets b h (RunDir rec) (rec\<lparr>Config := vmCfg, State := VMStateRunning, PID := pid\<rparr>))
         \<lparr>StartedAt := Some now, UpdatedAt := now\<rparr>))))"

record 'k restoreRun =
  rr_vmID :: string
  rr_rec :: VMRecord
  rr_vmCfg :: VMConfig
  rr_source :: string
  rr_kill :: "string \<Rightarrow> VMRecord \<Rightarrow> ('k, unit) vmact"
  rr_apply :: "VMRecord \<Rightarrow> ('k, unit) vmact"
  rr_afterExtract :: "string \<Rightarrow> VMConfig \<Rightarrow> VMRecord \<Rightarrow> ('k, VMRecord) vmact"

definition restore_inner :: "'k backend \<Rightarrow> 'k restoreRun \<Rightarrow> ('k, VMRecord) vmact" where
  "restore_inner b run =
     (let rec = rr_rec run in
      act_bind (on_host (sys_write (bk_host b) (Join [RunDir rec, restoreDirtyName]) '''')) (\<lambda>_.
      act_bind (rr_apply run rec) (\<lambda>_.
      act_bind (RecoverNetwork b rec) (\<lambda>_.
      act_bind (placeRecord b (rr_vmID run) (rr_vmCfg run)) (\<lambda>placed.
      rr_afterExtract run (rr_vmID run) (rr_vmCfg run)
        (rec\<lparr>CPUSet := CPUSet placed, QueueCPUs := QueueCPUs placed\<rparr>))))))"

definition restoreCore :: "'k backend \<Rightarrow> 'k restoreRun \<Rightarrow> ('k, VMRecord) vmact" where
  "restoreCore b run =
     (let rec = rr_rec run; vid = rr_vmID run; oldShape = shapeFromConfig (Config rec) in
      act_bind (rr_kill run vid rec) (\<lambda>_.
      act_bind (emitRestoreComputeStop b vid oldShape (rr_source run)) (\<lambda>_.
      act_try (restore_inner b run) (\<lambda>r. case r of
          Inl e \<Rightarrow> act_bind (markFailedOperation vid (State rec \<noteq> VMStateStopped)) (\<lambda>_. act_fail e)
        | Inr result \<Rightarrow>
            act_bind timeNow (\<lambda>now.
            act_bind (Emit (makeSourceEntry b KindVMStorageStop (ID result) (rr_source run) ReasonRestore oldShape now)) (\<lambda>_.
            act_bind (emitOpenInterval b (ID result) (Config result) ReasonRestore (rr_source run) now) (\<lambda>_.
            act_return result)))))))"

text \<open>\<open>prepareRestore\<close> after the lock: the record, revalidated.\<close>

definition prepareRestore_locked :: "'k backend \<Rightarrow> string \<Rightarrow> VMConfig \<Rightarrow> ('k, VMRecord) vmact" where
  "prepareRestore_locked b vid vmCfg =
     act_bind (EntryGuardLoad b vid) (\<lambda>rec.
     act_bind (act_res (restorableState rec)) (\<lambda>_.
     act_bind (act_res (validateRecordInvariants rec)) (\<lambda>_.
       if \<not> sameImage vmCfg (Config rec) then act_fail (ErrMsg ''snapshot base image differs'') else act_return rec)))"

text \<open>The preflight hands what it read, of type \<open>'m\<close>, to the hook that ends the restore.\<close>

record ('k, 'm) DirectRestoreSpec =
  dr_VMCfg :: VMConfig
  dr_Source :: string
  dr_Preflight :: "'k \<Rightarrow> VMRecord \<Rightarrow> 'm res"
  dr_Kill :: "string \<Rightarrow> VMRecord \<Rightarrow> ('k, unit) vmact"
  dr_Populate :: "VMRecord \<Rightarrow> ('k, unit) act"
  dr_AfterExtract :: "'m \<Rightarrow> string \<Rightarrow> VMConfig \<Rightarrow> VMRecord \<Rightarrow> ('k, VMRecord) vmact"

definition direct_apply :: "string \<Rightarrow> (VMRecord \<Rightarrow> ('k, unit) act) \<Rightarrow> VMRecord \<Rightarrow> ('k, unit) vmact" where
  "direct_apply vid populate rec =
     act_try (on_host (populate rec)) (\<lambda>r. case r of
         Inl e \<Rightarrow> act_bind (QuarantineVM vid ''partial restore populate'') (\<lambda>_. act_fail e)
       | Inr _ \<Rightarrow> act_return ())"

definition DirectRestoreSequence :: "'k backend \<Rightarrow> string \<Rightarrow> ('k, 'm) DirectRestoreSpec \<Rightarrow> ('k, VMRecord) vmact" where
  "DirectRestoreSequence b vmRef spec =
     act_bind (ValidateHostCPU b (CPU (dr_VMCfg spec))) (\<lambda>_.
     act_bind (ResolveRef vmRef) (\<lambda>vid.
     with_lock b vid (
       act_bind (prepareRestore_locked b vid (dr_VMCfg spec)) (\<lambda>rec.
       act_bind (\<lambda>w. (dr_Preflight spec (w_host w) rec, w)) (\<lambda>read.
       restoreCore b \<lparr>rr_vmID = vid, rr_rec = rec, rr_vmCfg = dr_VMCfg spec, rr_source = dr_Source spec,
         rr_kill = dr_Kill spec, rr_apply = direct_apply vid (dr_Populate spec), rr_afterExtract = dr_AfterExtract spec read\<rparr>)))))"

definition restoreStagingName :: string where "restoreStagingName = ''.restore-staging''"

text \<open>\<open>extract\<close> unpacks the snapshot stream into a directory.\<close>

definition PrepareStagingDir :: "'k backend \<Rightarrow> (string \<Rightarrow> ('k, unit) act) \<Rightarrow> string \<Rightarrow> ('k, string) act" where
  "PrepareStagingDir b extract runDir =
     (let stagingDir = Join [runDir, restoreStagingName] in
      act_bind (sys_removeall (bk_host b) stagingDir) (\<lambda>_.
      act_bind (sys_mkdirall (bk_host b) stagingDir) (\<lambda>_.
      act_try (extract stagingDir) (\<lambda>r. case r of
          Inl e \<Rightarrow> act_bind (act_ignore (sys_removeall (bk_host b) stagingDir)) (\<lambda>_. act_fail e)
        | Inr _ \<Rightarrow> act_return stagingDir))))"

definition MergeDirInto :: "'k backend \<Rightarrow> string \<Rightarrow> string \<Rightarrow> ('k, unit) act" where
  "MergeDirInto b src dst h =
     (case sys_readdir (bk_host b) h src of
        Inl e \<Rightarrow> (Inl e, h)
      | Inr entries \<Rightarrow> act_each (\<lambda>e. bk_rename b (Join [src, fst e]) (Join [dst, fst e])) entries h)"

definition staged_apply ::
    "'k backend \<Rightarrow> string \<Rightarrow> string \<Rightarrow> (string \<Rightarrow> ('k, unit) act) \<Rightarrow> VMRecord \<Rightarrow> ('k, unit) vmact" where
  "staged_apply b vid stagingDir clean rec =
     act_try (on_host (clean (RunDir rec))) (\<lambda>r. case r of
         Inl e \<Rightarrow> act_bind (QuarantineVM vid ''partial restore cleanup'') (\<lambda>_. act_fail e)
       | Inr _ \<Rightarrow>
           act_try (on_host (MergeDirInto b stagingDir (RunDir rec))) (\<lambda>m. case m of
               Inl e \<Rightarrow> act_bind (QuarantineVM vid ''partial snapshot merge'') (\<lambda>_. act_fail e)
             | Inr _ \<Rightarrow> act_return ()))"

record ('k, 'm) RestoreSpec =
  rs_VMCfg :: VMConfig
  rs_Source :: string
  rs_Extract :: "string \<Rightarrow> ('k, unit) act"
  rs_Preflight :: "'k \<Rightarrow> string \<Rightarrow> VMRecord \<Rightarrow> 'm res"
  rs_Kill :: "string \<Rightarrow> VMRecord \<Rightarrow> ('k, unit) vmact"
  rs_Clean :: "string \<Rightarrow> ('k, unit) act"
  rs_AfterExtract :: "'m \<Rightarrow> string \<Rightarrow> VMConfig \<Rightarrow> VMRecord \<Rightarrow> ('k, VMRecord) vmact"

definition RestoreSequence :: "'k backend \<Rightarrow> string \<Rightarrow> ('k, 'm) RestoreSpec \<Rightarrow> ('k, VMRecord) vmact" where
  "RestoreSequence b vmRef spec =
     act_bind (ValidateHostCPU b (CPU (rs_VMCfg spec))) (\<lambda>_.
     act_bind (ResolveRef vmRef) (\<lambda>vid.
     with_lock b vid (
       act_bind (prepareRestore_locked b vid (rs_VMCfg spec)) (\<lambda>rec.
       act_bind (on_host (PrepareStagingDir b (rs_Extract spec) (RunDir rec))) (\<lambda>stagingDir.
       act_try (
         act_bind (\<lambda>w. (rs_Preflight spec (w_host w) stagingDir rec, w)) (\<lambda>read.
         restoreCore b \<lparr>rr_vmID = vid, rr_rec = rec, rr_vmCfg = rs_VMCfg spec, rr_source = rs_Source spec,
           rr_kill = rs_Kill spec, rr_apply = staged_apply b vid stagingDir (rs_Clean spec),
           rr_afterExtract = rs_AfterExtract spec read\<rparr>))
         (\<lambda>r. act_bind (act_ignore (on_host (sys_removeall (bk_host b) stagingDir))) (\<lambda>_. act_res r)))))))"

section \<open>Snapshot and hibernate\<close>

definition RecordSnapshot :: "string \<Rightarrow> ('k, string) vmact" where
  "RecordSnapshot vid =
     act_bind GenerateID (\<lambda>snapID.
     act_bind (UpdateRecord vid (\<lambda>r. Inr (r\<lparr>SnapshotIDs := insert snapID (SnapshotIDs r)\<rparr>))) (\<lambda>_.
     act_return snapID))"

definition UnrecordSnapshot :: "string \<Rightarrow> string \<Rightarrow> ('k, unit) vmact" where
  "UnrecordSnapshot vid snapID =
     act_ignore (UpdateRecord vid (\<lambda>r. Inr (r\<lparr>SnapshotIDs := SnapshotIDs r - {snapID}\<rparr>)))"

text \<open>A nil network config, on which the source would fault, counts as MTU 0; validation excludes it.\<close>

definition nic_mtu :: "NetworkConfig option \<Rightarrow> int" where
  "nic_mtu nc = (case nc of None \<Rightarrow> 0 | Some n \<Rightarrow> nc_MTU n)"

definition BuildSnapshotConfig :: "'k backend \<Rightarrow> string \<Rightarrow> VMRecord \<Rightarrow> SnapshotConfig" where
  "BuildSnapshotConfig b snapID rec =
     config.extend (config.truncate (Config rec))
       \<lparr>sn_ID = snapID, sn_Name = '''', sn_Description = '''', sn_ImageBlobIDs = ImageBlobIDs rec,
        sn_Hypervisor = bk_Typ b, sn_NICs = int (length (NetworkConfigs rec)),
        sn_NICMTUs = map nic_mtu (NetworkConfigs rec)\<rparr>"

record ('k, 'm) SnapshotSpec =
  ss_Pause :: "VMRecord \<Rightarrow> ('k, unit) act"
  ss_Resume :: "VMRecord \<Rightarrow> ('k, unit) act"
  ss_Capture :: "VMRecord \<Rightarrow> string \<Rightarrow> ('k, unit) act"
  ss_AfterCapture :: "(VMRecord \<Rightarrow> string \<Rightarrow> ('k, unit) act) option"
  ss_BuildMeta :: "VMRecord \<Rightarrow> string \<Rightarrow> ('k, 'm) act"
  ss_SaveMeta :: "string \<Rightarrow> 'm \<Rightarrow> ('k, unit) act"

definition saveCaptureMeta :: "('k, 'm) SnapshotSpec \<Rightarrow> VMRecord \<Rightarrow> string \<Rightarrow> ('k, unit) act" where
  "saveCaptureMeta spec rec tmpDir =
     act_bind (case ss_AfterCapture spec of None \<Rightarrow> act_return () | Some f \<Rightarrow> f rec tmpDir) (\<lambda>_.
     act_bind (ss_BuildMeta spec rec tmpDir) (\<lambda>sidecar. ss_SaveMeta spec tmpDir sidecar))"

definition finalizeSnapshot ::
    "'k backend \<Rightarrow> string \<Rightarrow> VMRecord \<Rightarrow> ('k, 'm) SnapshotSpec \<Rightarrow> string \<Rightarrow> ('k, SnapshotConfig) vmact" where
  "finalizeSnapshot b vid rec spec tmpDir =
     act_bind (on_host (saveCaptureMeta spec rec tmpDir)) (\<lambda>_.
     act_bind (RecordSnapshot vid) (\<lambda>snapID. act_return (BuildSnapshotConfig b snapID rec)))"

text \<open>\<open>errors.Join\<close> of an operation's error and the resume's.\<close>

definition fail_resume :: "('k, 'm) SnapshotSpec \<Rightarrow> VMRecord \<Rightarrow> 'a res \<Rightarrow> ('k, 'a) vmact" where
  "fail_resume spec rec r =
     act_try (on_host (ss_Resume spec rec)) (\<lambda>rr. act_res
       (case r of Inl e \<Rightarrow> Inl e | Inr a \<Rightarrow> (case rr of Inl e \<Rightarrow> Inl e | Inr _ \<Rightarrow> Inr a)))"

text \<open>After the lock: the record, validated, and a fresh capture directory.\<close>

definition prepareSnapshot_locked :: "'k backend \<Rightarrow> string \<Rightarrow> ('k, VMRecord \<times> string) vmact" where
  "prepareSnapshot_locked b vid =
     act_bind (EntryGuardLoad b vid) (\<lambda>rec.
     act_bind (act_res (validateRecordInvariants rec)) (\<lambda>_.
     act_bind GenerateID (\<lambda>suffix.
     (let tmpDir = Join [RunDir rec, ''snapshot-'' @ suffix] in
      act_bind (on_host (sys_mkdir (bk_host b) tmpDir)) (\<lambda>_. act_return (rec, tmpDir))))))"

text \<open>Runs the rest of a capture; on an error the capture directory is removed.\<close>

definition with_capture_dir :: "'k backend \<Rightarrow> string \<Rightarrow> ('k, 'a) vmact \<Rightarrow> ('k, 'a) vmact" where
  "with_capture_dir b tmpDir m =
     act_try m (\<lambda>r. case r of
         Inr a \<Rightarrow> act_return a
       | Inl e \<Rightarrow> act_bind (act_ignore (on_host (sys_removeall (bk_host b) tmpDir))) (\<lambda>_. act_fail e))"

definition capture_window :: "('k, 'm) SnapshotSpec \<Rightarrow> VMRecord \<Rightarrow> string \<Rightarrow> ('k, unit) vmact" where
  "capture_window spec rec tmpDir =
     act_bind (on_host (ss_Pause spec rec)) (\<lambda>_.
     act_try (on_host (ss_Capture spec rec tmpDir)) (\<lambda>r. fail_resume spec rec r))"

definition SnapshotSequence ::
    "'k backend \<Rightarrow> string \<Rightarrow> ('k, 'm) SnapshotSpec \<Rightarrow> ('k, SnapshotConfig \<times> string) vmact" where
  "SnapshotSequence b ref spec =
     act_bind (ResolveRef ref) (\<lambda>vid.
     with_lock b vid (
       act_bind (prepareSnapshot_locked b vid) (\<lambda>(rec, tmpDir).
       with_capture_dir b tmpDir (
         act_bind (withRunningVM b rec None (\<lambda>_. capture_window spec rec tmpDir)) (\<lambda>_.
         act_bind (finalizeSnapshot b vid rec spec tmpDir) (\<lambda>cfg. act_return (cfg, tmpDir)))))))"

text \<open>
  The pause window of a hibernation. The result says whether the kill failed, with its error; other
  errors are the window's own.
\<close>

definition hibernate_window ::
    "'k backend \<Rightarrow> string \<Rightarrow> ('k, 'm) SnapshotSpec \<Rightarrow> (VMRecord \<Rightarrow> int \<Rightarrow> ('k, unit) act) \<Rightarrow>
     (SnapshotConfig \<Rightarrow> string \<Rightarrow> ('k, unit) act) \<Rightarrow> VMRecord \<Rightarrow> string \<Rightarrow> int \<Rightarrow> ('k, err option) vmact" where
  "hibernate_window b vid spec kill persist rec tmpDir pid =
     act_bind (on_host (ss_Pause spec rec)) (\<lambda>_.
     act_try (on_host (ss_Capture spec rec tmpDir)) (\<lambda>c. case c of
         Inl e \<Rightarrow> fail_resume spec rec (Inl e)
       | Inr _ \<Rightarrow>
           act_try (finalizeSnapshot b vid rec spec tmpDir) (\<lambda>f. case f of
               Inl e \<Rightarrow> fail_resume spec rec (Inl e)
             | Inr cfg \<Rightarrow>
                 act_try (on_host (persist cfg tmpDir)) (\<lambda>p. case p of
                     Inl e \<Rightarrow>
                       act_bind (UnrecordSnapshot vid (sn_ID cfg)) (\<lambda>_. fail_resume spec rec (Inl e))
                   | Inr _ \<Rightarrow>
                       act_try (on_host (kill rec pid)) (\<lambda>k. act_return (case k of Inl e \<Rightarrow> Some e | Inr _ \<Rightarrow> None))))))"

definition HibernateSequence ::
    "'k backend \<Rightarrow> string \<Rightarrow> ('k, 'm) SnapshotSpec \<Rightarrow> (VMRecord \<Rightarrow> int \<Rightarrow> ('k, unit) act) \<Rightarrow>
     ('k \<Rightarrow> string \<Rightarrow> string \<Rightarrow> string list) \<Rightarrow> string list \<Rightarrow> (SnapshotConfig \<Rightarrow> string \<Rightarrow> ('k, unit) act) \<Rightarrow>
     ('k, unit) vmact" where
  "HibernateSequence b ref spec kill expand runtimeFiles persist =
     act_bind (ResolveRef ref) (\<lambda>vid.
     with_lock b vid (
       act_bind (prepareSnapshot_locked b vid) (\<lambda>(rec, tmpDir).
       with_capture_dir b tmpDir (
         act_bind (withRunningVM b rec None (hibernate_window b vid spec kill persist rec tmpDir)) (\<lambda>killFailed.
           case killFailed of
             Some e \<Rightarrow> act_bind (MarkError b vid) (\<lambda>_. act_fail e)
           | None \<Rightarrow>
               act_bind (CleanupRuntimeFiles b expand (RunDir rec) runtimeFiles) (\<lambda>_.
               act_bind (removeCgroupScope b vid) (\<lambda>_.
               act_try (UpdateState b vid VMStateStopped) (\<lambda>u.
               quiesceAfterStop b vid rec True (u = Inr ())))))))))"

end
