(* ===== verification/VmInv.thy ===== *)
theory VmInv
  imports VmRestore
begin

text \<open>
  The invariant of the VM operations: triples over the world, the reading of the metering ledger, what
  ties the ledger, the placements and the names to the records, the laws of a record update and the
  operations below the sequences: state changes, placement, networking and supervision.
\<close>

section \<open>Triples\<close>

text \<open>\<open>Q\<close> sees the result, an error included.\<close>

definition triple :: "('s \<Rightarrow> bool) \<Rightarrow> ('s, 'a) act \<Rightarrow> ('a res \<Rightarrow> 's \<Rightarrow> bool) \<Rightarrow> bool" where
  "triple P m Q \<longleftrightarrow> (\<forall>s r s'. P s \<longrightarrow> m s = (r, s') \<longrightarrow> Q r s')"

abbreviation keeps :: "('s \<Rightarrow> bool) \<Rightarrow> ('s, 'a) act \<Rightarrow> bool" where
  "keeps P m \<equiv> triple P m (\<lambda>_. P)"

named_theorems triple_rules

lemma tripleI: "(\<And>s r s'. P s \<Longrightarrow> m s = (r, s') \<Longrightarrow> Q r s') \<Longrightarrow> triple P m Q"
  by (simp add: triple_def)

lemma tripleD: "triple P m Q \<Longrightarrow> P s \<Longrightarrow> m s = (r, s') \<Longrightarrow> Q r s'"
  by (auto simp: triple_def)

lemma triple_weaken:
  "triple P m Q \<Longrightarrow> (\<And>s. P' s \<Longrightarrow> P s) \<Longrightarrow> (\<And>r s. Q r s \<Longrightarrow> Q' r s) \<Longrightarrow> triple P' m Q'"
  unfolding triple_def by blast

lemma triple_return [triple_rules]: "(\<And>s. P s \<Longrightarrow> Q (Inr a) s) \<Longrightarrow> triple P (act_return a) Q"
  by (auto simp: triple_def)

lemma triple_fail [triple_rules]: "(\<And>s. P s \<Longrightarrow> Q (Inl e) s) \<Longrightarrow> triple P (act_fail e) Q"
  by (auto simp: triple_def)

lemma triple_res [triple_rules]: "(\<And>s. P s \<Longrightarrow> Q r s) \<Longrightarrow> triple P (act_res r) Q"
  by (auto simp: triple_def act_res_def)

lemma triple_bind:
  assumes "triple P m (\<lambda>r s. case r of Inl e \<Rightarrow> Q (Inl e) s | Inr a \<Rightarrow> R a s)" "\<And>a. triple (R a) (f a) Q"
  shows "triple P (act_bind m f) Q"
proof (rule tripleI)
  fix s r s'
  assume P: "P s" and b: "act_bind m f s = (r, s')"
  obtain r1 s1 where m: "m s = (r1, s1)" by (cases "m s")
  from tripleD [OF assms(1) P m] b m assms(2) show "Q r s'"
    by (cases r1) (auto simp: act_bind_def triple_def)
qed

lemma triple_try:
  assumes "triple P m R" "\<And>r. triple (R r) (f r) Q"
  shows "triple P (act_try m f) Q"
proof (rule tripleI)
  fix s r s'
  assume P: "P s" and b: "act_try m f s = (r, s')"
  obtain r1 s1 where m: "m s = (r1, s1)" by (cases "m s")
  from tripleD [OF assms(1) P m] b m assms(2) show "Q r s'"
    by (auto simp: act_try_def triple_def)
qed

text \<open>Sequencing for an invariant.\<close>

lemma keeps_bind [triple_rules]: "keeps P m \<Longrightarrow> (\<And>a. keeps P (f a)) \<Longrightarrow> keeps P (act_bind m f)"
  by (rule triple_bind [where R = "\<lambda>_. P"]) (auto elim: triple_weaken split: sum.splits)

lemma keeps_try [triple_rules]: "keeps P m \<Longrightarrow> (\<And>r. keeps P (f r)) \<Longrightarrow> keeps P (act_try m f)"
  by (rule triple_try [where R = "\<lambda>_. P"]) auto

lemma triple_seq: "triple P m (\<lambda>_. R) \<Longrightarrow> (\<And>a. keeps R (f a)) \<Longrightarrow> triple P (act_bind m f) (\<lambda>_. R)"
  by (rule triple_bind [where R = "\<lambda>_. R"]) (auto elim: triple_weaken split: sum.splits)

lemma keeps_ignore [triple_rules]: "keeps P m \<Longrightarrow> keeps P (act_ignore m)"
  unfolding act_ignore_def by (intro triple_rules)

lemma keeps_cases [triple_rules]:
  "(b \<Longrightarrow> triple P m Q) \<Longrightarrow> (\<not> b \<Longrightarrow> triple P n Q) \<Longrightarrow> triple P (if b then m else n) Q"
  "(x = None \<Longrightarrow> triple P m Q) \<Longrightarrow> (\<And>y. x = Some y \<Longrightarrow> triple P (f y) Q) \<Longrightarrow> triple P (case_option m f x) Q"
  "(\<And>e. z = Inl e \<Longrightarrow> triple P (g e) Q) \<Longrightarrow> (\<And>a. z = Inr a \<Longrightarrow> triple P (h a) Q) \<Longrightarrow> triple P (case_sum g h z) Q"
  "(\<And>c d. p = (c, d) \<Longrightarrow> triple P (k c d) Q) \<Longrightarrow> triple P (case_prod k p) Q"
  "(t \<Longrightarrow> triple P m Q) \<Longrightarrow> (\<not> t \<Longrightarrow> triple P n Q) \<Longrightarrow> triple P (case_bool m n t) Q"
  by (auto split: option.splits sum.splits prod.splits bool.splits)

lemma triple_dep: "(\<And>s0. triple P (m s0) Q) \<Longrightarrow> triple P (\<lambda>s. m s s) Q"
  by (auto simp: triple_def)

lemma keeps_each [triple_rules]: "(\<And>x. x \<in> set xs \<Longrightarrow> keeps P (f x)) \<Longrightarrow> keeps P (act_each f xs)"
  by (induction xs) (auto intro!: triple_rules)

lemma keeps_ForEach:
  assumes "\<And>x. x \<in> set xs \<Longrightarrow> keeps P (f x)" "P s" "ForEach xs f s = (r, s')"
  shows "P s'"
  using assms
proof (induction xs arbitrary: s r s')
  case (Cons x xs)
  obtain r1 s1 where x: "f x s = (r1, s1)" by (cases "f x s")
  have "P s1" using tripleD [OF Cons.prems(1) [of x] Cons.prems(2) x] by simp
  with Cons x show ?case by (auto split: prod.splits sum.splits)
qed auto

section \<open>The ledger\<close>

text \<open>
  Reading a VM's compute entries: an interval is opened and closed in turn; \<open>None\<close> when a start
  follows a start or a stop has no start.
\<close>

definition ledger_step :: "string \<Rightarrow> Entry \<Rightarrow> bool option \<Rightarrow> bool option" where
  "ledger_step vid e st =
     (if en_VMID e \<noteq> vid then st
      else if en_Kind e = KindVMComputeStart then (if st = Some False then Some True else None)
      else if en_Kind e = KindVMComputeStop then (if st = Some True then Some False else None)
      else st)"

definition ledger_state :: "string \<Rightarrow> Entry list \<Rightarrow> bool option" where
  "ledger_state vid L = fold (ledger_step vid) L (Some False)"

lemma fold_ledger_other: "(\<And>e. e \<in> set es \<Longrightarrow> en_VMID e \<noteq> v) \<Longrightarrow> fold (ledger_step v) es st = st"
  by (induction es arbitrary: st) (auto simp: ledger_step_def)

text \<open>What the invariant reads of a VM's record: whether its interval is open, and its name.\<close>

type_synonym face = "(bool \<times> string) option"

definition face :: "vmdb \<Rightarrow> string \<Rightarrow> face" where
  "face db vid = map_option (\<lambda>r. (hasOpenComputeInterval r, Name (Config r))) (tget (db_records db) vid)"

definition opened :: "face \<Rightarrow> bool" where
  "opened f = (case f of None \<Rightarrow> False | Some p \<Rightarrow> fst p)"

lemma opened_simps [simp]: "opened None = False" "opened (Some p) = fst p"
  by (simp_all add: opened_def)

abbreviation record_open :: "vmdb \<Rightarrow> string \<Rightarrow> bool" where
  "record_open db vid \<equiv> opened (face db vid)"

section \<open>The invariant\<close>

text \<open>A record is filed under its id, and a placeholder was never started.\<close>

definition rec_ok :: "string \<Rightarrow> VMRecord \<Rightarrow> bool" where
  "rec_ok vid r \<longleftrightarrow> ID r = vid \<and> (State r = VMStateCreating \<longrightarrow> StartedAt r = None)"

definition placement_row :: "VMRecord option \<Rightarrow> string option" where
  "placement_row rr =
     (case rr of
        None \<Rightarrow> None
      | Some r \<Rightarrow> (let cpus = cmp_Or [QueueCPUs r, CPUSet r] in if cpus \<noteq> '''' then Some cpus else None))"

text \<open>The placement rows mirror the records, and a record's name resolves to its id.\<close>

definition db_ok :: "vmdb \<Rightarrow> bool" where
  "db_ok db \<longleftrightarrow>
     tbl_ok (db_records db) \<and> tbl_ok (db_placements db) \<and>
     (\<forall>vid. tget (db_placements db) vid = placement_row (tget (db_records db) vid)) \<and>
     (\<forall>vid r. tget (db_records db) vid = Some r \<longrightarrow>
        rec_ok vid r \<and> tget (db_names db) (Name (Config r)) = Some vid)"

text \<open>
  What the store may answer: nothing but success when \<open>q\<close>, otherwise it may also lose a transaction
  and say so. The sentinel of a lost lease is never such an answer.
\<close>

definition faults_ok :: "bool \<Rightarrow> store_fault list \<Rightarrow> bool" where
  "faults_ok q fs \<longleftrightarrow>
     (if q then fs = []
      else list_all (\<lambda>f. case f of StoreOk \<Rightarrow> True | StoreLost e \<Rightarrow> e \<noteq> ErrLost | StoreLanded _ \<Rightarrow> False) fs)"

text \<open>\<open>books q g h\<close>: the ledger reads \<open>g\<close> and the records read \<open>h\<close>.\<close>

definition books :: "bool \<Rightarrow> (string \<Rightarrow> bool) \<Rightarrow> (string \<Rightarrow> face) \<Rightarrow> 'k world \<Rightarrow> bool" where
  "books q g h w \<longleftrightarrow>
     db_ok (w_db w) \<and> faults_ok q (w_faults w) \<and> face (w_db w) = h \<and>
     (\<forall>v. ledger_state v (w_ledger w) = Some (g v))"

abbreviation level :: "bool \<Rightarrow> (string \<Rightarrow> face) \<Rightarrow> 'k world \<Rightarrow> bool" where
  "level q h \<equiv> books q (opened \<circ> h) h"

definition vm_inv :: "bool \<Rightarrow> 'k world \<Rightarrow> bool" where
  "vm_inv q w \<longleftrightarrow> (\<exists>h. level q h w)"

lemma vm_inv_alt:
  "vm_inv q w \<longleftrightarrow> db_ok (w_db w) \<and> faults_ok q (w_faults w) \<and>
     (\<forall>v. ledger_state v (w_ledger w) = Some (record_open (w_db w) v))"
  by (auto simp: vm_inv_def books_def)

lemma level_vm_inv: "level q h w \<Longrightarrow> vm_inv q w"
  by (auto simp: vm_inv_def)

lemma keeps_level: "(\<And>h. keeps (level q h) m) \<Longrightarrow> keeps (vm_inv q) m"
  unfolding triple_def vm_inv_def by blast

text \<open>
  A predicate on the tables, the ledger and the store's answers is kept by whatever changes none of
  the first two and takes at most one answer.
\<close>

definition stable :: "('k world \<Rightarrow> bool) \<Rightarrow> bool" where
  "stable P \<longleftrightarrow>
     (\<forall>w w'. P w \<longrightarrow> w_db w' = w_db w \<longrightarrow> w_ledger w' = w_ledger w \<longrightarrow>
        (w_faults w' = w_faults w \<or> w_faults w' = tl (w_faults w)) \<longrightarrow> P w')"

lemma faults_ok_tl [simp]: "faults_ok q fs \<Longrightarrow> faults_ok q (tl fs)"
  by (cases fs) (auto simp: faults_ok_def split: if_splits)

lemma stable_db [triple_rules, simp]: "stable (\<lambda>w. X (w_db w))"
  by (simp add: stable_def)

lemma stable_conj [triple_rules, simp]: "stable P \<Longrightarrow> stable Q \<Longrightarrow> stable (\<lambda>w. P w \<and> Q w)"
  unfolding stable_def by blast

lemma stable_books [triple_rules, simp]: "stable (books q g h)"
  unfolding stable_def books_def by (metis faults_ok_tl)

lemma stable_vm_inv [triple_rules, simp]: "stable (vm_inv q)"
  unfolding stable_def vm_inv_alt by (metis faults_ok_tl)

lemma stableD: "stable P \<Longrightarrow> P w \<Longrightarrow> w_db w' = w_db w \<Longrightarrow> w_ledger w' = w_ledger w \<Longrightarrow>
  w_faults w' = w_faults w \<or> w_faults w' = tl (w_faults w) \<Longrightarrow> P w'"
  unfolding stable_def by blast

lemma next_fault_frame:
  "next_fault w = (f, w') \<Longrightarrow> w_db w' = w_db w \<and> w_ledger w' = w_ledger w \<and>
     (w_faults w' = w_faults w \<or> w_faults w' = tl (w_faults w))"
  by (auto simp: next_fault_def split: list.splits)

lemma keeps_basic [triple_rules]:
  assumes "stable P"
  shows "keeps P (on_host m)" "keeps P (get_host f)" "keeps P timeNow" "keeps P GenerateID" "keeps P (vm_view fn)"
    "keeps P (\<lambda>w. (y (w_host w), w))"
proof -
  show "keeps P (vm_view fn)"
  proof (rule tripleI)
    fix w r w'
    assume w: "P w" "vm_view fn w = (r, w')"
    obtain f w1 where n: "next_fault w = (f, w1)" by (cases "next_fault w")
    with w(2) have "w' = w1" by (auto simp: vm_view_def split: store_fault.splits)
    with next_fault_frame [OF n] stableD [OF assms w(1)] show "P w'" by blast
  qed
qed (auto simp: triple_def on_host_def get_host_def timeNow_def GenerateID_def
    intro: stableD [OF assms] split: list.splits prod.splits)

lemma books_next: "books q g h w \<Longrightarrow> next_fault w = (f, w') \<Longrightarrow>
  books q g h w' \<and> (f = StoreOk \<or> \<not> q \<and> (\<exists>e. f = StoreLost e \<and> e \<noteq> ErrLost)) \<and> w_db w' = w_db w \<and> w_ledger w' = w_ledger w"
  by (auto simp: next_fault_def books_def faults_ok_def split: list.splits store_fault.splits if_splits)

text \<open>A view's result is the closure's on the current tables, or the store lost it.\<close>

lemma view_triple:
  "triple (books q g h) (vm_view fn) (\<lambda>r w. books q g h w \<and> (r = fn (w_db w) \<or> \<not> q \<and> (\<exists>e. r = Inl e)))"
proof (rule tripleI)
  fix w r w'
  assume w: "books q g h w" and v: "vm_view fn w = (r, w')"
  obtain f w1 where n: "next_fault w = (f, w1)" by (cases "next_fault w")
  from books_next [OF w n] v n show "books q g h w' \<and> (r = fn (w_db w') \<or> \<not> q \<and> (\<exists>e. r = Inl e))"
    by (auto simp: vm_view_def)
qed

text \<open>An update either commits what the closure gives or changes nothing.\<close>

lemma update_cases:
  assumes w: "books q g h w" and u: "vm_update fn w = (r, w')"
  obtains (Refused) e where "r = Inl e" "fn (w_db w) = Inl e \<or> \<not> q \<and> e \<noteq> ErrLost" "books q g h w'" "w_db w' = w_db w"
    | (Landed) a db' where "fn (w_db w) = Inr (a, db')" "r = Inr a" "w_db w' = db'" "w_ledger w' = w_ledger w"
        "faults_ok q (w_faults w')"
proof -
  obtain f w1 where n: "next_fault w = (f, w1)" by (cases "next_fault w")
  note w1 = books_next [OF w n]
  show ?thesis
  proof (cases "f = StoreOk")
    case True
    show ?thesis
    proof (cases "fn (w_db w)")
      case (Inl e)
      with u n True w1 Refused [of e] show ?thesis by (simp add: vm_update_def)
    next
      case (Inr p)
      then obtain a db' where p: "fn (w_db w) = Inr (a, db')" by (cases p) auto
      with u n True w1 have "r = Inr a" "w' = w1\<lparr>w_db := db'\<rparr>" by (auto simp: vm_update_def)
      with p w1 Landed [of a db'] show ?thesis by (simp add: books_def)
    qed
  next
    case False
    with w1 obtain e where "f = StoreLost e" "\<not> q" "e \<noteq> ErrLost" by blast
    with u n w1 Refused [of e] show ?thesis by (simp add: vm_update_def)
  qed
qed

lemma update_triple:
  assumes "\<And>db a db'. db_ok db \<Longrightarrow> face db = h \<Longrightarrow> I db \<Longrightarrow> fn db = Inr (a, db') \<Longrightarrow>
      db_ok db' \<and> face db' = h' \<and> X a db'"
  shows "triple (\<lambda>w. books q g h w \<and> I (w_db w)) (vm_update fn)
    (\<lambda>r w. case r of Inr a \<Rightarrow> books q g h' w \<and> X a (w_db w) | Inl e \<Rightarrow> books q g h w \<and> I (w_db w))"
proof (rule tripleI)
  fix w r w'
  assume w: "books q g h w \<and> I (w_db w)" and u: "vm_update fn w = (r, w')"
  from conjunct1 [OF w] u show "case r of Inr a \<Rightarrow> books q g h' w' \<and> X a (w_db w') | Inl e \<Rightarrow> books q g h w' \<and> I (w_db w')"
  proof (cases rule: update_cases)
    case (Landed a db')
    with assms [of "w_db w" a db'] w show ?thesis by (auto simp: books_def)
  qed (use w in simp)
qed

section \<open>Transactions\<close>

lemma tx_Put_ok:
  "db_ok db \<Longrightarrow> rec_ok vid r \<Longrightarrow> tget (db_names db) (Name (Config r)) = Some vid \<Longrightarrow> db_ok (tx_Put vid r db)"
  by (auto simp: db_ok_def tx_Put_def placement_row_def Let_def)

text \<open>A name is taken for a VM only when it is free or the VM's own.\<close>

lemma tx_Put_name_ok:
  assumes "db_ok db" "rec_ok vid r" "tget (db_names db) (Name (Config r)) \<in> {None, Some vid}"
  shows "db_ok (tx_NameSet (Name (Config r)) vid (tx_Put vid r db))"
  using assms by (auto simp: db_ok_def tx_Put_def tx_NameSet_def placement_row_def Let_def)

lemma tx_Del_ok: "db_ok db \<Longrightarrow> db_ok (tx_NameDelIfOwned n vid (tx_Del vid db))"
  by (auto simp: db_ok_def tx_Del_def tx_NameDelIfOwned_def placement_row_def)

lemma db_ok_tombs [simp]: "db_ok (db\<lparr>db_tombs := t\<rparr>) = db_ok db"
  by (simp add: db_ok_def)

lemma face_tx [simp]:
  "face (tx_Put vid r db) = (face db)(vid := Some (hasOpenComputeInterval r, Name (Config r)))"
  "face (tx_Del vid db) = (face db)(vid := None)"
  "face (tx_NameSet n v db) = face db" "face (tx_NameDelIfOwned n v db) = face db"
  "face (db\<lparr>db_tombs := t\<rparr>) = face db"
  by (auto simp: fun_eq_iff face_def tx_Put_def tx_Del_def tx_NameSet_def tx_NameDelIfOwned_def Let_def)

lemma db_okD:
  "db_ok db \<Longrightarrow> tget (db_records db) vid = Some r \<Longrightarrow> rec_ok vid r \<and> tget (db_names db) (Name (Config r)) = Some vid"
  by (simp add: db_ok_def)

lemma getRecord_Inr: "getRecord vid db = Inr r \<longleftrightarrow> tget (db_records db) vid = Some r"
  by (auto simp: getRecord_def split: option.splits)

lemma face_get: "tget (db_records db) vid = Some r \<Longrightarrow> face db vid = Some (hasOpenComputeInterval r, Name (Config r))"
  by (simp add: face_def)

lemma creating_closed: "rec_ok vid r \<Longrightarrow> State r = VMStateCreating \<Longrightarrow> \<not> hasOpenComputeInterval r"
  by (simp add: rec_ok_def hasOpenComputeInterval_def)

text \<open>An update that leaves what the invariant reads alone.\<close>

lemma keeps_update:
  assumes "\<And>db a db'. db_ok db \<Longrightarrow> fn db = Inr (a, db') \<Longrightarrow> db_ok db' \<and> face db' = face db"
  shows "keeps (books q g h) (vm_update fn)"
  by (rule triple_weaken [OF update_triple [where h' = h and X = "\<lambda>_ _. True" and I = "\<lambda>_. True"]])
    (use assms in \<open>auto split: sum.splits\<close>)

lemma emitAll_books:
  assumes "\<And>v. fold (ledger_step v) es (Some (g v)) = Some (g' v)"
  shows "triple (books q g h) (emitAll es) (\<lambda>_. books q g' h)"
  using assms by (auto simp: triple_def emitAll_def books_def ledger_state_def)

text \<open>Committing, then publishing what the commit owes, keeps the invariant.\<close>

lemma update_then:
  assumes acc: "\<And>db a db'. db_ok db \<Longrightarrow> fn db = Inr (a, db') \<Longrightarrow>
      db_ok db' \<and> (\<forall>v. fold (ledger_step v) (em a) (Some (record_open db v)) = Some (record_open db' v))"
    and pub: "\<And>a g g' h. (\<And>v. fold (ledger_step v) (em a) (Some (g v)) = Some (g' v)) \<Longrightarrow>
      triple (books q g h) (k a) (\<lambda>_. books q g' h)"
  shows "keeps (vm_inv q) (act_bind (vm_update fn) k)"
proof (rule tripleI)
  fix w r w'
  assume "vm_inv q w" and u: "act_bind (vm_update fn) k w = (r, w')"
  then obtain h where w: "level q h w" by (auto simp: vm_inv_def)
  obtain r1 w1 where v: "vm_update fn w = (r1, w1)" by (cases "vm_update fn w")
  from w v show "vm_inv q w'"
  proof (cases rule: update_cases)
    case (Refused e)
    with u v show ?thesis by (auto simp: act_bind_def vm_inv_def)
  next
    case f: (Landed a db')
    have h: "db_ok (w_db w)" "face (w_db w) = h" using w by (auto simp: books_def)
    from acc [OF h(1) f(1)] h(2)
    have ok: "db_ok db'" and e: "\<And>v. fold (ledger_step v) (em a) (Some ((opened \<circ> h) v)) = Some ((opened \<circ> face db') v)" by auto
    then have "books q (opened \<circ> h) (face db') w1" using f w by (auto simp: books_def)
    moreover have "k a w1 = (r, w')" using u v f(2) by (simp add: act_bind_def)
    ultimately have "level q (face db') w'" using tripleD [OF pub [OF e]] by blast
    then show ?thesis by (rule level_vm_inv)
  qed
qed

section \<open>Accounted record updates\<close>

text \<open>
  What an update of a VM's record promises: it stays filed under its id and its name, an interval is
  opened and closed only with an entry, and the state moves only with the generation.
\<close>

locale record_update =
  fixes vid :: string and mutate :: "VMRecord \<Rightarrow> VMRecord \<times> Entry list"
  assumes keeps_rec: "rec_ok vid r \<Longrightarrow> mutate r = (r', es) \<Longrightarrow> rec_ok vid r'"
    and owns: "mutate r = (r', es) \<Longrightarrow> e \<in> set es \<Longrightarrow> en_VMID e = vid"
    and balanced: "mutate r = (r', es) \<Longrightarrow>
      fold (ledger_step vid) es (Some (hasOpenComputeInterval r)) = Some (hasOpenComputeInterval r')"
    and renames: "mutate r = (r', es) \<Longrightarrow> Name (Config r') = Name (Config r)"
    and counted: "mutate r = (r', es) \<Longrightarrow>
      TransitionGeneration r' = TransitionGeneration r + 1 \<or>
      TransitionGeneration r' = TransitionGeneration r \<and> State r' = State r"
begin

lemma put_accounts:
  assumes "db_ok db" "tget (db_records db) vid = Some r" "mutate r = (r', es)"
  shows "db_ok (tx_Put vid r' db) \<and>
    (\<forall>v. fold (ledger_step v) es (Some (record_open db v)) = Some (record_open (tx_Put vid r' db) v))"
proof (intro conjI allI)
  show "db_ok (tx_Put vid r' db)"
    using tx_Put_ok [OF assms(1)] keeps_rec [OF _ assms(3)] db_okD [OF assms(1,2)] renames [OF assms(3)] by simp
  fix v
  show "fold (ledger_step v) es (Some (record_open db v)) = Some (record_open (tx_Put vid r' db) v)"
  proof (cases "v = vid")
    case True
    with balanced [OF assms(3)] face_get [OF assms(2)] show ?thesis by simp
  next
    case False
    with owns [OF assms(3)] show ?thesis by (subst fold_ledger_other) auto
  qed
qed

text \<open>The update behind a condition, as a closure that may leave the record alone.\<close>

lemma guarded_keeps:
  "keeps (vm_inv q) (act_bind (vm_update (\<lambda>db. case tget (db_records db) vid of
       None \<Rightarrow> Inr ([], db)
     | Some r \<Rightarrow> if skip r then Inr ([], db) else (case mutate r of (r', emits) \<Rightarrow> Inr (emits, tx_Put vid r' db)))) emitAll)"
proof (rule update_then [where em = "\<lambda>es. es"])
  fix db es db'
  assume ok: "db_ok db"
    and u: "(case tget (db_records db) vid of None \<Rightarrow> Inr ([], db)
      | Some r \<Rightarrow> if skip r then Inr ([], db) else (case mutate r of (r', emits) \<Rightarrow> Inr (emits, tx_Put vid r' db))) = Inr (es, db')"
  show "db_ok db' \<and> (\<forall>v. fold (ledger_step v) es (Some (record_open db v)) = Some (record_open db' v))"
  proof (cases "db' = db \<and> es = []")
    case False
    with u obtain r where r: "tget (db_records db) vid = Some r" "\<not> skip r" by (auto split: option.splits if_splits)
    obtain r' em where m: "mutate r = (r', em)" by (cases "mutate r")
    from u r m have "es = em" "db' = tx_Put vid r' db" by simp_all
    with put_accounts [OF ok r(1) m] show ?thesis by blast
  qed (use ok in simp)
qed (rule emitAll_books)

lemma updateVM_keeps: "keeps (vm_inv q) (updateVM vid mutate)"
  unfolding updateVM_def using guarded_keeps [of q "\<lambda>_. False"] unfolding if_False .

end

text \<open>An update that owes no entry changes nothing the books read.\<close>

locale silent_update = record_update +
  assumes silent: "mutate r = (r', es) \<Longrightarrow> es = []"
begin

lemma updateVM_books: "keeps (books q g h) (updateVM vid mutate)"
  unfolding updateVM_def
proof (rule triple_bind [where R = "\<lambda>es w. books q g h w \<and> es = []"])
  let ?fn = "\<lambda>db. case tget (db_records db) vid of None \<Rightarrow> Inr ([], db)
      | Some r \<Rightarrow> (case mutate r of (r', emits) \<Rightarrow> Inr (emits, tx_Put vid r' db))"
  have "triple (\<lambda>w. books q g h w \<and> True) (vm_update ?fn)
    (\<lambda>r w. case r of Inr es \<Rightarrow> books q g h w \<and> es = [] | Inl e \<Rightarrow> books q g h w \<and> True)"
  proof (rule update_triple)
    fix db es db'
    assume ok: "db_ok db" "face db = h" and u: "?fn db = Inr (es, db')"
    show "db_ok db' \<and> face db' = h \<and> es = []"
    proof (cases "tget (db_records db) vid")
      case (Some r)
      obtain r' em where m: "mutate r = (r', em)" by (cases "mutate r")
      from u Some m silent [OF m] have e: "es = []" "em = []" "db' = tx_Put vid r' db" by simp_all
      with balanced [OF m] have "hasOpenComputeInterval r' = hasOpenComputeInterval r" by simp
      with put_accounts [OF ok(1) Some m] renames [OF m] e face_get [OF Some] ok(2) show ?thesis
        by (simp add: fun_upd_idem)
    qed (use u ok in simp)
  qed
  then show "triple (books q g h) (vm_update ?fn)
      (\<lambda>r s. case r of Inl e \<Rightarrow> books q g h s | Inr a \<Rightarrow> books q g h s \<and> a = [])"
    by (rule triple_weaken) (auto split: sum.splits)
qed (auto simp: triple_def emitAll_def books_def)

end

lemmas rec_defs = rec_ok_def hasOpenComputeInterval_def markTransition_def Let_def

interpretation us: record_update vid "update_state_rec b vid VMStateStopped now" for vid b now
  by unfold_locales
    (auto simp: update_state_rec_def rec_defs makeEntry_def ledger_step_def split: if_splits)

interpretation ue: silent_update vid "update_state_rec b vid VMStateError now" for vid b now
  by unfold_locales
    (auto simp: update_state_rec_def rec_defs makeEntry_def ledger_step_def split: if_splits)

interpretation ms: record_update vid "mark_started_rec b vid now" for vid b now
  by unfold_locales
    (auto simp: mark_started_rec_def rec_defs makeEntry_def ledger_step_def split: if_splits prod.splits)

interpretation cd: record_update vid "converge_dead_rec b vid now" for vid b now
  by unfold_locales
    (auto simp: converge_dead_rec_def rec_defs makeEntry_def ledger_step_def split: if_splits)

interpretation qv: silent_update vid "\<lambda>r. ((markTransition VMStateError TransitionError now r)\<lparr>Quarantine := reason\<rparr>, [])"
  for vid now reason
  by unfold_locales (auto simp: rec_defs split: if_splits)

interpretation mf: silent_update vid "\<lambda>r.
       (let r = (if markError \<and> State r \<noteq> VMStateError then markTransition VMStateError TransitionError now r else r);
            r = r\<lparr>CPUSet := '''', QueueCPUs := ''''\<rparr>
        in (r\<lparr>QuiescePending := needsQuiesce r\<rparr>, []))"
  for vid now markError
  by unfold_locales (auto simp: rec_defs split: if_splits)

section \<open>State changes\<close>

lemma UpdateState_keeps [triple_rules]:
  "keeps (vm_inv q) (UpdateState b vid VMStateStopped)" "keeps (vm_inv q) (UpdateState b vid VMStateError)"
  "keeps (vm_inv q) (MarkStarted b vid)"
  unfolding UpdateState_def MarkStarted_def
  by (intro triple_rules us.updateVM_keeps ue.updateVM_keeps ms.updateVM_keeps)+

lemma mark_books [triple_rules]:
  "keeps (books q g h) (MarkError b vid)" "keeps (books q g h) (QuarantineVM vid reason)"
  "keeps (books q g h) (markFailedOperation vid e)"
  unfolding MarkError_def UpdateState_def QuarantineVM_def markFailedOperation_def
  by (intro triple_rules ue.updateVM_books qv.updateVM_books mf.updateVM_books)+

lemma mark_keeps [triple_rules]:
  "keeps (vm_inv q) (MarkError b vid)" "keeps (vm_inv q) (QuarantineVM vid reason)" "keeps (vm_inv q) (markFailedOperation vid e)"
  by (intro keeps_level mark_books)+

lemma reconcile_accounts:
  assumes "db_ok db" "reconcile_rec b vid now dirty (tget (db_records db) vid) db = Inr (a, db')"
  shows "db_ok db' \<and> (\<forall>v. fold (ledger_step v) (snd a) (Some (record_open db v)) = Some (record_open db' v))"
proof (cases "db' = db \<and> snd a = []")
  case False
  then obtain r where r: "tget (db_records db) vid = Some r" "State r \<noteq> VMStateCreating"
    using assms(2) by (auto simp: reconcile_rec_def split: option.splits if_splits)
  with assms(1) face_get [OF r(1)] show ?thesis
    using assms(2) False db_okD [OF assms(1) r(1)]
    by (auto simp: reconcile_rec_def rec_defs makeEntry_def ledger_step_def intro!: tx_Put_ok
        split: if_splits prod.splits)
qed (use assms in simp)

lemma ReconcileToRunning_keeps [triple_rules]: "keeps (vm_inv q) (ReconcileToRunning b vid)"
proof -
  have "keeps (vm_inv q) (act_bind (vm_update (\<lambda>db. (let rr = tget (db_records db) vid
      in reconcile_rec b vid now (restore_dirty b h rr) rr db)))
         (\<lambda>(gen, emits). act_bind (emitAll emits) (\<lambda>_. act_return gen)))" for now h
  proof (rule update_then [where em = snd])
    fix a :: "64 word \<times> Entry list" and g g' :: "string \<Rightarrow> bool" and h
    assume "\<And>v. fold (ledger_step v) (snd a) (Some (g v)) = Some (g' v)"
    then have "triple (books q g h) (emitAll (snd a)) (\<lambda>_. books q g' h)" by (rule emitAll_books)
    then show "triple (books q g h) (case a of (gen, emits) \<Rightarrow> act_bind (emitAll emits) (\<lambda>_. act_return gen)) (\<lambda>_. books q g' h)"
      by (cases a) (auto intro: triple_seq triple_return)
  qed (auto simp: Let_def reconcile_accounts)
  then show ?thesis
    unfolding ReconcileToRunning_def
    by (intro keeps_bind keeps_basic stable_vm_inv) (rule triple_dep [where m = "\<lambda>w. X (w_host w)" for X])
qed

section \<open>Networking, placement and supervision\<close>

lemma host_ops_keeps [triple_rules]:
  "stable P \<Longrightarrow> keeps P (RecoverNetwork b rec)" "stable P \<Longrightarrow> keeps P (quiesceNetwork b rec)"
  "stable P \<Longrightarrow> keeps P (cleanupNetwork b vid)" "stable P \<Longrightarrow> keeps P (removeCgroupScope b vid)"
  "stable P \<Longrightarrow> keeps P (terminate b pid sock)" "stable P \<Longrightarrow> keeps P (RemoveVMDirs b rd ld)"
  unfolding RecoverNetwork_def quiesceNetwork_def cleanupNetwork_def removeCgroupScope_def terminate_def RemoveVMDirs_def
  by (intro triple_rules; assumption?)+

lemma scan_ops_keeps [triple_rules]:
  "stable P \<Longrightarrow> keeps P (ensureOrphanVMMDead b rd)" "stable P \<Longrightarrow> keeps P (kill_found b sc sock)"
  "stable P \<Longrightarrow> keeps P (CleanupRuntimeFiles b expand rd files)" "stable P \<Longrightarrow> keeps P (AbortLaunch b spec pid sock rd)"
  "stable P \<Longrightarrow> keeps P (check_restore_marker b rec)"
  "stable P \<Longrightarrow> keeps P (PeekRecord vid)" "stable P \<Longrightarrow> keeps P (LoadRecord vid)" "stable P \<Longrightarrow> keeps P (ResolveRef ref)"
  "stable P \<Longrightarrow> keeps P (ResolveRefs refs)"
  unfolding ensureOrphanVMMDead_def kill_found_def CleanupRuntimeFiles_def AbortLaunch_def check_restore_marker_def
    PeekRecord_def LoadRecord_def ResolveRef_def ResolveRefs_def Let_def
  by (intro triple_rules; assumption?)+

lemma ValidateHostCPU_keeps [triple_rules]: "keeps P (ValidateHostCPU b c)"
  by (simp add: triple_def ValidateHostCPU_def)

lemma with_lock_keeps [triple_rules]:
  "stable P \<Longrightarrow> keeps P m \<Longrightarrow> keeps P (with_lock b vid m)"
  "stable P \<Longrightarrow> keeps P m \<Longrightarrow> keeps P (withOpsTryLock b vid m)"
  unfolding with_lock_def withOpsTryLock_def by (intro triple_rules; assumption)+

lemma withRunningVM_keeps [triple_rules]: "(\<And>pid. keeps P (fn pid)) \<Longrightarrow> keeps P (withRunningVM b rec scan fn)"
  by (auto simp: triple_def withRunningVM_def split: sum.splits)

text \<open>A record update that leaves the interval and the name alone.\<close>

definition same_life :: "VMRecord \<Rightarrow> VMRecord \<Rightarrow> bool" where
  "same_life r r' \<longleftrightarrow>
     ID r' = ID r \<and> State r' = State r \<and> StartedAt r' = StartedAt r \<and> StoppedAt r' = StoppedAt r \<and>
     Name (Config r') = Name (Config r)"

lemma keeps_put:
  assumes "\<And>db a db'. fn db = Inr (a, db') \<Longrightarrow>
      db' = db \<or> (\<exists>r r'. tget (db_records db) vid = Some r \<and> db' = tx_Put vid r' db \<and> same_life r r')"
  shows "keeps (books q g h) (vm_update fn)"
proof (rule keeps_update)
  fix db a db'
  assume ok: "db_ok db" and f: "fn db = Inr (a, db')"
  from assms [OF f] show "db_ok db' \<and> face db' = face db"
  proof (elim disjE exE conjE)
    fix r r'
    assume r: "tget (db_records db) vid = Some r" "db' = tx_Put vid r' db" "same_life r r'"
    with db_okD [OF ok r(1)] tx_Put_ok [OF ok, of vid r'] face_get [OF r(1)] show ?thesis
      by (simp add: same_life_def rec_ok_def hasOpenComputeInterval_def fun_upd_idem)
  qed (use ok in simp)
qed

lemma clearQuiescePending_books [triple_rules]: "keeps (books q g h) (clearQuiescePending vid gen)"
  unfolding clearQuiescePending_def
  by (rule keeps_put [where vid = vid]) (auto simp: same_life_def split: option.splits if_splits)

lemma placeVM_life:
  "placeVM b h tables r cfg topo = Inr r' \<Longrightarrow> same_life r r' \<and> same_life r (r'\<lparr>QuiescePending := True\<rparr>)"
  by (auto simp: placeVM_def same_life_def Let_def split: option.splits sum.splits prod.splits if_splits)

lemma placementTopology_keeps [triple_rules]: "stable P \<Longrightarrow> keeps P (placementTopology b cfg)"
  unfolding placementTopology_def triple_def
  by (auto simp: Let_def intro: stableD split: if_splits)

lemma placeRecord_books [triple_rules]: "keeps (books q g h) (placeRecord b vid cfg)"
proof -
  have "keeps (books q g h) (vm_update (\<lambda>db. case getRecord vid db of
           Inl e \<Rightarrow> Inl e
         | Inr r \<Rightarrow>
             (case placeVM b k (db_placements db # peers) r cfg topo of
                Inl e \<Rightarrow> Inl e
              | Inr r \<Rightarrow>
                  (let r = (if State r \<noteq> VMStateCreating \<and> needsQuiesce r then r\<lparr>QuiescePending := True\<rparr> else r)
                   in Inr (r, tx_Put vid r db)))))" for topo k peers
    by (rule keeps_put [where vid = vid])
      (fastforce simp: Let_def getRecord_Inr dest: placeVM_life split: sum.splits if_splits)
  then show ?thesis
    unfolding placeRecord_def
    by (intro keeps_bind placementTopology_keeps stable_books) (rule triple_dep [where m = "\<lambda>w. X (w_host w) (w_peers w)" for X])
qed

lemma quiesce_keeps [triple_rules]:
  "keeps (books q g h) (quiesceAfterStop b vid rec d t)" "keeps (books q g h) (QuiesceIfPending b vid)"
  unfolding quiesceAfterStop_def QuiesceIfPending_def Let_def
  by (intro triple_rules; assumption?)+

lemma convergeDeadRecord_keeps [triple_rules]: "keeps (vm_inv q) (convergeDeadRecord b vid gen at)"
  unfolding convergeDeadRecord_def by (rule cd.guarded_keeps)

lemma silent_keeps [triple_rules]:
  "keeps (vm_inv q) (clearQuiescePending vid gen)" "keeps (vm_inv q) (placeRecord b vid cfg)"
  "keeps (vm_inv q) (quiesceAfterStop b vid rec d t)" "keeps (vm_inv q) (QuiesceIfPending b vid)"
  by (intro keeps_level triple_rules)+

lemma converge_keeps [triple_rules]:
  "keeps (vm_inv q) (ConvergeDead b vid gen at)" "keeps (vm_inv q) (convergeCrashedStart b rec)"
  unfolding ConvergeDead_def convergeCrashedStart_def by (intro triple_rules)+

lemma observe_keeps [triple_rules]: "stable P \<Longrightarrow> keeps P (observe b rec scan)"
  unfolding observe_def by (intro triple_rules)

end
