(* ===== verification/VmBooks.thy ===== *)
theory VmBooks
  imports VmInv
begin

text \<open>
  The books of the VM sequences: what the delete protocol, create, clone, start, stop, delete, snapshot,
  hibernate and restore keep of the invariant.
\<close>

section \<open>Sequencing\<close>

lemma triple_after:
  assumes "keeps P m" "\<And>a. triple P (f a) Q" "\<And>e w. P w \<Longrightarrow> Q (Inl e) w"
  shows "triple P (act_bind m f) Q"
  using assms by (intro triple_bind [where R = "\<lambda>_. P"]) (auto elim!: triple_weaken split: sum.splits)

text \<open>The clock, the id source and a look at the host do not fail.\<close>

lemma triple_total:
  assumes "stable P" "\<And>a. triple P (f a) Q"
  shows "triple P (act_bind timeNow f) Q"
proof (rule tripleI)
  fix w r w'
  assume w: "P w" "act_bind timeNow f w = (r, w')"
  have "P (w\<lparr>w_clock := Suc (w_clock w)\<rparr>)" by (rule stableD [OF assms(1) w(1)]) simp_all
  then show "Q r w'" using w(2) tripleD [OF assms(2)] by (simp add: act_bind_def timeNow_def)
qed

lemma triple_total_id:
  assumes "stable P" "\<And>a. triple P (f a) Q"
  shows "triple P (act_bind GenerateID f) Q"
proof (rule tripleI)
  fix w r w'
  assume w: "P w" "act_bind GenerateID f w = (r, w')"
  have "P (w\<lparr>w_ids := is\<rparr>)" for "is" by (rule stableD [OF assms(1) w(1)]) simp_all
  with w show "Q r w'" by (cases "w_ids w") (auto simp: act_bind_def GenerateID_def elim: tripleD [OF assms(2), rotated])
qed

text \<open>What the precondition says of the arguments may be used to prove the triple.\<close>

lemma triple_given: "(\<And>s. P s \<Longrightarrow> triple P m Q) \<Longrightarrow> triple P m Q"
  by (auto simp: triple_def)

lemma triple_total_get:
  assumes "\<And>k. triple (\<lambda>w. P w \<and> w_host w = k) (f (y k)) Q"
  shows "triple P (act_bind (get_host y) f) Q"
  using assms by (auto simp: triple_def act_bind_def get_host_def)

lemma triple_then: "keeps P m \<Longrightarrow> (\<And>r. triple P (f r) Q) \<Longrightarrow> triple P (act_try m f) Q"
  by (rule triple_try [where R = "\<lambda>_. P"])

section \<open>Delete protocol\<close>

text \<open>The VM's tombstone carries the lease.\<close>

definition leased :: "string \<Rightarrow> string \<Rightarrow> vmdb \<Rightarrow> bool" where
  "leased vid lease db \<longleftrightarrow> (\<exists>t. tget (db_tombs db) vid = Some t \<and> tb_lease t = lease)"

definition vm_gone :: "string \<Rightarrow> vmdb \<Rightarrow> bool" where
  "vm_gone vid db \<longleftrightarrow> tget (db_records db) vid = None \<and> tget (db_placements db) vid = None \<and> tget (db_tombs db) vid = None"

lemma spec_Finalize_leased:
  "leased vid lease db \<Longrightarrow> db_tombs db' = db_tombs db \<Longrightarrow> spec_Finalize (db_tombs db') vid lease = Inr (tdel vid (db_tombs db))"
  by (auto simp: leased_def spec_Finalize_def spec_fenced_def)

lemma finish_update:
  assumes w: "books q g h w" "leased vid lease (w_db w)"
    and u: "act_try (vm_update (\<lambda>db.
         (let db = tx_NameDelIfOwned (vc_Name cl) vid (tx_Del vid db)
          in res_map (\<lambda>T. ((), db\<lparr>db_tombs := T\<rparr>)) (spec_Finalize (db_tombs db) vid lease))))
       (\<lambda>r. act_res (if r = Inl ErrLost then Inr () else r)) w = (r, w')"
  shows "case r of Inl _ \<Rightarrow> books q g h w' | Inr _ \<Rightarrow> books q g (h(vid := None)) w' \<and> vm_gone vid (w_db w')"
proof -
  let ?db = "tx_NameDelIfOwned (vc_Name cl) vid (tx_Del vid (w_db w))"
  let ?fn = "\<lambda>db. (let db = tx_NameDelIfOwned (vc_Name cl) vid (tx_Del vid db)
          in res_map (\<lambda>T. ((), db\<lparr>db_tombs := T\<rparr>)) (spec_Finalize (db_tombs db) vid lease))"
  obtain r1 where v: "vm_update ?fn w = (r1, w')" and r: "r = (if r1 = Inl ErrLost then Inr () else r1)"
    using u by (auto simp: act_try_def act_res_def split: prod.splits)
  have t: "db_tombs ?db = db_tombs (w_db w)" by (simp add: tx_NameDelIfOwned_def tx_Del_def)
  have fn: "?fn (w_db w) = Inr ((), ?db\<lparr>db_tombs := tdel vid (db_tombs (w_db w))\<rparr>)"
    using spec_Finalize_leased [OF w(2) t] by (simp add: Let_def)
  from w(1) v show ?thesis
  proof (cases rule: update_cases)
    case (Refused e)
    with fn r show ?thesis by auto
  next
    case (Landed a db')
    with fn have db': "w_db w' = ?db\<lparr>db_tombs := tdel vid (db_tombs (w_db w))\<rparr>" by simp
    have "vm_gone vid (w_db w')"
      unfolding db' by (simp add: vm_gone_def tx_NameDelIfOwned_def tx_Del_def)
    moreover have "books q g (h(vid := None)) w'"
      using w(1) Landed(4,5) tx_Del_ok [of "w_db w" "vc_Name cl" vid] unfolding books_def db' by simp
    ultimately show ?thesis using r Landed by simp
  qed
qed

lemma finishVMTeardown_triple:
  "triple (\<lambda>w. books q g h w \<and> leased vid lease (w_db w)) (finishVMTeardown b vid lease cl)
     (\<lambda>r w. case r of Inl _ \<Rightarrow> books q g h w | Inr _ \<Rightarrow> books q g (h(vid := None)) w \<and> vm_gone vid (w_db w))"
  (is "triple ?P _ ?Q")
  unfolding finishVMTeardown_def
  by (intro triple_after host_ops_keeps stable_conj stable_books stable_db tripleI) (auto dest: finish_update)
lemma spec_Acquire_leased:
  "spec_Acquire lease now T vid p = Inr ((l, resumed), T') \<Longrightarrow> l = lease \<and> (\<exists>t. tget T' vid = Some t \<and> tb_lease t = l)"
  by (auto simp: spec_Acquire_def spec_TakeOver_def spec_Lease_def Let_def res_simps split: option.splits)

lemma spec_MarkDeleting_leased:
  "spec_MarkDeleting T vid lease = Inr T' \<Longrightarrow> \<exists>t. tget T' vid = Some t \<and> tb_lease t = lease"
  by (auto simp: spec_MarkDeleting_def spec_fenced_def res_simps split: option.splits if_splits)

lemma deleteVMProtocol_triple:
  "triple (books q g h) (deleteVMProtocol b vid rec)
     (\<lambda>r w. case r of
        Inl _ \<Rightarrow> books q g h w
      | Inr _ \<Rightarrow> books q g (h(vid := None)) w \<and> vm_gone vid (w_db w) \<and> h vid \<noteq> None)"
  (is "triple ?P _ ?Q")
proof -
  let ?L = "\<lambda>(lease, cl) w. books q g h w \<and> leased vid lease (w_db w) \<and> h vid \<noteq> None"
  let ?acq = "\<lambda>lease now cl db.
          if tget (db_records db) vid = None then Inl ErrVMNotFound
          else (case spec_Acquire lease now (db_tombs db) vid (Inr \<lparr>pl_mode = ModeAggregate, pl_cleanup = cl\<rparr>) of
                  Inl e \<Rightarrow> Inl e
                | Inr ((leaseID, resumed), T) \<Rightarrow>
                    Inr ((leaseID, case resumed of None \<Rightarrow> cl | Some t \<Rightarrow> merge_cleanup cl (pl_cleanup (tb_payload t))), db\<lparr>db_tombs := T\<rparr>))"
  have acquire: "triple ?P (vm_update (?acq lease now cl)) (\<lambda>r w. case r of Inl e \<Rightarrow> ?Q (Inl e) w | Inr a \<Rightarrow> ?L a w)"
    for lease now cl
    by (rule triple_weaken [OF update_triple [where h' = h and I = "\<lambda>_. True"
          and X = "\<lambda>(lease, cl) db. leased vid lease db \<and> h vid \<noteq> None"]])
      (auto simp: leased_def face_def split: if_splits sum.splits dest!: spec_Acquire_leased)
  have mark: "triple (?L (lease, cl)) (vm_update (\<lambda>db. res_map (\<lambda>T. ((), db\<lparr>db_tombs := T\<rparr>)) (spec_MarkDeleting (db_tombs db) vid lease)))
     (\<lambda>r w. case r of Inl e \<Rightarrow> ?Q (Inl e) w | Inr a \<Rightarrow> ?L (lease, cl) w)" for lease cl
    by (rule triple_weaken [OF update_triple [where h' = h and I = "\<lambda>db. h vid \<noteq> None"
          and X = "\<lambda>_ db. leased vid lease db \<and> h vid \<noteq> None"]])
      (auto simp: leased_def res_simps split: sum.splits dest!: spec_MarkDeleting_leased)
  have finish: "triple (?L (lease, cl')) (finishVMTeardown b vid lease cl) ?Q" for lease cl cl'
  proof (rule tripleI)
    fix w r w'
    assume "?L (lease, cl') w" "finishVMTeardown b vid lease cl w = (r, w')"
    with tripleD [OF finishVMTeardown_triple, of q g h w vid lease b cl r w'] show "?Q r w'" by (auto split: sum.splits)
  qed
  have rest: "triple (?L a) (case a of (lease, cl) \<Rightarrow>
      act_bind (vm_update (\<lambda>db. res_map (\<lambda>T. ((), db\<lparr>db_tombs := T\<rparr>)) (spec_MarkDeleting (db_tombs db) vid lease)))
        (\<lambda>_. finishVMTeardown b vid lease cl)) ?Q" for a
    using triple_bind [OF mark finish, of "fst a" "snd a" "\<lambda>_. snd a"] by (simp add: case_prod_beta)
  show ?thesis
    unfolding deleteVMProtocol_def Let_def
    by (intro triple_total triple_total_id stable_books triple_bind [OF acquire rest])
qed

text \<open>The entries a delete owes close the interval that the record had open.\<close>

lemma emitDeleteClose_triple:
  "triple (books q g h) (emitDeleteClose b vid shape reason (g vid)) (\<lambda>_. books q (g(vid := False)) h)"
proof -
  have stop: "triple (books q g h) (if g vid then Emit (makeEntry b KindVMComputeStop vid reason shape now) else act_return ())
      (\<lambda>_. books q (g(vid := False)) h)" for now
  proof (cases "g vid")
    case True
    then show ?thesis
      by (auto intro!: emitAll_books simp: ledger_step_def makeEntry_def)
  next
    case False
    then have "g(vid := False) = g" by (simp add: fun_upd_idem)
    with False show ?thesis by (auto intro: triple_return)
  qed
  have storage: "keeps (books q g' h) (Emit (makeEntry b KindVMStorageStop vid ReasonVMRemove shape now))" for g' now
    by (rule emitAll_books) (simp add: ledger_step_def makeEntry_def)
  show ?thesis
    unfolding emitDeleteClose_def
    by (intro triple_total stable_books triple_seq [OF stop] storage)
qed

lemma level_close: "level q (h(vid := None)) = books q ((opened \<circ> h)(vid := False)) (h(vid := None))"
  by (simp add: fun_upd_comp)

lemma RecoverTombstone_keeps [triple_rules]: "keeps (vm_inv q) (RecoverTombstone b vid)"
proof (rule tripleI)
  fix w r w'
  assume "vm_inv q w" and run: "RecoverTombstone b vid w = (r, w')"
  then obtain h where w: "level q h w" by (auto simp: vm_inv_def)
  let ?g = "opened \<circ> h"
  let ?X = "\<lambda>found db. case found of None \<Rightarrow> True
      | Some (lease, cl, vm) \<Rightarrow> leased vid lease db \<and> vm = tget (db_records db) vid"
  let ?rec = "\<lambda>lease now db. (case spec_Recover Inr lease now (db_tombs db) vid of
            Inl e \<Rightarrow> Inl e
          | Inr (None, T) \<Rightarrow> Inr (None, db\<lparr>db_tombs := T\<rparr>)
          | Inr (Some (t, cl), T) \<Rightarrow> Inr (Some (tb_lease t, cl, tget (db_records db) vid), db\<lparr>db_tombs := T\<rparr>))"
  have take: "triple (level q h) (vm_update (?rec lease now))
      (\<lambda>r w. case r of Inl e \<Rightarrow> vm_inv q w | Inr a \<Rightarrow> level q h w \<and> ?X a (w_db w))" for lease now
    by (rule triple_weaken [OF update_triple [where h' = h and I = "\<lambda>_. True" and X = ?X]])
      (auto simp: spec_Recover_def spec_TakeOver_def leased_def Let_def res_simps level_vm_inv
        split: option.splits sum.splits if_splits prod.splits)
  have close: "triple (\<lambda>w. level q h w \<and> ?X (Some (lease, cl, vm)) (w_db w))
     (act_bind (finishVMTeardown b vid lease cl) (\<lambda>_.
             act_bind (case vm of
                 None \<Rightarrow> act_return ()
               | Some r \<Rightarrow>
                   if State r \<noteq> VMStateCreating
                   then emitDeleteClose b vid (shapeFromConfig (Config r)) ReasonStopCrash (hasOpenComputeInterval r)
                   else act_return ()) (\<lambda>_. act_return True))) (\<lambda>_. vm_inv q)" for lease cl vm
  proof (rule triple_given)
    fix w0 :: "'a world"
    assume "level q h w0 \<and> ?X (Some (lease, cl, vm)) (w_db w0)"
    then have g: "case vm of None \<Rightarrow> \<not> ?g vid | Some r \<Rightarrow> hasOpenComputeInterval r = ?g vid \<and> (State r = VMStateCreating \<longrightarrow> \<not> ?g vid)"
      by (auto simp: books_def face_def split: option.splits dest: db_okD dest!: creating_closed [rotated])
    have closed: "books q (?g(vid := False)) h' w" if "\<not> opened (h vid)" "books q ?g h' w" for h' and w :: "'a world"
      using that by (simp add: fun_upd_idem)
    have fin: "triple (\<lambda>w. level q h w \<and> ?X (Some (lease, cl, vm)) (w_db w)) (finishVMTeardown b vid lease cl)
      (\<lambda>r w. case r of Inl e \<Rightarrow> vm_inv q w | Inr _ \<Rightarrow> books q ?g (h(vid := None)) w)"
      by (rule triple_weaken [OF finishVMTeardown_triple]) (auto split: sum.splits intro: level_vm_inv)
    have emit: "triple (books q ?g (h(vid := None))) (case vm of
                 None \<Rightarrow> act_return ()
               | Some r \<Rightarrow>
                   if State r \<noteq> VMStateCreating
                   then emitDeleteClose b vid (shapeFromConfig (Config r)) ReasonStopCrash (hasOpenComputeInterval r)
                   else act_return ()) (\<lambda>_. level q (h(vid := None)))"
      using g closed emitDeleteClose_triple [of q ?g "h(vid := None)" b vid]
      unfolding level_close by (auto intro!: triple_return closed simp del: fun_upd_apply split: option.splits)
    show "triple (\<lambda>w. level q h w \<and> ?X (Some (lease, cl, vm)) (w_db w)) (act_bind (finishVMTeardown b vid lease cl) (\<lambda>_.
             act_bind (case vm of
                 None \<Rightarrow> act_return ()
               | Some r \<Rightarrow>
                   if State r \<noteq> VMStateCreating
                   then emitDeleteClose b vid (shapeFromConfig (Config r)) ReasonStopCrash (hasOpenComputeInterval r)
                   else act_return ()) (\<lambda>_. act_return True))) (\<lambda>_. vm_inv q)"
      by (rule triple_bind [OF fin triple_seq [OF triple_weaken [OF emit _ level_vm_inv] triple_return]]) assumption+
  qed
  have "triple (level q h) (RecoverTombstone b vid) (\<lambda>_. vm_inv q)"
    unfolding RecoverTombstone_def
    by (intro triple_total triple_total_id stable_books triple_bind [OF take] keeps_cases)
      (auto simp del: o_apply intro: close [unfolded option.case prod.case] triple_return level_vm_inv)
  with w run show "vm_inv q w'" by (blast dest: tripleD)
qed

lemma entryGuard_keeps [triple_rules]: "keeps (vm_inv q) (entryGuard b vid)"
proof -
  have "keeps (vm_inv q) (vm_update (\<lambda>db.
               (case spec_TakeOver lease now (db_tombs db) vid of
                  (None, T) \<Rightarrow> Inl (ErrMsg ''nil tombstone'')
                | (Some taken, T) \<Rightarrow>
                    (case spec_Rollback T vid (tb_lease taken) of
                       Inl e \<Rightarrow> Inl e
                     | Inr T' \<Rightarrow> Inr (tget (db_records db) vid, db\<lparr>db_tombs := T'\<rparr>)))))" for lease now
    by (rule keeps_level [OF keeps_update]) (auto split: option.splits prod.splits sum.splits)
  then show ?thesis
    unfolding entryGuard_def by (intro triple_rules; assumption?)
qed

lemma EntryGuardLoad_keeps [triple_rules]: "keeps (vm_inv q) (EntryGuardLoad b vid)"
  unfolding EntryGuardLoad_def by (intro triple_rules; assumption?)
section \<open>Create and clone\<close>

lemma new_record_face [simp]:
  "ID (new_record vid typ st cfg net sto c u bl rd ld) = vid" "State (new_record vid typ st cfg net sto c u bl rd ld) = st"
  "Config (new_record vid typ st cfg net sto c u bl rd ld) = cfg" "StartedAt (new_record vid typ st cfg net sto c u bl rd ld) = None"
  "StoppedAt (new_record vid typ st cfg net sto c u bl rd ld) = None"
  "hasOpenComputeInterval (new_record vid typ st cfg net sto c u bl rd ld) = False"
  by (simp_all add: new_record_def hasOpenComputeInterval_def)

text \<open>A reservation leaves a closed placeholder under the id, with the asked name.\<close>

lemma ReserveVM_triple:
  "triple (books q g h) (ReserveVM b vid cfg bl rd ld)
     (\<lambda>r w. case r of
        Inl _ \<Rightarrow> books q g h w
      | Inr _ \<Rightarrow> books q g (h(vid := Some (False, Name cfg))) w \<and> \<not> opened (h vid))"
proof -
  let ?new = "\<lambda>now. new_record vid (bk_Typ b) VMStateCreating cfg zero_net [] now now bl rd ld"
  let ?fn = "\<lambda>now db. case tget (db_records db) vid of
         Some existing \<Rightarrow>
           if State existing = VMStateCreating \<and> Name (Config existing) = Name cfg
           then Inr ((), tx_Put vid (existing\<lparr>ImageBlobIDs := bl, RunDir := rd, LogDir := ld, UpdatedAt := now\<rparr>) db)
           else Inl (ErrMsg ''id collision'')
       | None \<Rightarrow>
           (case tget (db_names db) (Name cfg) of
              Some dup \<Rightarrow>
                if dup \<noteq> vid then Inl (ErrMsg ''vm name already exists'')
                else Inr ((), tx_NameSet (Name cfg) vid (tx_Put vid (?new now) db))
            | None \<Rightarrow> Inr ((), tx_NameSet (Name cfg) vid (tx_Put vid (?new now) db)))"
  have step: "db_ok db' \<and> face db' = (face db)(vid := Some (False, Name cfg)) \<and> \<not> opened (face db vid)"
    if ok: "db_ok db" and f: "?fn now db = Inr (a, db')" for now db a db'
  proof (cases "tget (db_records db) vid")
    case None
    then have d: "db' = tx_NameSet (Name cfg) vid (tx_Put vid (?new now) db)" "tget (db_names db) (Name cfg) \<in> {None, Some vid}"
      using f by (auto split: option.splits if_splits)
    have "db_ok db'"
      unfolding d(1) using tx_Put_name_ok [OF ok, of vid "?new now"] d(2) by (simp add: rec_ok_def)
    moreover have "face db vid = None" using None by (simp add: face_def)
    ultimately show ?thesis by (simp add: d(1))
  next
    case (Some r)
    let ?r = "r\<lparr>ImageBlobIDs := bl, RunDir := rd, LogDir := ld, UpdatedAt := now\<rparr>"
    have r: "State r = VMStateCreating" "Name (Config r) = Name cfg" "db' = tx_Put vid ?r db"
      using f Some by (auto split: if_splits)
    note k = db_okD [OF ok Some]
    then have "\<not> hasOpenComputeInterval r" using creating_closed r(1) by blast
    moreover have "hasOpenComputeInterval ?r = hasOpenComputeInterval r" by (simp add: hasOpenComputeInterval_def)
    moreover have "db_ok db'" unfolding r(3) using k by (intro tx_Put_ok ok) (auto simp: rec_ok_def)
    ultimately show ?thesis using face_get [OF Some] r(2) by (simp add: r(3))
  qed
  have "triple (books q g h) (vm_update (?fn now)) (\<lambda>r w. case r of
        Inl _ \<Rightarrow> books q g h w
      | Inr _ \<Rightarrow> books q g (h(vid := Some (False, Name cfg))) w \<and> \<not> opened (h vid))" for now
    by (rule triple_weaken [OF update_triple [where h' = "h(vid := Some (False, Name cfg))" and I = "\<lambda>_. True"
          and X = "\<lambda>_ _. \<not> opened (h vid)"]])
      (use step in \<open>auto split: sum.splits\<close>)
  then show ?thesis
    unfolding ReserveVM_def by (intro triple_total stable_books)
qed

lemma level_del: "\<not> opened (h vid) \<Longrightarrow> books q (opened \<circ> h) (h(vid := None)) w \<Longrightarrow> vm_inv q w"
  by (rule level_vm_inv [of q "h(vid := None)"]) (simp add: fun_upd_comp fun_upd_idem)

text \<open>Withdrawing a closed record owes nothing.\<close>

lemma create_cleanup_triple:
  assumes "\<not> opened (h vid)"
  shows "triple (level q h) (create_cleanup b vid name rd ld) (\<lambda>_. vm_inv q)"
proof -
  have "triple (\<lambda>w. level q h w \<and> True) (vm_update (\<lambda>db. Inr ((), tx_NameDelIfOwned name vid (tx_Del vid db))))
    (\<lambda>r w. case r of Inr _ \<Rightarrow> books q (opened \<circ> h) (h(vid := None)) w \<and> True | Inl _ \<Rightarrow> level q h w \<and> True)"
    by (rule update_triple) (use tx_Del_ok in auto)
  then have "triple (level q h) (vm_update (\<lambda>db. Inr ((), tx_NameDelIfOwned name vid (tx_Del vid db)))) (\<lambda>_. vm_inv q)"
    by (rule triple_weaken) (use level_del [of h vid, OF assms] level_vm_inv in \<open>auto simp del: o_apply split: sum.splits\<close>)
  then show ?thesis
    unfolding create_cleanup_def RollbackCreate_def act_ignore_def
    by (intro triple_seq triple_try triple_rules)
qed

lemma cleanup_fail:
  assumes "\<not> opened (h vid)" "\<And>e w. vm_inv q w \<Longrightarrow> Q (Inl e) w"
  shows "triple (level q h) (act_bind (create_cleanup b vid name rd ld) (\<lambda>_. act_fail e)) Q"
  by (rule triple_bind [where R = "\<lambda>_. vm_inv q"])
    (use assms in \<open>auto intro!: triple_weaken [OF create_cleanup_triple] triple_fail split: sum.splits\<close>)

lemma level_closed: "\<not> opened (h vid) \<Longrightarrow> books q (opened \<circ> h) (h(vid := Some (False, n))) w \<longleftrightarrow> level q (h(vid := Some (False, n))) w"
  by (simp add: fun_upd_comp fun_upd_idem)

lemma reservePlaceholder_triple:
  "triple (level q h) (reservePlaceholder b vid cfg bl)
     (\<lambda>r w. case r of Inl _ \<Rightarrow> vm_inv q w | Inr _ \<Rightarrow> level q (h(vid := Some (False, Name cfg))) w)"
  (is "triple _ _ ?Q")
proof -
  let ?h = "h(vid := Some (False, Name cfg))"
  have res: "triple (level q h) (ReserveVM b vid cfg bl rd ld)
      (\<lambda>r w. case r of Inl e \<Rightarrow> ?Q (Inl e) w | Inr _ \<Rightarrow> level q ?h w)" for rd ld
    by (rule triple_weaken [OF ReserveVM_triple]) (use level_closed [of h vid] level_vm_inv in \<open>auto simp del: o_apply split: sum.splits\<close>)
  have dirs: "triple (level q ?h) (act_try (on_host (EnsureDirs (bk_os b) [rd, ld])) (\<lambda>r. case r of
          Inl e \<Rightarrow> act_bind (create_cleanup b vid (Name cfg) rd ld) (\<lambda>_. act_fail e)
        | Inr _ \<Rightarrow> act_return (rd, now))) ?Q" for rd ld now
    by (intro triple_then keeps_basic stable_books keeps_cases triple_return cleanup_fail) (auto simp del: o_apply)
  show ?thesis
    unfolding reservePlaceholder_def Let_def
    by (intro triple_after [OF ValidateHostCPU_keeps] triple_total stable_books triple_bind [OF res dirs])
      (auto intro: level_vm_inv)
qed

text \<open>Filling in the placeholder.\<close>

lemma FinalizeCreate_triple:
  assumes "rec_ok vid info" "State info \<noteq> VMStateCreating" "StartedAt info = None"
  shows "triple (level q (h(vid := Some (False, Name (Config info))))) (FinalizeCreate b vid info bc bl)
    (\<lambda>_. level q (h(vid := Some (False, Name (Config info)))))"
  (is "keeps (level q ?h) _")
proof -
  let ?fn = "\<lambda>now db. case getRecord vid db of
         Inl e \<Rightarrow> Inl e
       | Inr existing \<Rightarrow>
           (let rec = info\<lparr>BootCfg := bc, ImageBlobIDs := bl, RunDir := RunDir existing, LogDir := LogDir existing,
                        Quarantine := '''', QuiescePending := False\<rparr>
            in Inr ((), tx_Put vid (markTransition (State info) TransitionCreate now rec) db))"
  have "keeps (level q ?h) (vm_update (?fn now))" for now
  proof (rule triple_weaken [OF update_triple [where h' = ?h and I = "\<lambda>_. True" and X = "\<lambda>_ _. True"]])
    fix db and a :: unit and db'
    assume ok: "db_ok db" "face db = ?h" and f: "?fn now db = Inr (a, db')"
    then obtain r where r: "tget (db_records db) vid = Some r" by (auto simp: getRecord_Inr split: sum.splits)
    let ?r = "markTransition (State info) TransitionCreate now (info\<lparr>BootCfg := bc, ImageBlobIDs := bl, RunDir := RunDir r,
      LogDir := LogDir r, Quarantine := '''', QuiescePending := False\<rparr>)"
    have d: "db' = tx_Put vid ?r db" using f r by (simp add: getRecord_def Let_def)
    have n: "Name (Config r) = Name (Config info)" using face_get [OF r] ok(2) by simp
    have "rec_ok vid ?r" "Name (Config ?r) = Name (Config info)" "\<not> hasOpenComputeInterval ?r"
      using assms by (simp_all add: rec_defs)
    with ok db_okD [OF ok(1) r] n show "db_ok db' \<and> face db' = ?h \<and> True" unfolding d by (simp add: tx_Put_ok)
  qed (auto split: sum.splits)
  then show ?thesis
    unfolding FinalizeCreate_def
    by (intro triple_rules emitAll_books; (assumption | simp add: ledger_step_def makeEntry_def)?)
qed

lemma CreateSequence_keeps [triple_rules]: "keeps (vm_inv q) (CreateSequence b vid spec)"
proof (rule tripleI)
  fix w r w'
  assume "vm_inv q w" and run: "CreateSequence b vid spec w = (r, w')"
  then obtain h where w: "level q h w" by (auto simp: vm_inv_def)
  let ?cfg = "cs_VMCfg spec"
  let ?h = "h(vid := Some (False, Name ?cfg))"
  have fill: "keeps (level q ?h) (FinalizeCreate b vid (new_record vid (bk_Typ b) VMStateCreated ?cfg net sto c u bl rd ld) bc bl')"
    for net sto c u bl rd ld bc bl'
    using FinalizeCreate_triple [of vid "new_record vid (bk_Typ b) VMStateCreated ?cfg net sto c u bl rd ld" q h]
    by (simp add: rec_ok_def del: o_apply)
  have body: "triple (level q ?h) (act_try (
        act_bind (on_host (cs_Prepare spec)) (\<lambda>(prepared, boot).
        act_bind (act_res (ValidateStorageConfigs prepared)) (\<lambda>_.
         act_bind (FinalizeCreate b vid (new_record vid (bk_Typ b) VMStateCreated ?cfg (cs_Net spec) prepared now now {} '''' '''') boot bl)
           (\<lambda>_. act_return (new_record vid (bk_Typ b) VMStateCreated ?cfg (cs_Net spec) prepared now now {} '''' '''')))))
      (\<lambda>r. case r of
          Inl e \<Rightarrow> act_bind (create_cleanup b vid (Name ?cfg) rd ld) (\<lambda>_. act_fail e)
        | Inr info \<Rightarrow> act_return info)) (\<lambda>_. vm_inv q)" for now bl rd ld
    by (intro triple_then triple_rules fill cleanup_fail; (assumption | erule level_vm_inv | simp)?)
  have "triple (level q h) (CreateSequence b vid spec) (\<lambda>_. vm_inv q)"
    unfolding CreateSequence_def Let_def
    by (intro triple_bind [OF reservePlaceholder_triple] keeps_cases) (rule body)
  with w run show "vm_inv q w'" by (blast dest: tripleD)
qed

text \<open>Finishing a clone opens the interval of its placeholder, and publishes it.\<close>

lemma emit_total: "triple P (emitAll es) (\<lambda>_. R) \<Longrightarrow> triple P (emitAll es) (\<lambda>r w. r = Inr () \<and> R w)"
  by (auto simp: triple_def emitAll_def)

lemma emitOpenInterval_triple:
  assumes "\<not> g vid"
  shows "triple (books q g h) (emitOpenInterval b vid cfg reason src now) (\<lambda>r w. r = Inr () \<and> books q (g(vid := True)) h w)"
  unfolding emitOpenInterval_def
  by (rule emit_total, rule emitAll_books) (use assms in \<open>auto simp: ledger_step_def makeSourceEntry_def makeEntry_def\<close>)

lemma UpdateRecord_triple:
  assumes "\<And>r r'. rec_ok vid r \<Longrightarrow> mutate r = Inr r' \<Longrightarrow>
      rec_ok vid r' \<and> Name (Config r') = Name (Config r) \<and> hasOpenComputeInterval r' = o'"
  shows "triple (books q g h) (UpdateRecord vid mutate)
    (\<lambda>r w. case r of Inl _ \<Rightarrow> books q g h w | Inr _ \<Rightarrow> h vid \<noteq> None \<and> books q g (h(vid := Some (o', snd (the (h vid))))) w)"
proof -
  let ?h = "h(vid := Some (o', snd (the (h vid))))"
  let ?fn = "\<lambda>db. case getRecord vid db of Inl e \<Rightarrow> Inl e | Inr r \<Rightarrow> res_map (\<lambda>r'. ((), tx_Put vid r' db)) (mutate r)"
  show ?thesis
    unfolding UpdateRecord_def
  proof (rule triple_weaken [OF update_triple [where h' = ?h and I = "\<lambda>_. True" and X = "\<lambda>_ _. h vid \<noteq> None"]])
    fix db and a :: unit and db'
    assume ok: "db_ok db" "face db = h" and f: "?fn db = Inr (a, db')"
    then obtain r r' where r: "tget (db_records db) vid = Some r" "mutate r = Inr r'" "db' = tx_Put vid r' db"
      by (auto simp: getRecord_Inr res_simps split: sum.splits)
    note k = db_okD [OF ok(1) r(1)]
    with assms [OF _ r(2)] ok face_get [OF r(1)] show "db_ok db' \<and> face db' = ?h \<and> h vid \<noteq> None"
      unfolding r(3) by (auto intro: tx_Put_ok)
  qed (auto split: sum.splits)
qed

lemma FinalizeClone_triple:
  assumes "ID info = vid" "State info \<notin> {VMStateCreating, VMStateStopped}" "hasOpenComputeInterval info"
  shows "triple (level q (h(vid := Some (False, Name (Config info))))) (FinalizeClone b vid info bc bl src reason)
    (\<lambda>r w. case r of Inl _ \<Rightarrow> level q (h(vid := Some (False, Name (Config info)))) w
      | Inr _ \<Rightarrow> level q (h(vid := Some (True, Name (Config info)))) w)"
  (is "triple (level q ?h) _ ?Q")
proof -
  let ?h' = "h(vid := Some (True, Name (Config info)))"
  let ?fn = "\<lambda>now db. case getRecord vid db of Inl e \<Rightarrow> Inl e | Inr r \<Rightarrow> res_map (\<lambda>r'. ((), tx_Put vid r' db))
         (let r = markTransition (State info) TransitionClone now (set_vm info r);
              r = r\<lparr>BootCfg := bc, FirstBooted := True\<rparr>
          in Inr (case bl of None \<Rightarrow> r | Some ids \<Rightarrow> r\<lparr>ImageBlobIDs := ids\<rparr>))"
  have put: "triple (level q ?h) (vm_update (?fn now))
      (\<lambda>r w. case r of Inl e \<Rightarrow> ?Q (Inl e) w | Inr _ \<Rightarrow> books q (opened \<circ> ?h) ?h' w)" for now
  proof (rule triple_weaken [OF update_triple [where h' = ?h' and I = "\<lambda>_. True" and X = "\<lambda>_ _. True"]])
    fix db and a :: unit and db'
    assume ok: "db_ok db" "face db = ?h" and f: "?fn now db = Inr (a, db')"
    then obtain r r' where r: "tget (db_records db) vid = Some r" "db' = tx_Put vid r' db"
      and r': "ID r' = ID info" "State r' = State info" "StartedAt r' = StartedAt info" "StoppedAt r' = StoppedAt info" "Config r' = Config info"
      by (auto simp: getRecord_Inr markTransition_def set_vm_def Let_def split: sum.splits option.splits if_splits)
    have "Name (Config r) = Name (Config info)" using face_get [OF r(1)] ok(2) by simp
    with db_okD [OF ok(1) r(1)] r' assms ok show "db_ok db' \<and> face db' = ?h' \<and> True"
      unfolding r(2) by (auto intro!: tx_Put_ok simp: rec_ok_def hasOpenComputeInterval_def)
  qed (auto simp del: o_apply split: sum.splits)
  have "triple (books q (opened \<circ> ?h) ?h') (emitOpenInterval b vid (Config info) reason src now) ?Q" for now
    by (rule triple_weaken [OF emitOpenInterval_triple [where g = "opened \<circ> ?h" and vid = vid]]) (auto simp: fun_upd_comp simp del: o_apply)
  then show ?thesis
    unfolding FinalizeClone_def UpdateRecord_def assms(1)
    by (intro triple_total stable_books triple_bind [OF put])
qed

section \<open>Start and stop\<close>

lemma PrepareStart_keeps [triple_rules]: "keeps (vm_inv q) (PrepareStart b vid scan spec)"
  unfolding PrepareStart_def by (intro triple_rules; assumption?)

lemma StartSequence_keeps [triple_rules]: "keeps (vm_inv q) (StartSequence b vid scan spec)"
  unfolding StartSequence_def start_locked_def Let_def by (intro triple_rules; assumption?)

lemma StopOneLocked_keeps [triple_rules]: "keeps (vm_inv q) (StopOneLocked b vid spec)"
  unfolding StopOneLocked_def Let_def by (intro triple_rules; assumption?)

lemma StopOneSequence_keeps [triple_rules]: "keeps (vm_inv q) (StopOneSequence b vid spec)"
  unfolding StopOneSequence_def by (intro triple_rules)

lemma ForEachVM_keeps:
  assumes "\<And>vid. keeps P (fn vid)"
  shows "keeps P (\<lambda>w. case ForEachVM ids fn w of (r, w') \<Rightarrow> (Inr r, w'))"
proof (rule tripleI)
  fix w r w'
  assume "P w" "(case ForEachVM ids fn w of (r, w') \<Rightarrow> (Inr r, w')) = (r, w')"
  then show "P w'"
    using keeps_ForEach [of ids P fn w, OF assms] by (cases "ForEach ids fn w") (simp add: ForEachVM_def)
qed

section \<open>Snapshot and hibernate\<close>

lemma UpdateRecord_life:
  assumes "\<And>r r'. mutate r = Inr r' \<Longrightarrow> same_life r r'"
  shows "keeps (books q g h) (UpdateRecord vid mutate)"
  unfolding UpdateRecord_def
  by (rule keeps_put [where vid = vid]) (use assms in \<open>fastforce simp: getRecord_Inr res_simps split: sum.splits\<close>)

lemma snapshot_ids_books [triple_rules]:
  "keeps (books q g h) (RecordSnapshot vid)" "keeps (books q g h) (UnrecordSnapshot vid sid)"
  unfolding RecordSnapshot_def UnrecordSnapshot_def
  by (intro triple_rules UpdateRecord_life; auto simp: same_life_def)+

lemma snapshot_ids_keeps [triple_rules]:
  "keeps (vm_inv q) (RecordSnapshot vid)" "keeps (vm_inv q) (UnrecordSnapshot vid sid)"
  by (intro keeps_level triple_rules)+

lemma prepareSnapshot_keeps [triple_rules]: "keeps (vm_inv q) (prepareSnapshot_locked b vid)"
  unfolding prepareSnapshot_locked_def Let_def by (intro triple_rules; assumption?)

lemma fail_resume_keeps [triple_rules]: "stable P \<Longrightarrow> keeps P (fail_resume spec rec r)"
  unfolding fail_resume_def by (intro triple_rules; assumption?)

lemma finalizeSnapshot_keeps [triple_rules]: "keeps (vm_inv q) (finalizeSnapshot b vid rec spec d)"
  unfolding finalizeSnapshot_def by (intro triple_rules; assumption?)

lemma with_capture_dir_keeps [triple_rules]: "stable P \<Longrightarrow> keeps P m \<Longrightarrow> keeps P (with_capture_dir b d m)"
  unfolding with_capture_dir_def by (intro triple_rules; assumption?)

lemma SnapshotSequence_keeps [triple_rules]: "keeps (vm_inv q) (SnapshotSequence b ref spec)"
  unfolding SnapshotSequence_def capture_window_def by (intro triple_rules; assumption?)

lemma HibernateSequence_keeps [triple_rules]: "keeps (vm_inv q) (HibernateSequence b ref spec kill expand files persist)"
  unfolding HibernateSequence_def hibernate_window_def by (intro triple_rules; assumption?)
section \<open>Clone\<close>

text \<open>What a backend's finishing hook promises: an error leaves the placeholder, success has published the clone.\<close>

definition clone_hook :: "bool \<Rightarrow> string \<Rightarrow> string \<Rightarrow> ('k, VMRecord) vmact \<Rightarrow> bool" where
  "clone_hook q vid name m \<longleftrightarrow>
     (\<forall>h. triple (level q (h(vid := Some (False, name)))) m
        (\<lambda>r w. case r of Inl _ \<Rightarrow> level q (h(vid := Some (False, name))) w | Inr _ \<Rightarrow> vm_inv q w))"

lemma placeRecord_owns:
  "triple (books q g h) (placeRecord b vid cfg) (\<lambda>r w. case r of Inl _ \<Rightarrow> books q g h w | Inr rec \<Rightarrow> books q g h w \<and> ID rec = vid)"
proof (rule tripleI)
  fix w r w'
  assume w: "books q g h w" and run: "placeRecord b vid cfg w = (r, w')"
  have keep: "books q g h w'" by (rule tripleD [OF placeRecord_books w run])
  have "ID rec = vid" if r: "r = Inr rec" for rec
  proof -
    from run r obtain topo w1 where t: "placementTopology b cfg w = (Inr topo, w1)"
      and u: "vm_update (\<lambda>db. case getRecord vid db of
           Inl e \<Rightarrow> Inl e
         | Inr r \<Rightarrow>
             (case placeVM b (w_host w1) (db_placements db # w_peers w1) r cfg topo of
                Inl e \<Rightarrow> Inl e
              | Inr r \<Rightarrow>
                  (let r = (if State r \<noteq> VMStateCreating \<and> needsQuiesce r then r\<lparr>QuiescePending := True\<rparr> else r)
                   in Inr (r, tx_Put vid r db)))) w1 = (Inr rec, w')"
      by (auto simp: placeRecord_def act_bind_Inr)
    have w1: "books q g h w1" by (rule tripleD [OF placementTopology_keeps [OF stable_books] w t])
    from w1 u show "ID rec = vid"
    proof (cases rule: update_cases)
      case (Landed a db')
      then obtain s p where s: "tget (db_records (w_db w1)) vid = Some s"
        and p: "placeVM b (w_host w1) (db_placements (w_db w1) # w_peers w1) s cfg topo = Inr p" and a: "ID a = ID p"
        by (auto simp: getRecord_Inr Let_def split: sum.splits if_splits)
      have "ID s = vid" using w1 db_okD [of "w_db w1" vid s] s by (auto simp: books_def rec_ok_def)
      with placeVM_life [OF p] a Landed show ?thesis by (auto simp: same_life_def)
    qed simp
  qed
  with keep show "case r of Inl _ \<Rightarrow> books q g h w' | Inr rec \<Rightarrow> books q g h w' \<and> ID rec = vid" by (cases r) auto
qed

text \<open>What a result says of itself may be used to run what follows it.\<close>

lemma triple_pre: "(X \<Longrightarrow> triple P m Q) \<Longrightarrow> triple (\<lambda>w. P w \<and> X) m Q"
  by (auto simp: triple_def)

lemma owned_bind:
  assumes "triple P m (\<lambda>r w. case r of Inl _ \<Rightarrow> R w | Inr a \<Rightarrow> R w \<and> X a)" "\<And>a. X a \<Longrightarrow> triple R (f a) Q" "\<And>e w. R w \<Longrightarrow> Q (Inl e) w"
  shows "triple P (act_bind m f) Q"
proof (rule triple_bind [where R = "\<lambda>a w. R w \<and> X a"])
  show "triple P m (\<lambda>r w. case r of Inl e \<Rightarrow> Q (Inl e) w | Inr a \<Rightarrow> R w \<and> X a)"
    by (rule triple_weaken [OF assms(1)]) (auto intro: assms(3) split: sum.splits)
  show "triple (\<lambda>w. R w \<and> X a) (f a) Q" for a
    by (rule triple_pre) (rule assms(2))
qed

lemma cloneBase_keeps:
  assumes "\<And>read rec. ID rec = vid \<Longrightarrow> clone_hook q vid (Name (cl_VMCfg spec)) (cl_AfterExtract spec read rec)"
  shows "keeps (vm_inv q) (cloneBase b vid spec populate)"
proof (rule tripleI)
  fix w r w'
  assume "vm_inv q w" and run: "cloneBase b vid spec populate w = (r, w')"
  then obtain h where w: "level q h w" by (auto simp: vm_inv_def)
  let ?cfg = "cl_VMCfg spec"
  let ?h = "h(vid := Some (False, Name ?cfg))"
  have hook: "triple (level q ?h) (cl_AfterExtract spec read rec) (\<lambda>r w. case r of Inl _ \<Rightarrow> level q ?h w | Inr _ \<Rightarrow> vm_inv q w)"
    if "ID rec = vid" for rec read
    using assms [OF that] by (simp add: clone_hook_def)
  have fin: "triple (level q ?h) (act_bind (placeRecord b vid ?cfg) (\<lambda>rec. act_bind (on_host (populate rd)) (\<lambda>read. cl_AfterExtract spec read rec)))
      (\<lambda>r w. case r of Inl _ \<Rightarrow> level q ?h w | Inr _ \<Rightarrow> vm_inv q w)" for rd
    by (rule owned_bind [OF placeRecord_owns], (intro triple_after keeps_basic stable_books hook; simp)) simp
  have body: "triple (level q ?h) (act_try (
        act_bind (placeRecord b vid ?cfg) (\<lambda>rec. act_bind (on_host (populate rd)) (\<lambda>read. cl_AfterExtract spec read rec)))
      (\<lambda>r. case r of
          Inl e \<Rightarrow> act_bind (create_cleanup b vid (Name ?cfg) rd ld) (\<lambda>_. act_fail e)
        | Inr info \<Rightarrow> act_return info)) (\<lambda>_. vm_inv q)" for rd ld
    by (rule triple_try [OF fin]) (auto intro!: cleanup_fail triple_return simp del: o_apply split: sum.splits)
  have "triple (level q h) (cloneBase b vid spec populate) (\<lambda>_. vm_inv q)"
    unfolding cloneBase_def Let_def
    by (intro triple_bind [OF reservePlaceholder_triple] keeps_cases) (rule body)
  with w run show "vm_inv q w'" by (blast dest: tripleD)
qed

section \<open>Delete\<close>

lemma books_face: "books q g h w \<Longrightarrow> face (w_db w) = h"
  by (simp add: books_def)

lemma view_quiet: "triple (books True g h) (vm_view fn) (\<lambda>r w. books True g h w \<and> r = fn (w_db w))"
  by (rule triple_weaken [OF view_triple]) auto

text \<open>Deleting, then publishing the interval that the record still had open.\<close>

lemma delete_publish:
  assumes "h vid \<noteq> None \<longrightarrow> o' = opened (h vid)"
  shows "triple (level q h) (act_bind (deleteVMProtocol b vid rec) (\<lambda>_. emitDeleteClose b vid shape reason o')) (\<lambda>_. vm_inv q)"
proof (rule triple_bind)
  let ?R = "\<lambda>_ w. books q (opened \<circ> h) (h(vid := None)) w \<and> h vid \<noteq> None"
  show "triple (level q h) (deleteVMProtocol b vid rec) (\<lambda>r w. case r of Inl e \<Rightarrow> vm_inv q w | Inr a \<Rightarrow> ?R a w)"
    by (rule triple_weaken [OF deleteVMProtocol_triple]) (use level_vm_inv in \<open>auto simp del: o_apply split: sum.splits\<close>)
  show "triple (?R a) (emitDeleteClose b vid shape reason o') (\<lambda>_. vm_inv q)" for a
  proof (rule triple_given)
    fix w :: "'a world"
    assume "?R a w"
    then have o': "o' = (opened \<circ> h) vid" using assms by simp
    show "triple (?R a) (emitDeleteClose b vid shape reason o') (\<lambda>_. vm_inv q)"
      unfolding o' by (rule triple_weaken [OF emitDeleteClose_triple])
        (use level_vm_inv [of q "h(vid := None)"] in \<open>auto simp: level_close simp del: o_apply\<close>)
  qed
qed

lemma delete_silent:
  assumes "\<not> opened (h vid)"
  shows "triple (level q h) (act_bind (deleteVMProtocol b vid rec) (\<lambda>_. act_return ())) (\<lambda>_. vm_inv q)"
  by (rule triple_bind [where R = "\<lambda>_. vm_inv q", OF triple_weaken [OF deleteVMProtocol_triple]])
    (use level_vm_inv level_del [of h vid, OF assms] in \<open>auto intro!: triple_return simp del: o_apply split: sum.splits\<close>)

text \<open>The tail of a delete, once no VMM is left.\<close>

lemma delete_tail:
  assumes "by_us \<or> (\<exists>n. h vid = Some (hasOpenComputeInterval rec, n))"
    and "State rec = VMStateCreating \<longrightarrow> \<not> opened (h vid)"
  shows "triple (level True h)
    (act_bind (if by_us
                      then act_try (LoadRecord vid) (\<lambda>f. act_return (case f of
                          Inr fresh \<Rightarrow> hasOpenComputeInterval fresh
                        | Inl _ \<Rightarrow> hasOpenComputeInterval rec))
                      else act_return (hasOpenComputeInterval rec)) (\<lambda>hadRunningInterval.
                  act_bind (deleteVMProtocol b vid rec) (\<lambda>_.
                    if State rec = VMStateCreating then act_return ()
                    else emitDeleteClose b vid shape reason hadRunningInterval))) (\<lambda>_. vm_inv True)"
proof (rule triple_bind)
  let ?R = "\<lambda>o' w. level True h w \<and> (h vid \<noteq> None \<longrightarrow> o' = opened (h vid))"
  have key: "h vid \<noteq> None \<longrightarrow> (case getRecord vid (w_db w) of Inr fresh \<Rightarrow> hasOpenComputeInterval fresh
      | Inl _ \<Rightarrow> hasOpenComputeInterval rec) = opened (h vid)" if "level True h w" for w :: "'c world"
    using books_face [OF that, symmetric] by (auto simp: face_def getRecord_def split: option.splits)
  have load: "triple (level True h) (LoadRecord vid) (\<lambda>r w. ?R (case r of Inr fresh \<Rightarrow> hasOpenComputeInterval fresh
                        | Inl _ \<Rightarrow> hasOpenComputeInterval rec) w)"
    unfolding LoadRecord_def
    by (rule triple_weaken [OF view_quiet [where g = "opened \<circ> h" and h = h]])
      (use key in blast)+
  show "triple (level True h) (if by_us
                      then act_try (LoadRecord vid) (\<lambda>f. act_return (case f of
                          Inr fresh \<Rightarrow> hasOpenComputeInterval fresh
                        | Inl _ \<Rightarrow> hasOpenComputeInterval rec))
                      else act_return (hasOpenComputeInterval rec))
    (\<lambda>r w. case r of Inl e \<Rightarrow> vm_inv True w | Inr a \<Rightarrow> ?R a w)"
    using assms(1) by (intro keeps_cases triple_try [OF load] triple_return) (auto simp del: o_apply)
  show "triple (?R o') (act_bind (deleteVMProtocol b vid rec) (\<lambda>_.
                    if State rec = VMStateCreating then act_return ()
                    else emitDeleteClose b vid shape reason o')) (\<lambda>_. vm_inv True)" for o'
  proof (rule triple_given)
    fix w :: "'a world"
    assume "?R o' w"
    then have o': "h vid \<noteq> None \<longrightarrow> o' = opened (h vid)" by blast
    show "triple (?R o') (act_bind (deleteVMProtocol b vid rec) (\<lambda>_.
                    if State rec = VMStateCreating then act_return ()
                    else emitDeleteClose b vid shape reason o')) (\<lambda>_. vm_inv True)"
    proof (cases "State rec = VMStateCreating")
      case True
      with assms(2) have "\<not> opened (h vid)" by blast
      from delete_silent [of h vid, OF this, of True b rec] show ?thesis
        unfolding if_P [OF True] by (rule triple_weaken) blast+
    next
      case False
      from delete_publish [of h vid o' True b rec shape reason, OF o'] show ?thesis
        unfolding if_not_P [OF False] by (rule triple_weaken) blast+
    qed
  qed
qed

lemma running_pid_withRunningVM:
  "running_pid b (w_host w) rec scan = Inl e \<Longrightarrow> withRunningVM b rec scan fn w = (Inl e, w)"
  "running_pid b (w_host w) rec scan = Inr pid \<Longrightarrow> withRunningVM b rec scan fn w = fn pid w"
  by (simp_all add: withRunningVM_def)
lemma triple_ex: "(\<And>x. triple (P x) m Q) \<Longrightarrow> triple (\<lambda>w. \<exists>x. P x w) m Q"
  unfolding triple_def by blast

lemma deleteOneLocked_triple:
  assumes stop: "\<And>v. keeps (vm_inv True) (stopLocked v)"
  shows "triple (\<lambda>w. vm_inv True w \<and> tget (db_records (w_db w)) vid = Some rec) (deleteOneLocked b vid force stopLocked rec procScan)
    (\<lambda>_. vm_inv True)"
proof -
  let ?P = "\<lambda>w. vm_inv True w \<and> tget (db_records (w_db w)) vid = Some rec"
  let ?sock = "vm_SocketPath (RunDir rec)"
  let ?tail = "\<lambda>by_us. act_bind (get_host (\<lambda>h. IsAPISocketLive b h rec)) (\<lambda>(live, probeErr).
                if live then act_fail (ErrMsg ''refuse delete: api socket'')
                else
                  act_bind (kill_found b procScan ?sock) (\<lambda>_.
                  act_bind (if by_us
                      then act_try (LoadRecord vid) (\<lambda>f. act_return (case f of
                          Inr fresh \<Rightarrow> hasOpenComputeInterval fresh
                        | Inl _ \<Rightarrow> hasOpenComputeInterval rec))
                      else act_return (hasOpenComputeInterval rec)) (\<lambda>hadRunningInterval.
                  act_bind (deleteVMProtocol b vid rec) (\<lambda>_.
                    if State rec = VMStateCreating then act_return ()
                    else emitDeleteClose b vid (shapeFromConfig (Config rec))
                      (if by_us then ReasonStopUser else ReasonStopCrash) hadRunningInterval))))"
  let ?R = "\<lambda>by_us w. if by_us \<and> State rec \<noteq> VMStateCreating then vm_inv True w else ?P w"
  have tail: "triple (?R by_us) (?tail by_us) (\<lambda>_. vm_inv True)" for by_us
  proof -
    let ?C = "\<lambda>h. (by_us \<or> (\<exists>n. h vid = Some (hasOpenComputeInterval rec, n))) \<and>
      (State rec = VMStateCreating \<longrightarrow> \<not> opened (h vid))"
    have "triple (\<lambda>w. \<exists>h. level True h w \<and> ?C h) (?tail by_us) (\<lambda>_. vm_inv True)"
    proof (rule triple_ex)
      fix h
      show "triple (\<lambda>w. level True h w \<and> ?C h) (?tail by_us) (\<lambda>_. vm_inv True)"
      proof (rule triple_given)
        fix w :: "'a world"
        assume "level True h w \<and> ?C h"
        then have C: "?C h" by blast
        have "triple (level True h) (?tail by_us) (\<lambda>_. vm_inv True)"
          by (intro triple_after keeps_basic scan_ops_keeps stable_books keeps_cases triple_fail
              delete_tail [of by_us h vid rec, OF conjunct1 [OF C] conjunct2 [OF C]]) (erule level_vm_inv)+
        then show "triple (\<lambda>w. level True h w \<and> ?C h) (?tail by_us) (\<lambda>_. vm_inv True)"
          by (rule triple_weaken) blast+
      qed
    qed
    moreover have "\<exists>h. level True h w \<and> ?C h" if "?R by_us w" for w :: "'a world"
    proof -
      from that obtain h where h: "level True h w" by (auto simp: vm_inv_def split: if_splits)
      then have "tget (db_records (w_db w)) vid = Some rec \<longrightarrow> ?C h"
        using books_face [OF h] face_get [of "w_db w" vid rec] creating_closed [of vid rec] db_okD [of "w_db w" vid rec]
        by (auto simp: books_def)
      with that h show ?thesis by (auto split: if_splits simp del: o_apply)
    qed
    ultimately show ?thesis by (rule triple_weaken) blast+
  qed
  let ?fn = "if \<not> force then act_fail (ErrMsg ''running (force required)'')
          else if State rec = VMStateCreating then ensureOrphanVMMDead b (RunDir rec)
          else stopLocked vid"
  have fn: "triple ?P ?fn (\<lambda>r w. if force then ?R True w else vm_inv True w \<and> r = Inl (ErrMsg ''running (force required)''))"
    by (intro keeps_cases triple_fail triple_weaken [OF scan_ops_keeps(1) [OF stable_conj [OF stable_vm_inv stable_db]]]
        triple_weaken [OF stop]) (simp_all del: o_apply)
  show ?thesis
  proof (rule tripleI)
    fix w r w'
    assume P: "?P w" and run: "deleteOneLocked b vid force stopLocked rec procScan w = (r, w')"
    show "vm_inv True w'"
    proof (cases "running_pid b (w_host w) rec (Some procScan)")
      case (Inl e)
      then have "w' = w \<or> ?tail False w = (r, w')"
        using run by (auto simp: deleteOneLocked_def Let_def act_bind_def [of "get_host (\<lambda>h. running_pid b h rec (Some procScan))"]
            get_host_def act_try_def [of "withRunningVM b rec (Some procScan) fn" for fn] withRunningVM_def act_res_def split: if_splits)
      with P tripleD [OF tail [of False]] show ?thesis by auto
    next
      case (Inr pid)
      obtain r1 w1 where c: "?fn w = (r1, w1)" by (cases "?fn w")
      note R = tripleD [OF fn P c]
      from Inr c have "w' = w1 \<or> force \<and> ?tail True w1 = (r, w')"
        using run by (auto simp: deleteOneLocked_def Let_def act_bind_def [of "get_host (\<lambda>h. running_pid b h rec (Some procScan))"]
            get_host_def act_try_def [of "withRunningVM b rec (Some procScan) fn" for fn] withRunningVM_def act_res_def split: if_splits)
      with R tripleD [OF tail [of True]] show ?thesis by (auto split: if_splits)
    qed
  qed
qed

lemma DeleteAll_keeps:
  assumes "\<And>v. keeps (vm_inv True) (stopLocked v)"
  shows "keeps (vm_inv True) (DeleteAll b refs force stopLocked)"
proof -
  have load: "triple (vm_inv True) (LoadRecord vid)
      (\<lambda>r w. case r of Inl e \<Rightarrow> vm_inv True w | Inr rec \<Rightarrow> vm_inv True w \<and> tget (db_records (w_db w)) vid = Some rec)" for vid
  proof -
    have "triple (\<lambda>w. \<exists>h. level True h w) (LoadRecord vid)
      (\<lambda>r w. case r of Inl e \<Rightarrow> vm_inv True w | Inr rec \<Rightarrow> vm_inv True w \<and> tget (db_records (w_db w)) vid = Some rec)"
      unfolding LoadRecord_def
      by (rule triple_ex, rule triple_weaken [OF view_quiet])
        (auto simp: getRecord_def simp del: o_apply dest: level_vm_inv split: sum.splits option.splits)
    then show ?thesis by (rule triple_weaken) (auto simp: vm_inv_def)
  qed
  have one: "keeps (vm_inv True) (with_lock b vid (act_bind (LoadRecord vid) (\<lambda>rec. deleteOneLocked b vid force stopLocked rec sc)))"
    for vid sc
    by (intro with_lock_keeps stable_vm_inv triple_bind [OF load] deleteOneLocked_triple assms)
  show ?thesis
    unfolding DeleteAll_def
    by (intro keeps_bind scan_ops_keeps(9) keeps_basic stable_vm_inv ForEachVM_keeps one)
qed
section \<open>Restore\<close>

lemma triple_ignored:
  assumes "triple P m (\<lambda>_. R)" "triple R (f ()) Q"
  shows "triple P (act_bind (act_ignore m) f) Q"
proof (rule tripleI)
  fix s r s'
  assume P: "P s" and b: "act_bind (act_ignore m) f s = (r, s')"
  obtain r1 s1 where m: "m s = (r1, s1)" by (cases "m s")
  from tripleD [OF assms(1) P m] b m show "Q r s'"
    using tripleD [OF assms(2)] by (simp add: act_bind_def act_ignore_def act_try_def)
qed

lemma triple_emit:
  assumes "triple P (emitAll es) (\<lambda>_. R)" "triple R (f ()) Q"
  shows "triple P (act_bind (emitAll es) f) Q"
proof (rule tripleI)
  fix w r w'
  assume P: "P w" and b: "act_bind (emitAll es) f w = (r, w')"
  obtain w1 where m: "emitAll es w = (Inr (), w1)" by (simp add: emitAll_def)
  from tripleD [OF assms(1) P m] b m show "Q r w'" using tripleD [OF assms(2)] by (simp add: act_bind_def)
qed

text \<open>The guard hands out the current record, and leaves the tables' reading as it was.\<close>

lemma entryGuard_triple:
  "triple (level q h) (entryGuard b vid)
     (\<lambda>r w. case r of Inl _ \<Rightarrow> vm_inv q w | Inr rec \<Rightarrow> level q h w \<and> rec = tget (db_records (w_db w)) vid)"
  (is "triple _ _ ?Q")
proof -
  let ?see = "\<lambda>db. Inr (tget (db_tombs db) vid, tget (db_records db) vid)"
  have view: "triple (level q h) (vm_view ?see)
    (\<lambda>r w. case r of Inl e \<Rightarrow> ?Q (Inl e) w | Inr p \<Rightarrow> level q h w \<and> snd p = tget (db_records (w_db w)) vid)"
    by (rule triple_weaken [OF view_triple])
      (use level_vm_inv in \<open>auto simp del: o_apply split: sum.splits\<close>)
  let ?take = "\<lambda>lease now db. (case spec_TakeOver lease now (db_tombs db) vid of
                  (None, T) \<Rightarrow> Inl (ErrMsg ''nil tombstone'')
                | (Some taken, T) \<Rightarrow>
                    (case spec_Rollback T vid (tb_lease taken) of
                       Inl e \<Rightarrow> Inl e
                     | Inr T' \<Rightarrow> Inr (tget (db_records db) vid, db\<lparr>db_tombs := T'\<rparr>)))"
  have take: "triple (level q h) (vm_update (?take lease now)) ?Q" for lease now
    by (rule triple_weaken [OF update_triple [where h' = h and I = "\<lambda>_. True" and X = "\<lambda>rec db. rec = tget (db_records db) vid"]])
      (use level_vm_inv in \<open>auto simp del: o_apply split: sum.splits option.splits prod.splits\<close>)
  have recover: "triple (level q h) (act_bind (RecoverTombstone b vid) (\<lambda>_. act_fail ErrVMNotFound)) ?Q"
    by (rule triple_bind [where R = "\<lambda>_. vm_inv q", OF triple_weaken [OF RecoverTombstone_keeps]])
      (use level_vm_inv in \<open>auto intro!: triple_fail simp del: o_apply split: sum.splits\<close>)
  have rest: "triple (\<lambda>w. level q h w \<and> snd p = tget (db_records (w_db w)) vid) (case p of (ts, rec) \<Rightarrow> (case ts of
         None \<Rightarrow> act_return rec
       | Some t \<Rightarrow>
           if tb_phase t \<noteq> PhaseLeased
           then act_bind (RecoverTombstone b vid) (\<lambda>_. act_fail ErrVMNotFound)
           else act_bind timeNow (\<lambda>now. act_bind GenerateID (\<lambda>lease. vm_update (?take lease now))))) ?Q" for p
    by (intro keeps_cases triple_total triple_total_id triple_return
        triple_weaken [OF recover] triple_weaken [OF take] stable_conj stable_books stable_db) (auto simp del: o_apply)
  show ?thesis
    unfolding entryGuard_def using triple_bind [OF view rest] .
qed

lemma EntryGuardLoad_triple:
  "triple (level q h) (EntryGuardLoad b vid)
     (\<lambda>r w. case r of Inl _ \<Rightarrow> vm_inv q w | Inr rec \<Rightarrow> level q h w \<and> tget (db_records (w_db w)) vid = Some rec)"
  unfolding EntryGuardLoad_def
  by (rule triple_bind [where R = "\<lambda>rec w. level q h w \<and> rec = tget (db_records (w_db w)) vid",
        OF triple_weaken [OF entryGuard_triple]])
    (use level_vm_inv in \<open>auto intro!: keeps_cases triple_fail triple_return simp del: o_apply split: sum.splits\<close>)

text \<open>Without store failures, the stop that a restore publishes leaves the interval closed.\<close>

definition closed_face :: "face \<Rightarrow> face" where
  "closed_face f = map_option (\<lambda>p. (False, snd p)) f"

lemma closed_face_simps [simp]: "\<not> opened (closed_face f)" "closed_face None = None" "closed_face (Some p) = Some (False, snd p)"
  by (cases f; simp add: closed_face_def)+

lemma emitRestoreComputeStop_triple:
  "triple (level True h) (emitRestoreComputeStop b vid shape src) (\<lambda>r w. r = Inr () \<and> level True (h(vid := closed_face (h vid))) w)"
proof -
  let ?h = "h(vid := closed_face (h vid))"
  let ?fn = "\<lambda>now db. case tget (db_records db) vid of
         None \<Rightarrow> Inr (False, db)
       | Some r \<Rightarrow>
           if \<not> hasOpenComputeInterval r then Inr (False, db)
           else
             (let r = markTransition VMStateStopped TransitionRestore now r;
                  r = r\<lparr>StoppedAt := Some now\<rparr>
              in Inr (True, tx_Put vid (r\<lparr>QuiescePending := needsQuiesce r\<rparr>) db))"
  have close: "triple (level True h) (vm_update (?fn now))
      (\<lambda>r w. \<exists>c. r = Inr c \<and> books True (opened \<circ> h) ?h w \<and> c = opened (h vid))" for now
  proof (rule tripleI)
    fix w r w'
    assume w: "level True h w" and u: "vm_update (?fn now) w = (r, w')"
    from w u show "\<exists>c. r = Inr c \<and> books True (opened \<circ> h) ?h w' \<and> c = opened (h vid)"
    proof (cases rule: update_cases)
      case (Refused e)
      then show ?thesis by (auto simp: Let_def split: option.splits if_splits)
    next
      case (Landed c db')
      have ok: "db_ok (w_db w)" "face (w_db w) = h" using w by (simp_all add: books_def)
      have "db_ok db' \<and> face db' = ?h \<and> c = opened (h vid)"
      proof (cases "tget (db_records (w_db w)) vid")
        case None
        then have "h vid = None" using ok(2) by (auto simp: face_def)
        with None Landed(1) ok show ?thesis by (simp add: fun_upd_idem)
      next
        case (Some r)
        let ?r = "(markTransition VMStateStopped TransitionRestore now r)\<lparr>StoppedAt := Some now\<rparr>"
        note k = db_okD [OF ok(1) Some] and f = face_get [OF Some]
        show ?thesis
        proof (cases "hasOpenComputeInterval r")
          case True
          with Some Landed(1) have d: "c" "db' = tx_Put vid (?r\<lparr>QuiescePending := needsQuiesce ?r\<rparr>) (w_db w)" by (simp_all add: Let_def)
          have "rec_ok vid (?r\<lparr>QuiescePending := x\<rparr>)" "Name (Config (?r\<lparr>QuiescePending := x\<rparr>)) = Name (Config r)"
            "\<not> hasOpenComputeInterval (?r\<lparr>QuiescePending := x\<rparr>)" for x
            using k by (simp_all add: rec_defs)
          with k ok f True d(1) show ?thesis unfolding d(2) by (simp add: tx_Put_ok)
        next
          case False
          with Some Landed(1) ok f show ?thesis by (simp add: fun_upd_idem)
        qed
      qed
      with Landed w show ?thesis by (simp add: books_def)
    qed
  qed
  have emit: "triple (books True (opened \<circ> h) ?h) (if \<not> opened (h vid) then act_return ()
      else Emit (makeSourceEntry b KindVMComputeStop vid src ReasonRestore shape now)) (\<lambda>_. level True ?h)" for now
  proof (cases "opened (h vid)")
    case True
    then show ?thesis
      by (auto intro!: emitAll_books simp: ledger_step_def makeSourceEntry_def makeEntry_def)
  next
    case False
    then have "opened \<circ> ?h = opened \<circ> h" by (simp add: fun_upd_comp fun_upd_idem)
    with False show ?thesis by (simp del: o_apply add: triple_return)
  qed
  have "triple (level True h) (act_bind (vm_update (?fn now)) (\<lambda>closed. if \<not> closed then act_return ()
          else Emit (makeSourceEntry b KindVMComputeStop vid src ReasonRestore shape now))) (\<lambda>_. level True ?h)" for now
  proof (rule tripleI)
    fix w r w'
    assume w: "level True h w" and run: "act_bind (vm_update (?fn now)) (\<lambda>closed. if \<not> closed then act_return ()
          else Emit (makeSourceEntry b KindVMComputeStop vid src ReasonRestore shape now)) w = (r, w')"
    obtain r1 w1 where u: "vm_update (?fn now) w = (r1, w1)" by (cases "vm_update (?fn now) w")
    from tripleD [OF close w u] have r1: "r1 = Inr (opened (h vid))" and w1: "books True (opened \<circ> h) ?h w1" by blast+
    from run u r1 have "(if \<not> opened (h vid) then act_return ()
      else Emit (makeSourceEntry b KindVMComputeStop vid src ReasonRestore shape now)) w1 = (r, w')"
      by (simp add: act_bind_def)
    with tripleD [OF emit w1] show "level True ?h w'" by blast
  qed
  then show ?thesis
    unfolding emitRestoreComputeStop_def act_ignore_def
    by (intro triple_total stable_books triple_try triple_return) blast+
qed

text \<open>
  A restored record opens a new interval, which the caller publishes. A restore hook promises that an
  error changes nothing the books read, and that success is such an opening of the VM it was given.
\<close>

definition named :: "string \<Rightarrow> face \<Rightarrow> bool" where
  "named n f \<longleftrightarrow> (\<forall>p. f = Some p \<longrightarrow> snd p = n)"

lemma FinalizeRestore_triple:
  assumes "named (Name cfg) (h vid)"
  shows "triple (books q g h) (FinalizeRestore b vid cfg rec pid)
    (\<lambda>r w. case r of
       Inl _ \<Rightarrow> books q g h w
     | Inr info \<Rightarrow> books q g (h(vid := Some (True, Name cfg))) w \<and> ID info = ID rec \<and> Config info = cfg)"
  (is "triple _ _ ?Q")
proof -
  let ?h = "h(vid := Some (True, Name cfg))"
  let ?fn = "\<lambda>now db. case getRecord vid db of Inl e \<Rightarrow> Inl e | Inr r \<Rightarrow> res_map (\<lambda>r'. ((), tx_Put vid r' db))
         (let r = markTransition VMStateRunning TransitionRestore now (r\<lparr>Config := cfg\<rparr>)
          in Inr (r\<lparr>Quarantine := '''', StartedAt := Some now, StoppedAt := None, QuiescePending := False\<rparr>))"
  have put: "triple (books q g h) (vm_update (?fn now)) (\<lambda>r w. case r of Inl e \<Rightarrow> ?Q (Inl e) w | Inr _ \<Rightarrow> books q g ?h w)" for now
  proof (rule triple_weaken [OF update_triple [where h' = ?h and I = "\<lambda>_. True" and X = "\<lambda>_ _. True"]])
    fix db and a :: unit and db'
    assume ok: "db_ok db" "face db = h" and f: "?fn now db = Inr (a, db')"
    then obtain r r' where r: "tget (db_records db) vid = Some r" "db' = tx_Put vid r' db"
      and r': "rec_ok vid r \<longrightarrow> rec_ok vid r'" "Config r' = cfg" "hasOpenComputeInterval r'"
      by (auto simp: getRecord_Inr rec_defs split: sum.splits option.splits if_splits)
    have "Name (Config r) = Name cfg" using face_get [OF r(1)] ok(2) assms by (simp add: named_def)
    with db_okD [OF ok(1) r(1)] r' ok show "db_ok db' \<and> face db' = ?h \<and> True"
      unfolding r(2) by (auto intro!: tx_Put_ok)
  qed (auto split: sum.splits)
  have info: "triple (books q g ?h) (act_bind (act_ignore (on_host m)) (\<lambda>_. get_host (\<lambda>k.
       (SetRunningSockets b k d (rec\<lparr>Config := cfg, State := VMStateRunning, PID := pid\<rparr>))
         \<lparr>StartedAt := Some now, UpdatedAt := now\<rparr>))) ?Q" for m now d
    by (rule triple_ignored [OF keeps_basic(1) [OF stable_books]])
      (auto simp: triple_def get_host_def SetRunningSockets_def Let_def)
  show ?thesis
    unfolding FinalizeRestore_def UpdateRecord_def
    by (intro triple_total stable_books triple_bind [OF put] info)
qed

definition restore_hook :: "string \<Rightarrow> string \<Rightarrow> ('k, VMRecord) vmact \<Rightarrow> bool" where
  "restore_hook vid name m \<longleftrightarrow>
     (\<forall>h. named name (h vid) \<longrightarrow> \<not> opened (h vid) \<longrightarrow>
        triple (level True h) m (\<lambda>r w. case r of
            Inl _ \<Rightarrow> level True h w
          | Inr info \<Rightarrow> books True (opened \<circ> h) (h(vid := Some (True, name))) w \<and> ID info = vid))"

lemma restoreCore_keeps:
  assumes kill: "\<And>h. keeps (level True h) (rr_kill run (rr_vmID run) (rr_rec run))"
    and app: "\<And>h. keeps (level True h) (rr_apply run (rr_rec run))"
    and after: "\<And>r. ID r = rr_vmID run \<Longrightarrow>
      restore_hook (rr_vmID run) (Name (rr_vmCfg run)) (rr_afterExtract run (rr_vmID run) (rr_vmCfg run) r)"
    and own: "ID (rr_rec run) = rr_vmID run"
    and name: "named (Name (rr_vmCfg run)) (h (rr_vmID run))"
  shows "triple (level True h) (restoreCore b run) (\<lambda>_. vm_inv True)"
proof -
  let ?vid = "rr_vmID run" and ?name = "Name (rr_vmCfg run)"
  let ?h = "h(?vid := closed_face (h ?vid))"
  let ?h' = "?h(?vid := Some (True, ?name))"
  let ?done = "\<lambda>result w. books True (opened \<circ> ?h) ?h' w \<and> ID result = ?vid"
  have hook: "triple (level True ?h) (rr_afterExtract run ?vid (rr_vmCfg run) r)
      (\<lambda>r w. case r of Inl _ \<Rightarrow> level True ?h w | Inr info \<Rightarrow> ?done info w)" if "ID r = ?vid" for r
  proof -
    have "named ?name (?h ?vid)" "\<not> opened (?h ?vid)" using name by (auto simp: named_def) (auto simp: closed_face_def)
    with after [OF that] show ?thesis unfolding restore_hook_def by blast
  qed
  have inner: "triple (level True ?h) (restore_inner b run)
      (\<lambda>r w. case r of Inl _ \<Rightarrow> level True ?h w | Inr info \<Rightarrow> ?done info w)"
    unfolding restore_inner_def Let_def
    by (intro triple_after keeps_basic app host_ops_keeps placeRecord_books stable_books hook) (simp_all add: own)
  have publish: "triple (?done result) (act_bind timeNow (\<lambda>now.
            act_bind (Emit (makeSourceEntry b KindVMStorageStop (ID result) src ReasonRestore shape now)) (\<lambda>_.
            act_bind (emitOpenInterval b (ID result) (Config result) ReasonRestore src now) (\<lambda>_.
            act_return result)))) (\<lambda>_. vm_inv True)" for result src shape
  proof (rule triple_given)
    fix w :: "'a world"
    assume "?done result w"
    then have v: "ID result = ?vid" by blast
    have store: "keeps (books q g h) (Emit (makeSourceEntry b KindVMStorageStop vid src ReasonRestore shape now))" for q g h vid now
      by (rule emitAll_books) (simp add: ledger_step_def makeSourceEntry_def makeEntry_def)
    have e: "opened \<circ> ?h' = (opened \<circ> ?h)(?vid := True)" and c: "\<not> (opened \<circ> ?h) ?vid" by (simp_all add: fun_upd_comp)
    have "triple (books True (opened \<circ> ?h) ?h') (emitOpenInterval b ?vid cfg ReasonRestore src now) (\<lambda>_. vm_inv True)" for cfg now
      by (rule triple_weaken [OF emitOpenInterval_triple [of "opened \<circ> ?h" ?vid, OF c]])
        (use level_vm_inv [of True ?h', unfolded e] in blast)+
    then have "triple (books True (opened \<circ> ?h) ?h') (act_bind timeNow (\<lambda>now.
            act_bind (Emit (makeSourceEntry b KindVMStorageStop ?vid src ReasonRestore shape now)) (\<lambda>_.
            act_bind (emitOpenInterval b ?vid (Config result) ReasonRestore src now) (\<lambda>_.
            act_return result)))) (\<lambda>_. vm_inv True)"
      by (intro triple_total stable_books triple_emit [OF store] triple_seq triple_return)
    then show "triple (?done result) (act_bind timeNow (\<lambda>now.
            act_bind (Emit (makeSourceEntry b KindVMStorageStop (ID result) src ReasonRestore shape now)) (\<lambda>_.
            act_bind (emitOpenInterval b (ID result) (Config result) ReasonRestore src now) (\<lambda>_.
            act_return result)))) (\<lambda>_. vm_inv True)"
      unfolding v by (rule triple_weaken) blast+
  qed
  have finish: "triple (level True ?h) (act_try (restore_inner b run) (\<lambda>r. case r of
          Inl e \<Rightarrow> act_bind (markFailedOperation ?vid mark) (\<lambda>_. act_fail e)
        | Inr result \<Rightarrow>
            act_bind timeNow (\<lambda>now.
            act_bind (Emit (makeSourceEntry b KindVMStorageStop (ID result) src ReasonRestore shape now)) (\<lambda>_.
            act_bind (emitOpenInterval b (ID result) (Config result) ReasonRestore src now) (\<lambda>_.
            act_return result))))) (\<lambda>_. vm_inv True)" for mark src shape
  proof (rule triple_try [OF inner])
    fix r
    have fail: "triple (level True ?h) (act_bind (markFailedOperation ?vid mark) (\<lambda>_. act_fail e)) (\<lambda>_. vm_inv True)" for e
      by (rule triple_weaken [OF keeps_bind [OF mark_books(3) triple_fail]]) (auto intro: level_vm_inv simp del: o_apply)
    show "triple (\<lambda>w. case r of Inl _ \<Rightarrow> level True ?h w | Inr info \<Rightarrow> ?done info w) (case r of
          Inl e \<Rightarrow> act_bind (markFailedOperation ?vid mark) (\<lambda>_. act_fail e)
        | Inr result \<Rightarrow>
            act_bind timeNow (\<lambda>now.
            act_bind (Emit (makeSourceEntry b KindVMStorageStop (ID result) src ReasonRestore shape now)) (\<lambda>_.
            act_bind (emitOpenInterval b (ID result) (Config result) ReasonRestore src now) (\<lambda>_.
            act_return result)))) (\<lambda>_. vm_inv True)"
      by (cases r) (simp_all only: sum.case fail publish)
  qed
  have stop: "triple (level True h) (emitRestoreComputeStop b ?vid shape src)
      (\<lambda>r w. case r of Inl _ \<Rightarrow> vm_inv True w | Inr _ \<Rightarrow> level True ?h w)" for shape src
    by (rule triple_weaken [OF emitRestoreComputeStop_triple]) (auto simp del: o_apply)
  show ?thesis
    unfolding restoreCore_def Let_def
    by (rule triple_after [OF kill triple_bind [OF stop finish]]) (erule level_vm_inv)
qed

lemma apply_books [triple_rules]:
  "keeps (books q g h) (direct_apply vid populate rec)" "keeps (books q g h) (staged_apply b vid d clean rec)"
  unfolding direct_apply_def staged_apply_def by (intro triple_rules; assumption?)+

lemma KillForRestore_books [triple_rules]: "keeps (books q g h) (KillForRestore b expand files kill vid rec)"
  unfolding KillForRestore_def failRestore_def by (intro triple_rules; assumption?)

lemma ResolveRef_quiet: "triple (level True h) (ResolveRef ref)
    (\<lambda>r w. case r of Inl e \<Rightarrow> vm_inv True w | Inr vid \<Rightarrow> level True h w \<and> tx_resolve ref (w_db w) = Inr vid)"
  unfolding ResolveRef_def
  by (rule triple_weaken [OF view_quiet [where g = "opened \<circ> h" and h = h]])
    (use level_vm_inv in \<open>auto simp del: o_apply split: sum.splits\<close>)

lemma prepareRestore_triple:
  "triple (level q h) (prepareRestore_locked b vid cfg)
     (\<lambda>r w. case r of Inl e \<Rightarrow> vm_inv q w | Inr rec \<Rightarrow> level q h w \<and> ID rec = vid)"
  (is "triple _ _ ?Q")
proof -
  have "ID rec = vid" if "level q h w" "tget (db_records (w_db w)) vid = Some rec" for rec and w :: "'a world"
    using that db_okD [of "w_db w" vid rec] by (auto simp: books_def rec_ok_def)
  then have load: "triple (level q h) (EntryGuardLoad b vid)
      (\<lambda>r w. case r of Inl e \<Rightarrow> ?Q (Inl e) w | Inr rec \<Rightarrow> level q h w \<and> ID rec = vid)"
    by (intro triple_weaken [OF EntryGuardLoad_triple]) (auto simp del: o_apply split: sum.splits)
  have rest: "triple (level q h) (act_bind (act_res (restorableState rec)) (\<lambda>_.
     act_bind (act_res (validateRecordInvariants rec)) (\<lambda>_.
       if \<not> sameImage cfg (Config rec) then act_fail (ErrMsg ''snapshot base image differs'') else act_return rec))) ?Q"
    if "ID rec = vid" for rec
    by (intro triple_after keeps_cases triple_fail triple_return triple_res)
      (auto intro: level_vm_inv simp: that simp del: o_apply)
  show ?thesis
    unfolding prepareRestore_locked_def
    by (rule triple_bind [OF load], rule triple_pre) (rule rest)
qed

text \<open>Under the lock: the guard, then the core, whose steps keep the books as it asks.\<close>

lemma restore_locked:
  assumes "\<And>rec. ID rec = vid \<Longrightarrow> triple (level True h) (m rec) (\<lambda>_. vm_inv True)"
  shows "triple (level True h) (with_lock b vid (act_bind (prepareRestore_locked b vid cfg) m)) (\<lambda>_. vm_inv True)"
proof -
  have body: "triple (level True h) (act_bind (prepareRestore_locked b vid cfg) m) (\<lambda>_. vm_inv True)"
    by (rule triple_bind [OF prepareRestore_triple], rule triple_pre) (rule assms)
  show ?thesis
    unfolding with_lock_def
    by (rule triple_after [OF keeps_basic(1) [OF stable_books] triple_try [OF body]])
      (auto intro!: triple_rules intro: level_vm_inv simp del: o_apply)
qed

definition restores :: "string \<Rightarrow> string \<Rightarrow> vmdb \<Rightarrow> bool" where
  "restores ref name db \<longleftrightarrow>
     (\<forall>vid r. tx_resolve ref db = Inr vid \<longrightarrow> tget (db_records db) vid = Some r \<longrightarrow> Name (Config r) = name)"

lemma restore_entry:
  assumes "\<And>h vid. named name (h vid) \<Longrightarrow> triple (level True h) (m vid) (\<lambda>_. vm_inv True)"
  shows "triple (\<lambda>w. vm_inv True w \<and> restores ref name (w_db w))
    (act_bind (ValidateHostCPU b c) (\<lambda>_. act_bind (ResolveRef ref) m)) (\<lambda>_. vm_inv True)"
proof -
  have "triple (\<lambda>w. \<exists>h. level True h w \<and> restores ref name (w_db w)) (act_bind (ValidateHostCPU b c) (\<lambda>_. act_bind (ResolveRef ref) m)) (\<lambda>_. vm_inv True)"
  proof (rule triple_ex)
    fix h
    let ?P = "\<lambda>w. level True h w \<and> restores ref name (w_db w)"
    let ?R = "\<lambda>vid w. level True h w \<and> named name (h vid)"
    have "triple ?P (ResolveRef ref) (\<lambda>r w. case r of Inl e \<Rightarrow> vm_inv True w | Inr vid \<Rightarrow> ?R vid w)"
    proof (rule tripleI)
      fix w r w'
      assume w: "?P w" and run: "ResolveRef ref w = (r, w')"
      have db: "w_db w' = w_db w"
        using run by (auto simp: ResolveRef_def vm_view_def next_fault_def split: list.splits store_fault.splits prod.splits)
      from w have lv: "level True h w" and rs: "restores ref name (w_db w)" by blast+
      note q = tripleD [OF ResolveRef_quiet lv run]
      show "case r of Inl e \<Rightarrow> vm_inv True w' | Inr vid \<Rightarrow> ?R vid w'"
      proof (cases r)
        case (Inr vid)
        with q have l': "level True h w'" and v: "tx_resolve ref (w_db w') = Inr vid" by simp_all
        have "named name (h vid)"
          using rs v unfolding books_face [OF lv, symmetric] db by (auto simp: restores_def named_def face_def)
        with l' Inr show ?thesis by simp
      qed (use q in simp)
    qed
    then have "triple ?P (act_bind (ResolveRef ref) m) (\<lambda>_. vm_inv True)"
    proof (rule triple_bind)
      fix vid
      show "triple (?R vid) (m vid) (\<lambda>_. vm_inv True)"
      proof (rule triple_given)
        fix w :: "'a world"
        assume "?R vid w"
        then have "named name (h vid)" by blast
        from assms [of h vid, OF this] show "triple (?R vid) (m vid) (\<lambda>_. vm_inv True)"
          by (rule triple_weaken) blast+
      qed
    qed
    then show "triple ?P (act_bind (ValidateHostCPU b c) (\<lambda>_. act_bind (ResolveRef ref) m)) (\<lambda>_. vm_inv True)"
      by (rule triple_after [OF ValidateHostCPU_keeps]) (auto intro: level_vm_inv simp del: o_apply)
  qed
  then show ?thesis by (rule triple_weaken) (auto simp: vm_inv_def)
qed

lemma DirectRestoreSequence_triple:
  assumes kill: "\<And>h vid rec. keeps (level True h) (dr_Kill spec vid rec)"
    and after: "\<And>read vid rec. ID rec = vid \<Longrightarrow> restore_hook vid (Name (dr_VMCfg spec)) (dr_AfterExtract spec read vid (dr_VMCfg spec) rec)"
  shows "triple (\<lambda>w. vm_inv True w \<and> restores ref (Name (dr_VMCfg spec)) (w_db w)) (DirectRestoreSequence b ref spec) (\<lambda>_. vm_inv True)"
  unfolding DirectRestoreSequence_def
proof (rule restore_entry, rule restore_locked)
  fix h and vid :: string and rec :: VMRecord
  assume n: "named (Name (dr_VMCfg spec)) (h vid)" and own: "ID rec = vid"
  show "triple (level True h) (act_bind (\<lambda>w. (dr_Preflight spec (w_host w) rec, w)) (\<lambda>read.
       restoreCore b \<lparr>rr_vmID = vid, rr_rec = rec, rr_vmCfg = dr_VMCfg spec, rr_source = dr_Source spec,
         rr_kill = dr_Kill spec, rr_apply = direct_apply vid (dr_Populate spec), rr_afterExtract = dr_AfterExtract spec read\<rparr>)) (\<lambda>_. vm_inv True)"
    by (intro triple_after keeps_basic stable_books restoreCore_keeps)
      (use kill after n own apply_books(1) level_vm_inv in auto)
qed

lemma RestoreSequence_triple:
  assumes kill: "\<And>h vid rec. keeps (level True h) (rs_Kill spec vid rec)"
    and after: "\<And>read vid rec. ID rec = vid \<Longrightarrow> restore_hook vid (Name (rs_VMCfg spec)) (rs_AfterExtract spec read vid (rs_VMCfg spec) rec)"
  shows "triple (\<lambda>w. vm_inv True w \<and> restores ref (Name (rs_VMCfg spec)) (w_db w)) (RestoreSequence b ref spec) (\<lambda>_. vm_inv True)"
  unfolding RestoreSequence_def
proof (rule restore_entry, rule restore_locked)
  fix h and vid :: string and rec :: VMRecord
  assume n: "named (Name (rs_VMCfg spec)) (h vid)" and own: "ID rec = vid"
  have core: "triple (level True h) (act_bind (\<lambda>w. (rs_Preflight spec (w_host w) d rec, w)) (\<lambda>read.
         restoreCore b \<lparr>rr_vmID = vid, rr_rec = rec, rr_vmCfg = rs_VMCfg spec, rr_source = rs_Source spec,
           rr_kill = rs_Kill spec, rr_apply = staged_apply b vid d (rs_Clean spec),
           rr_afterExtract = rs_AfterExtract spec read\<rparr>)) (\<lambda>_. vm_inv True)" for d
    by (intro triple_after keeps_basic stable_books restoreCore_keeps)
      (use kill after n own apply_books(2) level_vm_inv in auto)
  show "triple (level True h) (act_bind (on_host (PrepareStagingDir b (rs_Extract spec) (RunDir rec))) (\<lambda>stagingDir.
       act_try (
         act_bind (\<lambda>w. (rs_Preflight spec (w_host w) stagingDir rec, w)) (\<lambda>read.
         restoreCore b \<lparr>rr_vmID = vid, rr_rec = rec, rr_vmCfg = rs_VMCfg spec, rr_source = rs_Source spec,
           rr_kill = rs_Kill spec, rr_apply = staged_apply b vid stagingDir (rs_Clean spec),
           rr_afterExtract = rs_AfterExtract spec read\<rparr>))
         (\<lambda>r. act_bind (act_ignore (on_host (sys_removeall (bk_host b) stagingDir))) (\<lambda>_. act_res r)))) (\<lambda>_. vm_inv True)"
    by (rule triple_after [OF keeps_basic(1) [OF stable_books] triple_try [OF core]])
      (auto intro!: triple_rules intro: level_vm_inv simp del: o_apply)
qed

section \<open>Laws for the hooks of a backend\<close>

lemma keeps_res [triple_rules]: "keeps P (act_res r)"
  by (rule triple_res)

text \<open>An operation whose error is followed by a clean-up that changes no books.\<close>

lemma triple_abort:
  assumes "triple P m Q" "keeps R abort" "\<And>e w. Q (Inl e) w \<Longrightarrow> R w" "\<And>e w. R w \<Longrightarrow> Q (Inl e) w"
  shows "triple P (act_try m (\<lambda>r. case r of Inr a \<Rightarrow> act_return a | Inl e \<Rightarrow> act_bind abort (\<lambda>_. act_fail e))) Q"
proof (rule triple_try [OF assms(1)])
  fix r
  have fail: "triple R (act_bind abort (\<lambda>_. act_fail e)) Q" for e
    by (rule triple_after [OF assms(2)]) (auto intro!: triple_fail intro: assms(4))
  show "triple (Q r) (case r of Inr a \<Rightarrow> act_return a | Inl e \<Rightarrow> act_bind abort (\<lambda>_. act_fail e)) Q"
    by (cases r) (auto intro: triple_return triple_weaken [OF fail] assms(3))
qed

lemma bind_assoc: "act_bind (act_bind m f) g = act_bind m (\<lambda>a. act_bind (f a) g)"
  by (auto simp: act_bind_def fun_eq_iff split: prod.splits sum.splits)

lemma triple_finally:
  assumes "triple P m Q" "\<And>r. keeps (Q r) fin"
  shows "triple P (act_try m (\<lambda>r. act_bind (act_ignore fin) (\<lambda>_. act_res r))) Q"
proof (rule triple_try [OF assms(1)])
  fix r
  show "triple (Q r) (act_bind (act_ignore fin) (\<lambda>_. act_res r)) Q"
    by (rule triple_ignored [OF assms(2)]) (rule triple_res)
qed

lemma restore_finish:
  assumes "ID rec = vid" "named (Name cfg) (h vid)"
  shows "triple (level True h) (FinalizeRestore b vid cfg rec pid) (\<lambda>r w. case r of
      Inl _ \<Rightarrow> level True h w
    | Inr info \<Rightarrow> books True (opened \<circ> h) (h(vid := Some (True, Name cfg))) w \<and> ID info = vid)"
  by (rule triple_weaken [OF FinalizeRestore_triple [of cfg h vid, OF assms(2)]]) (auto simp: assms(1) simp del: o_apply split: sum.splits)

lemma RunningCloneRecord_info:
  assumes "stable P"
  shows "triple P (RunningCloneRecord b rec cfg storage net) (\<lambda>r w. case r of
      Inl _ \<Rightarrow> P w
    | Inr info \<Rightarrow> P w \<and> ID info = ID rec \<and> State info = VMStateRunning \<and> Config info = cfg \<and> hasOpenComputeInterval info)"
  unfolding RunningCloneRecord_def
  by (rule triple_total [OF assms])
    (auto simp: triple_def get_host_def SetRunningSockets_def new_record_def hasOpenComputeInterval_def Let_def)

text \<open>Publishing a clone that runs, in a backend that aborts its VMM when the record cannot be written.\<close>

lemma publish_hook:
  assumes own: "ID rec = vid" and abort: "\<And>P. stable P \<Longrightarrow> keeps P abort"
    and fin: "\<And>P info. stable P \<Longrightarrow> triple P (finish info) (\<lambda>r w. r = Inr info \<and> P w)"
  shows "triple (level q (h(vid := Some (False, Name cfg))))
    (act_bind (RunningCloneRecord b rec cfg storage net) (\<lambda>info.
     act_try (FinalizeClone b vid info bc bl src reason) (\<lambda>r. case r of
         Inl e \<Rightarrow> act_bind abort (\<lambda>_. act_fail e)
       | Inr _ \<Rightarrow> finish info)))
    (\<lambda>r w. case r of Inl _ \<Rightarrow> level q (h(vid := Some (False, Name cfg))) w | Inr _ \<Rightarrow> vm_inv q w)"
  (is "triple (level q ?h) _ ?Q")
proof (rule owned_bind [OF RunningCloneRecord_info [OF stable_books]])
  fix info :: VMRecord
  assume i: "ID info = ID rec \<and> State info = VMStateRunning \<and> Config info = cfg \<and> hasOpenComputeInterval info"
  let ?h' = "h(vid := Some (True, Name cfg))"
  have put: "triple (level q ?h) (FinalizeClone b vid info bc bl src reason)
    (\<lambda>r w. case r of Inl _ \<Rightarrow> level q ?h w | Inr _ \<Rightarrow> level q ?h' w)"
    by (rule FinalizeClone_triple [of info vid q h b bc bl src reason, unfolded conjunct1 [OF conjunct2 [OF conjunct2 [OF i]]]])
      (use i own in simp_all)
  have a: "triple (level q ?h) (act_bind abort (\<lambda>_. act_fail e)) ?Q" for e
    by (rule triple_after [OF abort [OF stable_books]]) (auto intro!: triple_fail simp del: o_apply)
  have c: "triple (level q ?h') (finish info) ?Q"
    by (rule triple_weaken [OF fin [OF stable_books]]) (auto intro: level_vm_inv simp del: o_apply)
  show "triple (level q ?h) (act_try (FinalizeClone b vid info bc bl src reason) (\<lambda>r. case r of
         Inl e \<Rightarrow> act_bind abort (\<lambda>_. act_fail e)
       | Inr _ \<Rightarrow> finish info)) ?Q"
  proof (rule triple_try [OF put])
    fix r :: "unit res"
    show "triple (\<lambda>w. case r of Inl _ \<Rightarrow> level q ?h w | Inr _ \<Rightarrow> level q ?h' w) (case r of
         Inl e \<Rightarrow> act_bind abort (\<lambda>_. act_fail e) | Inr _ \<Rightarrow> finish info) ?Q"
      by (cases r) (simp_all only: sum.case a c)
  qed
qed simp

end
