(* ===== verification/Disks.thy ===== *)
theory Disks
  imports VmRestore
begin

text \<open>
  The disks of a VM and the checks of a snapshot against it, from \<open>src/hypervisor\<close>: disk files and
  their names (\<open>disks.go\<close>), the snapshot sidecar \<open>cocoon.json\<close> and the rules a restore applies to it
  (\<open>snapshot.go\<close>, \<open>utils.go\<close>, \<open>baseconfig.go\<close>, \<open>src/snapshot/envelope.go\<close>), the files a direct clone or
  restore brings over, the guest's command line, and the read-only operations of \<open>inspect.go\<close>.
\<close>

section \<open>Paths from outside\<close>

text \<open>
  \<open>filepath.Clean\<close>: empty and dot components go, a dot-dot takes the component before it with it, and
  at the root it goes too. \<open>path_comps\<close> is what remains, outermost first.
\<close>

definition clean_step :: "bool \<Rightarrow> string \<Rightarrow> string list \<Rightarrow> string list" where
  "clean_step rooted c st =
     (if c = '''' \<or> c = ''.'' then st
      else if c = ''..'' then
        (case st of
           [] \<Rightarrow> if rooted then [] else [''..'']
         | t # ts \<Rightarrow> if t = ''..'' then ''..'' # st else ts)
      else c # st)"

definition path_comps :: "string \<Rightarrow> string list" where
  "path_comps path = rev (fold (clean_step (has_prefix path ''/'')) (SplitSeq (CHR ''/'') path) [])"

definition Clean :: "string \<Rightarrow> string" where
  "Clean path =
     (let cs = path_comps path
      in if has_prefix path ''/'' then CHR ''/'' # joined (CHR ''/'') cs
         else if cs = [] then ''.'' else joined (CHR ''/'') cs)"

definition IsUnderDir :: "string \<Rightarrow> string \<Rightarrow> bool" where
  "IsUnderDir path dir = has_prefix (Clean path) (Clean dir @ ''/'')"

text \<open>The VM that owns a path \<open><runRoot>/<vmID>/<file>\<close>; the infrastructure directories own none.\<close>

definition gcReservedDirNames :: "string list" where
  "gcReservedDirNames = [''db'', ''clone-locks'']"

definition VMIDFromRunPath :: "string \<Rightarrow> string \<Rightarrow> string option" where
  "VMIDFromRunPath runRoot path =
     (let dir = Clean (Dir path) in
      if Dir dir \<noteq> Clean runRoot then None
      else if Base dir \<in> set gcReservedDirNames then None
      else Some (Base dir))"

section \<open>Disks\<close>

text \<open>A loop whose body may return an error.\<close>

definition each_res :: "('a \<Rightarrow> unit res) \<Rightarrow> 'a list \<Rightarrow> unit res" where
  "each_res f xs = fold_res (\<lambda>x _. f x) xs ()"

text \<open>Copies the entries of a list of pointers, without its nil ones.\<close>

definition deref :: "'a option list \<Rightarrow> 'a list" where
  "deref xs = concat (map (\<lambda>x. case x of None \<Rightarrow> [] | Some a \<Rightarrow> [a]) xs)"

definition CloneStorageConfigs :: "StorageConfig option list \<Rightarrow> StorageConfig list" where
  "CloneStorageConfigs storageConfigs = deref storageConfigs"

definition COWRawFileName :: string where "COWRawFileName = ''cow.raw''"

definition CowSerial :: string where "CowSerial = ''cocoon-cow''"

definition MinBalloonMemory :: int where "MinBalloonMemory = push_bit 20 256"

definition DefaultBalloonDiv :: int where "DefaultBalloonDiv = 4"

definition BalloonSize :: "'a config_scheme \<Rightarrow> int \<times> bool" where
  "BalloonSize cfg =
     (if NoBalloon cfg \<or> Windows cfg \<or> Memory cfg < MinBalloonMemory then (0, False)
      else (Memory cfg div DefaultBalloonDiv, True))"

definition DataDiskBaseName :: "string \<Rightarrow> string" where
  "DataDiskBaseName serial = ''data-'' @ serial @ ''.raw''"

definition IsDataDiskFile :: "string \<Rightarrow> bool" where
  "IsDataDiskFile name = (has_prefix name ''data-'' \<and> HasSuffix name ''.raw'')"

fun DiskPathByRole :: "StorageConfig list \<Rightarrow> string \<Rightarrow> string" where
  "DiskPathByRole [] role = ''''"
| "DiskPathByRole (sc # scs) role = (if sc_Role sc = role then sc_Path sc else DiskPathByRole scs role)"

text \<open>A record's disk list has been validated, so it has no nil entry.\<close>

abbreviation rec_disks :: "VMRecord \<Rightarrow> StorageConfig list" where
  "rec_disks rec \<equiv> deref (StorageConfigs rec)"

abbreviation rec_nics :: "VMRecord \<Rightarrow> NetworkConfig list" where
  "rec_nics rec \<equiv> deref (NetworkConfigs rec)"

definition RecordedCOWPath :: "VMRecord \<Rightarrow> string res" where
  "RecordedCOWPath rec =
     (let cowPath = DiskPathByRole (rec_disks rec) StorageRoleCOW
      in if cowPath = '''' then Inl (ErrMsg ''no COW disk recorded'') else Inr cowPath)"

definition writableDiskPairs :: "string \<Rightarrow> VMRecord \<Rightarrow> (string \<times> string) list res" where
  "writableDiskPairs dstDir rec =
     (case RecordedCOWPath rec of
        Inl e \<Rightarrow> Inl e
      | Inr cowPath \<Rightarrow>
          Inr ((Join [dstDir, Base cowPath], cowPath) #
            map (\<lambda>sc. (Join [dstDir, DataDiskBaseName (sc_Serial sc)], sc_Path sc))
              (filter (\<lambda>sc. sc_Role sc = StorageRoleData) (rec_disks rec))))"

text \<open>
  What the disk code needs of the host beside its system calls: a directory listing with file types,
  opening a file for writing (which truncates it), setting its size, closing it, \<open>mkfs.ext4\<close>, links, a
  plain copy and a reflink copy. A concurrent \<open>utils.Map\<close> runs its items in turn here and stops at the
  first error.
\<close>

datatype file_type = RegularFile | SymlinkFile | DirFile | OtherFile

record 'k diskops =
  dk_ReadDir :: "'k \<Rightarrow> string \<Rightarrow> (string \<times> file_type) list res"
  dk_Create :: "string \<Rightarrow> ('k, unit) act"
  dk_Truncate :: "string \<Rightarrow> int \<Rightarrow> ('k, unit) act"
  dk_Close :: "string \<Rightarrow> ('k, unit) act"
  dk_Mkfs :: "string \<Rightarrow> ('k, unit) act"
  dk_Link :: "string \<Rightarrow> string \<Rightarrow> ('k, unit) act"
  dk_Symlink :: "string \<Rightarrow> string \<Rightarrow> ('k, unit) act"
  dk_Copy :: "string \<Rightarrow> string \<Rightarrow> ('k, unit) act"
  dk_Reflink :: "string \<Rightarrow> string \<Rightarrow> ('k, unit) act"

definition copyPairs :: "'k diskops \<Rightarrow> (string \<times> string) list \<Rightarrow> ('k, unit) act" where
  "copyPairs D pairs = act_each (\<lambda>(dst, src). dk_Reflink D dst src) pairs"

definition CopyWritableDisks :: "'k diskops \<Rightarrow> string \<Rightarrow> VMRecord \<Rightarrow> ('k, unit) act" where
  "CopyWritableDisks D dstDir rec =
     (case writableDiskPairs dstDir rec of Inl e \<Rightarrow> act_fail e | Inr pairs \<Rightarrow> copyPairs D pairs)"

definition createSparseFile :: "'k diskops \<Rightarrow> string \<Rightarrow> int \<Rightarrow> ('k, unit) act" where
  "createSparseFile D path sz =
     act_bind (dk_Create D path) (\<lambda>_.
     act_try (dk_Truncate D path sz) (\<lambda>truncErr.
     act_try (dk_Close D path) (\<lambda>closeErr h.
       ((case truncErr of Inl e \<Rightarrow> Inl e | Inr _ \<Rightarrow> closeErr), h))))"

definition data_disk :: "string \<Rightarrow> DataDiskSpec \<Rightarrow> StorageConfig" where
  "data_disk baseDir spec =
     \<lparr>sc_Path = Join [baseDir, DataDiskBaseName (dd_Name spec)], sc_RO = False, sc_Serial = dd_Name spec,
      sc_Role = StorageRoleData, sc_MountPoint = dd_MountPoint spec, sc_FSType = dd_FSType spec,
      sc_DirectIO = dd_DirectIO spec\<rparr>"

definition PrepareDataDisks :: "'k diskops \<Rightarrow> string \<Rightarrow> DataDiskSpec list \<Rightarrow> ('k, StorageConfig list) act" where
  "PrepareDataDisks D baseDir specs =
     act_bind (act_each (\<lambda>spec.
         (let path = sc_Path (data_disk baseDir spec) in
          act_bind (createSparseFile D path (dd_Size spec)) (\<lambda>_.
          if dd_FSType spec = FSTypeExt4 then dk_Mkfs D path else act_return ()))) specs) (\<lambda>_.
     act_return (map (data_disk baseDir) specs))"

definition PrepareCloneDataDisks ::
    "'k diskops \<Rightarrow> string \<Rightarrow> VMConfig \<Rightarrow> StorageConfig list \<Rightarrow> ('k, StorageConfig list) act" where
  "PrepareCloneDataDisks D runDir vmCfg existing =
     (if list_ex (\<lambda>spec. list_ex (\<lambda>sc. sc_Serial sc = dd_Name spec) existing) (DataDisks vmCfg)
      then act_fail (ErrMsg ''--data-disk name collides with a disk inherited from the snapshot'')
      else PrepareDataDisks D runDir (DataDisks vmCfg))"

definition cow_disk :: "string \<Rightarrow> StorageConfig" where
  "cow_disk cowPath =
     \<lparr>sc_Path = cowPath, sc_RO = False, sc_Serial = CowSerial, sc_Role = StorageRoleCOW, sc_MountPoint = '''',
      sc_FSType = '''', sc_DirectIO = None\<rparr>"

definition PrepareOCIDisks ::
    "'k diskops \<Rightarrow> string \<Rightarrow> VMConfig \<Rightarrow> StorageConfig list \<Rightarrow> ('k, StorageConfig list) act" where
  "PrepareOCIDisks D runDir vmCfg storageConfigs =
     (let cowPath = Join [runDir, COWRawFileName] in
      act_bind (createSparseFile D cowPath (Storage vmCfg)) (\<lambda>_.
      act_bind (dk_Mkfs D cowPath) (\<lambda>_.
      act_bind (PrepareDataDisks D runDir (DataDisks vmCfg)) (\<lambda>dataDisks.
      act_return (storageConfigs @ [cow_disk cowPath] @ dataDisks)))))"

definition QueueCPUList :: "VMRecord \<Rightarrow> int list" where
  "QueueCPUList rec = (case ParseCPUList (QueueCPUs rec) of Inl _ \<Rightarrow> [] | Inr cpus \<Rightarrow> cpus)"

definition LogFilePath :: "'k backend \<Rightarrow> string \<Rightarrow> string" where
  "LogFilePath b logDir = Join [logDir, bk_Typ b @ ''.log'']"

definition LogPath :: "'k backend \<Rightarrow> string \<Rightarrow> ('k, string) vmact" where
  "LogPath b ref =
     act_bind (ResolveAndLoad ref) (\<lambda>(vid, rec).
     act_return (LogFilePath b (cmp_Or [LogDir rec, VMLogDir b vid])))"

definition Inspect :: "'k backend \<Rightarrow> string \<Rightarrow> ('k, VMRecord) vmact" where
  "Inspect b ref = act_bind (ResolveAndLoad ref) (\<lambda>(vid, rec). get_host (\<lambda>h. ToVM b h rec))"

definition ListVMs :: "'k backend \<Rightarrow> ('k, VMRecord list) vmact" where
  "ListVMs b =
     act_bind (vm_view (\<lambda>db. Inr (map snd (db_records db)))) (\<lambda>recs.
     get_host (\<lambda>h. map (ToVM b h) recs))"

section \<open>Snapshot metadata\<close>

record SnapshotMeta =
  sm_StorageConfigs :: "StorageConfig option list"
  sm_BootConfig :: "BootConfig option"
  sm_NICMACs :: "string list option"

definition SnapshotMetaFile :: string where "SnapshotMetaFile = ''cocoon.json''"

definition SnapshotCOWFile :: "SnapshotMeta \<Rightarrow> string res" where
  "SnapshotCOWFile meta =
     (case filter (\<lambda>sc. sc_Role sc = StorageRoleCOW) (deref (sm_StorageConfigs meta)) of
        [] \<Rightarrow> Inl (ErrMsg ''no cow disk in snapshot metadata'')
      | sc # _ \<Rightarrow> Inr (Base (sc_Path sc)))"

definition VerifyManifest :: "'k host \<Rightarrow> 'k \<Rightarrow> string \<Rightarrow> string list \<Rightarrow> unit res" where
  "VerifyManifest K h dir files =
     each_res (\<lambda>name. case sys_stat K h (Join [dir, name]) of
         Inl _ \<Rightarrow> Inl (ErrMsg ''listed by the envelope is missing'')
       | Inr _ \<Rightarrow> Inr ()) files"

text \<open>\<open>filesize\<close> is the size that \<open>os.Stat\<close> reports.\<close>

definition VerifyCOWSize :: "(string \<Rightarrow> int res) \<Rightarrow> string \<Rightarrow> 'a config_scheme \<Rightarrow> unit res" where
  "VerifyCOWSize filesize dir cfg =
     (case filesize (Join [dir, COWRawFileName]) of
        Inl _ \<Rightarrow> Inr ()
      | Inr n \<Rightarrow> if Storage cfg \<le> 0 then Inr ()
                 else if n \<noteq> Storage cfg then Inl (ErrMsg ''cow size differs from the envelope'') else Inr ())"

definition snapshotResidentBasename :: "StorageConfig \<Rightarrow> string" where
  "snapshotResidentBasename sc =
     (if sc_Role sc = StorageRoleData then DataDiskBaseName (sc_Serial sc)
      else if sc_Role sc = StorageRoleCOW \<or> sc_Role sc = StorageRoleCidata then Base (sc_Path sc)
      else '''')"

definition ValidateSnapshotIntegrity :: "'k host \<Rightarrow> 'k \<Rightarrow> string \<Rightarrow> StorageConfig option list \<Rightarrow> unit res" where
  "ValidateSnapshotIntegrity K h srcDir sidecar =
     (case ValidateStorageConfigs sidecar of
        Inl e \<Rightarrow> Inl e
      | Inr _ \<Rightarrow>
          each_res (\<lambda>sc.
            (let fname = snapshotResidentBasename sc in
             if fname = '''' then Inr ()
             else (case sys_stat K h (Join [srcDir, fname]) of Inl e \<Rightarrow> Inl e | Inr _ \<Rightarrow> Inr ()))) (deref sidecar))"

definition isCidata :: "StorageConfig \<Rightarrow> bool" where
  "isCidata sc = (sc_Role sc = StorageRoleCidata)"

definition RecordDisksForSidecar :: "StorageConfig list \<Rightarrow> StorageConfig list \<Rightarrow> StorageConfig list" where
  "RecordDisksForSidecar sidecar rec =
     (if list_ex isCidata sidecar then rec else filter (\<lambda>sc. \<not> isCidata sc) rec)"

definition ValidateRoleSequence :: "StorageConfig list \<Rightarrow> StorageConfig list \<Rightarrow> unit res" where
  "ValidateRoleSequence sidecar rec0 =
     (let rec = RecordDisksForSidecar sidecar rec0 in
      if length sidecar > length rec then Inl (ErrMsg ''snapshot has more disks than the record'')
      else
        (case each_res (\<lambda>(sc, rc).
             if sc_Role rc \<noteq> sc_Role sc then Inl (ErrMsg ''role mismatch'')
             else if sc_Serial rc \<noteq> sc_Serial sc then Inl (ErrMsg ''serial mismatch'')
             else Inr ()) (zip sidecar rec) of
           Inl e \<Rightarrow> Inl e
         | Inr _ \<Rightarrow>
             each_res (\<lambda>rc. if sc_Role rc \<noteq> StorageRoleCidata then Inl (ErrMsg ''only present in record must be cidata'')
               else Inr ()) (drop (length sidecar) rec)))"

text \<open>Runs after \<open>ValidateRoleSequence\<close>, which bounds the sidecar by the record.\<close>

definition ValidateResidentPaths :: "StorageConfig list \<Rightarrow> StorageConfig list \<Rightarrow> unit res" where
  "ValidateResidentPaths sidecar rec =
     each_res (\<lambda>(sc, rc).
       if snapshotResidentBasename sc = '''' \<or> sc_Path sc = sc_Path rc then Inr ()
       else Inl (ErrMsg ''recorded at another path'')) (zip sidecar rec)"

definition EqualFold :: "string \<Rightarrow> string \<Rightarrow> bool" where
  "EqualFold s t = (ToLower s = ToLower t)"

definition ValidateRestoreMACs :: "string list option \<Rightarrow> VMRecord \<Rightarrow> unit res" where
  "ValidateRestoreMACs snapMACs rec =
     (case snapMACs of
        None \<Rightarrow> Inr ()
      | Some macs \<Rightarrow>
          if length macs \<noteq> length (rec_nics rec) then Inl (ErrMsg ''NIC identity must match for restore'')
          else each_res (\<lambda>(mac, nc). if EqualFold mac (nc_MAC nc) then Inr () else Inl (ErrMsg ''MAC drifted since snapshot''))
            (zip macs (rec_nics rec)))"

definition VerifyBaseFiles :: "'k host \<Rightarrow> 'k \<Rightarrow> StorageConfig list \<Rightarrow> BootConfig option \<Rightarrow> unit res" where
  "VerifyBaseFiles K h storageConfigs boot =
     (case each_res (\<lambda>sc. if sc_Role sc \<noteq> StorageRoleLayer then Inr () else sys_stat K h (sc_Path sc)) storageConfigs of
        Inl e \<Rightarrow> Inl e
      | Inr _ \<Rightarrow>
          (case boot of
             None \<Rightarrow> Inr ()
           | Some bc \<Rightarrow>
               each_res (\<lambda>path. if path = '''' then Inr () else sys_stat K h path)
                 [KernelPath bc, InitrdPath bc, FirmwarePath bc]))"

definition meta_path_check :: "string \<Rightarrow> string \<Rightarrow> StorageConfig option \<Rightarrow> unit res" where
  "meta_path_check rootDir runDir osc =
     (case osc of
        None \<Rightarrow> Inl (ErrMsg ''nil storage config in snapshot metadata'')
      | Some sc \<Rightarrow>
          (let base = Base (sc_Path sc) in
           if sc_Path sc = '''' \<or> base = ''.'' \<or> base = ''..'' \<or> base = ''/''
           then Inl (ErrMsg ''invalid storage path in snapshot metadata'')
           else if snapshotResidentBasename sc \<noteq> '''' then Inr ()
           else if \<not> IsUnderDir (sc_Path sc) rootDir \<and> \<not> IsUnderDir (sc_Path sc) runDir
           then Inl (ErrMsg ''untrusted storage path in snapshot metadata'')
           else Inr ()))"

definition ValidateMetaPaths :: "SnapshotMeta \<Rightarrow> string \<Rightarrow> string \<Rightarrow> unit res" where
  "ValidateMetaPaths meta rootDir runDir =
     (case each_res (meta_path_check rootDir runDir) (sm_StorageConfigs meta) of
        Inl e \<Rightarrow> Inl e
      | Inr _ \<Rightarrow>
          (case sm_BootConfig meta of
             None \<Rightarrow> Inr ()
           | Some bc \<Rightarrow>
               if KernelPath bc \<noteq> '''' \<and> \<not> IsUnderDir (KernelPath bc) rootDir
               then Inl (ErrMsg ''untrusted kernel path in snapshot metadata'')
               else if InitrdPath bc \<noteq> '''' \<and> \<not> IsUnderDir (InitrdPath bc) rootDir
               then Inl (ErrMsg ''untrusted initrd path in snapshot metadata'')
               else Inr ()))"

text \<open>\<open>load\<close> decodes the sidecar of a directory; \<open>rootDir\<close> and \<open>runDir\<close> are the configured ones.\<close>

definition LoadAndValidateMeta :: "(string \<Rightarrow> SnapshotMeta res) \<Rightarrow> string \<Rightarrow> string \<Rightarrow> string \<Rightarrow> SnapshotMeta res" where
  "LoadAndValidateMeta load rootDir runDir dir =
     (case load dir of
        Inl e \<Rightarrow> Inl e
      | Inr meta \<Rightarrow> res_map (\<lambda>_. meta) (ValidateMetaPaths meta rootDir runDir))"

definition PreflightRestore ::
    "(string \<Rightarrow> SnapshotMeta res) \<Rightarrow> string \<Rightarrow> string \<Rightarrow> string \<Rightarrow> VMRecord \<Rightarrow>
     (string \<Rightarrow> StorageConfig option list \<Rightarrow> unit res) \<Rightarrow> SnapshotMeta res" where
  "PreflightRestore load rootDir runDir srcDir rec integrity =
     (case LoadAndValidateMeta load rootDir runDir srcDir of
        Inl e \<Rightarrow> Inl e
      | Inr meta \<Rightarrow>
          (case integrity srcDir (sm_StorageConfigs meta) of
             Inl e \<Rightarrow> Inl e
           | Inr _ \<Rightarrow> res_map (\<lambda>_. meta) (ValidateRoleSequence (deref (sm_StorageConfigs meta)) (rec_disks rec))))"

text \<open>\<open>evalSymlinks\<close> is \<open>filepath.EvalSymlinks\<close> of the host; \<open>roots\<close> the three managed directories.\<close>

definition ResolveExternalVolume :: "(string \<Rightarrow> string res) \<Rightarrow> string list \<Rightarrow> string \<Rightarrow> string res" where
  "ResolveExternalVolume evalSymlinks roots path =
     (case evalSymlinks path of
        Inl e \<Rightarrow> Inl e
      | Inr resolved \<Rightarrow>
          if list_ex (\<lambda>dir. IsUnderDir resolved (case evalSymlinks dir of Inl _ \<Rightarrow> dir | Inr r \<Rightarrow> r)) roots
          then Inl (ErrMsg ''external volume path is inside a cocoon-managed directory'')
          else Inr resolved)"

section \<open>Snapshot files\<close>

datatype SnapshotFileKind = SnapshotFileMemory | SnapshotFileCOW | SnapshotFileMeta | SnapshotFileSkip

text \<open>Memory is linked (across file systems, symlinked), COW disks are copied last, metadata at once.\<close>

fun clone_entries ::
    "'k diskops \<Rightarrow> string \<Rightarrow> string \<Rightarrow> (string \<Rightarrow> SnapshotFileKind) \<Rightarrow> (string \<times> file_type) list \<Rightarrow>
     (string \<times> string) list \<Rightarrow> ('k, (string \<times> string) list) act" where
  "clone_entries D dstDir srcDir classify [] cowPairs = act_return cowPairs"
| "clone_entries D dstDir srcDir classify ((name, t) # es) cowPairs =
     (let src = Join [srcDir, name]; dst = Join [dstDir, name]; rest = clone_entries D dstDir srcDir classify es in
      if t \<noteq> RegularFile then rest cowPairs
      else (case classify name of
              SnapshotFileMemory \<Rightarrow>
                act_try (dk_Link D src dst) (\<lambda>r. case r of
                    Inr _ \<Rightarrow> rest cowPairs
                  | Inl e \<Rightarrow> if e \<noteq> EXDEV then act_fail e
                             else act_bind (dk_Symlink D src dst) (\<lambda>_. rest cowPairs))
            | SnapshotFileCOW \<Rightarrow> rest (cowPairs @ [(dst, src)])
            | SnapshotFileMeta \<Rightarrow> act_bind (dk_Copy D dst src) (\<lambda>_. rest cowPairs)
            | SnapshotFileSkip \<Rightarrow> rest cowPairs))"

definition CloneSnapshotFiles ::
    "'k diskops \<Rightarrow> string \<Rightarrow> string \<Rightarrow> (string \<Rightarrow> SnapshotFileKind) \<Rightarrow> ('k, unit) act" where
  "CloneSnapshotFiles D dstDir srcDir classify h =
     (case dk_ReadDir D h srcDir of
        Inl e \<Rightarrow> (Inl e, h)
      | Inr entries \<Rightarrow> act_bind (clone_entries D dstDir srcDir classify entries []) (copyPairs D) h)"

definition CleanSnapshotFiles :: "'k host \<Rightarrow> 'k diskops \<Rightarrow> string \<Rightarrow> (string \<Rightarrow> bool) \<Rightarrow> ('k, unit) act" where
  "CleanSnapshotFiles K D runDir match h =
     (case dk_ReadDir D h runDir of
        Inl e \<Rightarrow> (Inl e, h)
      | Inr entries \<Rightarrow>
          act_each (\<lambda>(name, t).
            if t \<noteq> RegularFile \<and> t \<noteq> SymlinkFile then act_return ()
            else if match name then sys_remove K (Join [runDir, name]) else act_return ()) entries h)"

definition PopulateFromSrc ::
    "string \<Rightarrow> string \<Rightarrow> (string \<Rightarrow> ('k, unit) act) \<Rightarrow> (string \<Rightarrow> string \<Rightarrow> ('k, unit) act) \<Rightarrow> ('k, unit) act" where
  "PopulateFromSrc runDir srcDir clean clone = act_bind (clean runDir) (\<lambda>_. clone runDir srcDir)"

section \<open>The guest's command line\<close>

definition ReverseLayers :: "StorageConfig list \<Rightarrow> (nat \<Rightarrow> StorageConfig \<Rightarrow> 'a) \<Rightarrow> 'a list" where
  "ReverseLayers storageConfigs project =
     (let layers = filter (\<lambda>sc. sc_Role sc = StorageRoleLayer) storageConfigs
      in rev (map (\<lambda>i. project i (layers ! i)) [0..<length layers]))"

text \<open>\<open>net.IP(net.CIDRMask(ones, 32)).String()\<close>.\<close>

definition mask_byte :: "nat \<Rightarrow> nat \<Rightarrow> nat" where
  "mask_byte ones i = 256 - 2 ^ (8 - min 8 (ones - 8 * i))"

definition mask_string :: "int \<Rightarrow> string" where
  "mask_string ones =
     (if ones < 0 \<or> ones > 32 then ''<nil>''
      else joined (CHR ''.'') (map (\<lambda>i. itoa (mask_byte (nat ones) i)) [0..<4]))"

definition ip_param :: "string \<Rightarrow> nat \<Rightarrow> NetworkConfig \<Rightarrow> string" where
  "ip_param dns i n =
     (case nc_Network n of
        None \<Rightarrow> ''''
      | Some ip \<Rightarrow>
          if ip_IP ip = '''' then ''''
          else '' ip='' @ ip_IP ip @ ''::'' @ ip_Gateway ip @ '':'' @ mask_string (ip_Prefix ip) @ ''::eth'' @ itoa i @ '':off'' @
            (if dns \<noteq> '''' then '':'' @ dns else ''''))"

definition BuildIPParams :: "NetworkConfig list \<Rightarrow> string \<Rightarrow> string list \<Rightarrow> string" where
  "BuildIPParams networkConfigs vmName dnsServers =
     (let dns = joined (CHR '':'') (take 2 dnsServers)
      in '' cocoon.hostname='' @ vmName @
         concat (map (\<lambda>i. ip_param dns i (networkConfigs ! i)) [0..<length networkConfigs]))"

definition BuildBaseCmdline ::
    "string \<Rightarrow> string \<Rightarrow> string \<Rightarrow> NetworkConfig list \<Rightarrow> string \<Rightarrow> string list \<Rightarrow> string" where
  "BuildBaseCmdline pre layers cow networkConfigs vmName dnsServers =
     pre @ '' boot=cocoon-overlay cocoon.layers='' @ layers @ '' cocoon.cow='' @ cow @ '' clocksource=kvm-clock rw'' @
     (if networkConfigs \<noteq> [] then '' net.ifnames=0'' @ BuildIPParams networkConfigs vmName dnsServers else '''')"
section \<open>Lemmas\<close>

lemma each_res_iff: "each_res f xs = Inr () \<longleftrightarrow> (\<forall>x \<in> set xs. f x = Inr ())"
  unfolding each_res_def by (induction xs) (auto split: sum.splits)

lemma res_seq_iff: "(case r of Inl e \<Rightarrow> Inl e | Inr _ \<Rightarrow> q) = Inr () \<longleftrightarrow> r = Inr () \<and> q = Inr ()" for r q :: "unit res"
  by (cases r) auto

lemma set_deref: "set (deref xs) = {a. Some a \<in> set xs}"
  by (induction xs) (auto simp: deref_def split: option.splits)

lemma deref_Some [simp]: "deref (map Some xs) = xs"
  by (induction xs) (simp_all add: deref_def)

text \<open>Splitting undoes joining when no piece has the separator.\<close>

lemma joined_append: "ps \<noteq> [] \<Longrightarrow> qs \<noteq> [] \<Longrightarrow> joined sep (ps @ qs) = joined sep ps @ sep # joined sep qs"
  by (induction sep ps rule: joined.induct) (auto simp: joined_Cons)

lemma fold_clean_step:
  assumes "\<forall>c \<in> set cs. CHR ''/'' \<notin> set c" "\<forall>c \<in> set st. CHR ''/'' \<notin> set c \<and> c \<noteq> ''''"
    "rooted \<Longrightarrow> ''..'' \<notin> set st" "c \<in> set (fold (clean_step rooted) cs st)"
  shows "CHR ''/'' \<notin> set c \<and> c \<noteq> '''' \<and> (rooted \<longrightarrow> c \<noteq> ''..'')"
  using assms
proof (induction cs arbitrary: st)
  case (Cons a cs)
  show ?case
  proof (rule Cons.IH [of "clean_step rooted a st"])
    show "\<forall>c \<in> set cs. CHR ''/'' \<notin> set c" using Cons.prems(1) by simp
    show "\<forall>c \<in> set (clean_step rooted a st). CHR ''/'' \<notin> set c \<and> c \<noteq> ''''"
      using Cons.prems(1,2) by (auto simp: clean_step_def split: list.splits)
    show "rooted \<Longrightarrow> ''..'' \<notin> set (clean_step rooted a st)"
      using Cons.prems(3) by (auto simp: clean_step_def split: if_splits list.splits)
    show "c \<in> set (fold (clean_step rooted) cs (clean_step rooted a st))" using Cons.prems(4) by simp
  qed
qed auto

lemma path_comps_ok:
  "c \<in> set (path_comps p) \<Longrightarrow> CHR ''/'' \<notin> set c \<and> c \<noteq> '''' \<and> (has_prefix p ''/'' \<longrightarrow> c \<noteq> ''..'')"
  unfolding path_comps_def set_rev by (rule fold_clean_step) (auto dest: SplitSeq_pieces)

lemma Clean_rooted: "has_prefix p ''/'' \<Longrightarrow> Clean p = CHR ''/'' # joined (CHR ''/'') (path_comps p)"
  by (simp add: Clean_def Let_def)

lemma Clean_relative: "\<not> has_prefix p ''/'' \<Longrightarrow> \<not> has_prefix (Clean p) ''/''"
proof (cases "path_comps p")
  case (Cons c cs)
  then have "c \<noteq> ''''" "CHR ''/'' \<notin> set c" using path_comps_ok [of c p] by auto
  then have "joined (CHR ''/'') (c # cs) \<noteq> [] \<and> hd (joined (CHR ''/'') (c # cs)) \<noteq> CHR ''/''"
    by (cases cs; cases c) auto
  with Cons show "\<not> has_prefix p ''/'' \<Longrightarrow> ?thesis" by (auto simp: Clean_def has_prefix_iff)
qed (simp add: Clean_def has_prefix_iff)

text \<open>Being under a directory is having its components first, and more.\<close>

lemma IsUnderDir_comps:
  assumes "has_prefix dir ''/''" "path_comps dir \<noteq> []"
  shows "IsUnderDir path dir \<longleftrightarrow> has_prefix path ''/'' \<and> (\<exists>ext. ext \<noteq> [] \<and> path_comps path = path_comps dir @ ext)"
proof
  let ?sep = "CHR ''/''"
  assume u: "IsUnderDir path dir"
  then obtain rest where r: "Clean path = ?sep # joined ?sep (path_comps dir) @ ?sep # rest"
    by (auto simp: IsUnderDir_def has_prefix_iff Clean_rooted [OF assms(1)])
  then have rp: "has_prefix path ''/''" using Clean_relative [of path] by (auto simp: has_prefix_iff)
  from r have j: "joined ?sep (path_comps path) = joined ?sep (path_comps dir) @ ?sep # rest"
    by (simp add: Clean_rooted [OF rp])
  then have ne: "path_comps path \<noteq> []" by (cases "path_comps path") auto
  have "path_comps path = path_comps dir @ SplitSeq ?sep rest"
    using SplitSeq_joined [OF ne] SplitSeq_joined [OF assms(2)] path_comps_ok j SplitSeq_append by metis
  with rp SplitSeq_ne show "has_prefix path ''/'' \<and> (\<exists>ext. ext \<noteq> [] \<and> path_comps path = path_comps dir @ ext)" by blast
next
  assume "has_prefix path ''/'' \<and> (\<exists>ext. ext \<noteq> [] \<and> path_comps path = path_comps dir @ ext)"
  then show "IsUnderDir path dir"
    using assms by (auto simp: IsUnderDir_def Clean_rooted joined_append has_prefix_iff)
qed

definition disk_key :: "StorageConfig \<Rightarrow> string \<times> string" where
  "disk_key sc = (sc_Role sc, sc_Serial sc)"

lemma keys_zip:
  assumes "length xs \<le> length ys"
  shows "(\<forall>p \<in> set (zip xs ys). disk_key (fst p) = disk_key (snd p)) \<longleftrightarrow> map disk_key (take (length xs) ys) = map disk_key xs"
  using assms
proof (induction xs arbitrary: ys)
  case (Cons x xs)
  then show ?case by (cases ys) auto
qed simp

lemma ValidateRoleSequence_iff:
  "ValidateRoleSequence sidecar rec = Inr () \<longleftrightarrow>
     (\<exists>extra. map disk_key (RecordDisksForSidecar sidecar rec) = map disk_key sidecar @ map disk_key extra \<and>
        list_all isCidata extra)" (is "?L \<longleftrightarrow> ?R")
proof -
  let ?rec = "RecordDisksForSidecar sidecar rec"
  let ?n = "length sidecar"
  have L: "?L \<longleftrightarrow> ?n \<le> length ?rec \<and> map disk_key (take ?n ?rec) = map disk_key sidecar \<and> list_all isCidata (drop ?n ?rec)"
  proof (cases "?n \<le> length ?rec")
    case True
    have "?L \<longleftrightarrow> (\<forall>p \<in> set (zip sidecar ?rec). disk_key (fst p) = disk_key (snd p)) \<and> list_all isCidata (drop ?n ?rec)"
      using True unfolding ValidateRoleSequence_def Let_def
      by (auto simp: res_seq_iff each_res_iff disk_key_def list_all_iff isCidata_def split: if_splits)
    with keys_zip [OF True] True show ?thesis by simp
  qed (simp add: ValidateRoleSequence_def Let_def)
  show ?thesis
  proof
    assume ?L
    with L have "map disk_key ?rec = map disk_key sidecar @ map disk_key (drop ?n ?rec) \<and> list_all isCidata (drop ?n ?rec)"
      by (metis append_take_drop_id map_append)
    then show ?R by blast
  next
    assume ?R
    then obtain extra where e: "map disk_key ?rec = map disk_key sidecar @ map disk_key extra" "list_all isCidata extra" by blast
    have n: "?n \<le> length ?rec" using arg_cong [OF e(1), of length] by simp
    have "map disk_key (take ?n ?rec) = map disk_key sidecar" "map disk_key (drop ?n ?rec) = map disk_key extra"
      using e(1) by (simp_all add: take_map [symmetric] drop_map [symmetric])
    moreover have "list_all isCidata xs = list_all (\<lambda>k. fst k = StorageRoleCidata) (map disk_key xs)" for xs
      by (induction xs) (simp_all add: isCidata_def disk_key_def)
    ultimately show ?L using L n e(2) by simp
  qed
qed
lemma PreflightRestore_Inr:
  assumes "PreflightRestore load rootDir runDir srcDir rec integrity = Inr meta"
  shows "load srcDir = Inr meta" "ValidateMetaPaths meta rootDir runDir = Inr ()"
    "integrity srcDir (sm_StorageConfigs meta) = Inr ()"
    "ValidateRoleSequence (deref (sm_StorageConfigs meta)) (rec_disks rec) = Inr ()"
  using assms by (auto simp: PreflightRestore_def LoadAndValidateMeta_def res_simps split: sum.splits)

lemma Base_slash: "Base p \<noteq> ''/'' \<Longrightarrow> CHR ''/'' \<notin> set (Base p)"
proof -
  have "CHR ''/'' \<notin> set (takeWhile (\<lambda>c. c \<noteq> CHR ''/'') xs)" for xs using set_takeWhileD by fastforce
  then show "Base p \<noteq> ''/'' \<Longrightarrow> ?thesis" by (simp add: Base_def Let_def split: if_splits)
qed

lemma Base_ne [simp]: "Base p \<noteq> ''''"
proof -
  have "takeWhile (\<lambda>c. c \<noteq> x) (dropWhile (\<lambda>c. c = x) xs) \<noteq> [] \<or> dropWhile (\<lambda>c. c = x) xs = []" for x :: char and xs
  proof (cases "dropWhile (\<lambda>c. c = x) xs")
    case (Cons a l)
    then have "a \<noteq> x" by (simp add: dropWhile_eq_Cons_conv)
    with Cons show ?thesis by simp
  qed simp
  from this [where x = "CHR ''/''" and xs = "rev p"] show ?thesis
    unfolding Base_def Let_def by (metis list.distinct(1) rev_is_Nil_conv)
qed

lemma data_name_chars: "ValidDataDiskName s \<Longrightarrow> CHR ''/'' \<notin> set s"
  by (cases s) (auto simp: ValidDataDiskName_def dataDiskNameRe_def list_all_iff is_lower_def is_digit_def less_eq_char_def)

lemma resident_name:
  assumes "meta_path_check rootDir runDir (Some sc) = Inr ()" "storage_ok sc" "snapshotResidentBasename sc \<noteq> ''''"
  shows "CHR ''/'' \<notin> set (snapshotResidentBasename sc)" "snapshotResidentBasename sc \<notin> {''.'', ''..''}"
proof -
  have base: "Base (sc_Path sc) \<noteq> ''/''" "Base (sc_Path sc) \<notin> {''.'', ''..''}"
    using assms(1) by (auto simp: meta_path_check_def Let_def split: if_splits)
  show "CHR ''/'' \<notin> set (snapshotResidentBasename sc)"
    using Base_slash [OF base(1)] assms(2,3) data_name_chars [of "sc_Serial sc"]
    by (auto simp: snapshotResidentBasename_def storage_ok_def DataDiskBaseName_def)
  show "snapshotResidentBasename sc \<notin> {''.'', ''..''}"
    using base assms(3) by (auto simp: snapshotResidentBasename_def DataDiskBaseName_def split: if_splits)
qed

lemma cidata_keys: "filter (\<lambda>k. fst k \<noteq> StorageRoleCidata) (map disk_key scs) = map disk_key (filter (\<lambda>sc. \<not> isCidata sc) scs)"
  by (induction scs) (simp_all add: disk_key_def isCidata_def)

lemma RecordDisks_noncidata:
  "filter (\<lambda>sc. \<not> isCidata sc) (RecordDisksForSidecar sidecar rec) = filter (\<lambda>sc. \<not> isCidata sc) rec"
  by (simp add: RecordDisksForSidecar_def)

lemma DiskPathByRole_found:
  "DiskPathByRole scs role \<noteq> '''' \<Longrightarrow> \<exists>sc \<in> set scs. sc_Role sc = role \<and> sc_Path sc = DiskPathByRole scs role"
  by (induction scs) auto

lemma DataDiskBaseName_inject: "DataDiskBaseName a = DataDiskBaseName b \<longleftrightarrow> a = b"
  by (simp add: DataDiskBaseName_def)

lemma IsDataDiskFile_name: "IsDataDiskFile (DataDiskBaseName s)"
  by (simp add: IsDataDiskFile_def DataDiskBaseName_def has_prefix_def HasSuffix_def)

lemma Join2_inject: "Join [d, a] = Join [d, b] \<longleftrightarrow> a = b"
  by (simp add: Join_def)

section \<open>Properties\<close>

text \<open>
  C15. A snapshot's sidecar comes from outside. Once the restore preflight accepts it, every disk it
  names is either a plain file of the snapshot directory that is there, or a path whose cleaned
  components extend those of one of the two managed roots: no dot-dot leads out.
\<close>

theorem sidecar_confined:
  assumes pre: "PreflightRestore load rootDir runDir srcDir rec (ValidateSnapshotIntegrity K h) = Inr meta"
    and root: "has_prefix rootDir ''/''" "path_comps rootDir \<noteq> []"
    and run: "has_prefix runDir ''/''" "path_comps runDir \<noteq> []"
    and sc: "Some sc \<in> set (sm_StorageConfigs meta)"
  shows "if snapshotResidentBasename sc \<noteq> ''''
    then CHR ''/'' \<notin> set (snapshotResidentBasename sc) \<and> snapshotResidentBasename sc \<notin> {''.'', ''..''} \<and>
      sys_stat K h (Join [srcDir, snapshotResidentBasename sc]) = Inr ()
    else \<exists>ext. ext \<noteq> [] \<and> ''..'' \<notin> set ext \<and>
      (path_comps (sc_Path sc) = path_comps rootDir @ ext \<or> path_comps (sc_Path sc) = path_comps runDir @ ext)"
proof -
  note p = PreflightRestore_Inr [OF pre]
  have m: "meta_path_check rootDir runDir (Some sc) = Inr ()"
    using p(2) sc by (simp add: ValidateMetaPaths_def each_res_iff res_seq_iff)
  have v: "storage_ok sc" and st: "snapshotResidentBasename sc \<noteq> '''' \<longrightarrow> sys_stat K h (Join [srcDir, snapshotResidentBasename sc]) = Inr ()"
    using p(3) sc by (auto simp: ValidateSnapshotIntegrity_def res_seq_iff each_res_iff ValidateStorageConfigs_iff set_deref Let_def
        split: if_splits)
  show ?thesis
  proof (cases "snapshotResidentBasename sc = ''''")
    case True
    with m have "IsUnderDir (sc_Path sc) rootDir \<or> IsUnderDir (sc_Path sc) runDir"
      by (auto simp: meta_path_check_def Let_def split: if_splits)
    then obtain ext where e: "has_prefix (sc_Path sc) ''/''" "ext \<noteq> []"
      "path_comps (sc_Path sc) = path_comps rootDir @ ext \<or> path_comps (sc_Path sc) = path_comps runDir @ ext"
      unfolding IsUnderDir_comps [OF root] IsUnderDir_comps [OF run] by blast
    have "''..'' \<notin> set (path_comps (sc_Path sc))" using path_comps_ok [of "''..''"] e(1) by blast
    with e(2,3) True show ?thesis by auto
  next
    case False
    with resident_name [OF m v] st show ?thesis by simp
  qed
qed

text \<open>
  C38. A restore is refused unless the snapshot and the VM have the same disks in the same order, by
  role and serial; the generated cidata disk is the only one that may be on one side only.
\<close>

theorem restore_same_disks:
  assumes "PreflightRestore load rootDir runDir srcDir rec integrity = Inr meta"
  shows "filter (\<lambda>k. fst k \<noteq> StorageRoleCidata) (map disk_key (deref (sm_StorageConfigs meta))) =
    filter (\<lambda>k. fst k \<noteq> StorageRoleCidata) (map disk_key (rec_disks rec))"
proof -
  let ?side = "deref (sm_StorageConfigs meta)"
  let ?cut = "\<lambda>ks. filter (\<lambda>k :: string \<times> string. fst k \<noteq> StorageRoleCidata) ks"
  from PreflightRestore_Inr(4) [OF assms] obtain extra where
    e: "map disk_key (RecordDisksForSidecar ?side (rec_disks rec)) = map disk_key ?side @ map disk_key extra" "list_all isCidata extra"
    by (auto simp: ValidateRoleSequence_iff)
  have "?cut (map disk_key (rec_disks rec)) = ?cut (map disk_key (RecordDisksForSidecar ?side (rec_disks rec)))"
    by (simp only: cidata_keys RecordDisks_noncidata)
  also have "\<dots> = ?cut (map disk_key ?side)"
    using e(2) unfolding e(1) by (simp add: cidata_keys list_all_iff del: map_append)
  finally show ?thesis by simp
qed

section \<open>Witnesses\<close>

definition demo_cfg :: VMConfig where
  "demo_cfg = \<lparr>CPU = 2, Memory = 1073741824, Storage = 10737418240, QueueSize = 0, DiskQueueSize = 0,
     ImageName = ''ubuntu'', ImageDigest = '''', ImageType = ''oci'', Network = '''', NoDirectIO = False, NoWatchdog = False,
     NoBalloon = False, Windows = False, SharedMemory = False, HugePages = False, Mergeable = False, PCI = False,
     CPUWeight = 0, CPUQuotaUs = 0, CPUPeriodUs = 0, CPUBurstUs = 0, CPUSetCPUs = '''',
     Name = ''web'', RestoreMode = '''', User = '''', Password = '''', DataDisks = []\<rparr>"

definition layer_disk :: "string \<Rightarrow> string \<Rightarrow> StorageConfig" where
  "layer_disk path serial = \<lparr>sc_Path = path, sc_RO = True, sc_Serial = serial, sc_Role = StorageRoleLayer,
     sc_MountPoint = '''', sc_FSType = '''', sc_DirectIO = None\<rparr>"

definition demo_data :: StorageConfig where
  "demo_data = data_disk ''/run/v1'' \<lparr>dd_Name = ''logs'', dd_Size = 16777216, dd_FSType = FSTypeExt4, dd_MountPoint = ''/logs'',
     dd_MountPointSet = True, dd_DirectIO = None\<rparr>"

definition demo_disks :: "StorageConfig option list" where
  "demo_disks = map Some [layer_disk ''/lib/blobs/aa.erofs'' ''l0'', cow_disk ''/run/v1/cow.raw'', demo_data]"

definition demo_rec :: VMRecord where
  "demo_rec = new_record ''v1'' ''fc'' VMStateStopped demo_cfg zero_net demo_disks 1 1 {} ''/run/v1'' ''/log/v1''"

definition demo_meta :: SnapshotMeta where
  "demo_meta = \<lparr>sm_StorageConfigs = demo_disks, sm_BootConfig = None, sm_NICMACs = None\<rparr>"

definition snap_host :: "bool host" where "snap_host = demo_host [] []"

lemma demo_preflight:
  "PreflightRestore (\<lambda>_. Inr demo_meta) ''/lib'' ''/run'' ''/snap/s1'' demo_rec (ValidateSnapshotIntegrity snap_host False) = Inr demo_meta"
  by code_simp

theorem sidecar_confined_witness:
  "(\<exists>ext. ext \<noteq> [] \<and> ''..'' \<notin> set ext \<and> path_comps ''/lib/blobs/aa.erofs'' = [''lib''] @ ext) \<and>
   path_comps ''/lib/../etc/shadow'' = [''etc'', ''shadow'']"
proof -
  have r: "has_prefix ''/lib'' ''/''" "path_comps ''/lib'' \<noteq> []" "has_prefix ''/run'' ''/''" "path_comps ''/run'' \<noteq> []" by code_simp+
  have s: "Some (layer_disk ''/lib/blobs/aa.erofs'' ''l0'') \<in> set (sm_StorageConfigs demo_meta)" by (simp add: demo_meta_def demo_disks_def)
  have n: "snapshotResidentBasename (layer_disk ''/lib/blobs/aa.erofs'' ''l0'') = ''''" by code_simp
  have p: "sc_Path (layer_disk ''/lib/blobs/aa.erofs'' ''l0'') = ''/lib/blobs/aa.erofs''" by code_simp
  have c: "path_comps ''/lib'' = [''lib'']" "path_comps ''/run'' = [''run'']" "path_comps ''/lib/blobs/aa.erofs'' = [''lib'', ''blobs'', ''aa.erofs'']"
    "path_comps ''/lib/../etc/shadow'' = [''etc'', ''shadow'']"
    by code_simp+
  from sidecar_confined [OF demo_preflight r s] show ?thesis unfolding n p c by auto
qed

theorem restore_same_disks_witness:
  "filter (\<lambda>k. fst k \<noteq> StorageRoleCidata) (map disk_key (deref (sm_StorageConfigs demo_meta))) =
   filter (\<lambda>k. fst k \<noteq> StorageRoleCidata) (map disk_key (rec_disks demo_rec))"
  by (rule restore_same_disks [OF demo_preflight])


end
