(* ===== verification/Vmm.thy ===== *)
theory Vmm
  imports Host
begin

text \<open>
  Requests to a VMM over its API socket, from \<open>src/utils/http.go\<close>: one request, the tolerated status
  codes, and the bounded retry. The transport is a parameter; the JSON encoding of a payload is left to
  it.
\<close>

section \<open>Requests\<close>

text \<open>
  A round trip over a VMM's socket: the transport fails, or answers with a status, a body and the
  error of reading the body, if any. The payload is the value that is marshalled.
\<close>

type_synonym ('k, 'p) http =
  "string \<Rightarrow> string \<Rightarrow> string \<Rightarrow> 'p option \<Rightarrow> 'k \<Rightarrow> (err + int \<times> string \<times> err option) \<times> 'k"

datatype api_err = APIError int string | CallError err

type_synonym ('k, 'a) call = "'k \<Rightarrow> (api_err + 'a) \<times> 'k"

definition DoAPI :: "('k, 'p) http \<Rightarrow> string \<Rightarrow> string \<Rightarrow> string \<Rightarrow> 'p option \<Rightarrow> int \<Rightarrow> ('k, string) call" where
  "DoAPI http sock meth url body expectedStatus k =
     (case http sock meth url body k of
        (Inl e, k') \<Rightarrow> (Inl (CallError e), k')
      | (Inr (code, rb, readErr), k') \<Rightarrow>
          ((if code \<noteq> expectedStatus then Inl (APIError code rb)
            else (case readErr of Some e \<Rightarrow> Inl (CallError e) | None \<Rightarrow> Inr rb)), k'))"

definition StatusNoContent :: int where "StatusNoContent = 204"

definition StatusOK :: int where "StatusOK = 200"

definition DoAPIOnce ::
    "('k, 'p) http \<Rightarrow> string \<Rightarrow> string \<Rightarrow> string \<Rightarrow> 'p option \<Rightarrow> int list \<Rightarrow> ('k, string) call" where
  "DoAPIOnce http sock meth url body successCodes k =
     (let primary = (case successCodes of [] \<Rightarrow> StatusNoContent | c # _ \<Rightarrow> c) in
      case DoAPI http sock meth url body primary k of
        (Inr rb, k') \<Rightarrow> (Inr rb, k')
      | (Inl (APIError code m), k') \<Rightarrow>
          if code \<in> set (drop 1 successCodes) then (Inr '''', k') else (Inl (APIError code m), k')
      | (Inl (CallError e), k') \<Rightarrow> (Inl (CallError e), k'))"

definition DoJSONOnce :: "('k, 'p) http \<Rightarrow> string \<Rightarrow> string \<Rightarrow> string \<Rightarrow> 'p \<Rightarrow> int list \<Rightarrow> ('k, string) call" where
  "DoJSONOnce http sock meth url payload successCodes = DoAPIOnce http sock meth url (Some payload) successCodes"

definition IsRetryable :: "api_err \<Rightarrow> bool" where
  "IsRetryable e = (case e of APIError code _ \<Rightarrow> code \<ge> 500 \<or> code = 429 | CallError _ \<Rightarrow> True)"

definition MaxRetries :: nat where "MaxRetries = 3"

text \<open>The loop with \<open>n\<close> retries left; the events are what the selects of the backoffs see.\<close>

fun retry_loop :: "nat \<Rightarrow> ('k, 'a) call \<Rightarrow> wait_event list \<Rightarrow> ('k, 'a) call" where
  "retry_loop n fn evs k =
     (case fn k of
        (Inr a, k') \<Rightarrow> (Inr a, k')
      | (Inl e, k') \<Rightarrow>
          if \<not> IsRetryable e then (Inl e, k')
          else (case n of
                  0 \<Rightarrow> (Inl e, k')
                | Suc m \<Rightarrow>
                    (case evs of
                       Cancelled c # _ \<Rightarrow> (Inl (CallError c), k')
                     | _ \<Rightarrow> retry_loop m fn (drop 1 evs) k')))"

declare retry_loop.simps [simp del]

definition DoWithRetry :: "('k, 'a) call \<Rightarrow> wait_event list \<Rightarrow> ('k, 'a) call" where
  "DoWithRetry fn evs = retry_loop MaxRetries fn evs"

text \<open>A call as an action: the message of an API error, the sentinel of another.\<close>

definition call_err :: "api_err \<Rightarrow> err" where
  "call_err e = (case e of APIError _ m \<Rightarrow> ErrMsg m | CallError e \<Rightarrow> e)"

definition act_call :: "('k, 'a) call \<Rightarrow> ('k, 'a) act" where
  "act_call m k = (case m k of (Inl e, k') \<Rightarrow> (Inl (call_err e), k') | (Inr a, k') \<Rightarrow> (Inr a, k'))"

definition act_done :: "('k, 'a) call \<Rightarrow> ('k, unit) act" where
  "act_done m = act_bind (act_call m) (\<lambda>_. act_return ())"

section \<open>Retries are bounded\<close>

text \<open>\<open>runs fn k n k'\<close>: \<open>n\<close> calls in a row take the host from \<open>k\<close> to \<open>k'\<close>.\<close>

fun runs :: "('k, 'a) call \<Rightarrow> nat \<Rightarrow> 'k \<Rightarrow> 'k" where
  "runs fn 0 k = k"
| "runs fn (Suc n) k = runs fn n (snd (fn k))"

lemma retry_loop_runs:
  "retry_loop n fn evs k = (r, k') \<Longrightarrow> \<exists>m. 1 \<le> m \<and> m \<le> Suc n \<and> k' = runs fn m k"
proof (induction n arbitrary: evs k)
  case 0
  then have "k' = snd (fn k)"
    by (subst (asm) retry_loop.simps) (auto split: prod.splits sum.splits if_splits)
  then show ?case by (intro exI [of _ 1]) simp
next
  case (Suc n)
  obtain r1 k1 where c: "fn k = (r1, k1)" by (cases "fn k")
  from Suc.prems have "k' = k1 \<or> (\<exists>evs. retry_loop n fn evs k1 = (r, k'))"
    using c by (subst (asm) retry_loop.simps) (auto split: sum.splits if_splits list.splits wait_event.splits)
  then show ?case
  proof
    assume "k' = k1"
    with c show ?thesis by (intro exI [of _ 1]) simp
  next
    assume "\<exists>evs. retry_loop n fn evs k1 = (r, k')"
    then obtain m where "1 \<le> m" "m \<le> Suc n" "k' = runs fn m k1" using Suc.IH by blast
    with c show ?thesis by (intro exI [of _ "Suc m"]) simp
  qed
qed

end
