(* ===== verification/Devices.thy ===== *)
theory Devices
  imports VmBooks Disks Vmm
begin

text \<open>
  Operations on the devices of a running VM that both drivers share: the client of a running VM and the locked
  operation (\<open>src/hypervisor/deviceops.go\<close>), requests for a hot-plugged disk (\<open>src/extend/disk\<close>).
\<close>

definition VsockGuestCID :: int where "VsockGuestCID = 3"

text \<open>\<open>RunningVMClient\<close>: the id and record of a VM that is marked running and whose VMM answers to its pid file.\<close>

definition RunningVMClient :: "'k backend \<Rightarrow> string \<Rightarrow> ('k, string \<times> string) vmact" where
  "RunningVMClient b vmRef =
     act_bind (ResolveAndLoad vmRef) (\<lambda>(vid, rec).
       if State rec \<noteq> VMStateRunning then act_fail ErrNotRunning
       else
         (let sockPath = vm_SocketPath (RunDir rec) in
          act_bind (get_host (\<lambda>h. case ReadPIDFile (bk_host b) h (PIDFilePath b (RunDir rec)) of
              Inl _ \<Rightarrow> False
            | Inr pid \<Rightarrow> VerifyProcessCmdline (bk_host b) h pid sockPath)) (\<lambda>live.
          if live then act_return (sockPath, vid) else act_fail ErrNotRunning)))"

text \<open>Runs \<open>op\<close> on the socket and the guarded record of a running VM, under its lock.\<close>

definition LockedRunningOp :: "'k backend \<Rightarrow> string \<Rightarrow> (string \<Rightarrow> VMRecord \<Rightarrow> ('k, 'a) vmact) \<Rightarrow> ('k, 'a) vmact" where
  "LockedRunningOp b vmRef op =
     act_bind (RunningVMClient b vmRef) (\<lambda>(sock, vid).
     with_lock b vid (act_bind (EntryGuardLoad b vid) (op sock)))"

record DiskSpec =
  ds_Path :: string
  ds_Name :: string
  ds_ReadOnly :: bool
  ds_DirectIO :: "bool option"

definition disk_ValidateName :: "string \<Rightarrow> unit res" where
  "disk_ValidateName name =
     (if name = '''' then Inl (ErrMsg ''name is required'')
      else if \<not> ValidDataDiskName name then Inl (ErrMsg ''name invalid'') else Inr ())"

definition disk_Normalize :: "DiskSpec \<Rightarrow> unit res" where
  "disk_Normalize s =
     (if ds_Path s = '''' then Inl (ErrMsg ''path is required'')
      else if \<not> has_prefix (ds_Path s) ''/'' then Inl (ErrMsg ''path must be absolute'')
      else disk_ValidateName (ds_Name s))"

section \<open>Locked operations keep the books\<close>

lemma RunningVMClient_keeps [triple_rules]: "stable P \<Longrightarrow> keeps P (RunningVMClient b ref)"
  unfolding RunningVMClient_def ResolveAndLoad_def Let_def by (intro triple_rules; assumption?)

lemma LockedRunningOp_keeps [triple_rules]:
  "(\<And>sock rec. keeps (vm_inv q) (op sock rec)) \<Longrightarrow> keeps (vm_inv q) (LockedRunningOp b ref op)"
  unfolding LockedRunningOp_def by (intro triple_rules)

end
