(* ===== verification/VmNode.thy ===== *)
theory VmNode
  imports Devices
begin

text \<open>
  Histories of a node. A node runs whole operations one after another, with an environment that may change
  anything but the tables and the ledger in between; operations on different VMs that overlap in time are not
  interleaved below this grain. A driver promises that its operations keep the invariant of \<open>VmInv\<close>, and the
  locale \<open>vm_driver\<close> draws the consequences for every history once. Deletes and restores need a store
  that answers; the other operations keep the books although transactions are lost. The last section has what a
  delete and a hibernation of \<open>src/hypervisor\<close> promise on their own.
\<close>

section \<open>Batches and supervision\<close>

lemma StartAll_keeps:
  "(\<And>vid scan. keeps (vm_inv q) (startOne vid scan)) \<Longrightarrow> keeps (vm_inv q) (StartAll b refs startOne)"
  unfolding StartAll_def ResolveRefs_def
  by (intro triple_rules ForEachVM_keeps) (auto intro: tripleI)

lemma StopAll_keeps: "keeps (vm_inv q) (StopAll b refs spec)"
  unfolding StopAll_def ResolveRefs_def by (intro triple_rules ForEachVM_keeps)

lemma deleteVMProtocol_closed:
  assumes "\<not> opened (h vid)"
  shows "triple (level q h) (deleteVMProtocol b vid rec) (\<lambda>_. vm_inv q)"
  by (rule triple_weaken [OF deleteVMProtocol_triple])
    (use level_vm_inv level_del [of h vid, OF assms] in \<open>auto simp del: o_apply split: sum.splits\<close>)

lemma PeekRecord_level:
  "triple (level q h) (PeekRecord vid) (\<lambda>r w. case r of Inl _ \<Rightarrow> level q h w
     | Inr rr \<Rightarrow> level q h w \<and> (\<forall>r. rr = Some r \<and> State r = VMStateCreating \<longrightarrow> \<not> opened (h vid)))"
  unfolding PeekRecord_def
proof (rule triple_weaken [OF view_triple])
  fix r w
  assume w: "level q h w \<and> (r = Inr (tget (db_records (w_db w)) vid) \<or> \<not> q \<and> (\<exists>e. r = Inl e))"
  then have "rec_ok vid x" "h vid = Some (hasOpenComputeInterval x, Name (Config x))"
    if "tget (db_records (w_db w)) vid = Some x" for x
    using that face_get [OF that] by (auto simp: books_def db_ok_def simp del: o_apply)
  then show "case r of Inl _ \<Rightarrow> level q h w
     | Inr rr \<Rightarrow> level q h w \<and> (\<forall>r. rr = Some r \<and> State r = VMStateCreating \<longrightarrow> \<not> opened (h vid))"
    using w creating_closed by (fastforce simp del: o_apply split: sum.splits)
qed simp

lemma ReconcileStaleCreate_keeps: "keeps (vm_inv q) (ReconcileStaleCreate b vid)"
proof -
  let ?out = "\<lambda>rec. case rec of
             None \<Rightarrow> act_return StaleCreateNotFound
           | Some r \<Rightarrow>
               if State r \<noteq> VMStateCreating then act_return StaleCreateNotCreating
               else act_bind (collectStaleCreate b vid r) (\<lambda>_. act_return StaleCreateCollected)"
  have collect: "triple (level q h) (act_bind (collectStaleCreate b vid r) (\<lambda>_. act_return StaleCreateCollected)) (\<lambda>_. vm_inv q)"
    if "\<not> opened (h vid)" for h r
  proof (rule triple_bind [where R = "\<lambda>_. vm_inv q"])
    have "triple (level q h) (collectStaleCreate b vid r) (\<lambda>_. vm_inv q)"
      unfolding collectStaleCreate_def
      by (rule triple_after [OF scan_ops_keeps(1)])
        (use that in \<open>auto intro!: deleteVMProtocol_closed level_vm_inv stable_books simp del: o_apply\<close>)
    then show "triple (level q h) (collectStaleCreate b vid r) (\<lambda>r w. case r of Inl _ \<Rightarrow> vm_inv q w | Inr _ \<Rightarrow> vm_inv q w)"
      by (rule triple_weaken) (auto split: sum.splits)
  qed (auto intro: triple_return)
  have "triple (level q h) (act_bind (PeekRecord vid) ?out) (\<lambda>_. vm_inv q)" for h
  proof (rule owned_bind [OF PeekRecord_level])
    show "triple (level q h) (?out rr) (\<lambda>_. vm_inv q)"
      if "\<forall>r. rr = Some r \<and> State r = VMStateCreating \<longrightarrow> \<not> opened (h vid)" for rr
      using that collect [of h] by (auto intro!: triple_return level_vm_inv simp del: o_apply split: option.splits)
  qed (rule level_vm_inv)
  then have "keeps (vm_inv q) (act_bind (PeekRecord vid) ?out)"
    unfolding vm_inv_def [abs_def] by (intro triple_ex) (simp add: vm_inv_def)
  then have "keeps (vm_inv q) (act_try (act_bind (PeekRecord vid) ?out) (\<lambda>r. act_try (on_host (bk_unlock b vid)) (\<lambda>_. act_res r)))"
    by (rule keeps_try) (intro triple_rules)
  then show ?thesis
    unfolding ReconcileStaleCreate_def by (intro keeps_bind [OF keeps_basic(1)]) (auto intro: triple_return stable_vm_inv)
qed

section \<open>Histories of a node\<close>

text \<open>An operation for its effect on the world.\<close>

definition void :: "('s, 'a) act \<Rightarrow> ('s, unit) act" where
  "void m = act_bind m (\<lambda>_. act_return ())"

lemma void_keeps: "keeps P m \<Longrightarrow> keeps P (void m)"
  unfolding void_def by (intro keeps_bind triple_rules)

lemma void_triple: "triple P m (\<lambda>_. Q) \<Longrightarrow> triple P (void m) (\<lambda>_. Q)"
  unfolding void_def by (rule triple_bind [where R = "\<lambda>_. Q"]) (auto elim: triple_weaken intro: triple_return split: sum.splits)

text \<open>What the environment may do between two operations: anything but to the tables and the ledger.\<close>

definition env_step :: "'k world \<Rightarrow> 'k world \<Rightarrow> bool" where
  "env_step w w' \<longleftrightarrow> w_db w' = w_db w \<and> w_ledger w' = w_ledger w \<and> faults_ok False (w_faults w')"

definition fresh_node :: "'k world \<Rightarrow> bool" where
  "fresh_node w \<longleftrightarrow>
     db_records (w_db w) = [] \<and> db_placements (w_db w) = [] \<and> w_ledger w = [] \<and> faults_ok False (w_faults w)"

text \<open>
  A node runs operations one after another. A call of \<open>calls\<close> may meet lost transactions; one of \<open>quiet\<close>
  runs while the store answers, and may depend on the state it starts from.
\<close>

inductive node_reach ::
    "(('k, unit) vmact \<Rightarrow> bool) \<Rightarrow> (vmdb \<Rightarrow> ('k, unit) vmact \<Rightarrow> bool) \<Rightarrow> 'k world \<Rightarrow> bool"
  for calls quiet where
  fresh: "fresh_node w \<Longrightarrow> node_reach calls quiet w"
| call: "node_reach calls quiet w \<Longrightarrow> calls m \<Longrightarrow> m w = (r, w') \<Longrightarrow> node_reach calls quiet w'"
| quiet: "node_reach calls quiet w \<Longrightarrow> quiet (w_db w) m \<Longrightarrow> w_faults w = [] \<Longrightarrow> m w = (r, w') \<Longrightarrow> node_reach calls quiet w'"
| env: "node_reach calls quiet w \<Longrightarrow> env_step w w' \<Longrightarrow> node_reach calls quiet w'"

lemma vm_inv_quiet: "vm_inv True w \<longleftrightarrow> vm_inv False w \<and> w_faults w = []"
  by (auto simp: vm_inv_alt faults_ok_def)

text \<open>What a driver promises of its operations, and what follows for every history.\<close>

locale vm_driver =
  fixes calls :: "('k, unit) vmact \<Rightarrow> bool"
    and quiet :: "vmdb \<Rightarrow> ('k, unit) vmact \<Rightarrow> bool"
  assumes calls_keep: "calls m \<Longrightarrow> keeps (vm_inv False) m"
    and quiet_keep: "quiet db m \<Longrightarrow> triple (\<lambda>w. vm_inv True w \<and> w_db w = db) m (\<lambda>_. vm_inv True)"
begin

lemma reach_inv: "node_reach calls quiet w \<Longrightarrow> vm_inv False w"
proof (induction rule: node_reach.induct)
  case (fresh w)
  then have "db_records (w_db w) = []" "db_placements (w_db w) = []" "w_ledger w = []" "faults_ok False (w_faults w)"
    by (simp_all add: fresh_node_def)
  then show ?case
    by (simp add: vm_inv_alt db_ok_def placement_row_def ledger_state_def face_def)
next
  case (call w m r w')
  then show ?case using tripleD [OF calls_keep [OF call(2)], of w r w'] by simp
next
  case (quiet w m r w')
  then have "vm_inv True w'" using tripleD [OF quiet_keep [OF quiet(2)], of w r w'] by (simp add: vm_inv_quiet)
  then show ?case by (simp add: vm_inv_quiet)
next
  case (env w w')
  then show ?case by (simp add: env_step_def vm_inv_alt)
qed

lemma reach_ledger: "node_reach calls quiet w \<Longrightarrow> ledger_state v (w_ledger w) = Some (record_open (w_db w) v)"
  using reach_inv by (simp add: vm_inv_alt)

lemma reach_db: "node_reach calls quiet w \<Longrightarrow> db_ok (w_db w)"
  using reach_inv by (simp add: vm_inv_alt)

end

text \<open>The supervisor's operations on a namespace.\<close>

inductive supervisor_call :: "'k backend \<Rightarrow> ('k, unit) vmact \<Rightarrow> bool" for b where
  "supervisor_call b (ConvergeDead b vid gen at)"
| "supervisor_call b (QuiesceIfPending b vid)"
| "supervisor_call b (void (ReconcileStaleCreate b vid))"
| "supervisor_call b (void (RecoverTombstone b vid))"
| "supervisor_call b (UnrecordSnapshot vid sid)"

lemma supervisor_keeps: "supervisor_call b m \<Longrightarrow> keeps (vm_inv q) m"
  by (induction rule: supervisor_call.induct)
    (intro void_keeps ReconcileStaleCreate_keeps converge_keeps silent_keeps RecoverTombstone_keeps snapshot_ids_keeps)+

section \<open>Deleting and hibernating\<close>

lemma emitDeleteClose_db: "triple (\<lambda>w. w_db w = db) (emitDeleteClose b vid shape reason o') (\<lambda>_ w. w_db w = db)"
  by (auto simp: triple_def emitDeleteClose_def act_bind_def timeNow_def emitAll_def)

lemma delete_found:
  assumes "vm_inv q w" "deleteVMProtocol b vid rec w = (Inr u, w')"
  shows "vm_gone vid (w_db w')"
proof -
  obtain h where "level q h w" using assms(1) by (auto simp: vm_inv_def)
  from tripleD [OF deleteVMProtocol_triple this assms(2)] show ?thesis by simp
qed

lemma triple_look: "(\<And>k. triple P (f (y k)) Q) \<Longrightarrow> triple P (act_bind (get_host y) f) Q"
  by (auto simp: triple_def act_bind_def get_host_def)

text \<open>The part of a delete that follows the stop: it ends in the tombstone protocol, past a dead socket.\<close>

lemma delete_rest:
  "triple (vm_inv q) (act_bind (get_host (\<lambda>h. IsAPISocketLive b h rec)) (\<lambda>(live, probeErr).
       if live then act_fail e
       else act_bind (kill_found b scan sock) (\<lambda>_.
         act_bind (if us then act_try (LoadRecord vid) (\<lambda>f. act_return (seen f)) else act_return o') (\<lambda>had.
         act_bind (deleteVMProtocol b vid rec) (\<lambda>_. if State rec = VMStateCreating then act_return ()
            else emitDeleteClose b vid shape reason had)))))
     (\<lambda>r w. r = Inr () \<longrightarrow> vm_gone vid (w_db w) \<and> (\<exists>h. \<not> fst (IsAPISocketLive b h rec)))"
  (is "triple _ _ ?Q")
proof (rule triple_look, rule keeps_cases(4), rule keeps_cases(1))
  fix h live probe
  assume "IsAPISocketLive b h rec = (live, probe)" "\<not> live"
  then have D: "\<exists>h. \<not> fst (IsAPISocketLive b h rec)" by (metis fst_conv)
  have del: "triple (vm_inv q) (act_bind (deleteVMProtocol b vid rec) (\<lambda>_. if State rec = VMStateCreating then act_return ()
      else emitDeleteClose b vid shape reason had)) ?Q" for had
  proof (rule triple_bind [where R = "\<lambda>_ w. vm_gone vid (w_db w)"])
    show "triple (vm_inv q) (deleteVMProtocol b vid rec) (\<lambda>r w. case r of Inl e \<Rightarrow> ?Q (Inl e) w | Inr _ \<Rightarrow> vm_gone vid (w_db w))"
      using delete_found by (fastforce intro!: tripleI split: sum.splits)
    show "triple (\<lambda>w. vm_gone vid (w_db w)) (if State rec = VMStateCreating then act_return ()
      else emitDeleteClose b vid shape reason had) ?Q"
      using emitDeleteClose_db D by (fastforce simp: triple_def)
  qed
  have look: "keeps (vm_inv q) (if us then act_try (LoadRecord vid) (\<lambda>f. act_return (seen f)) else act_return o')"
    by (intro triple_rules)
  show "triple (vm_inv q) (act_bind (kill_found b scan sock) (\<lambda>_.
         act_bind (if us then act_try (LoadRecord vid) (\<lambda>f. act_return (seen f)) else act_return o') (\<lambda>had.
         act_bind (deleteVMProtocol b vid rec) (\<lambda>_. if State rec = VMStateCreating then act_return ()
            else emitDeleteClose b vid shape reason had)))) ?Q"
    by (rule triple_after [OF scan_ops_keeps(2) [OF stable_vm_inv]], rule triple_after [OF look], rule del) auto
qed (auto simp: triple_def)

text \<open>
  C4. A delete succeeds only on a dead VM, and then leaves nothing. When \<open>deleteOneLocked\<close> reports success,
  even if transactions were lost on the way, the record, the placement row and the tombstone of the VM are gone;
  and it does not succeed on a VM whose API socket answers in every state of the host.
\<close>

theorem delete_fails_closed:
  assumes "vm_inv q w"
    and "deleteOneLocked b vid force (\<lambda>v. StopOneLocked b v spec) rec scan w = (Inr (), w')"
  shows "vm_gone vid (w_db w') \<and> (\<exists>h. \<not> fst (IsAPISocketLive b h rec))"
proof -
  have stop: "keeps (vm_inv q) (withRunningVM b rec (Some scan) (\<lambda>_.
          if \<not> force then act_fail (ErrMsg ''running (force required)'')
          else if State rec = VMStateCreating then ensureOrphanVMMDead b (RunDir rec)
          else StopOneLocked b vid spec))"
    by (intro triple_rules)
  have "triple (vm_inv q) (deleteOneLocked b vid force (\<lambda>v. StopOneLocked b v spec) rec scan)
      (\<lambda>r w. r = Inr () \<longrightarrow> vm_gone vid (w_db w) \<and> (\<exists>h. \<not> fst (IsAPISocketLive b h rec)))"
    unfolding deleteOneLocked_def Let_def
    by (rule triple_look, rule triple_then [OF stop], rule keeps_cases(1), rule tripleI, (force simp: act_res_def split: sum.splits),
        rule delete_rest)
  from tripleD [OF this assms(1) assms(2)] show ?thesis by simp
qed

lemma fail_resume_Inl: "fail_resume spec rec (Inl e) w \<noteq> (Inr x, w')"
  by (simp add: fail_resume_def act_try_def act_res_def split: prod.splits)

lemma hibernate_window_unpersisted:
  assumes "\<forall>cfg dir k. \<exists>e k'. persist cfg dir k = (Inl e, k')"
  shows "hibernate_window b vid spec kill persist rec d pid w = hibernate_window b vid spec kill' persist rec d pid w"
    "hibernate_window b vid spec kill persist rec d pid w \<noteq> (Inr x, w')"
proof -
  have p: "\<exists>e k'. persist cfg dir k = (Inl e, k')" for cfg dir k using assms by blast
  have same: "act_try (on_host (persist cfg d)) (\<lambda>p. case p of
        Inl e \<Rightarrow> act_bind (UnrecordSnapshot vid (sn_ID cfg)) (\<lambda>_. fail_resume spec rec (Inl e))
      | Inr _ \<Rightarrow> act_try (on_host (kill rec pid)) (\<lambda>k. act_return (case k of Inl e \<Rightarrow> Some e | Inr _ \<Rightarrow> None))) =
    act_try (on_host (persist cfg d)) (\<lambda>p. case p of
        Inl e \<Rightarrow> act_bind (UnrecordSnapshot vid (sn_ID cfg)) (\<lambda>_. fail_resume spec rec (Inl e))
      | Inr _ \<Rightarrow> act_fail ErrIO)" for cfg and kill :: "VMRecord \<Rightarrow> int \<Rightarrow> ('a, unit) act"
  proof
    fix w :: "'a world"
    from p [of cfg d "w_host w"] obtain e k' where "persist cfg d (w_host w) = (Inl e, k')" by blast
    then show "act_try (on_host (persist cfg d)) (\<lambda>p. case p of
        Inl e \<Rightarrow> act_bind (UnrecordSnapshot vid (sn_ID cfg)) (\<lambda>_. fail_resume spec rec (Inl e))
      | Inr _ \<Rightarrow> act_try (on_host (kill rec pid)) (\<lambda>k. act_return (case k of Inl e \<Rightarrow> Some e | Inr _ \<Rightarrow> None))) w =
    act_try (on_host (persist cfg d)) (\<lambda>p. case p of
        Inl e \<Rightarrow> act_bind (UnrecordSnapshot vid (sn_ID cfg)) (\<lambda>_. fail_resume spec rec (Inl e))
      | Inr _ \<Rightarrow> act_fail ErrIO) w" by (simp add: act_try_def on_host_def)
  qed
  show "hibernate_window b vid spec kill persist rec d pid w = hibernate_window b vid spec kill' persist rec d pid w"
    unfolding hibernate_window_def same ..
  show "hibernate_window b vid spec kill persist rec d pid w \<noteq> (Inr x, w')"
    unfolding hibernate_window_def same
    by (auto simp: act_bind_Inr act_try_def fail_resume_Inl split: prod.splits sum.splits)
qed


end
