(* ===== verification/NetResize.thy ===== *)
theory NetResize
  imports Devices
begin

text \<open>
  Resizing the NICs of a running VM (\<open>src/hypervisor/netresize.go\<close>, \<open>src/extend/netresize\<close>): what both drivers
  share, over the device operations of a driver and the plumbing of the host network.
\<close>

section \<open>Requests and devices\<close>

definition nr_Normalize :: "int \<Rightarrow> unit res" where
  "nr_Normalize target = (if target < 0 then Inl (ErrMsg ''--nics must be non-negative'') else Inr ())"

record NIC =
  nic_Index :: nat
  nic_TAP :: string
  nic_MAC :: string

record Result =
  rz_Before :: nat
  rz_After :: nat
  rz_Added :: "NIC list"
  rz_Removed :: "NIC list"
  rz_Warnings :: "string list"

record LiveNIC =
  ln_ID :: string
  ln_Index :: int

record 'k NICDeviceOps =
  nd_LiveNICs :: "('k, LiveNIC list) act"
  nd_AddNIC :: "nat \<Rightarrow> NetworkConfig \<Rightarrow> ('k, string) act"
  nd_RemoveNIC :: "string \<Rightarrow> ('k, unit) act"
  nd_TAPQueues :: "int \<Rightarrow> int"

record 'k Plumbing =
  pb_Add :: "string \<Rightarrow> VMConfig \<Rightarrow> nat \<Rightarrow> int \<Rightarrow> ('k, NetworkConfig list) act"
  pb_Remove :: "string \<Rightarrow> nat \<Rightarrow> ('k, unit) act"

definition NetNumQueues :: "int \<Rightarrow> int" where "NetNumQueues cpu = 2 * max cpu 1"

definition nicPersisted :: "VMRecord option \<Rightarrow> string \<Rightarrow> bool" where
  "nicPersisted rr tap = (case rr of None \<Rightarrow> False | Some r \<Rightarrow> list_ex (\<lambda>nc. case nc of None \<Rightarrow> False | Some n \<Rightarrow> nc_TAP n = tap) (NetworkConfigs r))"

definition appendNetworkConfig :: "string \<Rightarrow> string \<Rightarrow> NetworkConfig \<Rightarrow> ('k, unit) vmact" where
  "appendNetworkConfig vid netName nc =
     UpdateRecord vid (\<lambda>r. Inr (r\<lparr>Config := (Config r)\<lparr>Network := cmp_Or [Network (Config r), netName]\<rparr>,
       NetworkConfigs := NetworkConfigs r @ [Some nc]\<rparr>))"

definition truncateNetworkConfigs :: "string \<Rightarrow> nat \<Rightarrow> ('k, unit) vmact" where
  "truncateNetworkConfigs vid n =
     UpdateRecord vid (\<lambda>r. Inr (if n < length (NetworkConfigs r) then r\<lparr>NetworkConfigs := take n (NetworkConfigs r)\<rparr> else r))"

section \<open>Reconciling, growing and shrinking\<close>

text \<open>A device in a slot the record does not know is removed, and its host slot reclaimed.\<close>

definition reconcileOrphanNICs ::
    "'k NICDeviceOps \<Rightarrow> string \<Rightarrow> LiveNIC list \<Rightarrow> nat \<Rightarrow> 'k Plumbing \<Rightarrow> ('k, unit) vmact" where
  "reconcileOrphanNICs dev vid live known plumbing =
     act_each (\<lambda>n.
       if 0 \<le> ln_Index n \<and> ln_Index n < int known then act_return ()
       else
         act_try (on_host (nd_RemoveNIC dev (ln_ID n))) (\<lambda>removeErr.
         act_bind (if 0 \<le> ln_Index n \<and> (removeErr = Inr () \<or> removeErr = Inl ErrEjectPending)
                   then act_ignore (on_host (pb_Remove plumbing vid (nat (ln_Index n)))) else act_return ()) (\<lambda>_.
         act_res removeErr))) live"

text \<open>Whether the NIC was committed although the transaction reported an error; if not, it is torn down.\<close>

definition resolveFailedPersist ::
    "'k NICDeviceOps \<Rightarrow> 'k Plumbing \<Rightarrow> string \<Rightarrow> NetworkConfig \<Rightarrow> string \<Rightarrow> nat \<Rightarrow> ('k, bool) vmact" where
  "resolveFailedPersist dev plumbing vid nc devID i =
     act_bind (PeekRecord vid) (\<lambda>rr.
       if nicPersisted rr (nc_TAP nc) then act_return True
       else
         act_bind (act_ignore (on_host (nd_RemoveNIC dev devID))) (\<lambda>_.
         act_bind (act_ignore (on_host (pb_Remove plumbing vid i))) (\<lambda>_. act_return False)))"

text \<open>
  One slot: the NIC that is now recorded. The source indexes the first configuration that the plumbing returns
  and would panic without one.
\<close>

definition add_slot ::
    "string \<Rightarrow> VMRecord \<Rightarrow> 'k NICDeviceOps \<Rightarrow> 'k Plumbing \<Rightarrow> nat \<Rightarrow> ('k, NetworkConfig) vmact" where
  "add_slot vid rec dev plumbing i =
     act_bind (on_host (pb_Add plumbing vid (Config rec) i (nd_TAPQueues dev (CPU (Config rec))))) (\<lambda>ncs.
       case ncs of
         [] \<Rightarrow> act_fail (ErrMsg ''index out of range'')
       | nc # _ \<Rightarrow>
           act_try (on_host (nd_AddNIC dev i nc)) (\<lambda>added. case added of
               Inl e \<Rightarrow> act_bind (act_ignore (on_host (pb_Remove plumbing vid i))) (\<lambda>_. act_fail e)
             | Inr devID \<Rightarrow>
                 act_try (appendNetworkConfig vid (Network (Config rec)) nc) (\<lambda>r. case r of
                     Inr _ \<Rightarrow> act_return nc
                   | Inl e \<Rightarrow>
                       act_try (resolveFailedPersist dev plumbing vid nc devID i) (\<lambda>c.
                         if c = Inr True then act_return nc else act_fail e))))"

text \<open>A resize that fails returns how far it came together with the error.\<close>

fun resize_add ::
    "string \<Rightarrow> VMRecord \<Rightarrow> 'k NICDeviceOps \<Rightarrow> 'k Plumbing \<Rightarrow> nat list \<Rightarrow> Result \<Rightarrow> ('k, Result \<times> unit res) vmact" where
  "resize_add vid rec dev plumbing [] res = act_return (res, Inr ())"
| "resize_add vid rec dev plumbing (i # is) res =
     act_try (add_slot vid rec dev plumbing i) (\<lambda>r. case r of
         Inl e \<Rightarrow> act_return (res, Inl e)
       | Inr nc \<Rightarrow>
           resize_add vid rec dev plumbing is
             (res\<lparr>rz_Added := rz_Added res @ [\<lparr>nic_Index = i, nic_TAP = nc_TAP nc, nic_MAC = nc_MAC nc\<rparr>], rz_After := Suc i\<rparr>))"

definition netResizeAdd ::
    "string \<Rightarrow> VMRecord \<Rightarrow> 'k NICDeviceOps \<Rightarrow> 'k Plumbing \<Rightarrow> nat \<Rightarrow> Result \<Rightarrow> ('k, Result \<times> unit res) vmact" where
  "netResizeAdd vid rec dev plumbing target res =
     resize_add vid rec dev plumbing [length (NetworkConfigs rec)..<target] res"

text \<open>One slot of a shrink: the NIC that is gone, and whether its host plumbing leaked.\<close>

definition remove_slot ::
    "string \<Rightarrow> VMRecord \<Rightarrow> LiveNIC list \<Rightarrow> 'k NICDeviceOps \<Rightarrow> 'k Plumbing \<Rightarrow> nat \<Rightarrow> ('k, NetworkConfig \<times> bool) vmact" where
  "remove_slot vid rec live dev plumbing i =
     (case NetworkConfigs rec ! i of
        None \<Rightarrow> act_fail (ErrMsg ''nil network config'')
      | Some nc \<Rightarrow>
          (let devID = (case List.find (\<lambda>n. ln_Index n = int i) live of None \<Rightarrow> '''' | Some n \<Rightarrow> ln_ID n) in
           act_bind (if devID = '''' then act_return () else on_host (nd_RemoveNIC dev devID)) (\<lambda>_.
           act_try (on_host (pb_Remove plumbing vid i)) (\<lambda>plumbingErr.
           act_bind (truncateNetworkConfigs vid i) (\<lambda>_. act_return (nc, plumbingErr \<noteq> Inr ()))))))"

fun resize_remove ::
    "string \<Rightarrow> VMRecord \<Rightarrow> LiveNIC list \<Rightarrow> 'k NICDeviceOps \<Rightarrow> 'k Plumbing \<Rightarrow> nat list \<Rightarrow> Result \<Rightarrow> ('k, Result \<times> unit res) vmact" where
  "resize_remove vid rec live dev plumbing [] res = act_return (res, Inr ())"
| "resize_remove vid rec live dev plumbing (i # is) res =
     act_try (remove_slot vid rec live dev plumbing i) (\<lambda>r. case r of
         Inl e \<Rightarrow> act_return (res, Inl e)
       | Inr (nc, leaked) \<Rightarrow>
           resize_remove vid rec live dev plumbing is
             (res\<lparr>rz_Warnings := rz_Warnings res @ (if leaked then [''host plumbing leaked''] else []),
                  rz_Removed := rz_Removed res @ [\<lparr>nic_Index = i, nic_TAP = nc_TAP nc, nic_MAC = nc_MAC nc\<rparr>], rz_After := i\<rparr>))"

definition netResizeRemove ::
    "string \<Rightarrow> VMRecord \<Rightarrow> LiveNIC list \<Rightarrow> 'k NICDeviceOps \<Rightarrow> 'k Plumbing \<Rightarrow> nat \<Rightarrow> Result \<Rightarrow> ('k, Result \<times> unit res) vmact" where
  "netResizeRemove vid rec live dev plumbing target res =
     resize_remove vid rec live dev plumbing (rev [target..<length (NetworkConfigs rec)]) res"

definition NetResizeWith ::
    "string \<Rightarrow> VMRecord \<Rightarrow> 'k NICDeviceOps \<Rightarrow> 'k Plumbing \<Rightarrow> nat \<Rightarrow> ('k, Result \<times> unit res) vmact" where
  "NetResizeWith vid rec dev plumbing target =
     (let current = length (NetworkConfigs rec);
          res = \<lparr>rz_Before = current, rz_After = current, rz_Added = [], rz_Removed = [], rz_Warnings = []\<rparr>
      in act_try (on_host (nd_LiveNICs dev)) (\<lambda>l. case l of
             Inl e \<Rightarrow> act_return (res, Inl e)
           | Inr live \<Rightarrow>
               act_try (reconcileOrphanNICs dev vid live current plumbing) (\<lambda>o'. case o' of
                   Inl e \<Rightarrow> act_return (res, Inl e)
                 | Inr _ \<Rightarrow>
                     if target = current then act_return (res, Inr ())
                     else if target > current then netResizeAdd vid rec dev plumbing target res
                     else netResizeRemove vid rec live dev plumbing target res)))"

section \<open>A resize keeps the books\<close>

lemma network_configs_keep [triple_rules]:
  "keeps (vm_inv q) (appendNetworkConfig vid name nc)" "keeps (vm_inv q) (truncateNetworkConfigs vid n)"
  unfolding appendNetworkConfig_def truncateNetworkConfigs_def
  by (rule keeps_level, rule UpdateRecord_life, auto simp: same_life_def split: if_splits)+

lemma slots_keep [triple_rules]:
  "keeps (vm_inv q) (add_slot vid rec dev pl i)" "keeps (vm_inv q) (remove_slot vid rec live dev pl i)"
  unfolding add_slot_def remove_slot_def resolveFailedPersist_def PeekRecord_def Let_def
  by (auto intro!: triple_rules split: list.splits option.splits)

lemma resize_keeps [triple_rules]:
  "keeps (vm_inv q) (resize_add vid rec dev pl is res)" "keeps (vm_inv q) (resize_remove vid rec live dev pl is res)"
  by (induction "is" arbitrary: res) (auto intro!: triple_rules)

lemma NetResizeWith_keeps [triple_rules]: "keeps (vm_inv q) (NetResizeWith vid rec dev pl target)"
  unfolding NetResizeWith_def netResizeAdd_def netResizeRemove_def reconcileOrphanNICs_def Let_def
  by (auto intro!: triple_rules)
section \<open>A recorded NIC has its device\<close>

text \<open>The TAPs that the record of a VM names, and that each has a device: \<open>devs\<close> reads ids and TAPs off the VMM.\<close>

definition taps :: "vmdb \<Rightarrow> string \<Rightarrow> string set" where
  "taps db vid = (case tget (db_records db) vid of None \<Rightarrow> {} | Some r \<Rightarrow> {nc_TAP n | n. Some n \<in> set (NetworkConfigs r)})"

definition nics_covered :: "('k \<Rightarrow> (string \<times> string) set) \<Rightarrow> string \<Rightarrow> 'k world \<Rightarrow> bool" where
  "nics_covered devs vid w \<longleftrightarrow> (\<forall>t \<in> taps (w_db w) vid. \<exists>d. (d, t) \<in> devs (w_host w))"

text \<open>
  What a VMM and the host network promise: a device that was added is there under a new id, a failed add
  and a removal take no other device away, and the plumbing does not touch devices.
\<close>

definition nic_laws :: "('k \<Rightarrow> (string \<times> string) set) \<Rightarrow> 'k NICDeviceOps \<Rightarrow> 'k Plumbing \<Rightarrow> bool" where
  "nic_laws devs dev pl \<longleftrightarrow>
     (\<forall>i nc k d k'. nd_AddNIC dev i nc k = (Inr d, k') \<longrightarrow> devs k' = insert (d, nc_TAP nc) (devs k) \<and> d \<notin> fst ` devs k) \<and>
     (\<forall>i nc k e k'. nd_AddNIC dev i nc k = (Inl e, k') \<longrightarrow> devs k \<subseteq> devs k') \<and>
     (\<forall>d k. {p \<in> devs k. fst p \<noteq> d} \<subseteq> devs (snd (nd_RemoveNIC dev d k))) \<and>
     (\<forall>vid cfg i n k. devs (snd (pb_Add pl vid cfg i n k)) = devs k) \<and>
     (\<forall>vid i k. devs (snd (pb_Remove pl vid i k)) = devs k)"

lemma nic_laws_add:
  assumes "nic_laws devs dev pl"
  shows "nd_AddNIC dev i nc k = (Inr d, k') \<Longrightarrow> devs k' = insert (d, nc_TAP nc) (devs k) \<and> d \<notin> fst ` devs k"
    "nd_AddNIC dev i nc k = (Inl e, k') \<Longrightarrow> devs k \<subseteq> devs k'"
    "devs (snd (pb_Add pl vid cfg j n k)) = devs k" "devs (snd (pb_Remove pl vid j k)) = devs k"
    "{p \<in> devs k. fst p \<noteq> d} \<subseteq> devs (snd (nd_RemoveNIC dev d k))"
  using assms unfolding nic_laws_def by simp_all

lemma vm_update_cases:
  assumes "vm_update fn w = (r, w')"
  shows "w_host w' = w_host w \<and> (w_db w' = w_db w \<or> (\<exists>a. fn (w_db w) = Inr (a, w_db w')))"
  using assms by (auto simp: vm_update_def next_fault_def split: prod.splits store_fault.splits sum.splits list.splits)

lemma append_taps:
  assumes "appendNetworkConfig vid name nc w = (r, w')"
  shows "w_host w' = w_host w" "taps (w_db w') vid \<subseteq> insert (nc_TAP nc) (taps (w_db w) vid)"
proof -
  note c = vm_update_cases [OF assms [unfolded appendNetworkConfig_def UpdateRecord_def]]
  then show "w_host w' = w_host w" by simp
  from c consider "w_db w' = w_db w"
    | r where "tget (db_records (w_db w)) vid = Some r"
        "w_db w' = tx_Put vid (r\<lparr>Config := (Config r)\<lparr>Network := cmp_Or [Network (Config r), name]\<rparr>,
           NetworkConfigs := NetworkConfigs r @ [Some nc]\<rparr>) (w_db w)"
    by (auto simp: getRecord_def split: option.splits)
  then show "taps (w_db w') vid \<subseteq> insert (nc_TAP nc) (taps (w_db w) vid)"
  proof cases
    case 2
    then have "taps (w_db w') vid = insert (nc_TAP nc) (taps (w_db w) vid)"
      by (auto simp: taps_def tx_Put_def Let_def tget_tput)
    then show ?thesis by simp
  qed auto
qed

lemma PeekRecord_Inr:
  "PeekRecord vid w = (Inr rr, w') \<Longrightarrow> rr = tget (db_records (w_db w)) vid \<and> w_db w' = w_db w \<and> w_host w' = w_host w"
  "PeekRecord vid w = (r, w') \<Longrightarrow> w_db w' = w_db w \<and> w_host w' = w_host w"
  by (auto simp: PeekRecord_def vm_view_def next_fault_def split: prod.splits store_fault.splits list.splits)

lemma covered_by: "nics_covered devs vid w \<Longrightarrow> w_db w' = w_db w \<Longrightarrow> devs (w_host w) \<subseteq> devs (w_host w') \<Longrightarrow> nics_covered devs vid w'"
  unfolding nics_covered_def by fastforce

lemma ignore_host: "act_bind (act_ignore (on_host m)) f w = f () (w\<lparr>w_host := snd (m (w_host w))\<rparr>)"
  by (simp add: act_bind_def act_ignore_def act_try_def act_return_def on_host_def split: prod.splits)

lemma act_bind_step: "m w = (Inr a, w') \<Longrightarrow> act_bind m f w = f a w'"
  by (simp add: act_bind_def)

lemma resolve_cases:
  assumes "resolveFailedPersist dev pl vid nc d i w = (r, w')"
  shows "w_db w' = w_db w \<and>
    (w_host w' = w_host w \<or>
     nc_TAP nc \<notin> taps (w_db w) vid \<and> w_host w' = snd (pb_Remove pl vid i (snd (nd_RemoveNIC dev d (w_host w)))))"
proof (cases "PeekRecord vid w")
  case (Pair rr w1)
  note P = PeekRecord_Inr(2) [OF Pair]
  show ?thesis
  proof (cases rr)
    case (Inl e)
    then have "w' = w1" using assms Pair by (simp add: resolveFailedPersist_def act_bind_def)
    then show ?thesis using P by simp
  next
    case (Inr r1)
    with PeekRecord_Inr(1) [OF Pair [unfolded Inr]] P
    have w1: "r1 = tget (db_records (w_db w)) vid" "w_db w1 = w_db w" "w_host w1 = w_host w" by simp_all
    show ?thesis
    proof (cases "nicPersisted r1 (nc_TAP nc)")
      case True
      then have "w' = w1" using assms Pair Inr by (simp add: resolveFailedPersist_def act_bind_def act_return_def)
      then show ?thesis using w1 by simp
    next
      case False
      then have "nc_TAP nc \<notin> taps (w_db w) vid"
        using w1(1) by (force simp: nicPersisted_def taps_def list_ex_iff split: option.splits)
      moreover have "w' = w1\<lparr>w_host := snd (pb_Remove pl vid i (snd (nd_RemoveNIC dev d (w_host w))))\<rparr>"
        using assms Pair Inr False w1(3)
        by (simp add: resolveFailedPersist_def act_bind_step [of "PeekRecord vid", OF Pair [unfolded Inr]] ignore_host act_return_def)
      ultimately show ?thesis using w1 by simp
    qed
  qed
qed

lemma resolve_covered:
  assumes "nic_laws devs dev pl" "resolveFailedPersist dev pl vid nc d i w = (r, w')" "nics_covered devs vid w"
    and d: "\<And>t. (d, t) \<in> devs (w_host w) \<Longrightarrow> t = nc_TAP nc"
  shows "nics_covered devs vid w'"
proof -
  from resolve_cases [OF assms(2)] consider "w_db w' = w_db w" "w_host w' = w_host w"
    | "w_db w' = w_db w" "nc_TAP nc \<notin> taps (w_db w) vid"
        "w_host w' = snd (pb_Remove pl vid i (snd (nd_RemoveNIC dev d (w_host w))))" by blast
  then show ?thesis
  proof cases
    case 2
    then have keep: "{p \<in> devs (w_host w). fst p \<noteq> d} \<subseteq> devs (w_host w')"
      using nic_laws_add(4,5) [OF assms(1)] by simp
    show ?thesis
      unfolding nics_covered_def
    proof
      fix t assume t: "t \<in> taps (w_db w') vid"
      then have "t \<noteq> nc_TAP nc" using 2 by auto
      moreover obtain d' where "(d', t) \<in> devs (w_host w)" using assms(3) t 2(1) by (auto simp: nics_covered_def)
      ultimately show "\<exists>d. (d, t) \<in> devs (w_host w')" using d keep by fastforce
    qed
  qed (use covered_by [OF assms(3)] in simp)
qed

lemma add_slot_covered:
  assumes "nic_laws devs dev pl" "add_slot vid rec dev pl i w = (r, w')" "nics_covered devs vid w"
  shows "nics_covered devs vid w'"
proof -
  obtain ncs k1 where a: "pb_Add pl vid (Config rec) i (nd_TAPQueues dev (CPU (Config rec))) (w_host w) = (ncs, k1)" by fastforce
  let ?w1 = "w\<lparr>w_host := k1\<rparr>"
  have d1: "devs k1 = devs (w_host w)" 
    using nic_laws_add(3) [OF assms(1), of vid "Config rec" i "nd_TAPQueues dev (CPU (Config rec))" "w_host w"] a by simp
  then have c1: "nics_covered devs vid ?w1" using covered_by [OF assms(3), of ?w1] by simp
  show ?thesis
  proof (cases "\<exists>nc ncs'. ncs = Inr (nc # ncs')")
    case False
    then have "w' = ?w1" using assms(2) a by (auto simp: add_slot_def act_bind_def on_host_def split: sum.splits list.splits)
    then show ?thesis using c1 by simp
  next
    case True
    then obtain nc ncs' where ncs: "ncs = Inr (nc # ncs')" by blast
    obtain ra k2 where b: "nd_AddNIC dev i nc k1 = (ra, k2)" by fastforce
    let ?w2 = "w\<lparr>w_host := k2\<rparr>"
    show ?thesis
    proof (cases ra)
      case (Inl e)
      have "devs k1 \<subseteq> devs k2" by (rule nic_laws_add(2) [OF assms(1) b [unfolded Inl]])
      moreover have "w_db w' = w_db w" "w_host w' = snd (pb_Remove pl vid i k2)"
        using assms(2) a ncs b Inl by (auto simp: add_slot_def ignore_host act_bind_def [of "on_host m" for m] act_try_def act_fail_def on_host_def)
      moreover have "devs (snd (pb_Remove pl vid i k2)) = devs k2" by (rule nic_laws_add(4) [OF assms(1)])
      ultimately show ?thesis using covered_by [OF assms(3)] d1 by simp
    next
      case (Inr d)
      have d2: "devs k2 = insert (d, nc_TAP nc) (devs k1)" "d \<notin> fst ` devs k1"
        using nic_laws_add(1) [OF assms(1) b [unfolded Inr]] by blast+
      obtain rp w3 where p: "appendNetworkConfig vid (Network (Config rec)) nc ?w2 = (rp, w3)" by fastforce
      note T = append_taps [OF p]
      have c3: "nics_covered devs vid w3"
        unfolding nics_covered_def
      proof
        fix t assume "t \<in> taps (w_db w3) vid"
        with T(2) consider "t = nc_TAP nc" | "t \<in> taps (w_db w) vid" by auto
        then show "\<exists>d. (d, t) \<in> devs (w_host w3)"
        proof cases
          case 2
          with assms(3) obtain d' where "(d', t) \<in> devs (w_host w)" unfolding nics_covered_def by blast
          then show ?thesis using T(1) d1 d2(1) by auto
        qed (use T(1) d2(1) in auto)
      qed
      show ?thesis
      proof (cases rp)
        case (Inr u)
        then have "w' = w3" using assms(2) a ncs b \<open>ra = Inr d\<close> p
          by (simp add: add_slot_def act_bind_def act_try_def on_host_def)
        then show ?thesis using c3 by simp
      next
        case (Inl e)
        obtain rc w4 where c: "resolveFailedPersist dev pl vid nc d i w3 = (rc, w4)" by fastforce
        then have "w' = w4" using assms(2) a ncs b \<open>ra = Inr d\<close> p Inl
          by (simp add: add_slot_def act_bind_def act_try_def on_host_def act_return_def act_fail_def split: if_splits)
        moreover have "nics_covered devs vid w4"
          by (rule resolve_covered [OF assms(1) c c3]) (use T(1) d2 in \<open>auto simp: image_iff\<close>)
        ultimately show ?thesis by simp
      qed
    qed
  qed
qed

lemma resize_add_covered:
  assumes "nic_laws devs dev pl" "resize_add vid rec dev pl is res w = (r, w')" "nics_covered devs vid w"
  shows "nics_covered devs vid w'"
  using assms(2,3)
proof (induction "is" arbitrary: res w)
  case (Cons i "is")
  obtain rs w1 where s: "add_slot vid rec dev pl i w = (rs, w1)" by fastforce
  then have "nics_covered devs vid w1" using add_slot_covered [OF assms(1)] Cons.prems(2) by blast
  then show ?case using Cons s by (cases rs) (auto simp: act_try_def)
qed simp

text \<open>
  C11. A NIC that is recorded has its device. When a VM grows NICs, every NIC in its record keeps or gains a device,
  whatever fails: the host plumbing, the hot-plug, or the transaction, also one that reports an error although it
  was committed. Only a NIC that a second look shows not to be recorded is taken away again.
\<close>

theorem resize_keeps_devices:
  assumes "nic_laws devs dev pl" "nics_covered devs vid w" "netResizeAdd vid rec dev pl target res w = (r, w')"
  shows "nics_covered devs vid w'"
  using resize_add_covered [OF assms(1) _ assms(2)] assms(3) unfolding netResizeAdd_def by blast

end
