(* ===== verification/Firecracker.thy ===== *)
theory Firecracker
  imports NetResize
begin

text \<open>
  The Firecracker driver, from \<open>src/hypervisor/firecracker\<close>: the API requests (\<open>api.go\<close>), kernels and the
  command line (\<open>create.go\<close>), launch and start (\<open>start.go\<close>), stop (\<open>stop.go\<close>), snapshot and hibernate
  (\<open>snapshot.go\<close>), restore (\<open>restore.go\<close>, \<open>utils.go\<close>), clone with its bind redirects (\<open>clone.go\<close>,
  \<open>cowbind_linux.go\<close>, \<open>direct.go\<close>) and hot-plugged disks and NICs (\<open>extend.go\<close>). Its hooks are
  those that the shared sequences of \<open>VmLife\<close> and \<open>VmRestore\<close> take, and they keep the books.
\<close>

section \<open>The API\<close>

record fcDrive =
  dv_DriveID :: string
  dv_PathOnHost :: string
  dv_IsRootDevice :: bool
  dv_IsReadOnly :: bool
  dv_IoEngine :: string

record fcNetworkInterface =
  ni_IfaceID :: string
  ni_HostDevName :: string
  ni_GuestMAC :: string
  ni_MTU :: int

record fcNetworkOverride =
  no_IfaceID :: string
  no_HostDevName :: string

text \<open>
  The request bodies: machine configuration (vCPUs, MiB, hot-plug ports), boot source (kernel, initrd,
  arguments), drive, network interface, balloon (MiB, deflate on OOM, free page reporting), entropy,
  vsock (CID, socket), action, VM state, drive patch, snapshot creation and load.
\<close>

datatype fc_payload =
    fcMachineConfig int int int
  | fcBootSource string string string
  | fcDriveReq fcDrive
  | fcNetworkReq fcNetworkInterface
  | fcBalloon int bool bool
  | fcEntropy
  | fcVsock int string
  | fcAction string
  | fcVMState string
  | fcDrivePatch string string
  | fcSnapshotCreate string string
  | fcSnapshotLoad string string string "fcNetworkOverride list" "string option"

record fcVMConfig =
  vc_Drives :: "fcDrive list"
  vc_NetworkInterfaces :: "fcNetworkInterface list"

definition hasDrive :: "fcVMConfig \<Rightarrow> string \<Rightarrow> bool" where
  "hasDrive c did = list_ex (\<lambda>d. dv_DriveID d = did) (vc_Drives c)"

definition hasNIC :: "fcVMConfig \<Rightarrow> string \<Rightarrow> bool" where
  "hasNIC c nid = list_ex (\<lambda>n. ni_IfaceID n = nid) (vc_NetworkInterfaces c)"

definition driveID :: "nat \<Rightarrow> string" where "driveID i = ''drive_'' @ itoa i"

definition ifaceID :: "nat \<Rightarrow> string" where "ifaceID i = ''eth'' @ itoa i"

definition ioEngineAsync :: string where "ioEngineAsync = ''Async''"

definition hotDiskIDPrefix :: string where "hotDiskIDPrefix = ''cocoon_disk_''"

definition pcieHotplugPorts :: int where "pcieHotplugPorts = 8"

definition snapshotVMStateFile :: string where "snapshotVMStateFile = ''vmstate''"

definition snapshotMemFile :: string where "snapshotMemFile = ''mem''"

definition fc_runtimeFiles :: "string list" where
  "fc_runtimeFiles = [''api.sock'', ''fc.pid'', ''console.sock'', ''vsock.uds'']"

text \<open>
  What Firecracker's driver needs beside a backend: the transport to the VMM with the decoding of its
  two answers, the launch hooks, the disk operations, what its waits see, the pseudo terminal and the
  console relay (a process of its own, which holds the source leases until it is told to commit), the
  snapshot sidecar, the mount namespace of a clone, leases and path locks, open files, and settings.
\<close>

record 'k fcenv =
  fe_http :: "('k, fc_payload) http"
  fe_State :: "string \<Rightarrow> string res"
  fe_VMConfig :: "string \<Rightarrow> fcVMConfig res"
  fe_hooks :: "string list \<Rightarrow> 'k launch_hooks"
  fe_disk :: "'k diskops"
  fe_sockwait :: "wait_event list"
  fe_retry :: "wait_event list"
  fe_stopwait :: "wait_event list"
  fe_lockwait :: "wait_event list"
  fe_removal :: "wait_event list"
  fe_ctx :: "err option"
  fe_OpenLog :: "string \<Rightarrow> ('k, unit) act"
  fe_OpenPty :: "('k, unit) act"
  fe_Relay :: "string \<Rightarrow> int \<Rightarrow> nat \<Rightarrow> ('k, unit) act"
  fe_RelayCommit :: "('k, unit) act"
  fe_RelayClose :: "('k, unit) act"
  fe_KillWait :: "int \<Rightarrow> ('k, unit) act"
  fe_LoadMeta :: "'k \<Rightarrow> string \<Rightarrow> SnapshotMeta res"
  fe_SaveMeta :: "string \<Rightarrow> SnapshotMeta \<Rightarrow> ('k, unit) act"
  fe_Lstat :: "'k \<Rightarrow> string \<Rightarrow> file_type res"
  fe_Unshare :: "('k, unit) act"
  fe_MountPrivate :: "('k, unit) act"
  fe_Bind :: "string \<Rightarrow> string \<Rightarrow> ('k, unit) act"
  fe_Lease :: "string \<Rightarrow> ('k, unit) act"
  fe_Unlease :: "string \<Rightarrow> ('k, unit) act"
  fe_CowLock :: "string \<Rightarrow> ('k, bool) act"
  fe_CowUnlock :: "string \<Rightarrow> ('k, unit) act"
  fe_CreateExcl :: "string \<Rightarrow> ('k, unit) act"
  fe_OpenFiles :: "'k \<Rightarrow> int \<Rightarrow> (nat \<times> nat) list res"
  fe_Inode :: "'k \<Rightarrow> string \<Rightarrow> (nat \<times> nat) res"
  fe_Zstd :: "string \<Rightarrow> string res"
  fe_Gzip :: "string \<Rightarrow> string res"
  fe_RootDir :: string
  fe_RunDir :: string
  fe_ForceStop :: bool
  fe_DNS :: "string list res"

definition putJSON :: "'k fcenv \<Rightarrow> string \<Rightarrow> string \<Rightarrow> fc_payload \<Rightarrow> ('k, unit) act" where
  "putJSON E sock endpoint payload =
     act_done (DoWithRetry (DoJSONOnce (fe_http E) sock ''PUT'' endpoint payload []) (fe_retry E))"

definition sendJSONOnce :: "'k fcenv \<Rightarrow> string \<Rightarrow> string \<Rightarrow> string \<Rightarrow> fc_payload \<Rightarrow> int list \<Rightarrow> ('k, unit) act" where
  "sendJSONOnce E sock meth endpoint payload codes = act_done (DoJSONOnce (fe_http E) sock meth endpoint payload codes)"

definition patchDrivePath :: "'k fcenv \<Rightarrow> string \<Rightarrow> string \<Rightarrow> string \<Rightarrow> ('k, unit) act" where
  "patchDrivePath E sock did pathOnHost = sendJSONOnce E sock ''PATCH'' (''/drives/'' @ did) (fcDrivePatch did pathOnHost) []"

definition instanceStart :: "'k fcenv \<Rightarrow> string \<Rightarrow> ('k, unit) act" where
  "instanceStart E sock = sendJSONOnce E sock ''PUT'' ''/actions'' (fcAction ''InstanceStart'') [StatusNoContent, StatusOK]"

definition sendCtrlAltDel :: "'k fcenv \<Rightarrow> string \<Rightarrow> ('k, unit) act" where
  "sendCtrlAltDel E sock = sendJSONOnce E sock ''PUT'' ''/actions'' (fcAction ''SendCtrlAltDel'') []"

definition fc_pauseVM :: "'k fcenv \<Rightarrow> string \<Rightarrow> ('k, unit) act" where
  "fc_pauseVM E sock = sendJSONOnce E sock ''PATCH'' ''/vm'' (fcVMState ''Paused'') []"

definition fc_resumeVM :: "'k fcenv \<Rightarrow> string \<Rightarrow> ('k, unit) act" where
  "fc_resumeVM E sock = sendJSONOnce E sock ''PATCH'' ''/vm'' (fcVMState ''Resumed'') []"

definition createSnapshotFC :: "'k fcenv \<Rightarrow> string \<Rightarrow> string \<Rightarrow> ('k, unit) act" where
  "createSnapshotFC E sock destDir =
     sendJSONOnce E sock ''PUT'' ''/snapshot/create''
       (fcSnapshotCreate (Join [destDir, snapshotVMStateFile]) (Join [destDir, snapshotMemFile])) []"

definition loadSnapshotFC ::
    "'k fcenv \<Rightarrow> string \<Rightarrow> string \<Rightarrow> fcNetworkOverride list \<Rightarrow> string \<Rightarrow> ('k, unit) act" where
  "loadSnapshotFC E sock sourceDir networkOverrides vsockUDSOverride =
     sendJSONOnce E sock ''PUT'' ''/snapshot/load''
       (fcSnapshotLoad (Join [sourceDir, snapshotVMStateFile]) (Join [sourceDir, snapshotMemFile]) ''File'' networkOverrides
         (if vsockUDSOverride \<noteq> '''' then Some vsockUDSOverride else None)) []"

definition fc_getJSON :: "'k fcenv \<Rightarrow> string \<Rightarrow> string \<Rightarrow> (string \<Rightarrow> 'a res) \<Rightarrow> ('k, 'a) act" where
  "fc_getJSON E sock endpoint decode =
     act_bind (act_call (DoAPI (fe_http E) sock ''GET'' endpoint None StatusOK)) (\<lambda>body k. (decode body, k))"

definition getInstanceInfo :: "'k fcenv \<Rightarrow> string \<Rightarrow> ('k, string) act" where
  "getInstanceInfo E sock = fc_getJSON E sock ''/'' (fe_State E)"

definition getVMConfig :: "'k fcenv \<Rightarrow> string \<Rightarrow> ('k, fcVMConfig) act" where
  "getVMConfig E sock = fc_getJSON E sock ''/vm/config'' (fe_VMConfig E)"

definition hotplugDevice :: "'k fcenv \<Rightarrow> string \<Rightarrow> string \<Rightarrow> fc_payload \<Rightarrow> ('k, unit) act" where
  "hotplugDevice E sock endpoint payload = sendJSONOnce E sock ''PUT'' endpoint payload []"

definition deleteDevice :: "'k fcenv \<Rightarrow> string \<Rightarrow> string \<Rightarrow> ('k, unit) act" where
  "deleteDevice E sock endpoint = act_done (DoAPIOnce (fe_http E) sock ''DELETE'' endpoint None [StatusNoContent])"

definition waitDeviceRemoved :: "'k fcenv \<Rightarrow> string \<Rightarrow> (fcVMConfig \<Rightarrow> bool) \<Rightarrow> ('k, unit) act" where
  "waitDeviceRemoved E sock present =
     WaitFor (act_bind (getVMConfig E sock) (\<lambda>cfg. act_return (\<not> present cfg))) (fe_removal E)"

section \<open>Kernels and the command line\<close>

definition elfMagic :: string where
  "elfMagic = char_of (127 :: nat) # ''ELF''"

text \<open>The first index of a substring, as \<open>bytes.Index\<close>.\<close>

definition index_of :: "string \<Rightarrow> string \<Rightarrow> nat option" where
  "index_of s sub = find (\<lambda>i. has_prefix (drop i s) sub) [0..<Suc (length s)]"

definition zstdMagic :: string where
  "zstdMagic = map char_of [40, 181, 47, 253 :: nat]"

definition gzipKernelMagic :: string where
  "gzipKernelMagic = map char_of [31, 139, 8 :: nat]"

text \<open>One format: found, decoded, and an ELF file.\<close>

definition kernel_format :: "string \<Rightarrow> string \<times> (string \<Rightarrow> string res) \<Rightarrow> string option" where
  "kernel_format data fmt =
     (case index_of data (fst fmt) of
        None \<Rightarrow> None
      | Some offset \<Rightarrow>
          (case snd fmt (drop offset data) of
             Inl _ \<Rightarrow> None
           | Inr out \<Rightarrow> if has_prefix out elfMagic then Some out else None))"

definition decompressKernel :: "'k fcenv \<Rightarrow> string \<Rightarrow> string res" where
  "decompressKernel E data =
     (case List.map_filter (kernel_format data) [(zstdMagic, fe_Zstd E), (gzipKernelMagic, fe_Gzip E)] of
        [] \<Rightarrow> Inl (ErrMsg ''no supported compression format found'')
      | out # _ \<Rightarrow> Inr out)"

definition ensureVmlinux :: "'k fcenv \<Rightarrow> 'k backend \<Rightarrow> string \<Rightarrow> ('k, string) act" where
  "ensureVmlinux E b kernelPath k =
     (case sys_read (bk_host b) k kernelPath of
        Inl e \<Rightarrow> (Inl e, k)
      | Inr data \<Rightarrow>
          if length data < 4 then (Inl (ErrMsg ''read kernel magic''), k)
          else if take 4 data = elfMagic then (Inr kernelPath, k)
          else
            (let vmlinuxPath = Join [Dir kernelPath, ''vmlinux''] in
             if FileExists (bk_os b) k vmlinuxPath then (Inr vmlinuxPath, k)
             else (case decompressKernel E data of
                     Inl e \<Rightarrow> (Inl e, k)
                   | Inr out \<Rightarrow> act_bind (sys_write (bk_host b) vmlinuxPath out) (\<lambda>_. act_return vmlinuxPath) k)))"

definition EnsureVmlinuxBoot :: "'k fcenv \<Rightarrow> 'k backend \<Rightarrow> BootConfig option \<Rightarrow> ('k, BootConfig option) act" where
  "EnsureVmlinuxBoot E b boot =
     (case boot of
        None \<Rightarrow> act_return None
      | Some bc \<Rightarrow>
          if KernelPath bc = '''' then act_return boot
          else act_bind (ensureVmlinux E b (KernelPath bc)) (\<lambda>p. act_return (Some (bc\<lparr>KernelPath := p\<rparr>))))"

text \<open>\<open>vda\<close> to \<open>vdz\<close>, then two letters.\<close>

definition devPath :: "nat \<Rightarrow> string" where
  "devPath idx =
     (if idx < 26 then ''/dev/vd'' @ [char_of (97 + idx)]
      else ''/dev/vd'' @ [char_of (97 + (idx div 26 - 1)), char_of (97 + idx mod 26)])"

definition fc_buildCmdline :: "StorageConfig list \<Rightarrow> NetworkConfig list \<Rightarrow> string \<Rightarrow> string list \<Rightarrow> string" where
  "fc_buildCmdline storageConfigs networkConfigs vmName dnsServers =
     (let layerDevs = ReverseLayers storageConfigs (\<lambda>idx _. devPath idx)
      in BuildBaseCmdline ''console=ttyS0 reboot=k loglevel=3 i8042.noaux 8250.nr_uarts=1''
           (joined (CHR '','') layerDevs) (devPath (length layerDevs)) networkConfigs vmName dnsServers)"

definition fc_Create ::
    "'k fcenv \<Rightarrow> 'k backend \<Rightarrow> string \<Rightarrow> VMConfig \<Rightarrow> StorageConfig list \<Rightarrow> NetSetup \<Rightarrow> BootConfig option \<Rightarrow> ('k, VMRecord) vmact" where
  "fc_Create E b vid vmCfg storageConfigs net bootCfg =
     CreateSequence b vid
       \<lparr>cs_VMCfg = vmCfg, cs_Storage = storageConfigs, cs_Net = net, cs_Boot = bootCfg,
        cs_Prepare = act_bind (EnsureVmlinuxBoot E b bootCfg) (\<lambda>boot.
          act_bind (PrepareOCIDisks (fe_disk E) (VMRunDir b vid) vmCfg storageConfigs) (\<lambda>sc.
          act_return (map Some sc, boot)))\<rparr>"

section \<open>Launch, start and stop\<close>

definition launchArgs :: "VMRecord \<Rightarrow> string \<Rightarrow> string \<Rightarrow> string list" where
  "launchArgs rec sockPath fcLog =
     [''--api-sock'', sockPath, ''--log-path'', fcLog, ''--level'', ''Warning'', ''--id'', ID rec] @
     (if PCI (Config rec) then [''--enable-pci''] else [])"

definition buildMachineConfig :: "VMRecord \<Rightarrow> fc_payload" where
  "buildMachineConfig rec =
     fcMachineConfig (CPU (Config rec)) (drop_bit 20 (Memory (Config rec))) (if PCI (Config rec) then pcieHotplugPorts else 0)"

text \<open>The launch up to the console relay: a log file that may fail to open, a pseudo terminal, the VMM.\<close>

definition launch_vmm :: "'k fcenv \<Rightarrow> 'k backend \<Rightarrow> VMRecord \<Rightarrow> string \<Rightarrow> string \<Rightarrow> bool \<Rightarrow> ('k, int) act" where
  "launch_vmm E b rec sockPath netnsPath deferQuota =
     (let fcLog = LogFilePath b (LogDir rec) in
      act_try (fe_OpenLog E fcLog) (\<lambda>_.
      act_bind (fe_OpenPty E) (\<lambda>_.
      LaunchVMProcess b (fe_hooks E (launchArgs rec sockPath fcLog)) rec netnsPath deferQuota (fe_sockwait E))))"

text \<open>Without source leases a failed relay only takes the console away.\<close>

definition fc_launchProcess :: "'k fcenv \<Rightarrow> 'k backend \<Rightarrow> VMRecord \<Rightarrow> string \<Rightarrow> string \<Rightarrow> bool \<Rightarrow> ('k, int) act" where
  "fc_launchProcess E b rec sockPath netnsPath deferQuota =
     act_bind (launch_vmm E b rec sockPath netnsPath deferQuota) (\<lambda>pid.
     act_try (fe_Relay E (RunDir rec) pid 0) (\<lambda>r. case r of
         Inr _ \<Rightarrow> act_return pid
       | Inl _ \<Rightarrow> act_try (sys_remove (bk_host b) (Join [RunDir rec, ''console.sock''])) (\<lambda>_. act_return pid)))"

definition fc_drive :: "nat \<Rightarrow> StorageConfig \<Rightarrow> fcDrive" where
  "fc_drive i sc =
     \<lparr>dv_DriveID = driveID i, dv_PathOnHost = sc_Path sc, dv_IsRootDevice = False, dv_IsReadOnly = sc_RO sc,
      dv_IoEngine = (if \<not> sc_RO sc then ioEngineAsync else '''')\<rparr>"

definition fc_nic :: "nat \<Rightarrow> NetworkConfig \<Rightarrow> fcNetworkInterface" where
  "fc_nic i nc =
     \<lparr>ni_IfaceID = ifaceID i, ni_HostDevName = nc_TAP nc, ni_GuestMAC = nc_MAC nc, ni_MTU = nc_MTU nc\<rparr>"

definition configureVM :: "'k fcenv \<Rightarrow> VMRecord \<Rightarrow> string \<Rightarrow> ('k, unit) act" where
  "configureVM E rec sock =
     act_bind (putJSON E sock ''/machine-config'' (buildMachineConfig rec)) (\<lambda>_.
     act_bind (case BootCfg rec of
         None \<Rightarrow> act_return ()
       | Some boot \<Rightarrow>
           (case fe_DNS E of
              Inl e \<Rightarrow> act_fail e
            | Inr dns \<Rightarrow>
                putJSON E sock ''/boot-source'' (fcBootSource (KernelPath boot) (InitrdPath boot)
                  (fc_buildCmdline (rec_disks rec) (rec_nics rec) (Name (Config rec)) dns)))) (\<lambda>_.
     act_bind (act_each (\<lambda>i. putJSON E sock (''/drives/'' @ driveID i) (fcDriveReq (fc_drive i (rec_disks rec ! i))))
         [0..<length (rec_disks rec)]) (\<lambda>_.
     act_bind (act_each (\<lambda>i. putJSON E sock (''/network-interfaces/'' @ ifaceID i) (fcNetworkReq (fc_nic i (rec_nics rec ! i))))
         [0..<length (rec_nics rec)]) (\<lambda>_.
     act_bind (case BalloonSize (Config rec) of (sz, ok) \<Rightarrow>
         if ok then putJSON E sock ''/balloon'' (fcBalloon (drop_bit 20 sz) True True) else act_return ()) (\<lambda>_.
     act_bind (putJSON E sock ''/entropy'' fcEntropy) (\<lambda>_.
     act_bind (putJSON E sock ''/vsock'' (fcVsock VsockGuestCID (Join [RunDir rec, ''vsock.uds'']))) (\<lambda>_.
     instanceStart E sock)))))))"

text \<open>A pause that no capture owns is resumed; a VMM that was never started is not running.\<close>

definition fc_convergeOrphanedPause :: "'k fcenv \<Rightarrow> string \<Rightarrow> ('k, unit) act" where
  "fc_convergeOrphanedPause E sock =
     act_bind (getInstanceInfo E sock) (\<lambda>state.
       if state = ''Not started'' then act_fail ErrNotRunning
       else if state \<noteq> ''Paused'' then act_return ()
       else fc_resumeVM E sock)"

definition fc_startSpec :: "'k fcenv \<Rightarrow> 'k backend \<Rightarrow> 'k StartSpec" where
  "fc_startSpec E b =
     \<lparr>st_RuntimeFiles = fc_runtimeFiles, st_Expand = (\<lambda>_ _ pattern. [pattern]),
      st_Launch = (\<lambda>rec sockPath. fc_launchProcess E b rec sockPath (ResolvedNetnsPath rec) False),
      st_PostLaunch = Some (\<lambda>rec sockPath _. configureVM E rec sockPath),
      st_ConvergeRunning = (\<lambda>rec sockPath _.
        act_try (fc_convergeOrphanedPause E sockPath) (\<lambda>r.
          if r = Inl ErrNotRunning then configureVM E rec sockPath else (\<lambda>k. (r, k))))\<rparr>"

definition fc_startOne :: "'k fcenv \<Rightarrow> 'k backend \<Rightarrow> string \<Rightarrow> ProcScan \<Rightarrow> ('k, unit) vmact" where
  "fc_startOne E b vid scan = StartSequence b vid (Some scan) (fc_startSpec E b)"

definition fc_Start :: "'k fcenv \<Rightarrow> 'k backend \<Rightarrow> string list \<Rightarrow> ('k, string batch) vmact" where
  "fc_Start E b refs = StartAll b refs (fc_startOne E b)"

definition fc_ReconcileToRunning :: "'k fcenv \<Rightarrow> 'k backend \<Rightarrow> string \<Rightarrow> ('k, 64 word) vmact" where
  "fc_ReconcileToRunning E b vid =
     act_bind (PeekRecord vid) (\<lambda>rec. case rec of
         None \<Rightarrow> act_return 0
       | Some r \<Rightarrow>
           act_try (on_host (getInstanceInfo E (vm_SocketPath (RunDir r)))) (\<lambda>info.
             if info = Inr ''Not started'' then act_return 0 else ReconcileToRunning b vid))"

definition fc_forceTerminate :: "'k backend \<Rightarrow> string \<Rightarrow> int \<Rightarrow> ('k, unit) act" where
  "fc_forceTerminate b sockPath pid = TerminateProcess (bk_host b) (bk_grace b) (bk_hard b) pid sockPath"

definition fc_stopSpec :: "'k fcenv \<Rightarrow> 'k backend \<Rightarrow> 'k StopSpec" where
  "fc_stopSpec E b =
     \<lparr>sp_RuntimeFiles = fc_runtimeFiles, sp_Expand = (\<lambda>_ _ pattern. [pattern]),
      sp_Shutdown = (\<lambda>rec sockPath pid.
        if fe_ForceStop E then fc_forceTerminate b sockPath pid
        else GracefulStop b (fe_stopwait E) (fe_ctx E) pid (sendCtrlAltDel E sockPath) (fc_forceTerminate b sockPath pid))\<rparr>"

definition fc_Stop :: "'k fcenv \<Rightarrow> 'k backend \<Rightarrow> string list \<Rightarrow> ('k, string batch) vmact" where
  "fc_Stop E b refs = StopAll b refs (fc_stopSpec E b)"

definition fc_Delete :: "'k fcenv \<Rightarrow> 'k backend \<Rightarrow> string list \<Rightarrow> bool \<Rightarrow> ('k, string batch) vmact" where
  "fc_Delete E b refs force = DeleteAll b refs force (\<lambda>vid. StopOneLocked b vid (fc_stopSpec E b))"

section \<open>Snapshot\<close>

definition fc_hotDiskName :: "string \<Rightarrow> string" where
  "fc_hotDiskName did =
     (case CutPrefix did hotDiskIDPrefix of (name, ok) \<Rightarrow> if ok \<and> ValidDataDiskName name then name else '''')"

definition hotAttachedDisks :: "fcVMConfig \<Rightarrow> fcDrive list" where
  "hotAttachedDisks cfg = filter (\<lambda>d. fc_hotDiskName (dv_DriveID d) \<noteq> '''') (vc_Drives cfg)"

definition refuseUnrecordedDevices :: "'k fcenv \<Rightarrow> string \<Rightarrow> VMRecord \<Rightarrow> ('k, unit) act" where
  "refuseUnrecordedDevices E sock rec =
     act_bind (getVMConfig E sock) (\<lambda>cfg.
       if hotAttachedDisks cfg \<noteq> [] then act_fail ErrHotAttached
       else if length (vc_NetworkInterfaces cfg) \<noteq> length (NetworkConfigs rec)
       then act_fail (ErrMsg ''NIC count differs from the record'')
       else act_return ())"

definition fc_buildSnapshotMeta :: "VMRecord \<Rightarrow> SnapshotMeta" where
  "fc_buildSnapshotMeta rec =
     \<lparr>sm_StorageConfigs = map Some (CloneStorageConfigs (StorageConfigs rec)),
      sm_BootConfig = map_option (\<lambda>bc.
        if Base (KernelPath bc) = ''vmlinux'' then bc\<lparr>KernelPath := Join [Dir (KernelPath bc), ''vmlinuz'']\<rparr> else bc) (BootCfg rec),
      sm_NICMACs = Some (map nc_MAC (rec_nics rec))\<rparr>"

definition fc_snapshotSpec :: "'k fcenv \<Rightarrow> ('k, SnapshotMeta) SnapshotSpec" where
  "fc_snapshotSpec E =
     \<lparr>ss_Pause = (\<lambda>rec. let sock = vm_SocketPath (RunDir rec) in
        act_bind (if PCI (Config rec) then refuseUnrecordedDevices E sock rec else act_return ()) (\<lambda>_. fc_pauseVM E sock)),
      ss_Resume = (\<lambda>rec. fc_resumeVM E (vm_SocketPath (RunDir rec))),
      ss_Capture = (\<lambda>rec tmpDir.
        act_bind (createSnapshotFC E (vm_SocketPath (RunDir rec)) tmpDir) (\<lambda>_. CopyWritableDisks (fe_disk E) tmpDir rec)),
      ss_AfterCapture = None, ss_BuildMeta = (\<lambda>rec _. act_return (fc_buildSnapshotMeta rec)), ss_SaveMeta = fe_SaveMeta E\<rparr>"

definition fc_Snapshot :: "'k fcenv \<Rightarrow> 'k backend \<Rightarrow> string \<Rightarrow> ('k, SnapshotConfig \<times> string) vmact" where
  "fc_Snapshot E b ref = SnapshotSequence b ref (fc_snapshotSpec E)"

definition fc_Hibernate ::
    "'k fcenv \<Rightarrow> 'k backend \<Rightarrow> string \<Rightarrow> (SnapshotConfig \<Rightarrow> string \<Rightarrow> ('k, unit) act) \<Rightarrow> ('k, unit) vmact" where
  "fc_Hibernate E b ref persist =
     HibernateSequence b ref (fc_snapshotSpec E) (\<lambda>rec pid. fc_forceTerminate b (vm_SocketPath (RunDir rec)) pid)
       (\<lambda>_ _ pattern. [pattern]) fc_runtimeFiles persist"

section \<open>Restore\<close>

definition fc_snapshotIntegrity :: "'k host \<Rightarrow> 'k \<Rightarrow> string \<Rightarrow> StorageConfig option list \<Rightarrow> unit res" where
  "fc_snapshotIntegrity K h srcDir sidecar =
     (case ValidateSnapshotIntegrity K h srcDir sidecar of
        Inl e \<Rightarrow> Inl e
      | Inr _ \<Rightarrow> each_res (\<lambda>fname. sys_stat K h (Join [srcDir, fname])) [snapshotVMStateFile, snapshotMemFile])"

definition fc_preflightRestore :: "'k fcenv \<Rightarrow> 'k backend \<Rightarrow> 'k \<Rightarrow> string \<Rightarrow> VMRecord \<Rightarrow> unit res" where
  "fc_preflightRestore E b h srcDir rec =
     (case PreflightRestore (fe_LoadMeta E h) (fe_RootDir E) (fe_RunDir E) srcDir rec (fc_snapshotIntegrity (bk_os b) h) of
        Inl e \<Rightarrow> Inl e
      | Inr meta \<Rightarrow>
          (case ValidateResidentPaths (deref (sm_StorageConfigs meta)) (rec_disks rec) of
             Inl e \<Rightarrow> Inl e
           | Inr _ \<Rightarrow> ValidateRestoreMACs (sm_NICMACs meta) rec))"

definition fc_killForRestore :: "'k backend \<Rightarrow> string \<Rightarrow> VMRecord \<Rightarrow> ('k, unit) vmact" where
  "fc_killForRestore b vid rec =
     KillForRestore b (\<lambda>_ _ pattern. [pattern]) fc_runtimeFiles (fc_forceTerminate b (vm_SocketPath (RunDir rec))) vid rec"

text \<open>After the launch, an error ends with the VMM aborted.\<close>

definition fc_restore_launched ::
    "'k fcenv \<Rightarrow> 'k backend \<Rightarrow> string \<Rightarrow> VMConfig \<Rightarrow> VMRecord \<Rightarrow> string \<Rightarrow> int \<Rightarrow> ('k, VMRecord) vmact" where
  "fc_restore_launched E b vid vmCfg rec sockPath pid =
     act_try (
       act_bind (on_host (loadSnapshotFC E sockPath (RunDir rec) [] '''')) (\<lambda>_.
       act_bind (on_host (ArmCPUQuota b vid vmCfg)) (\<lambda>_.
       act_bind (on_host (fc_resumeVM E sockPath)) (\<lambda>_.
       FinalizeRestore b vid vmCfg rec pid))))
     (\<lambda>r. case r of
         Inr info \<Rightarrow> act_return info
       | Inl e \<Rightarrow> act_bind (AbortLaunch b (fc_startSpec E b) pid sockPath (RunDir rec)) (\<lambda>_. act_fail e))"

definition fc_restoreAfterExtract ::
    "'k fcenv \<Rightarrow> 'k backend \<Rightarrow> string \<Rightarrow> VMConfig \<Rightarrow> VMRecord \<Rightarrow> ('k, VMRecord) vmact" where
  "fc_restoreAfterExtract E b vid vmCfg rec0 =
     act_bind (act_res (RecordedCOWPath rec0)) (\<lambda>cowPath.
     (let snapshotCOW = Join [RunDir rec0, COWRawFileName]; sockPath = vm_SocketPath (RunDir rec0) in
      act_bind (get_host (\<lambda>h. snapshotCOW \<noteq> cowPath \<and> FileExists (bk_os b) h snapshotCOW)) (\<lambda>move.
      act_bind (if move then on_host (bk_rename b snapshotCOW cowPath) else act_return ()) (\<lambda>_.
      (let rec = rec0\<lparr>Config := vmCfg\<rparr> in
       act_bind (on_host (fc_launchProcess E b rec sockPath (ResolvedNetnsPath rec) True)) (\<lambda>pid.
       fc_restore_launched E b vid vmCfg rec sockPath pid))))))"

text \<open>\<open>cleanSnapshotFiles\<close> and \<open>cloneSnapshotFiles\<close>, by file name.\<close>

definition fc_snapshot_file :: "string \<Rightarrow> bool" where
  "fc_snapshot_file name \<longleftrightarrow>
     name \<in> set [snapshotVMStateFile, snapshotMemFile, COWRawFileName, SnapshotMetaFile] \<or> IsDataDiskFile name"

definition fc_cleanSnapshotFiles :: "'k fcenv \<Rightarrow> 'k backend \<Rightarrow> string \<Rightarrow> ('k, unit) act" where
  "fc_cleanSnapshotFiles E b runDir = CleanSnapshotFiles (bk_os b) (fe_disk E) runDir fc_snapshot_file"

definition fc_classify :: "string \<Rightarrow> SnapshotFileKind" where
  "fc_classify name =
     (if name = snapshotMemFile then SnapshotFileMemory
      else if HasSuffix name ''.raw'' then SnapshotFileCOW
      else SnapshotFileMeta)"

definition fc_cloneSnapshotFiles :: "'k fcenv \<Rightarrow> string \<Rightarrow> string \<Rightarrow> ('k, unit) act" where
  "fc_cloneSnapshotFiles E dstDir srcDir = CloneSnapshotFiles (fe_disk E) dstDir srcDir fc_classify"

text \<open>\<open>extract\<close> unpacks the snapshot stream.\<close>

definition fc_Restore ::
    "'k fcenv \<Rightarrow> 'k backend \<Rightarrow> string \<Rightarrow> VMConfig \<Rightarrow> (string \<Rightarrow> ('k, unit) act) \<Rightarrow> string \<Rightarrow> ('k, VMRecord) vmact" where
  "fc_Restore E b vmRef vmCfg extract sourceSnapshotID =
     RestoreSequence b vmRef
       \<lparr>rs_VMCfg = vmCfg, rs_Source = sourceSnapshotID, rs_Extract = extract, rs_Preflight = fc_preflightRestore E b,
        rs_Kill = fc_killForRestore b, rs_Clean = fc_cleanSnapshotFiles E b, rs_AfterExtract = (\<lambda>_. fc_restoreAfterExtract E b)\<rparr>"

definition fc_DirectRestore ::
    "'k fcenv \<Rightarrow> 'k backend \<Rightarrow> string \<Rightarrow> VMConfig \<Rightarrow> string \<Rightarrow> string \<Rightarrow> ('k, VMRecord) vmact" where
  "fc_DirectRestore E b vmRef vmCfg srcDir sourceSnapshotID =
     DirectRestoreSequence b vmRef
       \<lparr>dr_VMCfg = vmCfg, dr_Source = sourceSnapshotID, dr_Preflight = (\<lambda>h. fc_preflightRestore E b h srcDir),
        dr_Kill = fc_killForRestore b,
        dr_Populate = (\<lambda>rec. PopulateFromSrc (RunDir rec) srcDir (fc_cleanSnapshotFiles E b) (fc_cloneSnapshotFiles E)),
        dr_AfterExtract = (\<lambda>_. fc_restoreAfterExtract E b)\<rparr>"

section \<open>Clone\<close>

definition rebuild_disk :: "string \<Rightarrow> string \<Rightarrow> StorageConfig \<Rightarrow> StorageConfig res" where
  "rebuild_disk runDir cowPath sc =
     (if sc_Role sc = StorageRoleLayer then Inr sc
      else if sc_Role sc = StorageRoleCOW then Inr (sc\<lparr>sc_Path := cowPath\<rparr>)
      else if sc_Role sc = StorageRoleData then Inr (sc\<lparr>sc_Path := Join [runDir, DataDiskBaseName (sc_Serial sc)]\<rparr>)
      else if sc_Role sc = StorageRoleCidata then Inl (ErrMsg ''FC does not support cloudimg'')
      else Inl (ErrMsg ''unknown role''))"

definition rebuildCloneStorage :: "SnapshotMeta \<Rightarrow> string \<Rightarrow> StorageConfig list res" where
  "rebuildCloneStorage meta cowPath =
     map_res (rebuild_disk (Dir cowPath) cowPath) (CloneStorageConfigs (sm_StorageConfigs meta))"

definition redirectedDriveIndices :: "StorageConfig list \<Rightarrow> StorageConfig list \<Rightarrow> nat list" where
  "redirectedDriveIndices src dst =
     filter (\<lambda>i. i < length dst \<and> sc_Path (src ! i) \<noteq> sc_Path (dst ! i)) [0..<length src]"

text \<open>Source and destination of each bind; a path that comes twice cannot stand for two drives.\<close>

definition redirectBinds :: "StorageConfig list \<Rightarrow> StorageConfig list \<Rightarrow> (string \<times> string) list res" where
  "redirectBinds src dst =
     fold_res (\<lambda>i binds.
         if sc_Path (src ! i) \<in> fst ` set binds then Inl (ErrMsg ''duplicate snapshot drive path'')
         else if sc_Path (dst ! i) \<in> snd ` set binds then Inl (ErrMsg ''duplicate clone drive path'')
         else Inr (binds @ [(sc_Path (src ! i), sc_Path (dst ! i))]))
       (redirectedDriveIndices src dst) []"

text \<open>\<open>slices.Sort\<close> and \<open>slices.Compact\<close> of the ids.\<close>

definition managedSourceVMIDs :: "string \<Rightarrow> StorageConfig list \<Rightarrow> StorageConfig list \<Rightarrow> string list" where
  "managedSourceVMIDs runRoot src dst =
     remdups_adj (sort (List.map_filter (\<lambda>i. VMIDFromRunPath runRoot (sc_Path (src ! i))) (redirectedDriveIndices src dst)))"

definition closeLeases :: "'k fcenv \<Rightarrow> string list \<Rightarrow> ('k, unit) act" where
  "closeLeases E leases = act_each (\<lambda>vid. act_try (fe_Unlease E vid) (\<lambda>_. act_return ())) (rev leases)"

fun hold_leases :: "'k fcenv \<Rightarrow> string list \<Rightarrow> string list \<Rightarrow> ('k, string list) act" where
  "hold_leases E [] leases = act_return leases"
| "hold_leases E (vid # ids) leases =
     act_try (fe_Lease E vid) (\<lambda>r. case r of
         Inl e \<Rightarrow> act_bind (closeLeases E leases) (\<lambda>_. act_fail e)
       | Inr _ \<Rightarrow> hold_leases E ids (leases @ [vid]))"

definition holdManagedSourceVMLeases ::
    "'k fcenv \<Rightarrow> string \<Rightarrow> StorageConfig list \<Rightarrow> StorageConfig list \<Rightarrow> ('k, string list) act" where
  "holdManagedSourceVMLeases E runRoot src dst = hold_leases E (managedSourceVMIDs runRoot src dst) []"

definition classifySource :: "'k fcenv \<Rightarrow> 'k \<Rightarrow> string \<Rightarrow> bool res" where
  "classifySource E h path =
     (case fe_Lstat E h path of
        Inr RegularFile \<Rightarrow> Inr True
      | Inr _ \<Rightarrow> Inl (ErrMsg ''not a regular file'')
      | Inl e \<Rightarrow> if e = ErrNotExist then Inr False else Inl e)"

definition classify :: "'k fcenv \<Rightarrow> string \<Rightarrow> ('k, bool) vmact" where
  "classify E path w = (classifySource E (w_host w) path, w)"

definition createBindPlaceholder :: "'k fcenv \<Rightarrow> 'k backend \<Rightarrow> string \<Rightarrow> ('k, unit) act" where
  "createBindPlaceholder E b path =
     act_try (sys_mkdir (bk_host b) (Dir path)) (\<lambda>r.
       case r of
         Inl e \<Rightarrow> if e \<noteq> ErrExist then act_fail e
                  else act_bind (fe_CreateExcl E path) (\<lambda>_. dk_Close (fe_disk E) path)
       | Inr _ \<Rightarrow> act_bind (fe_CreateExcl E path) (\<lambda>_. dk_Close (fe_disk E) path))"

definition prepareManagedSourceLocked :: "'k fcenv \<Rightarrow> 'k backend \<Rightarrow> string \<Rightarrow> string \<Rightarrow> ('k, unit) vmact" where
  "prepareManagedSourceLocked E b path vid =
     act_bind (classify E path) (\<lambda>ready.
       if ready then act_return ()
       else
         act_bind (PeekRecord vid) (\<lambda>rec.
           if rec \<noteq> None then act_fail (ErrMsg ''source VM still exists but drive is missing'')
           else on_host (createBindPlaceholder E b path)))"

text \<open>The wait for the path's lock; the events are what its selects see, and their end is a cancellation.\<close>

fun bindable_loop :: "'k fcenv \<Rightarrow> 'k backend \<Rightarrow> string \<Rightarrow> string \<Rightarrow> wait_event list \<Rightarrow> ('k, unit) vmact" where
  "bindable_loop E b path vid evs =
     act_bind (on_host (fe_CowLock E path)) (\<lambda>locked.
       if locked
       then act_try (prepareManagedSourceLocked E b path vid) (\<lambda>p.
            act_try (on_host (fe_CowUnlock E path)) (\<lambda>u. act_res (case p of Inl e \<Rightarrow> Inl e | Inr _ \<Rightarrow> u)))
       else (case evs of
               Tick # rest \<Rightarrow>
                 act_bind (classify E path) (\<lambda>ready. if ready then act_return () else bindable_loop E b path vid rest)
             | Cancelled e # _ \<Rightarrow> act_fail e
             | _ \<Rightarrow> act_fail (ErrMsg ''context ended'')))"

declare bindable_loop.simps [simp del]

definition ensureBindableSource :: "'k fcenv \<Rightarrow> 'k backend \<Rightarrow> string \<Rightarrow> ('k, unit) vmact" where
  "ensureBindableSource E b path =
     act_bind (classify E path) (\<lambda>ready.
       if ready then act_return ()
       else (case VMIDFromRunPath (bk_RunRoot b) path of
               None \<Rightarrow> act_fail (ErrMsg ''unusable source is outside the managed run root'')
             | Some vid \<Rightarrow>
                 act_bind (on_host (sys_mkdirall (bk_host b) (Join [bk_RunRoot b, ''clone-locks'']))) (\<lambda>_.
                 bindable_loop E b path vid (fe_lockwait E))))"

record bindRedirectPlan =
  bp_binds :: "(string \<times> string) list"
  bp_leases :: "string list"

definition holdBindableRedirects ::
    "'k fcenv \<Rightarrow> 'k backend \<Rightarrow> StorageConfig list \<Rightarrow> StorageConfig list \<Rightarrow> ('k, bindRedirectPlan) vmact" where
  "holdBindableRedirects E b src dst =
     act_bind (act_res (redirectBinds src dst)) (\<lambda>binds.
     act_bind (on_host (holdManagedSourceVMLeases E (bk_RunRoot b) src dst)) (\<lambda>leases.
     act_try (act_each (\<lambda>bind. ensureBindableSource E b (fst bind)) binds) (\<lambda>r. case r of
         Inl e \<Rightarrow> act_bind (on_host (closeLeases E leases)) (\<lambda>_. act_fail e)
       | Inr _ \<Rightarrow> act_return \<lparr>bp_binds = binds, bp_leases = leases\<rparr>)))"

text \<open>
  The launch of a clone in a mount namespace of its own, in which each destination lies over its
  source, and the check that the VMM opened the destinations.
\<close>

definition launchWithBinds :: "'k fcenv \<Rightarrow> (string \<times> string) list \<Rightarrow> ('k, 'a) vmact \<Rightarrow> ('k, 'a) vmact" where
  "launchWithBinds E binds launch =
     act_bind (on_host (fe_Unshare E)) (\<lambda>_.
     act_bind (on_host (fe_MountPrivate E)) (\<lambda>_.
     act_bind (act_each (\<lambda>(src, dst). on_host (fe_Bind E dst src)) binds) (\<lambda>_. launch)))"

definition verifyDriveFDs :: "'k fcenv \<Rightarrow> 'k \<Rightarrow> int \<Rightarrow> (string \<times> string) list \<Rightarrow> unit res" where
  "verifyDriveFDs E h pid binds =
     (case fe_OpenFiles E h pid of
        Inl e \<Rightarrow> Inl e
      | Inr fds \<Rightarrow>
          each_res (\<lambda>bind. case fe_Inode E h (snd bind) of
              Inl e \<Rightarrow> Inl e
            | Inr ino \<Rightarrow> if ino \<in> set fds then Inr () else Inl (ErrMsg ''not held open by the VMM'')) binds)"

definition launchProcessWithLeases ::
    "'k fcenv \<Rightarrow> 'k backend \<Rightarrow> VMRecord \<Rightarrow> string \<Rightarrow> string \<Rightarrow> nat \<Rightarrow> bool \<Rightarrow> ('k, int) vmact" where
  "launchProcessWithLeases E b rec sockPath netnsPath leases deferQuota =
     (if leases = 0 then on_host (fc_launchProcess E b rec sockPath netnsPath deferQuota)
      else
        act_bind (on_host (launch_vmm E b rec sockPath netnsPath deferQuota)) (\<lambda>pid.
        act_try (on_host (fe_Relay E (RunDir rec) pid leases)) (\<lambda>r. case r of
            Inr _ \<Rightarrow> act_return pid
          | Inl e \<Rightarrow>
              act_bind (AbortLaunch b (fc_startSpec E b) pid sockPath (RunDir rec)) (\<lambda>_.
              act_bind (act_ignore (on_host (fe_KillWait E pid))) (\<lambda>_. act_fail e)))))"

record cloneLaunch =
  ln_rec :: VMRecord
  ln_sockPath :: string
  ln_netnsPath :: string
  ln_vmCfg :: VMConfig
  ln_networkConfigs :: "NetworkConfig list"
  ln_src :: "StorageConfig list"
  ln_dst :: "StorageConfig list"
  ln_dataDisks :: "StorageConfig list"

definition buildNetworkOverrides :: "NetworkConfig list \<Rightarrow> fcNetworkOverride list" where
  "buildNetworkOverrides networkConfigs =
     map (\<lambda>i. \<lparr>no_IfaceID = ifaceID i, no_HostDevName = nc_TAP (networkConfigs ! i)\<rparr>) [0..<length networkConfigs]"

definition abort_clone :: "'k fcenv \<Rightarrow> 'k backend \<Rightarrow> cloneLaunch \<Rightarrow> int \<Rightarrow> ('k, unit) vmact" where
  "abort_clone E b cl pid = AbortLaunch b (fc_startSpec E b) pid (ln_sockPath cl) (RunDir (ln_rec cl))"

definition loadCloneSnapshot :: "'k fcenv \<Rightarrow> 'k backend \<Rightarrow> cloneLaunch \<Rightarrow> ('k, int \<times> bindRedirectPlan) vmact" where
  "loadCloneSnapshot E b cl =
     (let rec = ln_rec cl in
      act_bind (holdBindableRedirects E b (ln_src cl) (ln_dst cl)) (\<lambda>plan.
      act_try (if bp_binds plan = []
          then launchProcessWithLeases E b rec (ln_sockPath cl) (ln_netnsPath cl) 0 True
          else launchWithBinds E (bp_binds plan)
            (launchProcessWithLeases E b rec (ln_sockPath cl) (ln_netnsPath cl) (length (bp_leases plan)) True)) (\<lambda>l. case l of
          Inl e \<Rightarrow> act_bind (on_host (closeLeases E (bp_leases plan))) (\<lambda>_. act_fail e)
        | Inr pid \<Rightarrow>
            act_try (
              act_bind (on_host (loadSnapshotFC E (ln_sockPath cl) (RunDir rec)
                  (buildNetworkOverrides (ln_networkConfigs cl)) (Join [RunDir rec, ''vsock.uds'']))) (\<lambda>_ w.
              (verifyDriveFDs E (w_host w) pid (bp_binds plan), w))) (\<lambda>r. case r of
                Inr _ \<Rightarrow> act_return (pid, plan)
              | Inl e \<Rightarrow>
                  act_bind (act_ignore (on_host (fe_RelayClose E))) (\<lambda>_.
                  act_bind (abort_clone E b cl pid) (\<lambda>_.
                  act_bind (on_host (closeLeases E (bp_leases plan))) (\<lambda>_. act_fail e)))))))"

definition resumeAndReanchorClone :: "'k fcenv \<Rightarrow> 'k backend \<Rightarrow> int \<Rightarrow> cloneLaunch \<Rightarrow> ('k, unit) vmact" where
  "resumeAndReanchorClone E b pid cl =
     (let sock = ln_sockPath cl in
      act_try (
        act_bind (on_host (ArmCPUQuota b (ID (ln_rec cl)) (ln_vmCfg cl))) (\<lambda>_.
        act_bind (on_host (fc_resumeVM E sock)) (\<lambda>_.
        act_bind (act_each (\<lambda>i. on_host (patchDrivePath E sock (driveID i) (sc_Path (ln_dst cl ! i))))
            (redirectedDriveIndices (ln_src cl) (ln_dst cl))) (\<lambda>_.
        act_each (\<lambda>i.
            (let sc = ln_dataDisks cl ! i; did = driveID (length (ln_dst cl) + i)
             in on_host (hotplugDevice E sock (''/drives/'' @ did)
               (fcDriveReq \<lparr>dv_DriveID = did, dv_PathOnHost = sc_Path sc, dv_IsRootDevice = False, dv_IsReadOnly = False,
                  dv_IoEngine = ioEngineAsync\<rparr>)))) [0..<length (ln_dataDisks cl)]))))
      (\<lambda>r. case r of
          Inr _ \<Rightarrow> act_return ()
        | Inl e \<Rightarrow> act_bind (abort_clone E b cl pid) (\<lambda>_. act_fail e)))"

definition startCloneVM :: "'k fcenv \<Rightarrow> 'k backend \<Rightarrow> cloneLaunch \<Rightarrow> ('k, int \<times> bindRedirectPlan) vmact" where
  "startCloneVM E b cl =
     act_bind (loadCloneSnapshot E b cl) (\<lambda>(pid, plan).
     act_try (resumeAndReanchorClone E b pid cl) (\<lambda>r. case r of
         Inr _ \<Rightarrow> act_return (pid, plan)
       | Inl e \<Rightarrow>
           act_bind (act_ignore (on_host (fe_RelayClose E))) (\<lambda>_.
           act_bind (on_host (closeLeases E (bp_leases plan))) (\<lambda>_. act_fail e))))"

definition validateCloneNetworkMTUs :: "int list option \<Rightarrow> NetworkConfig list \<Rightarrow> unit res" where
  "validateCloneNetworkMTUs snapshotMTUs networkConfigs =
     (case snapshotMTUs of
        None \<Rightarrow> Inr ()
      | Some mtus \<Rightarrow>
          if length mtus \<noteq> length networkConfigs then Inl (ErrMsg ''NIC count mismatch'')
          else each_res (\<lambda>(m, nc). if m \<noteq> nc_MTU nc then Inl (ErrMsg ''MTU mismatch'') else Inr ()) (zip mtus networkConfigs))"

text \<open>The running clone is published, then the leases of its sources are released, confirmed or not.\<close>

definition publish_clone ::
    "'k fcenv \<Rightarrow> 'k backend \<Rightarrow> VMRecord \<Rightarrow> VMConfig \<Rightarrow> StorageConfig list \<Rightarrow> NetSetup \<Rightarrow> BootConfig option \<Rightarrow> string set \<Rightarrow>
     string \<Rightarrow> int \<Rightarrow> ('k, VMRecord) vmact" where
  "publish_clone E b rec vmCfg storage net bootCfg blobIDs source pid =
     act_bind (RunningCloneRecord b rec vmCfg (map Some storage) net) (\<lambda>info.
     act_try (FinalizeClone b (ID rec) info bootCfg (Some blobIDs) source ReasonClone) (\<lambda>r. case r of
         Inl e \<Rightarrow>
           act_bind (act_ignore (on_host (fe_RelayClose E))) (\<lambda>_.
           act_bind (AbortLaunch b (fc_startSpec E b) pid (vm_SocketPath (RunDir rec)) (RunDir rec)) (\<lambda>_. act_fail e))
       | Inr _ \<Rightarrow> act_bind (act_ignore (on_host (fe_RelayCommit E))) (\<lambda>_. act_return info)))"

definition fc_cloneAfterExtract ::
    "'k fcenv \<Rightarrow> 'k backend \<Rightarrow> VMConfig \<Rightarrow> NetSetup \<Rightarrow> string \<Rightarrow> VMRecord \<Rightarrow> ('k, VMRecord) vmact" where
  "fc_cloneAfterExtract E b vmCfg net source rec =
     (let vid = ID rec; runDir = RunDir rec in
      act_bind (\<lambda>w. (LoadAndValidateMeta (fe_LoadMeta E (w_host w)) (fe_RootDir E) (fe_RunDir E) runDir, w)) (\<lambda>meta.
      act_bind (act_res (rebuildCloneStorage meta (Join [VMRunDir b vid, COWRawFileName]))) (\<lambda>storage.
      act_bind (on_host (PrepareCloneDataDisks (fe_disk E) (VMRunDir b vid) vmCfg storage)) (\<lambda>dataDisks.
      act_bind (act_res (ValidateStorageConfigs (map Some (storage @ dataDisks)))) (\<lambda>_.
      act_bind (on_host (EnsureVmlinuxBoot E b (sm_BootConfig meta))) (\<lambda>bootCfg.
      act_bind (\<lambda>w. (VerifyBaseFiles (bk_os b) (w_host w) storage bootCfg, w)) (\<lambda>_.
      act_bind (startCloneVM E b
          \<lparr>ln_rec = rec, ln_sockPath = vm_SocketPath runDir, ln_netnsPath = NetnsPath net, ln_vmCfg = vmCfg,
           ln_networkConfigs = deref (NetworkConfigs net), ln_src = deref (sm_StorageConfigs meta), ln_dst = storage,
           ln_dataDisks = dataDisks\<rparr>) (\<lambda>(pid, plan).
      act_try (publish_clone E b rec vmCfg (storage @ dataDisks) net bootCfg (ExtractBlobIDs storage bootCfg) source pid) (\<lambda>r.
      act_bind (act_ignore (on_host (closeLeases E (bp_leases plan)))) (\<lambda>_. act_res r))))))))))"

text \<open>\<open>populate\<close> extracts the snapshot stream, or clones the files of a directory.\<close>

definition fc_Clone ::
    "'k fcenv \<Rightarrow> 'k backend \<Rightarrow> string \<Rightarrow> VMConfig \<Rightarrow> NetSetup \<Rightarrow> SnapshotConfig \<Rightarrow> int list option \<Rightarrow>
     (string \<Rightarrow> ('k, unit) act) \<Rightarrow> ('k, VMRecord) vmact" where
  "fc_Clone E b vid vmCfg net snapshotConfig snapshotMTUs populate =
     act_bind (act_res (validateCloneNetworkMTUs snapshotMTUs (deref (NetworkConfigs net)))) (\<lambda>_.
     cloneBase b vid \<lparr>cl_VMCfg = vmCfg, cl_Snapshot = snapshotConfig,
       cl_AfterExtract = (\<lambda>_. fc_cloneAfterExtract E b vmCfg net (sn_ID snapshotConfig))\<rparr> populate)"

definition fc_DirectClone ::
    "'k fcenv \<Rightarrow> 'k backend \<Rightarrow> string \<Rightarrow> VMConfig \<Rightarrow> NetSetup \<Rightarrow> SnapshotConfig \<Rightarrow> int list option \<Rightarrow> string \<Rightarrow>
     ('k, VMRecord) vmact" where
  "fc_DirectClone E b vid vmCfg net snapshotConfig snapshotMTUs srcDir =
     fc_Clone E b vid vmCfg net snapshotConfig snapshotMTUs (\<lambda>runDir. fc_cloneSnapshotFiles E runDir srcDir)"

section \<open>Hot-plugged disks\<close>

definition requirePCI :: "VMRecord \<Rightarrow> unit res" where
  "requirePCI rec = (if PCI (Config rec) then Inr () else Inl (ErrMsg ''boots on the MMIO transport''))"

definition fc_lockedDeviceOp ::
    "'k fcenv \<Rightarrow> 'k backend \<Rightarrow> string \<Rightarrow> (string \<Rightarrow> VMRecord \<Rightarrow> ('k, 'a) vmact) \<Rightarrow> ('k, 'a) vmact" where
  "fc_lockedDeviceOp E b vmRef op =
     LockedRunningOp b vmRef (\<lambda>sock rec.
       act_bind (act_res (requirePCI rec)) (\<lambda>_.
       act_bind (on_host (fc_convergeOrphanedPause E sock)) (\<lambda>_. op sock rec)))"

definition fc_hotDiskID :: "string \<Rightarrow> string res" where
  "fc_hotDiskID name =
     (if CHR ''-'' \<in> set name then Inl (ErrMsg ''Firecracker drive ids allow only letters, digits and underscores'')
      else Inr (hotDiskIDPrefix @ name))"

fun fc_driveAttached :: "fcDrive list \<Rightarrow> string \<Rightarrow> string \<Rightarrow> bool \<Rightarrow> string res" where
  "fc_driveAttached [] did path readOnly = Inr ''''"
| "fc_driveAttached (d # ds) did path readOnly =
     (if dv_DriveID d = did
      then (if dv_PathOnHost d = path \<and> dv_IsReadOnly d = readOnly then Inr did
            else Inl (ErrMsg ''already attached with a different path or mode''))
      else if dv_PathOnHost d = path then Inl (ErrMsg ''disk path already attached'')
      else fc_driveAttached ds did path readOnly)"

text \<open>\<open>evalSymlinks\<close> and \<open>roots\<close> are those of \<open>ResolveExternalVolume\<close>.\<close>

definition fc_DiskAttach ::
    "'k fcenv \<Rightarrow> 'k backend \<Rightarrow> (string \<Rightarrow> string res) \<Rightarrow> string list \<Rightarrow> string \<Rightarrow> DiskSpec \<Rightarrow> ('k, string) vmact" where
  "fc_DiskAttach E b evalSymlinks roots vmRef spec =
     act_bind (act_res (disk_Normalize spec)) (\<lambda>_.
     act_bind (act_res (ResolveExternalVolume evalSymlinks roots (ds_Path spec))) (\<lambda>path.
     act_bind (act_res (fc_hotDiskID (ds_Name spec))) (\<lambda>did.
     fc_lockedDeviceOp E b vmRef (\<lambda>sock rec.
       act_bind (on_host (getVMConfig E sock)) (\<lambda>cfg.
       act_bind (act_res (fc_driveAttached (vc_Drives cfg) did path (ds_ReadOnly spec))) (\<lambda>existing.
         if existing \<noteq> '''' then act_return existing
         else
           act_bind (on_host (hotplugDevice E sock (''/drives/'' @ did)
             (fcDriveReq \<lparr>dv_DriveID = did, dv_PathOnHost = path, dv_IsRootDevice = False, dv_IsReadOnly = ds_ReadOnly spec,
                dv_IoEngine = (if \<not> ds_ReadOnly spec then ioEngineAsync else '''')\<rparr>))) (\<lambda>_. act_return did)))))))"

definition fc_DiskDetach :: "'k fcenv \<Rightarrow> 'k backend \<Rightarrow> string \<Rightarrow> string \<Rightarrow> ('k, unit) vmact" where
  "fc_DiskDetach E b vmRef name =
     act_bind (act_res (disk_ValidateName name)) (\<lambda>_.
     act_bind (act_res (fc_hotDiskID name)) (\<lambda>did.
     fc_lockedDeviceOp E b vmRef (\<lambda>sock rec.
       act_bind (on_host (getVMConfig E sock)) (\<lambda>cfg.
         if \<not> hasDrive cfg did then act_return ()
         else
           act_bind (on_host (deleteDevice E sock (''/drives/'' @ did))) (\<lambda>_.
           on_host (waitDeviceRemoved E sock (\<lambda>c. hasDrive c did)))))))"

definition fc_DiskList :: "'k fcenv \<Rightarrow> 'k backend \<Rightarrow> string \<Rightarrow> ('k, fcDrive list) vmact" where
  "fc_DiskList E b vmRef =
     act_bind (ResolveAndLoad vmRef) (\<lambda>(vid, rec).
       if \<not> PCI (Config rec) then act_return []
       else
         act_try (RunningVMClient b vmRef) (\<lambda>c. case c of
             Inl e \<Rightarrow> if e = ErrNotRunning then act_return [] else act_fail e
           | Inr (sock, _) \<Rightarrow> act_bind (on_host (getVMConfig E sock)) (\<lambda>cfg. act_return (hotAttachedDisks cfg))))"

section \<open>Hot-plugged NICs\<close>

text \<open>\<open>Sscanf\<close> with the format of an interface id: the index, or -1 when the id has another form.\<close>

definition scan_ifaceID :: "string \<Rightarrow> int" where
  "scan_ifaceID s =
     (if take 3 s \<noteq> ''eth'' then -1
      else
        (let rest = dropWhile (\<lambda>c. c = CHR '' '') (drop 3 s);
             sgn = takeWhile (\<lambda>c. c = CHR ''+'' \<or> c = CHR ''-'') (take 1 rest);
             num = takeWhile (\<lambda>c. c \<in> set ''0123456789'') (drop (length sgn) rest)
         in (case atoi (sgn @ num) of None \<Rightarrow> -1 | Some i \<Rightarrow> i)))"

definition fc_LiveNICs :: "'k fcenv \<Rightarrow> string \<Rightarrow> ('k, LiveNIC list) act" where
  "fc_LiveNICs E sock =
     act_bind (getVMConfig E sock) (\<lambda>cfg.
     act_return (map (\<lambda>n. \<lparr>ln_ID = ni_IfaceID n, ln_Index = scan_ifaceID (ni_IfaceID n)\<rparr>) (vc_NetworkInterfaces cfg)))"

definition fc_AddNIC :: "'k fcenv \<Rightarrow> string \<Rightarrow> nat \<Rightarrow> NetworkConfig \<Rightarrow> ('k, string) act" where
  "fc_AddNIC E sock i nc =
     act_bind (hotplugDevice E sock (''/network-interfaces/'' @ ifaceID i) (fcNetworkReq (fc_nic i nc))) (\<lambda>_.
     act_return (ifaceID i))"

definition fc_RemoveNIC :: "'k fcenv \<Rightarrow> string \<Rightarrow> string \<Rightarrow> ('k, unit) act" where
  "fc_RemoveNIC E sock nid =
     act_bind (deleteDevice E sock (''/network-interfaces/'' @ nid)) (\<lambda>_.
     act_try (waitDeviceRemoved E sock (\<lambda>c. hasNIC c nid)) (\<lambda>r. case r of
         Inl _ \<Rightarrow> act_fail ErrEjectPending
       | Inr _ \<Rightarrow> act_return ()))"

definition fcNICOps :: "'k fcenv \<Rightarrow> string \<Rightarrow> 'k NICDeviceOps" where
  "fcNICOps E sock =
     \<lparr>nd_LiveNICs = fc_LiveNICs E sock, nd_AddNIC = fc_AddNIC E sock, nd_RemoveNIC = fc_RemoveNIC E sock,
      nd_TAPQueues = (\<lambda>_. NetNumQueues 1)\<rparr>"

definition fc_NetResize :: "'k fcenv \<Rightarrow> 'k backend \<Rightarrow> 'k Plumbing \<Rightarrow> string \<Rightarrow> int \<Rightarrow> ('k, Result \<times> unit res) vmact" where
  "fc_NetResize E b plumbing vmRef target =
     act_bind (act_res (nr_Normalize target)) (\<lambda>_.
     fc_lockedDeviceOp E b vmRef (\<lambda>sock rec. NetResizeWith (ID rec) rec (fcNICOps E sock) plumbing (nat target)))"

section \<open>The hooks keep the books\<close>

lemma fc_restore_hook:
  assumes "ID rec = vid"
  shows "restore_hook vid (Name cfg) (fc_restoreAfterExtract E b vid cfg rec)"
  unfolding restore_hook_def
proof (intro allI impI)
  fix h
  assume n: "named (Name cfg) (h vid)"
  let ?Q = "\<lambda>r w. case r of
      Inl _ \<Rightarrow> level True h w
    | Inr info \<Rightarrow> books True (opened \<circ> h) (h(vid := Some (True, Name cfg))) w \<and> ID info = vid"
  have fin: "triple (level True h) (FinalizeRestore b vid cfg (rec\<lparr>Config := cfg\<rparr>) pid) ?Q" for pid
    by (rule restore_finish) (use assms n in simp_all)
  have launched: "triple (level True h) (fc_restore_launched E b vid cfg (rec\<lparr>Config := cfg\<rparr>) sock pid) ?Q" for sock pid
    unfolding fc_restore_launched_def
    by (intro triple_abort [where R = "level True h"] triple_after keeps_basic scan_ops_keeps stable_books fin) simp_all
  show "triple (level True h) (fc_restoreAfterExtract E b vid cfg rec) ?Q"
    unfolding fc_restoreAfterExtract_def Let_def
    by (intro triple_after keeps_basic keeps_res keeps_cases triple_return stable_books launched) simp_all
qed

lemma bindable_loop_keeps [triple_rules]: "stable P \<Longrightarrow> keeps P (bindable_loop E b path vid evs)"
proof (induction evs)
  have pre: "stable P \<Longrightarrow> keeps P (prepareManagedSourceLocked E b path vid)"
    unfolding prepareManagedSourceLocked_def classify_def PeekRecord_def by (intro triple_rules; assumption?)
  case Nil
  with pre show ?case by (subst bindable_loop.simps) (auto intro!: triple_rules)
  case (Cons e evs)
  have c: "keeps P (classify E path)" using Cons.prems unfolding classify_def by (intro triple_rules)
  with Cons pre show ?case
    by (subst bindable_loop.simps) (cases e; auto intro!: triple_rules)
qed

lemma clone_steps_keep [triple_rules]:
  assumes "stable P"
  shows "keeps P (ensureBindableSource E b path)" "keeps P (holdBindableRedirects E b src dst)"
    "keeps P (launchProcessWithLeases E b rec sock ns n d)" "keeps P (abort_clone E b cl pid)"
    "keeps P (resumeAndReanchorClone E b pid cl)"
proof -
  show src: "keeps P (ensureBindableSource E b path)" for path
    unfolding ensureBindableSource_def classify_def using assms by (intro triple_rules; assumption?)
  show "keeps P (holdBindableRedirects E b src dst)"
    unfolding holdBindableRedirects_def using assms by (intro triple_rules src; assumption?)
  show "keeps P (launchProcessWithLeases E b rec sock ns n d)"
    unfolding launchProcessWithLeases_def using assms by (intro triple_rules; assumption?)
  show ab: "keeps P (abort_clone E b cl pid)"
    unfolding abort_clone_def using assms by (intro triple_rules; assumption?)
  show "keeps P (resumeAndReanchorClone E b pid cl)"
    unfolding resumeAndReanchorClone_def Let_def using assms by (intro triple_rules ab; assumption?)
qed

lemma launchWithBinds_keeps [triple_rules]: "stable P \<Longrightarrow> keeps P m \<Longrightarrow> keeps P (launchWithBinds E binds m)"
  unfolding launchWithBinds_def by (intro triple_rules; assumption?)

lemma startCloneVM_keeps [triple_rules]:
  assumes "stable P"
  shows "keeps P (startCloneVM E b cl)"
proof -
  have "keeps P (loadCloneSnapshot E b cl)"
    unfolding loadCloneSnapshot_def Let_def using assms by (intro triple_rules; assumption?)
  then show ?thesis
    unfolding startCloneVM_def using assms by (intro triple_rules; assumption?)
qed

lemma fc_clone_hook:
  assumes "ID rec = vid"
  shows "clone_hook q vid (Name cfg) (fc_cloneAfterExtract E b cfg net src rec)"
  unfolding clone_hook_def
proof
  fix h
  let ?h = "h(vid := Some (False, Name cfg))"
  let ?Q = "\<lambda>r w. case r of Inl _ \<Rightarrow> level q ?h w | Inr _ \<Rightarrow> vm_inv q w"
  have pub: "triple (level q ?h) (publish_clone E b rec cfg storage net bc bl src pid) ?Q" for storage bc bl pid
    unfolding publish_clone_def assms
  proof (rule publish_hook [OF assms, where abort = "act_bind (act_ignore (on_host (fe_RelayClose E))) (\<lambda>_.
           AbortLaunch b (fc_startSpec E b) pid (vm_SocketPath (RunDir rec)) (RunDir rec))", unfolded bind_assoc])
    show "keeps P (act_bind (act_ignore (on_host (fe_RelayClose E))) (\<lambda>_.
           AbortLaunch b (fc_startSpec E b) pid (vm_SocketPath (RunDir rec)) (RunDir rec)))" if "stable P" for P :: "'a world \<Rightarrow> bool"
      using that by (intro triple_rules; assumption?)
    show "triple P (act_bind (act_ignore (on_host (fe_RelayCommit E))) (\<lambda>_. act_return info)) (\<lambda>r w. r = Inr info \<and> P w)"
      if "stable P" for P :: "'a world \<Rightarrow> bool" and info
      by (rule triple_ignored [OF keeps_basic(1) [OF that]]) (rule triple_return, simp)
  qed
  have whole: "triple (level q ?h) (act_try (publish_clone E b rec cfg storage net bc bl src pid) (\<lambda>r.
      act_bind (act_ignore (on_host (closeLeases E ls))) (\<lambda>_. act_res r))) ?Q" for storage bc bl pid ls
  proof (rule triple_finally [OF pub])
    show "keeps (?Q r) (on_host (closeLeases E ls))" for r
      by (cases r) (auto intro!: keeps_basic simp del: o_apply)
  qed
  show "triple (level q ?h) (fc_cloneAfterExtract E b cfg net src rec) ?Q"
    unfolding fc_cloneAfterExtract_def Let_def assms
    by (intro triple_after keeps_basic keeps_res keeps_cases startCloneVM_keeps stable_books whole) simp_all
qed

section \<open>The operations keep the books\<close>

lemma fc_lifecycle_keeps [triple_rules]:
  "keeps (vm_inv q) (fc_Create E b vid cfg sc net boot)"
  "keeps (vm_inv q) (fc_startOne E b vid scan)"
  "keeps (vm_inv q) (fc_Snapshot E b ref)"
  "keeps (vm_inv q) (fc_Hibernate E b ref persist)"
  unfolding fc_Create_def fc_startOne_def fc_Snapshot_def fc_Hibernate_def
  by (rule CreateSequence_keeps StartSequence_keeps SnapshotSequence_keeps HibernateSequence_keeps)+

lemma fc_ReconcileToRunning_keeps [triple_rules]: "keeps (vm_inv q) (fc_ReconcileToRunning E b vid)"
  unfolding fc_ReconcileToRunning_def PeekRecord_def by (intro triple_rules)

lemma fc_Clone_keeps [triple_rules]:
  "keeps (vm_inv q) (fc_Clone E b vid cfg net sn mtus populate)" "keeps (vm_inv q) (fc_DirectClone E b vid cfg net sn mtus d)"
  unfolding fc_DirectClone_def fc_Clone_def
  by (intro keeps_bind keeps_res cloneBase_keeps; simp add: fc_clone_hook)+

lemma fc_Delete_keeps: "keeps (vm_inv True) (fc_Delete E b refs force)"
  unfolding fc_Delete_def by (intro DeleteAll_keeps triple_rules)

lemma fc_Restore_triple:
  "triple (\<lambda>w. vm_inv True w \<and> restores ref (Name cfg) (w_db w)) (fc_Restore E b ref cfg extract src) (\<lambda>_. vm_inv True)"
  using RestoreSequence_triple [of "\<lparr>rs_VMCfg = cfg, rs_Source = src, rs_Extract = extract, rs_Preflight = fc_preflightRestore E b,
        rs_Kill = fc_killForRestore b, rs_Clean = fc_cleanSnapshotFiles E b, rs_AfterExtract = (\<lambda>_. fc_restoreAfterExtract E b)\<rparr>" ref b]
  by (simp add: fc_Restore_def fc_killForRestore_def KillForRestore_books fc_restore_hook)

lemma fc_DirectRestore_triple:
  "triple (\<lambda>w. vm_inv True w \<and> restores ref (Name cfg) (w_db w)) (fc_DirectRestore E b ref cfg d src) (\<lambda>_. vm_inv True)"
  using DirectRestoreSequence_triple [of "\<lparr>dr_VMCfg = cfg, dr_Source = src, dr_Preflight = (\<lambda>h. fc_preflightRestore E b h d),
        dr_Kill = fc_killForRestore b,
        dr_Populate = (\<lambda>rec. PopulateFromSrc (RunDir rec) d (fc_cleanSnapshotFiles E b) (fc_cloneSnapshotFiles E)),
        dr_AfterExtract = (\<lambda>_. fc_restoreAfterExtract E b)\<rparr>" ref b]
  by (simp add: fc_DirectRestore_def fc_killForRestore_def KillForRestore_books fc_restore_hook)

section \<open>The drives of a clone\<close>

lemma bind_fold:
  assumes "fold_res (\<lambda>i binds.
         if s i \<in> fst ` set binds then Inl (ErrMsg m1)
         else if d i \<in> snd ` set binds then Inl (ErrMsg m2)
         else Inr (binds @ [(s i, d i)])) js bs = Inr r"
    and "distinct (map fst bs)" "distinct (map snd bs)"
  shows "r = bs @ map (\<lambda>i. (s i, d i)) js \<and> distinct (map fst r) \<and> distinct (map snd r)"
  using assms
proof (induction js arbitrary: bs)
  case (Cons j js)
  then have n: "s j \<notin> fst ` set bs" "d j \<notin> snd ` set bs" by (auto split: if_splits)
  with Cons.prems have "fold_res (\<lambda>i binds.
         if s i \<in> fst ` set binds then Inl (ErrMsg m1)
         else if d i \<in> snd ` set binds then Inl (ErrMsg m2)
         else Inr (binds @ [(s i, d i)])) js (bs @ [(s j, d j)]) = Inr r" by simp
  moreover have "distinct (map fst (bs @ [(s j, d j)]))" "distinct (map snd (bs @ [(s j, d j)]))" using n Cons.prems(2,3) by simp_all
  ultimately show ?case using Cons.IH [of "bs @ [(s j, d j)]"] by (simp only: append_assoc append_Cons append_Nil list.map)
qed simp

lemma redirectBinds_Inr:
  assumes "redirectBinds src dst = Inr bs"
  shows "bs = map (\<lambda>i. (sc_Path (src ! i), sc_Path (dst ! i))) (redirectedDriveIndices src dst)"
    "distinct (map fst bs)" "distinct (map snd bs)"
proof -
  have "bs = [] @ map (\<lambda>i. (sc_Path (src ! i), sc_Path (dst ! i))) (redirectedDriveIndices src dst) \<and>
    distinct (map fst bs) \<and> distinct (map snd bs)"
    by (rule bind_fold [OF assms [unfolded redirectBinds_def]]) simp_all
  then show "bs = map (\<lambda>i. (sc_Path (src ! i), sc_Path (dst ! i))) (redirectedDriveIndices src dst)"
    "distinct (map fst bs)" "distinct (map snd bs)" unfolding append_Nil by blast+
qed

lemma rebuild_path:
  assumes "rebuild_disk (Dir cowPath) cowPath sc = Inr sc'" "storage_ok sc'" "\<not> sc_RO sc'"
  shows "Dir (sc_Path sc') = Dir cowPath"
proof -
  have r: "sc_Role sc' = sc_Role sc" "sc_Serial sc' = sc_Serial sc"
    using assms(1) by (auto simp: rebuild_disk_def split: if_splits)
  show ?thesis
  proof (cases "sc_Role sc = StorageRoleCOW")
    case True
    with assms(1) show ?thesis by (auto simp: rebuild_disk_def split: if_splits)
  next
    case False
    with assms(2,3) r have d: "sc_Role sc = StorageRoleData" "ValidDataDiskName (sc_Serial sc)" by (auto simp: storage_ok_def)
    with assms(1) have p: "sc_Path sc' = Join [Dir cowPath, DataDiskBaseName (sc_Serial sc)]" by (auto simp: rebuild_disk_def split: if_splits)
    have "CHR ''/'' \<notin> set (DataDiskBaseName (sc_Serial sc))" using data_name_chars [OF d(2)] by (simp add: DataDiskBaseName_def)
    then show ?thesis unfolding p by (rule Dir_Join) simp
  qed
qed

section \<open>Properties\<close>

text \<open>
  C18. A Firecracker clone does not write to its source's disks. Each writable drive of the clone lies
  in the clone's run directory; a drive that the snapshot names elsewhere has a bind of its own, no two
  binds share a source or a destination, and once the check of open files passes the VMM holds the
  clone's file.
\<close>

theorem clone_drives_private:
  assumes rebuilt: "rebuildCloneStorage meta cowPath = Inr dst"
    and valid: "ValidateStorageConfigs (map Some dst) = Inr ()"
    and binds: "redirectBinds (deref (sm_StorageConfigs meta)) dst = Inr bs"
    and fds: "verifyDriveFDs E h pid bs = Inr ()"
  shows "distinct (map fst bs) \<and> distinct (map snd bs) \<and>
    (\<forall>i < length dst. \<not> sc_RO (dst ! i) \<longrightarrow>
       Dir (sc_Path (dst ! i)) = Dir cowPath \<and>
       (sc_Path (deref (sm_StorageConfigs meta) ! i) = sc_Path (dst ! i) \<or>
        (sc_Path (deref (sm_StorageConfigs meta) ! i), sc_Path (dst ! i)) \<in> set bs \<and>
        (\<exists>ino files. fe_Inode E h (sc_Path (dst ! i)) = Inr ino \<and> fe_OpenFiles E h pid = Inr files \<and> ino \<in> set files)))"
proof (intro conjI allI impI)
  let ?src = "deref (sm_StorageConfigs meta)"
  note b = redirectBinds_Inr [OF binds]
  show "distinct (map fst bs)" "distinct (map snd bs)" by (rule b(2), rule b(3))
  have all: "list_all2 (\<lambda>x y. rebuild_disk (Dir cowPath) cowPath x = Inr y) ?src dst"
    using rebuilt by (simp add: rebuildCloneStorage_def CloneStorageConfigs_def map_res_Inr_iff)
  fix i
  assume i: "i < length dst" and w: "\<not> sc_RO (dst ! i)"
  have l: "i < length ?src" "rebuild_disk (Dir cowPath) cowPath (?src ! i) = Inr (dst ! i)"
    using all i by (auto simp: list_all2_conv_all_nth)
  have "storage_ok (dst ! i)" using valid i by (auto simp: ValidateStorageConfigs_iff)
  with l(2) w show "Dir (sc_Path (dst ! i)) = Dir cowPath" by (blast intro: rebuild_path)
  show "sc_Path (?src ! i) = sc_Path (dst ! i) \<or> (sc_Path (?src ! i), sc_Path (dst ! i)) \<in> set bs \<and>
    (\<exists>ino files. fe_Inode E h (sc_Path (dst ! i)) = Inr ino \<and> fe_OpenFiles E h pid = Inr files \<and> ino \<in> set files)"
  proof (cases "sc_Path (?src ! i) = sc_Path (dst ! i)")
    case False
    then have m: "(sc_Path (?src ! i), sc_Path (dst ! i)) \<in> set bs"
      using l(1) i by (auto simp: b(1) redirectedDriveIndices_def)
    from fds obtain files where f: "fe_OpenFiles E h pid = Inr files"
      "\<forall>p \<in> set bs. (case fe_Inode E h (snd p) of
              Inl e \<Rightarrow> Inl e
            | Inr ino \<Rightarrow> if ino \<in> set files then Inr () else Inl (ErrMsg ''not held open by the VMM'')) = Inr ()"
      by (auto simp: verifyDriveFDs_def each_res_iff split: sum.splits)
    from bspec [OF f(2) m] f(1) m show ?thesis by (auto split: sum.splits if_splits)
  qed simp
qed


section \<open>Witnesses\<close>

definition demo_ok :: "bool \<Rightarrow> unit res \<times> bool" where "demo_ok s = (Inr (), s)"

definition demo_dops :: "bool diskops" where
  "demo_dops = \<lparr>dk_ReadDir = (\<lambda>_ _. Inr []), dk_Create = (\<lambda>_. demo_ok), dk_Truncate = (\<lambda>_ _. demo_ok), dk_Close = (\<lambda>_. demo_ok),
     dk_Mkfs = (\<lambda>_. demo_ok), dk_Link = (\<lambda>_ _. demo_ok), dk_Symlink = (\<lambda>_ _. demo_ok), dk_Copy = (\<lambda>_ _. demo_ok),
     dk_Reflink = (\<lambda>_ _. demo_ok)\<rparr>"

definition demo_hooks :: "bool launch_hooks" where
  "demo_hooks = \<lparr>lh_Enter = (\<lambda>_. demo_ok), lh_Leave = demo_ok, lh_Spawn = (\<lambda>_ s. (Inr 7, s)), lh_Check = (\<lambda>_ _. True),
     lh_Kill = (\<lambda>_. demo_ok)\<rparr>"

definition demo_fc :: "bool fcenv" where
  "demo_fc =
     \<lparr>fe_http = (\<lambda>_ _ _ _ s. (Inr (204, '''', None), s)), fe_State = Inr, fe_VMConfig = (\<lambda>_. Inr \<lparr>vc_Drives = [], vc_NetworkInterfaces = []\<rparr>),
      fe_hooks = (\<lambda>_. demo_hooks), fe_disk = demo_dops, fe_sockwait = [], fe_retry = [], fe_stopwait = [], fe_lockwait = [],
      fe_removal = [], fe_ctx = None, fe_OpenLog = (\<lambda>_. demo_ok), fe_OpenPty = demo_ok, fe_Relay = (\<lambda>_ _ _. demo_ok),
      fe_RelayCommit = demo_ok, fe_RelayClose = demo_ok, fe_KillWait = (\<lambda>_. demo_ok), fe_LoadMeta = (\<lambda>_ _. Inr demo_meta),
      fe_SaveMeta = (\<lambda>_ _. demo_ok), fe_Lstat = (\<lambda>_ _. Inr RegularFile), fe_Unshare = demo_ok, fe_MountPrivate = demo_ok,
      fe_Bind = (\<lambda>_ _. demo_ok), fe_Lease = (\<lambda>_. demo_ok), fe_Unlease = (\<lambda>_. demo_ok), fe_CowLock = (\<lambda>_ s. (Inr True, s)),
      fe_CowUnlock = (\<lambda>_. demo_ok), fe_CreateExcl = (\<lambda>_. demo_ok), fe_OpenFiles = (\<lambda>_ _. Inr [(8, 1), (8, 2)]),
      fe_Inode = (\<lambda>_ p. if p = ''/run/v2/cow.raw'' then Inr (8, 1) else if p = ''/run/v2/data-logs.raw'' then Inr (8, 2) else Inl ErrNotExist),
      fe_Zstd = Inr, fe_Gzip = Inr, fe_RootDir = ''/lib'', fe_RunDir = ''/run'', fe_ForceStop = False, fe_DNS = Inr []\<rparr>"

definition cloned_disks :: "StorageConfig list" where
  "cloned_disks = [layer_disk ''/lib/blobs/aa.erofs'' ''l0'', cow_disk ''/run/v2/cow.raw'',
     demo_data\<lparr>sc_Path := ''/run/v2/data-logs.raw''\<rparr>]"

theorem clone_drives_private_witness:
  "rebuildCloneStorage demo_meta ''/run/v2/cow.raw'' = Inr cloned_disks \<and>
   Dir (sc_Path (cloned_disks ! 1)) = Dir ''/run/v2/cow.raw'' \<and>
   (''/run/v1/cow.raw'', ''/run/v2/cow.raw'') \<in>
     set [(''/run/v1/cow.raw'', ''/run/v2/cow.raw''), (''/run/v1/data-logs.raw'', ''/run/v2/data-logs.raw'')]"
proof -
  let ?bs = "[(''/run/v1/cow.raw'', ''/run/v2/cow.raw''), (''/run/v1/data-logs.raw'', ''/run/v2/data-logs.raw'')]"
  have r: "rebuildCloneStorage demo_meta ''/run/v2/cow.raw'' = Inr cloned_disks" by code_simp
  have v: "ValidateStorageConfigs (map Some cloned_disks) = Inr ()" by code_simp
  have b: "redirectBinds (deref (sm_StorageConfigs demo_meta)) cloned_disks = Inr ?bs" by code_simp
  have f: "verifyDriveFDs demo_fc False 7 ?bs = Inr ()" by code_simp
  have l: "1 < length cloned_disks" "\<not> sc_RO (cloned_disks ! 1)" by code_simp+
  from clone_drives_private [OF r v b f] l r show ?thesis by auto
qed


end
