(* ===== verification/Metadata.thy ===== *)
theory Metadata
  imports Fat12 Types Host
begin

text \<open>
  The cloud-init disk of a guest (\<open>src/metadata/metadata.go\<close>): the three templates as the text they render, and the
  FAT12 image that carries them.
\<close>

section \<open>Templates\<close>

text \<open>A line break and a single quote.\<close>

definition nl :: string where "nl = [char_of (10 :: nat)]"

definition sq :: string where "sq = [char_of (39 :: nat)]"

record NetworkInfo =
  ni_IP :: string
  ni_Prefix :: int
  ni_Gateway :: string
  ni_MAC :: string

record MountSpec =
  ms_Device :: string
  ms_MountPoint :: string
  ms_FSType :: string
  ms_Options :: string

record MetadataConfig =
  md_InstanceID :: string
  md_Hostname :: string
  md_Username :: string
  md_Password :: string
  md_Networks :: "NetworkInfo list"
  md_Mounts :: "MountSpec list"
  md_DNS :: "string list"

definition yamlQuote :: "string \<Rightarrow> string" where
  "yamlQuote s = concat (map (\<lambda>c. if [c] = sq then sq @ sq else [c]) s)"

definition meta_data :: "MetadataConfig \<Rightarrow> string" where
  "meta_data m = ''instance-id: '' @ md_InstanceID m @ nl @ ''local-hostname: '' @ md_Hostname m @ nl"

text \<open>
  The parts of \<open>user-data\<close>. A trim marker takes the line break before an action away, so each part
  begins with its own.
\<close>

definition root_login :: "MetadataConfig \<Rightarrow> string" where
  "root_login m =
     nl @ ''chpasswd:'' @ nl @ ''  expire: false'' @ nl @ ''  list:'' @ nl @
     ''    - '' @ sq @ ''root:'' @ yamlQuote (md_Password m) @ sq @ nl @ ''disable_root: false''"

definition user_login :: "MetadataConfig \<Rightarrow> string" where
  "user_login m =
     (let u = md_Username m in
      nl @ ''runcmd:'' @
      nl @ ''  - [sh, -c, '' @ sq @ ''id '' @ u @ '' >/dev/null 2>&1 || useradd -m -s /bin/bash -N '' @ u @ sq @ '']'' @
      nl @ ''  - [usermod, -aG, sudo, '' @ sq @ u @ sq @ '']'' @
      nl @ ''  - [sh, -c, '' @ sq @ ''echo '' @ sq @ sq @ u @ '':'' @ md_Password m @ sq @ sq @ '' | chpasswd'' @ sq @ '']'' @
      nl @ ''  - [sh, -c, '' @ sq @ ''echo '' @ sq @ sq @ u @ '' ALL=(ALL) NOPASSWD:ALL'' @ sq @ sq @
           '' > /etc/sudoers.d/cocoon-'' @ u @ sq @ '']'')"

definition mount_row :: "MountSpec \<Rightarrow> string" where
  "mount_row x =
     nl @ ''  - ['' @ sq @ yamlQuote (ms_Device x) @ sq @ '', '' @ sq @ yamlQuote (ms_MountPoint x) @ sq @ '', '' @
     sq @ yamlQuote (ms_FSType x) @ sq @ '', '' @ sq @ yamlQuote (ms_Options x) @ sq @ '', '' @
     sq @ ''0'' @ sq @ '', '' @ sq @ ''0'' @ sq @ '']''"

definition network_unit :: "string list \<Rightarrow> nat \<Rightarrow> NetworkInfo \<Rightarrow> string" where
  "network_unit dns i n =
     nl @ ''  - path: /etc/systemd/network/15-cocoon-id'' @ itoa i @ ''.network'' @
     nl @ ''    owner: root:root'' @ nl @ ''    permissions: '' @ sq @ ''0644'' @ sq @
     nl @ ''    content: |'' @ nl @ ''      [Match]'' @ nl @ ''      MACAddress='' @ ni_MAC n @ nl @
     nl @ ''      [Link]'' @ nl @ ''      RequiredForOnline='' @ (if i = 0 then ''yes'' else ''no'') @ nl @
     nl @ ''      [Network]'' @
     (if ni_IP n \<noteq> ''''
      then nl @ ''      Address='' @ ni_IP n @ ''/'' @ itoa_int (ni_Prefix n) @
           (if ni_Gateway n \<noteq> '''' then nl @ ''      Gateway='' @ ni_Gateway n else '''') @
           concat (map (\<lambda>d. nl @ ''      DNS='' @ d) dns)
      else nl @ ''      DHCP=ipv4'')"

definition login_part :: "MetadataConfig \<Rightarrow> string" where
  "login_part m =
     (if md_Password m \<noteq> '''' \<and> md_Username m \<noteq> ''''
      then nl @ ''ssh_pwauth: true'' @ (if md_Username m = ''root'' then root_login m else '''') @
           (if md_Username m \<noteq> '''' \<and> md_Username m \<noteq> ''root'' then user_login m else '''')
      else '''')"

definition mounts_part :: "MetadataConfig \<Rightarrow> string" where
  "mounts_part m = (if md_Mounts m \<noteq> [] then nl @ ''mounts:'' @ concat (map mount_row (md_Mounts m)) else '''')"

definition networks_part :: "MetadataConfig \<Rightarrow> string" where
  "networks_part m =
     (if md_Networks m \<noteq> []
      then nl @ ''write_files:'' @
           concat (map (\<lambda>i. network_unit (md_DNS m) i (md_Networks m ! i)) [0..<length (md_Networks m)])
      else '''')"

definition user_data :: "MetadataConfig \<Rightarrow> string" where
  "user_data m = ''#cloud-config'' @ login_part m @ mounts_part m @ networks_part m @ nl"

definition ethernet :: "string list \<Rightarrow> nat \<Rightarrow> NetworkInfo \<Rightarrow> string" where
  "ethernet dns i n =
     nl @ ''  id'' @ itoa i @ '':'' @ nl @ ''    match:'' @ nl @ ''      macaddress: \"'' @ ni_MAC n @ ''\"'' @
     (if i > 0 then nl @ ''    optional: true'' else '''') @
     (if ni_IP n \<noteq> ''''
      then nl @ ''    addresses:'' @ nl @ ''      - '' @ ni_IP n @ ''/'' @ itoa_int (ni_Prefix n) @
           (if ni_Gateway n \<noteq> ''''
            then nl @ ''    routes:'' @ nl @ ''      - to: default'' @ nl @ ''        via: '' @ ni_Gateway n else '''') @
           (if dns \<noteq> []
            then nl @ ''    nameservers:'' @ nl @ ''      addresses:'' @ concat (map (\<lambda>d. nl @ ''        - '' @ d) dns)
            else '''')
      else nl @ ''    dhcp4: true'')"

definition network_config :: "MetadataConfig \<Rightarrow> string" where
  "network_config m =
     ''version: 2'' @ nl @ ''ethernets:'' @
     concat (map (\<lambda>i. ethernet (md_DNS m) i (md_Networks m ! i)) [0..<length (md_Networks m)]) @
     nl @ ''  zfallback:'' @ nl @ ''    match:'' @ nl @ ''      name: \"e*\"'' @ nl @ ''    dhcp4: true'' @
     nl @ ''    optional: true'' @ nl"

section \<open>The image\<close>

definition cidataLabel :: string where "cidataLabel = ''CIDATA''"

definition cidata_files :: "MetadataConfig \<Rightarrow> byte list tbl" where
  "cidata_files m =
     [(''meta-data'', map of_char (meta_data m)), (''user-data'', map of_char (user_data m))] @
     (if md_Networks m \<noteq> [] then [(''network-config'', map of_char (network_config m))] else [])"

definition Generate :: "caltime \<Rightarrow> MetadataConfig \<Rightarrow> byte list res" where
  "Generate now m = CreateFAT12 now cidataLabel (cidata_files m)"

section \<open>Quoted scalars\<close>

text \<open>
  A YAML scalar in single quotes, read up to its closing quote: a doubled quote stands for one. The result is the
  scalar and what follows.
\<close>

fun quoted_tail :: "string \<Rightarrow> (string \<times> string) option" where
  "quoted_tail [] = None"
| "quoted_tail (c # cs) =
     (if [c] \<noteq> sq then map_option (\<lambda>(s, r). (c # s, r)) (quoted_tail cs)
      else (case cs of
              d # ds \<Rightarrow> if [d] = sq then map_option (\<lambda>(s, r). (c # s, r)) (quoted_tail ds) else Some ([], cs)
            | [] \<Rightarrow> Some ([], [])))"

definition yaml_scalar :: "string \<Rightarrow> (string \<times> string) option" where
  "yaml_scalar s = (if has_prefix s sq then quoted_tail (drop 1 s) else None)"

text \<open>The scalars of a flow sequence up to its bracket.\<close>

fun yaml_row :: "nat \<Rightarrow> string \<Rightarrow> string list option" where
  "yaml_row 0 s = None"
| "yaml_row (Suc n) s =
     (case yaml_scalar s of
        None \<Rightarrow> None
      | Some (x, r) \<Rightarrow>
          if has_prefix r '', '' then map_option (\<lambda>xs. x # xs) (yaml_row n (drop 2 r))
          else if has_prefix r '']'' then Some [x] else None)"

lemma sq_char: "[c] = sq \<longleftrightarrow> c = char_of (39 :: nat)"
  by (auto simp: sq_def)

lemma quoted_plain: "char_of (39 :: nat) \<notin> set s \<Longrightarrow> quoted_tail (s @ t) = map_option (\<lambda>(x, r). (s @ x, r)) (quoted_tail t)"
  by (cases "quoted_tail t"; induction s) (auto simp: sq_char)

lemma quoted_pair: "quoted_tail (sq @ sq @ t) = map_option (\<lambda>(x, r). (sq @ x, r)) (quoted_tail t)"
  by (simp add: sq_def)

lemma quoted_end: "\<not> has_prefix r sq \<Longrightarrow> quoted_tail (sq @ r) = Some ([], r)"
  by (cases r) (auto simp: sq_def has_prefix_def)

lemma quoted_yaml:
  assumes "\<not> has_prefix r sq"
  shows "quoted_tail (yamlQuote s @ sq @ r) = Some (s, r)"
proof (induction s)
  case Nil
  show ?case using quoted_end [OF assms] by (simp add: yamlQuote_def)
next
  case (Cons c s)
  show ?case
  proof (cases "[c] = sq")
    case True
    then have "yamlQuote (c # s) @ sq @ r = sq @ sq @ (yamlQuote s @ sq @ r)" by (simp add: yamlQuote_def)
    then show ?thesis using quoted_pair [of "yamlQuote s @ sq @ r"] Cons True by (auto simp: sq_def)
  next
    case False
    then have "yamlQuote (c # s) @ sq @ r = c # (yamlQuote s @ sq @ r)" by (simp add: yamlQuote_def)
    then show ?thesis using Cons False by simp
  qed
qed

lemma scalar_yaml: "\<not> has_prefix r sq \<Longrightarrow> yaml_scalar (sq @ yamlQuote s @ sq @ r) = Some (s, r)"
  using quoted_yaml [of r s] by (simp add: yaml_scalar_def sq_def has_prefix_def)

lemma row_yaml:
  assumes "yaml_row n r = Some xs"
  shows "yaml_row (Suc n) (sq @ yamlQuote s @ sq @ '', '' @ r) = Some (s # xs)"
proof -
  have "yaml_scalar (sq @ yamlQuote s @ sq @ '', '' @ r) = Some (s, '', '' @ r)"
    by (rule scalar_yaml) (simp add: has_prefix_def sq_def char_of_def)
  then show ?thesis using assms by (simp add: has_prefix_def)
qed

lemma row_last: "yaml_row (Suc n) (sq @ yamlQuote s @ sq @ '']'' @ r) = Some [s]"
proof -
  have "yaml_scalar (sq @ yamlQuote s @ sq @ '']'' @ r) = Some (s, '']'' @ r)"
    by (rule scalar_yaml) (simp add: has_prefix_def sq_def char_of_def)
  then show ?thesis by (simp add: has_prefix_def)
qed

lemma quote_zero: "yamlQuote ''0'' = ''0''"
  by code_simp

lemma mount_row_reads:
  "\<exists>rest. mount_row x = nl @ ''  - ['' @ rest \<and>
    yaml_row 6 (rest @ t) = Some [ms_Device x, ms_MountPoint x, ms_FSType x, ms_Options x, ''0'', ''0'']"
proof (intro exI conjI)
  let ?rest = "sq @ yamlQuote (ms_Device x) @ sq @ '', '' @ sq @ yamlQuote (ms_MountPoint x) @ sq @ '', '' @
     sq @ yamlQuote (ms_FSType x) @ sq @ '', '' @ sq @ yamlQuote (ms_Options x) @ sq @ '', '' @
     sq @ yamlQuote ''0'' @ sq @ '', '' @ sq @ yamlQuote ''0'' @ sq @ '']''"
  show "mount_row x = nl @ ''  - ['' @ ?rest" by (simp add: mount_row_def quote_zero)
  show "yaml_row 6 (?rest @ t) = Some [ms_Device x, ms_MountPoint x, ms_FSType x, ms_Options x, ''0'', ''0'']"
    unfolding append_assoc numeral_nat
    by (intro row_yaml row_last)
qed

lemma valid_credentials:
  assumes "VMConfig_Validate cfg = Inr ()"
  shows "char_of (39 :: nat) \<notin> set (User cfg)" "char_of (39 :: nat) \<notin> set (Password cfg)"
proof -
  have v: "User cfg = '''' \<or> validUsername (User cfg)" "Password cfg = '''' \<or> \<not> shellUnsafe (Password cfg)"
    using assms by (auto simp: VMConfig_Validate_def split: if_splits sum.splits)
  show "char_of (39 :: nat) \<notin> set (User cfg)"
    using v(1) by (cases "User cfg") (auto simp: validUsername_def is_lower_def is_digit_def char_of_def list_all_iff)
  show "char_of (39 :: nat) \<notin> set (Password cfg)"
    using v(2) by (auto simp: shellUnsafe_def unsafe_char_def list_ex_iff)
qed

lemma login_scalar:
  assumes "char_of (39 :: nat) \<notin> set u" "char_of (39 :: nat) \<notin> set p"
  shows "yaml_scalar (sq @ ''echo '' @ sq @ sq @ u @ '':'' @ p @ sq @ sq @ '' | chpasswd'' @ sq @ '']'' @ r) =
    Some (''echo '' @ sq @ u @ '':'' @ p @ sq @ '' | chpasswd'', '']'' @ r)"
proof -
  have plain: "quoted_tail (s @ t) = map_option (\<lambda>(x, r). (s @ x, r)) (quoted_tail t)"
    if "s \<in> {''echo '', '':'', '' | chpasswd'', u, p}" for s t
    by (rule quoted_plain) (use that assms in \<open>auto simp: char_of_def\<close>)
  have e: "quoted_tail (sq @ '']'' @ r) = Some ([], '']'' @ r)"
    by (rule quoted_end) (simp add: has_prefix_def sq_def char_of_def)
  have "quoted_tail (''echo '' @ sq @ sq @ u @ '':'' @ p @ sq @ sq @ '' | chpasswd'' @ sq @ '']'' @ r) =
    Some (''echo '' @ sq @ u @ '':'' @ p @ sq @ '' | chpasswd'', '']'' @ r)"
    using plain [of "''echo ''"] plain [of "'':''"] plain [of "'' | chpasswd''"] plain [of u] plain [of p]
    by (simp only: quoted_pair e option.map prod.case insert_iff simp_thms append_Nil2)
  then show ?thesis by (simp add: yaml_scalar_def has_prefix_def sq_def)
qed

section \<open>Properties\<close>


definition guest_cfg :: VMConfig where
  "guest_cfg =
     \<lparr>CPU = 2, Memory = 536870912, Storage = 10737418240, QueueSize = 0, DiskQueueSize = 0, ImageName = ''ubuntu'', ImageDigest = '''',
      ImageType = '''', Network = '''', NoDirectIO = False, NoWatchdog = False, NoBalloon = False, Windows = False,
      SharedMemory = False, HugePages = False, Mergeable = False, PCI = False, CPUWeight = 0, CPUQuotaUs = 0, CPUPeriodUs = 0,
      CPUBurstUs = 0, CPUSetCPUs = '''', Name = ''web'', RestoreMode = '''', User = ''bob'', Password = ''s3cret-x'', DataDisks = []\<rparr>"

definition guest_data :: MetadataConfig where
  "guest_data =
     \<lparr>md_InstanceID = ''v1'', md_Hostname = ''web'', md_Username = ''bob'', md_Password = ''s3cret-x'', md_Networks = [],
      md_Mounts = [\<lparr>ms_Device = ''/dev/disk/by-id/virtio-logs'', ms_MountPoint = ''/mnt/bob'' @ sq @ ''s logs'', ms_FSType = ''ext4'',
        ms_Options = ''defaults,nofail''\<rparr>], md_DNS = []\<rparr>"


end
