(* ===== verification/ChConfig.thy ===== *)
theory ChConfig
  imports NetResize Metadata
begin

text \<open>
  The configuration of a Cloud Hypervisor VM (\<open>src/hypervisor/cloudhypervisor/{api,args,patch}.go\<close>): from a record to
  the VMM's configuration and its command line, and the patch of the configuration that a snapshot carries.
\<close>

section \<open>The VMM's configuration\<close>

record chQueueAffinity =
  qa_QueueIndex :: nat
  qa_HostCPUs :: "int list"

record chDisk =
  cd_ID :: string
  cd_Path :: string
  cd_ReadOnly :: bool
  cd_DirectIO :: bool
  cd_Sparse :: bool
  cd_ImageType :: string
  cd_BackingFiles :: bool
  cd_NumQueues :: int
  cd_QueueSize :: int
  cd_QueueAffinity :: "chQueueAffinity list"
  cd_Serial :: string

record chNet =
  cn_ID :: string
  cn_TAP :: string
  cn_MAC :: string
  cn_NumQueues :: int
  cn_QueueSize :: int
  cn_OffloadTSO :: bool
  cn_OffloadUFO :: bool
  cn_OffloadCsum :: bool

record chPayload =
  pl_Firmware :: string
  pl_Kernel :: string
  pl_Initramfs :: string
  pl_Cmdline :: string

record chCPUs =
  cu_BootVCPUs :: int
  cu_MaxVCPUs :: int
  cu_KVMHyperV :: bool

record chMemory =
  cm_Size :: int
  cm_HugePages :: bool
  cm_Shared :: bool
  cm_Mergeable :: bool

record chBalloon =
  cb_Size :: int
  cb_DeflateOnOOM :: bool
  cb_FreePageReporting :: bool

record chRuntimeFile =
  rf_Mode :: string
  rf_File :: string
  rf_Socket :: string

record chVsock =
  vk_CID :: int
  vk_Socket :: string

record chFs =
  cf_ID :: string
  cf_Tag :: string
  cf_Socket :: string
  cf_NumQueues :: int
  cf_QueueSize :: int

record chDevice =
  cv_ID :: string
  cv_Path :: string

record chVMConfig =
  vm_Payload :: "chPayload option"
  vm_Balloon :: "chBalloon option"
  vm_Serial :: "chRuntimeFile option"
  vm_Console :: "chRuntimeFile option"
  vm_Vsock :: "chVsock option"
  vm_CPUs :: chCPUs
  vm_Memory :: chMemory
  vm_Disks :: "chDisk list"
  vm_Fs :: "chFs list"
  vm_Devices :: "chDevice list"
  vm_Nets :: "chNet list"
  vm_RNG :: string
  vm_Watchdog :: bool

text \<open>The device tree is the list of its ids.\<close>

record chVMInfoResponse =
  in_State :: string
  in_Config :: chVMConfig
  in_MemoryActualSize :: int
  in_DeviceTree :: "string list"

section \<open>From a record to a configuration\<close>

definition defaultDiskQueueSize :: int where "defaultDiskQueueSize = 512"

definition cidataFile :: string where "cidataFile = ''cidata.img''"

definition qcow2Overlay :: "StorageConfig \<Rightarrow> bool" where
  "qcow2Overlay sc \<longleftrightarrow> \<not> sc_RO sc \<and> Ext (sc_Path sc) = ''.qcow2''"

definition effectiveDirectIO :: "StorageConfig \<Rightarrow> bool \<Rightarrow> bool" where
  "effectiveDirectIO sc noDirectIO =
     (case sc_DirectIO sc of
        Some d \<Rightarrow> d
      | None \<Rightarrow> if qcow2Overlay sc then False else \<not> sc_RO sc \<and> \<not> noDirectIO)"

definition queueAffinity :: "int \<Rightarrow> int list \<Rightarrow> chQueueAffinity list" where
  "queueAffinity cpuCount queueCPUs =
     (if cpuCount < 2 \<or> queueCPUs = [] then []
      else map (\<lambda>i. \<lparr>qa_QueueIndex = i, qa_HostCPUs = [queueCPUs ! (i mod length queueCPUs)]\<rparr>) [0..<nat cpuCount])"

definition storageConfigToDisk :: "StorageConfig \<Rightarrow> int \<Rightarrow> int \<Rightarrow> bool \<Rightarrow> int list \<Rightarrow> chDisk" where
  "storageConfigToDisk sc cpuCount diskQueueSize noDirectIO queueCPUs =
     (let qcow2 = (Ext (sc_Path sc) = ''.qcow2'')
      in \<lparr>cd_ID = '''', cd_Path = sc_Path sc, cd_ReadOnly = sc_RO sc, cd_DirectIO = effectiveDirectIO sc noDirectIO,
          cd_Sparse = (\<not> qcow2 \<and> \<not> sc_RO sc), cd_ImageType = (if qcow2 then ''Qcow2'' else ''Raw''),
          cd_BackingFiles = (qcow2 \<and> qcow2Overlay sc), cd_NumQueues = cpuCount,
          cd_QueueSize = OrDefault diskQueueSize defaultDiskQueueSize,
          cd_QueueAffinity = (if \<not> sc_RO sc then queueAffinity cpuCount queueCPUs else []), cd_Serial = sc_Serial sc\<rparr>)"

definition networkConfigToNet :: "NetworkConfig \<Rightarrow> chNet" where
  "networkConfigToNet nc =
     \<lparr>cn_ID = '''', cn_TAP = nc_TAP nc, cn_MAC = nc_MAC nc, cn_NumQueues = nc_NumQueues nc, cn_QueueSize = nc_QueueSize nc,
      cn_OffloadTSO = True, cn_OffloadUFO = True, cn_OffloadCsum = True\<rparr>"

definition cocoonNetIDPrefix :: string where "cocoonNetIDPrefix = ''cocoon-net-''"

definition cocoonNetID :: "string \<Rightarrow> string" where
  "cocoonNetID mac = cocoonNetIDPrefix @ filter (\<lambda>c. c \<noteq> CHR '':'') mac"

definition serialConsoleFor :: "bool \<Rightarrow> string \<Rightarrow> chRuntimeFile \<times> chRuntimeFile" where
  "serialConsoleFor directBoot consoleSock =
     (if directBoot
      then (\<lparr>rf_Mode = ''Off'', rf_File = '''', rf_Socket = ''''\<rparr>, \<lparr>rf_Mode = ''Pty'', rf_File = '''', rf_Socket = ''''\<rparr>)
      else (\<lparr>rf_Mode = ''Socket'', rf_File = '''', rf_Socket = consoleSock\<rparr>, \<lparr>rf_Mode = ''Off'', rf_File = '''', rf_Socket = ''''\<rparr>))"

definition activeDisks :: "VMRecord \<Rightarrow> StorageConfig list" where
  "activeDisks rec =
     (let skipCidata = (FirstBooted rec \<and> \<not> IsDirectBoot (BootCfg rec))
      in filter (\<lambda>sc. \<not> (skipCidata \<and> sc_Role sc = StorageRoleCidata)) (rec_disks rec))"

definition ch_buildCmdline :: "StorageConfig list \<Rightarrow> NetworkConfig list \<Rightarrow> string \<Rightarrow> string list \<Rightarrow> string" where
  "ch_buildCmdline storageConfigs networkConfigs vmName dnsServers =
     BuildBaseCmdline ''console=hvc0 loglevel=3'' (joined (CHR '','') (ReverseLayers storageConfigs (\<lambda>_ sc. sc_Serial sc)))
       CowSerial networkConfigs vmName dnsServers"

definition ch_payload :: "VMRecord \<Rightarrow> string list \<Rightarrow> chPayload option" where
  "ch_payload rec dnsServers =
     (case BootCfg rec of
        None \<Rightarrow> None
      | Some boot \<Rightarrow>
          if KernelPath boot \<noteq> ''''
          then Some \<lparr>pl_Firmware = FirmwarePath boot, pl_Kernel = KernelPath boot, pl_Initramfs = InitrdPath boot,
                 pl_Cmdline = ch_buildCmdline (rec_disks rec) (rec_nics rec) (Name (Config rec)) dnsServers\<rparr>
          else if FirmwarePath boot \<noteq> ''''
          then Some \<lparr>pl_Firmware = FirmwarePath boot, pl_Kernel = '''', pl_Initramfs = '''', pl_Cmdline = ''''\<rparr>
          else None)"

text \<open>\<open>hostCPUs\<close> is the count of the host's online CPUs.\<close>

definition buildVMConfig :: "int \<Rightarrow> VMRecord \<Rightarrow> string \<Rightarrow> string list \<Rightarrow> chVMConfig" where
  "buildVMConfig hostCPUs rec consoleSockPath dnsServers =
     (let cfg = Config rec; (serial, console) = serialConsoleFor (IsDirectBoot (BootCfg rec)) consoleSockPath
      in \<lparr>vm_Payload = ch_payload rec dnsServers,
          vm_Balloon = (case BalloonSize cfg of (sz, ok) \<Rightarrow>
            if ok then Some \<lparr>cb_Size = sz, cb_DeflateOnOOM = True, cb_FreePageReporting = True\<rparr> else None),
          vm_Serial = Some serial, vm_Console = Some console,
          vm_Vsock = Some \<lparr>vk_CID = VsockGuestCID, vk_Socket = Join [RunDir rec, ''vsock.uds'']\<rparr>,
          vm_CPUs = \<lparr>cu_BootVCPUs = CPU cfg, cu_MaxVCPUs = hostCPUs, cu_KVMHyperV = Windows cfg\<rparr>,
          vm_Memory = \<lparr>cm_Size = Memory cfg, cm_HugePages = HugePages cfg, cm_Shared = SharedMemory cfg, cm_Mergeable = Mergeable cfg\<rparr>,
          vm_Disks = map (\<lambda>sc. storageConfigToDisk sc (CPU cfg) (DiskQueueSize cfg) (NoDirectIO cfg) (QueueCPUList rec)) (activeDisks rec),
          vm_Fs = [], vm_Devices = [], vm_Nets = map networkConfigToNet (rec_nics rec),
          vm_RNG = ''/dev/urandom'', vm_Watchdog = (\<not> NoWatchdog cfg)\<rparr>)"

section \<open>Command line arguments\<close>

text \<open>A \<open>kvBuilder\<close> holds the entries whose condition is met.\<close>

definition kv :: "(bool \<times> string) list \<Rightarrow> string" where
  "kv entries = joined (CHR '','') (map snd (filter fst entries))"

definition ToLower :: "string \<Rightarrow> string" where
  "ToLower = map (\<lambda>c. if CHR ''A'' \<le> c \<and> c \<le> CHR ''Z'' then char_of (of_char c + 32 :: nat) else c)"

definition memoryCLIArg :: "chMemory \<Rightarrow> string" where
  "memoryCLIArg m =
     kv [(True, ''size='' @ itoa_int (cm_Size m)), (cm_HugePages m, ''hugepages=on''), (cm_Shared m, ''shared=on''),
         (cm_Mergeable m, ''mergeable=on'')]"

definition queueAffinityToCLI :: "chQueueAffinity list \<Rightarrow> string" where
  "queueAffinityToCLI qa =
     ''['' @ joined (CHR '','') (map (\<lambda>a. itoa (qa_QueueIndex a) @ ''@['' @ itoa_int (hd (qa_HostCPUs a)) @ '']'') qa) @ '']''"

definition diskToCLIArg :: "chDisk \<Rightarrow> string" where
  "diskToCLIArg d =
     kv [(True, ''path='' @ cd_Path d), (cd_ReadOnly d, ''readonly=on''), (cd_DirectIO d, ''direct=on''), (cd_Sparse d, ''sparse=on''),
         (cd_ImageType d \<noteq> '''', ''image_type='' @ ToLower (cd_ImageType d)), (cd_BackingFiles d, ''backing_files=on''),
         (cd_NumQueues d > 0, ''num_queues='' @ itoa_int (cd_NumQueues d)), (cd_QueueSize d > 0, ''queue_size='' @ itoa_int (cd_QueueSize d)),
         (cd_QueueAffinity d \<noteq> [], ''queue_affinity='' @ queueAffinityToCLI (cd_QueueAffinity d)),
         (cd_Serial d \<noteq> '''', ''serial='' @ cd_Serial d)]"

definition netToCLIArg :: "chNet \<Rightarrow> string" where
  "netToCLIArg n =
     kv [(True, ''tap='' @ cn_TAP n), (cn_MAC n \<noteq> '''', ''mac='' @ cn_MAC n),
         (cn_NumQueues n > 0, ''num_queues='' @ itoa_int (cn_NumQueues n)), (cn_QueueSize n > 0, ''queue_size='' @ itoa_int (cn_QueueSize n)),
         (cn_OffloadTSO n, ''offload_tso=on''), (cn_OffloadUFO n, ''offload_ufo=on''), (cn_OffloadCsum n, ''offload_csum=on'')]"

definition balloonToCLIArg :: "chBalloon \<Rightarrow> string" where
  "balloonToCLIArg b =
     kv [(True, ''size='' @ itoa_int (cb_Size b)), (cb_DeflateOnOOM b, ''deflate_on_oom=on''),
         (cb_FreePageReporting b, ''free_page_reporting=on'')]"

definition runtimeFileToCLIArg :: "chRuntimeFile \<Rightarrow> string" where
  "runtimeFileToCLIArg c =
     (if ToLower (rf_Mode c) = ''socket'' then ''socket='' @ rf_Socket c else ToLower (rf_Mode c))"

definition FwCfgKernelBootArg :: string where
  "FwCfgKernelBootArg = ''kernel=on,cmdline=on,initramfs=on,acpi_table=on''"

definition payloadToCLIArgs :: "chPayload \<Rightarrow> string list" where
  "payloadToCLIArgs p =
     (if pl_Kernel p \<noteq> '''' then [''--kernel'', pl_Kernel p] else []) @
     (if pl_Firmware p \<noteq> '''' then [''--firmware'', pl_Firmware p] else []) @
     (if pl_Initramfs p \<noteq> '''' then [''--initramfs'', pl_Initramfs p] else []) @
     (if pl_Cmdline p \<noteq> '''' then [''--cmdline'', pl_Cmdline p] else []) @
     (if pl_Kernel p \<noteq> '''' \<and> pl_Firmware p \<noteq> '''' then [''--fw-cfg-config'', FwCfgKernelBootArg] else [])"

definition option_args :: "'a option \<Rightarrow> ('a \<Rightarrow> string list) \<Rightarrow> string list" where
  "option_args x f = (case x of None \<Rightarrow> [] | Some y \<Rightarrow> f y)"

definition buildCLIArgs :: "chVMConfig \<Rightarrow> string \<Rightarrow> string list" where
  "buildCLIArgs cfg socketPath =
     (let cpus = vm_CPUs cfg in
      [''--api-socket'', socketPath, ''--cpus'',
       kv [(True, ''boot='' @ itoa_int (cu_BootVCPUs cpus)), (True, ''max='' @ itoa_int (cu_MaxVCPUs cpus)), (cu_KVMHyperV cpus, ''kvm_hyperv=on'')],
       ''--memory'', memoryCLIArg (vm_Memory cfg)] @
      (if vm_Disks cfg \<noteq> [] then ''--disk'' # map diskToCLIArg (vm_Disks cfg) else []) @
      option_args (vm_Payload cfg) payloadToCLIArgs @
      (if vm_Nets cfg \<noteq> [] then ''--net'' # map netToCLIArg (vm_Nets cfg) else []) @
      [''--rng'', ''src='' @ vm_RNG cfg] @
      (if vm_Watchdog cfg then [''--watchdog''] else []) @
      option_args (vm_Balloon cfg) (\<lambda>b. [''--balloon'', balloonToCLIArg b]) @
      option_args (vm_Vsock cfg) (\<lambda>v. [''--vsock'', ''cid='' @ itoa_int (vk_CID v) @ '',socket='' @ vk_Socket v]) @
      option_args (vm_Serial cfg) (\<lambda>c. [''--serial'', runtimeFileToCLIArg c]) @
      option_args (vm_Console cfg) (\<lambda>c. [''--console'', runtimeFileToCLIArg c]))"

definition DebugDiskCLIArgs :: "StorageConfig list \<Rightarrow> int \<Rightarrow> int \<Rightarrow> bool \<Rightarrow> string list" where
  "DebugDiskCLIArgs storageConfigs cpuCount diskQueueSize noDirectIO =
     map (\<lambda>sc. diskToCLIArg (storageConfigToDisk sc cpuCount diskQueueSize noDirectIO [])) storageConfigs"

definition DebugCmdline :: "StorageConfig list \<Rightarrow> string \<Rightarrow> string" where
  "DebugCmdline storageConfigs vmName = ch_buildCmdline storageConfigs [] vmName []"

definition DebugMemoryCLIArg :: "'a config_scheme \<Rightarrow> string" where
  "DebugMemoryCLIArg cfg =
     memoryCLIArg \<lparr>cm_Size = Memory cfg, cm_HugePages = HugePages cfg, cm_Shared = SharedMemory cfg, cm_Mergeable = Mergeable cfg\<rparr>"
section \<open>Patching a snapshot's configuration\<close>

text \<open>
  JSON values with the fields of an object in a table. A value is kept as it is unless a patch names its field.
\<close>

datatype jval = JNull | JBool bool | JInt int | JStr string | JArr "jval list" | JObj "(string \<times> jval) list"

record patchOptions =
  po_storageConfigs :: "StorageConfig list"
  po_netTAPs :: "string list"
  po_consoleSock :: string
  po_vsockSock :: string
  po_directBoot :: bool
  po_diskQueueSize :: int
  po_noDirectIO :: bool
  po_cpu :: int
  po_queueCPUs :: "int list"

definition runtimeFile_json :: "chRuntimeFile \<Rightarrow> jval" where
  "runtimeFile_json c =
     JObj ([(''mode'', JStr (rf_Mode c))] @ (if rf_File c \<noteq> '''' then [(''file'', JStr (rf_File c))] else []) @
       (if rf_Socket c \<noteq> '''' then [(''socket'', JStr (rf_Socket c))] else []))"

definition affinity_json :: "chQueueAffinity list \<Rightarrow> jval" where
  "affinity_json qa =
     JArr (map (\<lambda>a. JObj [(''queue_index'', JInt (int (qa_QueueIndex a))), (''host_cpus'', JArr (map JInt (qa_HostCPUs a)))]) qa)"

text \<open>Decoding into a map: null gives the nil map, on which an assignment panics.\<close>

definition decode_map :: "jval \<Rightarrow> (string \<times> jval) list option res" where
  "decode_map v = (case v of JObj fs \<Rightarrow> Inr (Some fs) | JNull \<Rightarrow> Inr None | _ \<Rightarrow> Inl (ErrMsg ''decode object''))"

definition setFields :: "(string \<times> jval) list \<Rightarrow> (string \<times> jval) list option \<Rightarrow> (string \<times> jval) list res" where
  "setFields kvs obj =
     (case obj of
        None \<Rightarrow> Inl (ErrMsg ''assignment to entry in nil map'')
      | Some fs \<Rightarrow> Inr (fold (\<lambda>(k, v). tput k v) kvs fs))"

definition patchRawObject :: "jval \<Rightarrow> ((string \<times> jval) list option \<Rightarrow> (string \<times> jval) list res) \<Rightarrow> jval res" where
  "patchRawObject raw fn =
     (case decode_map raw of
        Inl e \<Rightarrow> Inl e
      | Inr obj \<Rightarrow> (case fn obj of Inl e \<Rightarrow> Inl e | Inr fs \<Rightarrow> Inr (JObj fs)))"

definition patchRawArray :: "jval \<Rightarrow> nat \<Rightarrow> (nat \<Rightarrow> (string \<times> jval) list option \<Rightarrow> (string \<times> jval) list res) \<Rightarrow> jval res" where
  "patchRawArray raw n fn =
     (case (case raw of JArr xs \<Rightarrow> Inr xs | JNull \<Rightarrow> Inr [] | _ \<Rightarrow> Inl (ErrMsg ''decode array'')) of
        Inl e \<Rightarrow> Inl e
      | Inr arr \<Rightarrow>
          if length arr \<noteq> n then Inl (ErrMsg ''array length mismatch'')
          else (case map_res (\<lambda>i. patchRawObject (arr ! i) (fn i)) [0..<length arr] of
                  Inl e \<Rightarrow> Inl e
                | Inr arr' \<Rightarrow> Inr (JArr arr')))"

definition patch_disk :: "patchOptions \<Rightarrow> nat \<Rightarrow> (string \<times> jval) list option \<Rightarrow> (string \<times> jval) list res" where
  "patch_disk opts i elem =
     (let sc = po_storageConfigs opts ! i; affinity = queueAffinity (po_cpu opts) (po_queueCPUs opts) in
      case setFields [(''path'', JStr (sc_Path sc)),
             (''queue_size'', JInt (OrDefault (po_diskQueueSize opts) defaultDiskQueueSize))] elem of
        Inl e \<Rightarrow> Inl e
      | Inr fs \<Rightarrow>
          setFields ((if affinity \<noteq> [] \<and> \<not> sc_RO sc then [(''queue_affinity'', affinity_json affinity)] else []) @
              [(''direct'', JBool (effectiveDirectIO sc (po_noDirectIO opts)))])
            (Some (tdel ''queue_affinity'' fs)))"

definition patchDisks :: "patchOptions \<Rightarrow> jval \<Rightarrow> jval res" where
  "patchDisks opts diskRaw = patchRawArray diskRaw (length (po_storageConfigs opts)) (patch_disk opts)"

text \<open>A field that is present is replaced by its patch.\<close>

definition patch_field :: "string \<Rightarrow> (jval \<Rightarrow> bool) \<Rightarrow> (jval \<Rightarrow> jval res) \<Rightarrow> (string \<times> jval) list \<Rightarrow> (string \<times> jval) list res" where
  "patch_field key applies patch fs =
     (case tget fs key of
        None \<Rightarrow> Inr fs
      | Some v \<Rightarrow>
          if applies v then (case patch v of Inl e \<Rightarrow> Inl e | Inr v' \<Rightarrow> Inr (tput key v' fs)) else Inr fs)"

definition is_object :: "jval \<Rightarrow> bool" where "is_object v = (case v of JObj _ \<Rightarrow> True | _ \<Rightarrow> False)"

definition is_array :: "jval \<Rightarrow> bool" where "is_array v = (case v of JArr _ \<Rightarrow> True | _ \<Rightarrow> False)"

definition patch_config :: "patchOptions \<Rightarrow> jval \<Rightarrow> jval res" where
  "patch_config opts raw =
     (case decode_map raw of
        Inl e \<Rightarrow> Inl e
      | Inr None \<Rightarrow> Inl (ErrMsg ''assignment to entry in nil map'')
      | Inr (Some fs) \<Rightarrow>
          (case patch_field ''disks'' (\<lambda>_. True) (patchDisks opts) fs of
             Inl e \<Rightarrow> Inl e
           | Inr fs \<Rightarrow>
               (let (serial, console) = serialConsoleFor (po_directBoot opts) (po_consoleSock opts);
                    fs = tput ''console'' (runtimeFile_json console) (tput ''serial'' (runtimeFile_json serial) fs)
                in case patch_field ''vsock'' is_object (\<lambda>v. patchRawObject v (setFields [(''socket'', JStr (po_vsockSock opts))])) fs of
                     Inl e \<Rightarrow> Inl e
                   | Inr fs \<Rightarrow>
                       (if po_netTAPs opts = [] then Inr (JObj fs)
                        else (case patch_field ''net'' is_array (\<lambda>v. patchRawArray v (length (po_netTAPs opts))
                                 (\<lambda>i. setFields [(''tap'', JStr (po_netTAPs opts ! i))])) fs of
                                Inl e \<Rightarrow> Inl e
                              | Inr fs \<Rightarrow> Inr (JObj fs))))))"

text \<open>\<open>rd\<close> and \<open>wr\<close> read and write a JSON file.\<close>

definition patchCHConfig ::
    "('k \<Rightarrow> string \<Rightarrow> jval res) \<Rightarrow> (string \<Rightarrow> jval \<Rightarrow> ('k, unit) act) \<Rightarrow> string \<Rightarrow> patchOptions \<Rightarrow> ('k, unit) act" where
  "patchCHConfig rd wr path opts k =
     (case rd k path of
        Inl e \<Rightarrow> (Inl e, k)
      | Inr raw \<Rightarrow> (case patch_config opts raw of Inl e \<Rightarrow> (Inl e, k) | Inr v \<Rightarrow> wr path v k))"

section \<open>Names of TAP devices\<close>

definition VMIDPrefix :: "string \<Rightarrow> string" where "VMIDPrefix vid = take 8 vid"

definition TAPName :: "string \<Rightarrow> string \<Rightarrow> nat \<Rightarrow> string" where
  "TAPName pre vid nic = pre @ VMIDPrefix vid @ ''-'' @ itoa nic"

text \<open>What follows the last dash.\<close>

definition TAPIndex :: "string \<Rightarrow> int option" where
  "TAPIndex tap =
     (if CHR ''-'' \<notin> set tap then None
      else (case atoi (rev (takeWhile (\<lambda>c. c \<noteq> CHR ''-'') (rev tap))) of
              None \<Rightarrow> None
            | Some n \<Rightarrow> if n < 0 then None else Some n))"
section \<open>What a patch changes\<close>

lemma setFields_Inr: "setFields kvs obj = Inr fs \<longleftrightarrow> (\<exists>f. obj = Some f \<and> fs = fold (\<lambda>(k, v). tput k v) kvs f)"
  by (auto simp: setFields_def split: option.splits)

lemma patchRawObject_Inr:
  "patchRawObject raw fn = Inr v \<Longrightarrow> (\<And>f. fn None \<noteq> Inr f) \<Longrightarrow> \<exists>e e'. raw = JObj e \<and> v = JObj e' \<and> fn (Some e) = Inr e'"
  by (auto simp: patchRawObject_def decode_map_def split: jval.splits sum.splits)

lemma patchRawArray_Inr:
  assumes "patchRawArray (JArr xs) n fn = Inr v"
  shows "\<exists>ys. v = JArr ys \<and> length xs = n \<and> length ys = n \<and> (\<forall>i < n. patchRawObject (xs ! i) (fn i) = Inr (ys ! i))"
proof -
  obtain ys where "length xs = n" "map_res (\<lambda>i. patchRawObject (xs ! i) (fn i)) [0..<length xs] = Inr ys" "v = JArr ys"
    using assms by (auto simp: patchRawArray_def split: if_splits sum.splits)
  then show ?thesis by (auto simp: map_res_Inr_iff list_all2_conv_all_nth)
qed

lemma patch_field_Inr:
  assumes "patch_field key p f fs = Inr fs'"
  shows "\<And>k. k \<noteq> key \<Longrightarrow> tget fs' k = tget fs k"
    and "\<And>v. tget fs key = Some v \<Longrightarrow> p v \<Longrightarrow> \<exists>v'. f v = Inr v' \<and> tget fs' key = Some v'"
  using assms by (auto simp: patch_field_def split: option.splits if_splits sum.splits)

text \<open>The disk that a launch would attach, and that the patched disk has its settings and is otherwise as it was.\<close>

definition launch_disk :: "patchOptions \<Rightarrow> nat \<Rightarrow> chDisk" where
  "launch_disk opts i =
     storageConfigToDisk (po_storageConfigs opts ! i) (po_cpu opts) (po_diskQueueSize opts) (po_noDirectIO opts) (po_queueCPUs opts)"

definition patched_as :: "chDisk \<Rightarrow> (string \<times> jval) list \<Rightarrow> (string \<times> jval) list \<Rightarrow> bool" where
  "patched_as d e e' \<longleftrightarrow>
     tget e' ''path'' = Some (JStr (cd_Path d)) \<and> tget e' ''queue_size'' = Some (JInt (cd_QueueSize d)) \<and>
     tget e' ''direct'' = Some (JBool (cd_DirectIO d)) \<and>
     tget e' ''queue_affinity'' = (if cd_QueueAffinity d = [] then None else Some (affinity_json (cd_QueueAffinity d))) \<and>
     (\<forall>k. k \<notin> {''path'', ''queue_size'', ''direct'', ''queue_affinity''} \<longrightarrow> tget e' k = tget e k)"

lemma patch_disk_Inr: "patch_disk opts i (Some e) = Inr e' \<Longrightarrow> patched_as (launch_disk opts i) e e'"
  by (auto simp: patched_as_def launch_disk_def patch_disk_def setFields_def storageConfigToDisk_def Let_def)

lemma patchDisks_Inr:
  assumes "patchDisks opts (JArr ds) = Inr v"
  shows "\<exists>ds'. v = JArr ds' \<and> length ds' = length ds \<and> length ds = length (po_storageConfigs opts) \<and>
    (\<forall>i < length ds. \<exists>e e'. ds ! i = JObj e \<and> ds' ! i = JObj e' \<and> patched_as (launch_disk opts i) e e')"
proof -
  from patchRawArray_Inr [OF assms [unfolded patchDisks_def]] obtain ds' where
    a: "v = JArr ds'" "length ds = length (po_storageConfigs opts)" "length ds' = length (po_storageConfigs opts)"
       "\<forall>i < length ds. patchRawObject (ds ! i) (patch_disk opts i) = Inr (ds' ! i)" by auto
  have "patch_disk opts i None \<noteq> Inr f" for i f by (simp add: patch_disk_def setFields_def Let_def)
  then have "\<forall>i < length ds. \<exists>e e'. ds ! i = JObj e \<and> ds' ! i = JObj e' \<and> patched_as (launch_disk opts i) e e'"
    using a(4) patchRawObject_Inr patch_disk_Inr by meson
  with a show ?thesis by auto
qed

lemma patch_config_Inr:
  assumes "patch_config opts (JObj fs) = Inr v"
  obtains fs1 fs2 fs3 where "patch_field ''disks'' (\<lambda>_. True) (patchDisks opts) fs = Inr fs1"
    "fs2 = tput ''console'' (runtimeFile_json (snd (serialConsoleFor (po_directBoot opts) (po_consoleSock opts))))
       (tput ''serial'' (runtimeFile_json (fst (serialConsoleFor (po_directBoot opts) (po_consoleSock opts)))) fs1)"
    "patch_field ''vsock'' is_object (\<lambda>v. patchRawObject v (setFields [(''socket'', JStr (po_vsockSock opts))])) fs2 = Inr fs3"
    "v = JObj fs3 \<or> (\<exists>fs4 f. patch_field ''net'' is_array f fs3 = Inr fs4 \<and> v = JObj fs4)"
proof -
  obtain serial console where t: "serialConsoleFor (po_directBoot opts) (po_consoleSock opts) = (serial, console)" by fastforce
  obtain fs1 where 1: "patch_field ''disks'' (\<lambda>_. True) (patchDisks opts) fs = Inr fs1"
    using assms by (auto simp: patch_config_def decode_map_def split: sum.splits)
  let ?fs2 = "tput ''console'' (runtimeFile_json console) (tput ''serial'' (runtimeFile_json serial) fs1)"
  obtain fs3 where 3: "patch_field ''vsock'' is_object (\<lambda>v. patchRawObject v (setFields [(''socket'', JStr (po_vsockSock opts))])) ?fs2 = Inr fs3"
    using assms 1 t by (auto simp: patch_config_def decode_map_def Let_def split: sum.splits)
  have "v = JObj fs3 \<or> (\<exists>fs4 f. patch_field ''net'' is_array f fs3 = Inr fs4 \<and> v = JObj fs4)"
    using assms 1 t 3 by (auto simp: patch_config_def decode_map_def Let_def split: sum.splits if_splits)
  with 1 3 t that [of fs1 ?fs2 fs3] show ?thesis by simp
qed

definition sample_opts :: patchOptions where
  "sample_opts =
     \<lparr>po_storageConfigs = [\<lparr>sc_Path = ''/run/v2/overlay.qcow2'', sc_RO = False, sc_Serial = ''cocoon-cow'', sc_Role = StorageRoleCOW,
        sc_MountPoint = '''', sc_FSType = '''', sc_DirectIO = None\<rparr>], po_netTAPs = [], po_consoleSock = ''/run/v2/console.sock'',
      po_vsockSock = ''/run/v2/vsock.uds'', po_directBoot = False, po_diskQueueSize = 0, po_noDirectIO = False, po_cpu = 2,
      po_queueCPUs = [4, 5]\<rparr>"

definition sample_config :: "(string \<times> jval) list" where
  "sample_config =
     [(''disks'', JArr [JObj [(''id'', JStr ''_disk0''), (''path'', JStr ''/run/v1/overlay.qcow2''), (''queue_affinity'', JNull)]]),
      (''platform'', JNull)]"


text \<open>The slot of a NIC is read off the TAP it was given.\<close>

lemma TAPIndex_TAPName:
  assumes "int nic < 2 ^ 63"
  shows "TAPIndex (TAPName pre vid nic) = Some (int nic)"
proof -
  have n: "CHR ''-'' \<notin> set (itoa nic)" using itoa_digits [of "CHR ''-''" nic] by (auto simp: is_digit_def)
  have "takeWhile (\<lambda>c. c \<noteq> CHR ''-'') (rev (TAPName pre vid nic)) = rev (itoa nic)"
    unfolding TAPName_def rev_append append_assoc
    by (subst takeWhile_append2) (use n in auto)
  with assms show ?thesis by (simp add: TAPIndex_def TAPName_def atoi_itoa)
qed

end
