(* ===== verification/CloudHypervisor.thy ===== *)
theory CloudHypervisor
  imports ChConfig VmNode DiskDelta
begin

text \<open>
  The Cloud Hypervisor backend: the calls of its API (\<open>hypervisor/cloudhypervisor/api.go\<close>), creation and launch
  (\<open>create.go\<close>, \<open>start.go\<close>), stop, snapshot and hibernate (\<open>stop.go\<close>, \<open>snapshot.go\<close>), restore and clone
  (\<open>restore.go\<close>, \<open>clone.go\<close>, \<open>direct.go\<close>) and the devices of a running VM (\<open>extend.go\<close>, \<open>netresize.go\<close>),
  each as the hooks it passes to the shared sequences of \<open>hypervisor/\<close>. The lemmas at the end show that the
  hooks meet the contracts under which the shared sequences keep the books.
\<close>

section \<open>The VMM's API\<close>

text \<open>
  The request bodies: snapshot (destination, type), restore (source, memory mode), disk, removal (device id),
  network device, file system, passthrough device.
\<close>

datatype ch_req =
    chSnapshotConfig string string
  | chRestoreConfig string string
  | chDiskReq chDisk
  | chRemoveReq string
  | chNetReq chNet
  | chFsReq chFs
  | chDeviceReq chDevice

text \<open>
  What the driver needs beside a backend: the transport with the decoding of its answers, the launch hooks, the disk
  operations, what its waits see, the clock, JSON files and their decoding to a configuration, the snapshot sidecar,
  \<open>qemu-img\<close> and the header of a qcow2 file (virtual size and backing file, when it is one), the expansion of a
  file pattern, and settings.
\<close>

record 'k chenv =
  ce_http :: "('k, ch_req) http"
  ce_Info :: "string \<Rightarrow> chVMInfoResponse res"
  ce_Counters :: "string \<Rightarrow> (string \<Rightarrow> string \<Rightarrow> int) res"
  ce_DeviceID :: "string \<Rightarrow> string res"
  ce_hooks :: "string list \<Rightarrow> 'k launch_hooks"
  ce_disk :: "'k diskops"
  ce_sockwait :: "wait_event list"
  ce_bootwait :: "wait_event list"
  ce_retry :: "wait_event list"
  ce_stopwait :: "wait_event list"
  ce_ejectwait :: "wait_event list"
  ce_balloonwait :: "wait_event list"
  ce_ctx :: "err option"
  ce_Now :: "'k \<Rightarrow> nat"
  ce_Calendar :: "'k \<Rightarrow> caltime"
  ce_OpenLog :: "string \<Rightarrow> ('k, unit) act"
  ce_ReadJSON :: "'k \<Rightarrow> string \<Rightarrow> jval res"
  ce_WriteJSON :: "string \<Rightarrow> jval \<Rightarrow> ('k, unit) act"
  ce_Decode :: "jval \<Rightarrow> chVMConfig res"
  ce_LoadMeta :: "'k \<Rightarrow> string \<Rightarrow> SnapshotMeta res"
  ce_SaveMeta :: "string \<Rightarrow> SnapshotMeta \<Rightarrow> ('k, unit) act"
  ce_QemuImg :: "string list \<Rightarrow> ('k, unit) act"
  ce_Qcow2 :: "'k \<Rightarrow> string \<Rightarrow> (int \<times> string) option res"
  ce_WriteImage :: "string \<Rightarrow> byte list \<Rightarrow> ('k, unit) act"
  ce_Glob :: "'k \<Rightarrow> string \<Rightarrow> string \<Rightarrow> string list"
  ce_IsDir :: "'k \<Rightarrow> string \<Rightarrow> bool res"
  ce_RootDir :: string
  ce_RunDir :: string
  ce_Binary :: string
  ce_ForceStop :: bool
  ce_DNS :: "string list res"

definition ch_runtimeFiles :: "string list" where
  "ch_runtimeFiles = [''api.sock'', ''ch.pid'', ''console.sock'', ''console.pty'', ''cmdline'', ''vsock.uds'', ''snapdisk-*'']"

definition vmAPIOnce :: "'k chenv \<Rightarrow> string \<Rightarrow> string \<Rightarrow> ('k, string) call" where
  "vmAPIOnce E sock endpoint = DoAPIOnce (ce_http E) sock ''PUT'' endpoint None []"

definition vmPutJSON :: "'k chenv \<Rightarrow> string \<Rightarrow> string \<Rightarrow> ch_req \<Rightarrow> int list \<Rightarrow> ('k, string) call" where
  "vmPutJSON E sock endpoint payload codes = DoJSONOnce (ce_http E) sock ''PUT'' endpoint payload codes"

definition StatusNotFound :: int where "StatusNotFound = 404"

definition StatusInternalServerError :: int where "StatusInternalServerError = 500"

definition isAlreadyInStateError :: "api_err \<Rightarrow> string \<Rightarrow> bool" where
  "isAlreadyInStateError e state =
     (case e of
        APIError code m \<Rightarrow>
          code = StatusInternalServerError \<and>
          Contains m (''Invalid transition: InvalidStateTransition('' @ state @ '', '' @ state @ '')'')
      | CallError _ \<Rightarrow> False)"

text \<open>A call whose error is forgiven when \<open>ok\<close> holds of it.\<close>

definition forgive :: "(api_err \<Rightarrow> bool) \<Rightarrow> ('k, 'a) call \<Rightarrow> ('k, unit) act" where
  "forgive ok m k =
     (case m k of
        (Inl e, k') \<Rightarrow> (if ok e then Inr () else Inl (call_err e), k')
      | (Inr _, k') \<Rightarrow> (Inr (), k'))"

definition ch_pauseVM :: "'k chenv \<Rightarrow> string \<Rightarrow> ('k, unit) act" where
  "ch_pauseVM E sock = forgive (\<lambda>e. isAlreadyInStateError e ''Paused'') (vmAPIOnce E sock ''vm.pause'')"

definition ch_resumeVM :: "'k chenv \<Rightarrow> string \<Rightarrow> ('k, unit) act" where
  "ch_resumeVM E sock = forgive (\<lambda>e. isAlreadyInStateError e ''Running'') (vmAPIOnce E sock ''vm.resume'')"

definition snapshotVM :: "'k chenv \<Rightarrow> string \<Rightarrow> string \<Rightarrow> string \<Rightarrow> ('k, unit) act" where
  "snapshotVM E sock destDir snapshotType =
     act_done (vmPutJSON E sock ''vm.snapshot'' (chSnapshotConfig (''file://'' @ destDir) snapshotType) [StatusNoContent])"

definition endSnapshotSeries :: "'k chenv \<Rightarrow> string \<Rightarrow> ('k, unit) act" where
  "endSnapshotSeries E sock = act_done (vmAPIOnce E sock ''vm.end-snapshot-series'')"

definition restoreVM :: "'k chenv \<Rightarrow> string \<Rightarrow> string \<Rightarrow> string \<Rightarrow> ('k, unit) act" where
  "restoreVM E sock sourceDir restoreMode =
     (let send = (\<lambda>mode. act_done (vmPutJSON E sock ''vm.restore'' (chRestoreConfig (''file://'' @ sourceDir) mode) [StatusNoContent]))
      in if restoreMode = '''' \<or> restoreMode = ''copy'' then send ''''
         else if restoreMode = ''ondemand'' then send ''OnDemand''
         else if restoreMode = ''mmap'' then send ''CopyOnWrite''
         else act_fail (ErrMsg ''unknown restore mode''))"

definition addDiskVM :: "'k chenv \<Rightarrow> string \<Rightarrow> chDisk \<Rightarrow> ('k, unit) act" where
  "addDiskVM E sock disk = act_done (vmPutJSON E sock ''vm.add-disk'' (chDiskReq disk) [StatusOK, StatusNoContent])"

definition removeDeviceVM :: "'k chenv \<Rightarrow> string \<Rightarrow> string \<Rightarrow> ('k, string) call" where
  "removeDeviceVM E sock deviceID = vmPutJSON E sock ''vm.remove-device'' (chRemoveReq deviceID) []"

definition removeDevicePending :: "'k chenv \<Rightarrow> string \<Rightarrow> string \<Rightarrow> ('k, unit) act" where
  "removeDevicePending E sock deviceID =
     forgive (\<lambda>e. case e of APIError code _ \<Rightarrow> code = StatusNotFound | CallError _ \<Rightarrow> False) (removeDeviceVM E sock deviceID)"

definition getVMInfo_call :: "'k chenv \<Rightarrow> string \<Rightarrow> ('k, chVMInfoResponse) call" where
  "getVMInfo_call E sock k =
     (case DoAPI (ce_http E) sock ''GET'' ''vm.info'' None StatusOK k of
        (Inl e, k') \<Rightarrow> (Inl e, k')
      | (Inr body, k') \<Rightarrow> (case ce_Info E body of Inl e \<Rightarrow> (Inl (CallError e), k') | Inr info \<Rightarrow> (Inr info, k')))"

definition getVMInfo :: "'k chenv \<Rightarrow> string \<Rightarrow> ('k, chVMInfoResponse) act" where
  "getVMInfo E sock = act_call (getVMInfo_call E sock)"

definition getVMCounters :: "'k chenv \<Rightarrow> string \<Rightarrow> ('k, string \<Rightarrow> string \<Rightarrow> int) act" where
  "getVMCounters E sock =
     act_bind (act_call (DoAPI (ce_http E) sock ''GET'' ''vm.counters'' None StatusOK)) (\<lambda>body k. (ce_Counters E body, k))"

definition powerButton :: "'k chenv \<Rightarrow> string \<Rightarrow> ('k, unit) act" where
  "powerButton E sock = act_done (vmAPIOnce E sock ''vm.power-button'')"

definition waitDeviceEjected :: "'k chenv \<Rightarrow> string \<Rightarrow> string \<Rightarrow> ('k, unit) act" where
  "waitDeviceEjected E sock deviceID =
     WaitFor (act_bind (getVMInfo E sock) (\<lambda>info. act_return (deviceID \<notin> set (in_DeviceTree info)))) (ce_ejectwait E)"

definition addCocoonNIC :: "'k chenv \<Rightarrow> string \<Rightarrow> NetworkConfig \<Rightarrow> ('k, string) act" where
  "addCocoonNIC E sock nc =
     (let n = (networkConfigToNet nc)\<lparr>cn_ID := cocoonNetID (nc_MAC nc)\<rparr> in
      act_bind (act_done (vmPutJSON E sock ''vm.add-net'' (chNetReq n) [StatusOK, StatusNoContent])) (\<lambda>_. act_return (cn_ID n)))"

definition confirmVMBooted :: "'k chenv \<Rightarrow> 'k backend \<Rightarrow> string \<Rightarrow> int \<Rightarrow> ('k, unit) act" where
  "confirmVMBooted E b sock pid =
     WaitFor (act_try (getVMInfo E sock) (\<lambda>r k. case r of
         Inr info \<Rightarrow> (Inr (in_State info = ''Running''), k)
       | Inl _ \<Rightarrow>
           if \<not> IsProcessAlive (bk_host b) k pid then (Inl (ErrMsg ''cloud-hypervisor exited before the VM booted''), k)
           else (Inr False, k))) (ce_bootwait E)"

definition queryConsolePTY :: "'k chenv \<Rightarrow> string \<Rightarrow> ('k, string) call" where
  "queryConsolePTY E sock k =
     (case getVMInfo_call E sock k of
        (Inl e, k') \<Rightarrow> (Inl e, k')
      | (Inr info, k') \<Rightarrow>
          (case vm_Console (in_Config info) of
             None \<Rightarrow> (Inl (CallError (ErrMsg ''console PTY not available'')), k')
           | Some c \<Rightarrow> if rf_File c = '''' then (Inl (CallError (ErrMsg ''console PTY not available'')), k') else (Inr (rf_File c), k')))"

definition resolveConsole :: "'k chenv \<Rightarrow> string \<Rightarrow> string \<Rightarrow> bool \<Rightarrow> ('k, string) act" where
  "resolveConsole E sock consoleSock directBoot =
     (if directBoot
      then act_try (act_call (DoWithRetry (queryConsolePTY E sock) (ce_retry E))) (\<lambda>r. act_return (case r of Inl _ \<Rightarrow> '''' | Inr p \<Rightarrow> p))
      else act_return consoleSock)"

definition saveConsolePTY :: "'k chenv \<Rightarrow> 'k backend \<Rightarrow> string \<Rightarrow> string \<Rightarrow> bool \<Rightarrow> ('k, unit) act" where
  "saveConsolePTY E b runDir sock directBoot =
     (if \<not> directBoot then act_return ()
      else
        act_bind (resolveConsole E sock '''' True) (\<lambda>pty.
          if pty = '''' then act_return ()
          else act_ignore (sys_write (bk_host b) (Join [runDir, ''console.pty'']) pty)))"

definition saveCmdline :: "'k chenv \<Rightarrow> 'k backend \<Rightarrow> VMRecord \<Rightarrow> string list \<Rightarrow> ('k, unit) act" where
  "saveCmdline E b rec args =
     act_ignore (sys_write (bk_host b) (Join [RunDir rec, ''cmdline'']) (ce_Binary E @ '' '' @ joined (CHR '' '') args))"

definition qemuExpandImage :: "'k chenv \<Rightarrow> string \<Rightarrow> int \<Rightarrow> ('k, unit) act" where
  "qemuExpandImage E path targetSize k =
     (case ce_Qcow2 E k path of
        Inl e \<Rightarrow> (Inl e, k)
      | Inr None \<Rightarrow> (Inl (ErrMsg ''not a qcow2 image''), k)
      | Inr (Some (virtualSize, _)) \<Rightarrow>
          if targetSize \<le> virtualSize then (Inr (), k) else ce_QemuImg E [''resize'', path, itoa_int targetSize] k)"

section \<open>Create\<close>

definition buildMountSpecs :: "StorageConfig list \<Rightarrow> MountSpec list" where
  "buildMountSpecs configs =
     map (\<lambda>sc. \<lparr>ms_Device = ''/dev/disk/by-id/virtio-'' @ sc_Serial sc, ms_MountPoint = sc_MountPoint sc, ms_FSType = sc_FSType sc,
            ms_Options = ''defaults,nofail''\<rparr>)
       (filter (\<lambda>sc. sc_Role sc = StorageRoleData \<and> sc_MountPoint sc \<noteq> '''' \<and> sc_FSType sc \<noteq> '''' \<and> sc_FSType sc \<noteq> FSTypeNone) configs)"

definition cidata_network :: "NetworkConfig \<Rightarrow> NetworkInfo" where
  "cidata_network n =
     (case nc_Network n of
        None \<Rightarrow> \<lparr>ni_IP = '''', ni_Prefix = 0, ni_Gateway = '''', ni_MAC = nc_MAC n\<rparr>
      | Some ip \<Rightarrow> \<lparr>ni_IP = ip_IP ip, ni_Prefix = ip_Prefix ip, ni_Gateway = ip_Gateway ip, ni_MAC = nc_MAC n\<rparr>)"

definition cidata_config :: "string \<Rightarrow> VMConfig \<Rightarrow> NetworkConfig option list \<Rightarrow> StorageConfig list \<Rightarrow> string list \<Rightarrow> MetadataConfig" where
  "cidata_config vid vmCfg networkConfigs storageConfigs dns =
     \<lparr>md_InstanceID = vid, md_Hostname = Name vmCfg, md_Username = User vmCfg, md_Password = Password vmCfg,
      md_Networks = map cidata_network (filter (\<lambda>n. nc_MAC n \<noteq> '''') (List.map_filter (\<lambda>n. n) networkConfigs)),
      md_Mounts = buildMountSpecs storageConfigs, md_DNS = dns\<rparr>"

definition OverlayPath :: "'k backend \<Rightarrow> string \<Rightarrow> string" where
  "OverlayPath b vid = Join [VMRunDir b vid, ''overlay.qcow2'']"

definition CidataPath :: "'k backend \<Rightarrow> string \<Rightarrow> string" where
  "CidataPath b vid = Join [VMRunDir b vid, cidataFile]"

definition generateCidata ::
    "'k chenv \<Rightarrow> 'k backend \<Rightarrow> string \<Rightarrow> VMConfig \<Rightarrow> NetworkConfig option list \<Rightarrow> StorageConfig list \<Rightarrow> ('k, unit) act" where
  "generateCidata E b vid vmCfg networkConfigs storageConfigs k =
     (case ce_DNS E of
        Inl e \<Rightarrow> (Inl e, k)
      | Inr dns \<Rightarrow>
          (case Generate (ce_Calendar E k) (cidata_config vid vmCfg networkConfigs storageConfigs dns) of
             Inl e \<Rightarrow> act_bind (ce_WriteImage E (CidataPath b vid) []) (\<lambda>_. act_fail e) k
           | Inr img \<Rightarrow> ce_WriteImage E (CidataPath b vid) img k))"

definition cidata_disk :: "string \<Rightarrow> StorageConfig" where
  "cidata_disk path =
     \<lparr>sc_Path = path, sc_RO = True, sc_Serial = '''', sc_Role = StorageRoleCidata, sc_MountPoint = '''', sc_FSType = '''', sc_DirectIO = None\<rparr>"

definition overlay_disk :: "string \<Rightarrow> StorageConfig" where
  "overlay_disk path =
     \<lparr>sc_Path = path, sc_RO = False, sc_Serial = '''', sc_Role = StorageRoleCOW, sc_MountPoint = '''', sc_FSType = '''', sc_DirectIO = None\<rparr>"

definition prepareCloudimg ::
    "'k chenv \<Rightarrow> 'k backend \<Rightarrow> string \<Rightarrow> VMConfig \<Rightarrow> StorageConfig list \<Rightarrow> NetworkConfig option list \<Rightarrow> ('k, StorageConfig list) act" where
  "prepareCloudimg E b vid vmCfg storageConfigs networkConfigs =
     (case storageConfigs of
        [] \<Rightarrow> act_fail (ErrMsg ''cloudimg: no base image StorageConfig'')
      | base # _ \<Rightarrow>
          (let overlayPath = OverlayPath b vid in
           act_bind (ce_QemuImg E [''create'', ''-f'', ''qcow2'', ''-F'', ''qcow2'', ''-b'', sc_Path base, overlayPath]) (\<lambda>_.
           act_bind (if Storage vmCfg > 0 then qemuExpandImage E overlayPath (Storage vmCfg) else act_return ()) (\<lambda>_.
           act_bind (PrepareDataDisks (ce_disk E) (VMRunDir b vid) (DataDisks vmCfg)) (\<lambda>dataDisks.
           (let configs = overlay_disk overlayPath # dataDisks in
            if Windows vmCfg then act_return configs
            else
              act_bind (generateCidata E b vid vmCfg networkConfigs configs) (\<lambda>_.
              act_return (configs @ [cidata_disk (CidataPath b vid)]))))))))"

definition ch_Create ::
    "'k chenv \<Rightarrow> 'k backend \<Rightarrow> string \<Rightarrow> VMConfig \<Rightarrow> StorageConfig list \<Rightarrow> NetSetup \<Rightarrow> BootConfig option \<Rightarrow> ('k, VMRecord) vmact" where
  "ch_Create E b vid vmCfg storageConfigs net bootCfg =
     CreateSequence b vid
       \<lparr>cs_VMCfg = vmCfg, cs_Storage = storageConfigs, cs_Net = net, cs_Boot = bootCfg,
        cs_Prepare =
          act_bind (if IsDirectBoot bootCfg then PrepareOCIDisks (ce_disk E) (VMRunDir b vid) vmCfg storageConfigs
                    else prepareCloudimg E b vid vmCfg storageConfigs (NetworkConfigs net)) (\<lambda>sc.
          act_return (map Some sc, bootCfg))\<rparr>"
section \<open>Start, stop and delete\<close>

definition ch_launchProcess :: "'k chenv \<Rightarrow> 'k backend \<Rightarrow> VMRecord \<Rightarrow> string list \<Rightarrow> string \<Rightarrow> bool \<Rightarrow> ('k, int) act" where
  "ch_launchProcess E b rec args netnsPath deferQuota =
     act_try (ce_OpenLog E (LogFilePath b (LogDir rec))) (\<lambda>_.
     LaunchVMProcess b (ce_hooks E args) rec netnsPath deferQuota (ce_sockwait E))"

definition ch_convergeOrphanedPause :: "'k chenv \<Rightarrow> string \<Rightarrow> ('k, chVMInfoResponse) act" where
  "ch_convergeOrphanedPause E sock =
     act_bind (getVMInfo E sock) (\<lambda>info.
       if in_State info \<noteq> ''Paused'' then act_return info
       else act_bind (ch_resumeVM E sock) (\<lambda>_. getVMInfo E sock))"

definition HostCPUCount :: "'k backend \<Rightarrow> 'k \<Rightarrow> int" where
  "HostCPUCount b h = hostCPUCountAt (bk_os b) h (Join [sysCPURoot, ''online'']) (bk_NumCPU b)"

definition ch_launch :: "'k chenv \<Rightarrow> 'k backend \<Rightarrow> VMRecord \<Rightarrow> string \<Rightarrow> ('k, int) act" where
  "ch_launch E b rec sockPath k =
     (case ce_DNS E of
        Inl e \<Rightarrow> (Inl e, k)
      | Inr dns \<Rightarrow>
          (let args = buildCLIArgs (buildVMConfig (HostCPUCount b k) rec (Join [RunDir rec, ''console.sock'']) dns) sockPath
           in act_bind (saveCmdline E b rec args) (\<lambda>_. ch_launchProcess E b rec args (ResolvedNetnsPath rec) False) k))"

definition ch_post_launch :: "'k chenv \<Rightarrow> 'k backend \<Rightarrow> VMRecord \<Rightarrow> string \<Rightarrow> int \<Rightarrow> ('k, unit) act" where
  "ch_post_launch E b rec sockPath pid =
     act_bind (confirmVMBooted E b sockPath pid) (\<lambda>_.
     act_bind (WaitForSocket b (ce_hooks E []) (Join [RunDir rec, ''vsock.uds'']) pid (ce_sockwait E)) (\<lambda>_.
     saveConsolePTY E b (RunDir rec) sockPath (IsDirectBoot (BootCfg rec))))"

definition ch_startSpec :: "'k chenv \<Rightarrow> 'k backend \<Rightarrow> 'k StartSpec" where
  "ch_startSpec E b =
     \<lparr>st_RuntimeFiles = ch_runtimeFiles, st_Expand = ce_Glob E, st_Launch = ch_launch E b,
      st_PostLaunch = Some (ch_post_launch E b),
      st_ConvergeRunning = (\<lambda>_ sockPath _. act_bind (ch_convergeOrphanedPause E sockPath) (\<lambda>_. act_return ()))\<rparr>"

definition ch_startOne :: "'k chenv \<Rightarrow> 'k backend \<Rightarrow> string \<Rightarrow> ProcScan \<Rightarrow> ('k, unit) vmact" where
  "ch_startOne E b vid scan = StartSequence b vid (Some scan) (ch_startSpec E b)"

definition ch_Start :: "'k chenv \<Rightarrow> 'k backend \<Rightarrow> string list \<Rightarrow> ('k, string batch) vmact" where
  "ch_Start E b refs = StartAll b refs (ch_startOne E b)"

definition ch_forceTerminate :: "'k backend \<Rightarrow> string \<Rightarrow> int \<Rightarrow> ('k, unit) act" where
  "ch_forceTerminate b socketPath pid = TerminateProcess (bk_host b) (bk_grace b) (bk_hard b) pid socketPath"

definition ch_stopSpec :: "'k chenv \<Rightarrow> 'k backend \<Rightarrow> 'k StopSpec" where
  "ch_stopSpec E b =
     \<lparr>sp_RuntimeFiles = ch_runtimeFiles, sp_Expand = ce_Glob E,
      sp_Shutdown = (\<lambda>rec sockPath pid.
        if ce_ForceStop E then ch_forceTerminate b sockPath pid
        else GracefulStop b (ce_stopwait E) (ce_ctx E) pid (powerButton E sockPath) (ch_forceTerminate b sockPath pid))\<rparr>"

definition ch_Stop :: "'k chenv \<Rightarrow> 'k backend \<Rightarrow> string list \<Rightarrow> ('k, string batch) vmact" where
  "ch_Stop E b refs = StopAll b refs (ch_stopSpec E b)"

definition ch_Delete :: "'k chenv \<Rightarrow> 'k backend \<Rightarrow> string list \<Rightarrow> bool \<Rightarrow> ('k, string batch) vmact" where
  "ch_Delete E b refs force = DeleteAll b refs force (\<lambda>vid. StopOneLocked b vid (ch_stopSpec E b))"

section \<open>Snapshot\<close>

definition disk_NameFromID :: "string \<Rightarrow> string" where
  "disk_NameFromID did =
     (case CutPrefix did ''cocoon-disk-'' of (name, ok) \<Rightarrow> if ok \<and> ValidDataDiskName name then name else '''')"

definition hotAttachedError :: "chFs list \<Rightarrow> chDevice list \<Rightarrow> chDisk list \<Rightarrow> unit res" where
  "hotAttachedError fs devices disks =
     (if fs \<noteq> [] \<or> devices \<noteq> [] \<or> list_ex (\<lambda>d. disk_NameFromID (cd_ID d) \<noteq> '''') disks then Inl ErrHotAttached else Inr ())"

definition pendingNICEjects :: "chVMInfoResponse \<Rightarrow> string list" where
  "pendingNICEjects info =
     filter (\<lambda>did. (has_prefix did ''_net'' \<or> has_prefix did cocoonNetIDPrefix) \<and> \<not> list_ex (\<lambda>n. cn_ID n = did) (vm_Nets (in_Config info)))
       (in_DeviceTree info)"

definition ejectRenotifyInterval :: nat where "ejectRenotifyInterval = 5000"

text \<open>
  One poll: done or not, and when the removal is requested again. Times are in milliseconds of the host's clock.
\<close>

definition eject_poll :: "'k chenv \<Rightarrow> string \<Rightarrow> VMRecord \<Rightarrow> nat \<Rightarrow> ('k, bool \<times> nat) act" where
  "eject_poll E sock rec renotifyAt =
     act_bind (getVMInfo E sock) (\<lambda>cur k.
       if pendingNICEjects cur \<noteq> []
       then (if ce_Now E k < renotifyAt then (Inr (False, renotifyAt), k)
             else act_bind (act_each (removeDevicePending E sock) (pendingNICEjects cur))
                    (\<lambda>_. act_return (False, ce_Now E k + ejectRenotifyInterval)) k)
       else if \<not> Windows (Config rec) then (Inr (True, renotifyAt), k)
       else act_bind (getVMCounters E sock) (\<lambda>ctr.
              act_return (\<not> list_ex (\<lambda>n. ctr (cn_ID n) ''tx_frames'' = 0) (vm_Nets (in_Config cur)), renotifyAt)) k)"

fun eject_loop :: "'k chenv \<Rightarrow> string \<Rightarrow> VMRecord \<Rightarrow> nat \<Rightarrow> wait_event list \<Rightarrow> ('k, unit) act" where
  "eject_loop E sock rec renotifyAt evs k =
     (case eject_poll E sock rec renotifyAt k of
        (Inl e, k') \<Rightarrow> (Inl e, k')
      | (Inr (True, _), k') \<Rightarrow> (Inr (), k')
      | (Inr (False, at), k') \<Rightarrow>
          (case evs of
             Tick # rest \<Rightarrow> eject_loop E sock rec at rest k'
           | Cancelled e # _ \<Rightarrow> (Inl e, k')
           | _ \<Rightarrow> (Inl (ErrMsg ''timeout''), k')))"

declare eject_loop.simps [simp del]

text \<open>Only a cancelled context is an error: a guest that does not eject in time is captured with a warning.\<close>

definition waitPendingNICEjects :: "'k chenv \<Rightarrow> string \<Rightarrow> VMRecord \<Rightarrow> chVMInfoResponse \<Rightarrow> ('k, unit) act" where
  "waitPendingNICEjects E sock rec info k =
     (if pendingNICEjects info = [] then (Inr (), k)
      else (case eject_loop E sock rec (ce_Now E k + ejectRenotifyInterval) (ce_ejectwait E) k of
              (Inr _, k') \<Rightarrow> (Inr (), k')
            | (Inl e, k') \<Rightarrow> (if ce_ctx E \<noteq> None then Inl e else Inr (), k')))"

definition balloonStallWindow :: nat where "balloonStallWindow = 2000"

definition balloonSettleTimeout :: nat where "balloonSettleTimeout = 60000"

text \<open>
  The balloon loop from the size last seen. The events are what the select between the context and the poll interval
  sees; the list bounds the model's run, and its end counts as the timeout.
\<close>

fun balloon_loop :: "'k chenv \<Rightarrow> string \<Rightarrow> int \<Rightarrow> nat \<Rightarrow> nat \<Rightarrow> int \<Rightarrow> wait_event list \<Rightarrow> ('k, unit) act" where
  "balloon_loop E sock target start progressAt actual evs k =
     (if actual \<le> target then (Inr (), k)
      else if ce_Now E k - progressAt \<ge> balloonStallWindow \<or> ce_Now E k - start \<ge> balloonSettleTimeout then (Inr (), k)
      else (case evs of
              Cancelled e # _ \<Rightarrow> (Inl e, k)
            | Tick # rest \<Rightarrow>
                (case getVMInfo E sock k of
                   (Inl e, k') \<Rightarrow> (Inl e, k')
                 | (Inr cur, k') \<Rightarrow>
                     balloon_loop E sock target start (if in_MemoryActualSize cur < actual then ce_Now E k' else progressAt)
                       (in_MemoryActualSize cur) rest k')
            | _ \<Rightarrow> (Inr (), k)))"

declare balloon_loop.simps [simp del]

definition waitBalloonSettled :: "'k chenv \<Rightarrow> string \<Rightarrow> chVMInfoResponse \<Rightarrow> ('k, unit) act" where
  "waitBalloonSettled E sock info k =
     (case vm_Balloon (in_Config info) of
        None \<Rightarrow> (Inr (), k)
      | Some balloon \<Rightarrow>
          if in_State info \<noteq> ''Running'' then (Inr (), k)
          else balloon_loop E sock (cm_Size (vm_Memory (in_Config info)) - cb_Size balloon) (ce_Now E k) (ce_Now E k)
                 (in_MemoryActualSize info) (ce_balloonwait E) k)"

definition parseCHConfig :: "'k chenv \<Rightarrow> 'k \<Rightarrow> string \<Rightarrow> chVMConfig res" where
  "parseCHConfig E h path = (case ce_ReadJSON E h path of Inl e \<Rightarrow> Inl e | Inr v \<Rightarrow> ce_Decode E v)"

text \<open>A later disk of the record with the same path wins.\<close>

definition ch_buildSnapshotMeta :: "VMRecord \<Rightarrow> chVMConfig \<Rightarrow> SnapshotMeta res" where
  "ch_buildSnapshotMeta rec chCfg =
     (case map_res (\<lambda>d. case find (\<lambda>sc. sc_Path sc = cd_Path d) (rev (rec_disks rec)) of
              None \<Rightarrow> Inl (ErrMsg ''snapshot config has disk not present in VM record'')
            | Some sc \<Rightarrow> Inr sc) (vm_Disks chCfg) of
        Inl e \<Rightarrow> Inl e
      | Inr ordered \<Rightarrow>
          Inr \<lparr>sm_StorageConfigs = map Some (CloneStorageConfigs (map Some ordered)), sm_BootConfig = BootCfg rec, sm_NICMACs = None\<rparr>)"

definition ch_after_capture :: "'k chenv \<Rightarrow> 'k backend \<Rightarrow> VMRecord \<Rightarrow> string \<Rightarrow> ('k, unit) act" where
  "ch_after_capture E b rec tmpDir k =
     (if IsDirectBoot (BootCfg rec) \<or> Windows (Config rec) then (Inr (), k)
      else
        (let src = DiskPathByRole (rec_disks rec) StorageRoleCidata;
             src = (if src = '''' then Join [RunDir rec, cidataFile] else src)
         in if \<not> FileExists (bk_os b) k src then (Inr (), k)
            else dk_Copy (ce_disk E) (Join [tmpDir, cidataFile]) src k))"

definition ch_pause :: "'k chenv \<Rightarrow> VMRecord \<Rightarrow> ('k, unit) act" where
  "ch_pause E rec =
     (let sock = vm_SocketPath (RunDir rec) in
      act_bind (getVMInfo E sock) (\<lambda>info.
      act_bind (\<lambda>k. (hotAttachedError (vm_Fs (in_Config info)) (vm_Devices (in_Config info)) (vm_Disks (in_Config info)), k)) (\<lambda>_.
        if length (vm_Nets (in_Config info)) \<noteq> length (NetworkConfigs rec) then act_fail (ErrMsg ''NIC count differs from the record'')
        else
          act_bind (waitPendingNICEjects E sock rec info) (\<lambda>_.
          act_bind (waitBalloonSettled E sock info) (\<lambda>_. ch_pauseVM E sock)))))"

definition ch_snapshotSpec :: "'k chenv \<Rightarrow> 'k backend \<Rightarrow> ('k, SnapshotMeta) SnapshotSpec" where
  "ch_snapshotSpec E b =
     \<lparr>ss_Pause = ch_pause E, ss_Resume = (\<lambda>rec. ch_resumeVM E (vm_SocketPath (RunDir rec))),
      ss_Capture = (\<lambda>rec tmpDir.
        act_bind (snapshotVM E (vm_SocketPath (RunDir rec)) tmpDir '''') (\<lambda>_. CopyWritableDisks (ce_disk E) tmpDir rec)),
      ss_AfterCapture = Some (ch_after_capture E b),
      ss_BuildMeta = (\<lambda>rec tmpDir k.
        (case parseCHConfig E k (Join [tmpDir, ''config.json'']) of
           Inl e \<Rightarrow> (Inl e, k)
         | Inr chCfg \<Rightarrow> (ch_buildSnapshotMeta rec chCfg, k))),
      ss_SaveMeta = ce_SaveMeta E\<rparr>"

definition ch_Snapshot :: "'k chenv \<Rightarrow> 'k backend \<Rightarrow> string \<Rightarrow> ('k, SnapshotConfig \<times> string) vmact" where
  "ch_Snapshot E b ref = SnapshotSequence b ref (ch_snapshotSpec E b)"

definition ch_Hibernate ::
    "'k chenv \<Rightarrow> 'k backend \<Rightarrow> string \<Rightarrow> (SnapshotConfig \<Rightarrow> string \<Rightarrow> ('k, unit) act) \<Rightarrow> ('k, unit) vmact" where
  "ch_Hibernate E b ref persist =
     HibernateSequence b ref (ch_snapshotSpec E b) (\<lambda>rec pid. ch_forceTerminate b (vm_SocketPath (RunDir rec)) pid)
       (ce_Glob E) ch_runtimeFiles persist"
section \<open>Restore\<close>

text \<open>A mapped restore needs plain private memory; without it the mode falls back to an eager copy.\<close>

definition resolveRestoreMode :: "string \<Rightarrow> chMemory \<Rightarrow> string" where
  "resolveRestoreMode mode mem =
     (if \<not> cm_HugePages mem \<and> \<not> cm_Shared mem then cmp_Or [mode, ''mmap'']
      else if mode = ''mmap'' then ''copy'' else mode)"

definition validateRestoreNICs :: "chVMConfig \<Rightarrow> VMRecord \<Rightarrow> unit res" where
  "validateRestoreNICs chCfg rec = ValidateRestoreMACs (Some (map cn_MAC (vm_Nets chCfg))) rec"

definition requireMemoryRangeFile :: "'k chenv \<Rightarrow> 'k \<Rightarrow> string \<Rightarrow> unit res" where
  "requireMemoryRangeFile E h srcDir =
     (case dk_ReadDir (ce_disk E) h srcDir of
        Inl e \<Rightarrow> Inl e
      | Inr entries \<Rightarrow>
          if list_ex (\<lambda>e. has_prefix (fst e) ''memory-range'') entries then Inr () else Inl (ErrMsg ''no memory-range-* file in snapshot''))"

text \<open>The sidecar must agree with the VMM's configuration disk by disk.\<close>

definition sidecar_agrees :: "StorageConfig list \<Rightarrow> chDisk list \<Rightarrow> unit res" where
  "sidecar_agrees sidecar disks =
     (if length sidecar \<noteq> length disks then Inl (ErrMsg ''sidecar/config.json mismatch'')
      else each_res (\<lambda>(sc, d).
          if sc_Path sc \<noteq> cd_Path d then Inl (ErrMsg ''disk path mismatch'')
          else if sc_RO sc \<noteq> cd_ReadOnly d then Inl (ErrMsg ''disk readonly mismatch'') else Inr ()) (zip sidecar disks))"

definition ch_snapshotIntegrity :: "'k chenv \<Rightarrow> 'k backend \<Rightarrow> 'k \<Rightarrow> chVMConfig \<Rightarrow> string \<Rightarrow> StorageConfig option list \<Rightarrow> unit res" where
  "ch_snapshotIntegrity E b h chCfg srcDir sidecar =
     (case ValidateSnapshotIntegrity (bk_os b) h srcDir sidecar of
        Inl e \<Rightarrow> Inl e
      | Inr _ \<Rightarrow>
          (case sidecar_agrees (deref sidecar) (vm_Disks chCfg) of
             Inl e \<Rightarrow> Inl e
           | Inr _ \<Rightarrow>
               (case sys_stat (bk_os b) h (Join [srcDir, ''state.json'']) of
                  Inl e \<Rightarrow> Inl e
                | Inr _ \<Rightarrow> requireMemoryRangeFile E h srcDir)))"

text \<open>Gives the sidecar and the restore mode, which the source writes into the configuration it was handed.\<close>

definition ch_preflightRestore :: "'k chenv \<Rightarrow> 'k backend \<Rightarrow> string \<Rightarrow> 'k \<Rightarrow> string \<Rightarrow> VMRecord \<Rightarrow> (SnapshotMeta \<times> string) res" where
  "ch_preflightRestore E b mode h srcDir rec =
     (case parseCHConfig E h (Join [srcDir, ''config.json'']) of
        Inl e \<Rightarrow> Inl e
      | Inr chCfg \<Rightarrow>
          (case PreflightRestore (ce_LoadMeta E h) (ce_RootDir E) (ce_RunDir E) srcDir rec (ch_snapshotIntegrity E b h chCfg) of
             Inl e \<Rightarrow> Inl e
           | Inr meta \<Rightarrow>
               (case validateRestoreNICs chCfg rec of
                  Inl e \<Rightarrow> Inl e
                | Inr _ \<Rightarrow> Inr (meta, resolveRestoreMode mode (vm_Memory chCfg)))))"

definition ch_killForRestore :: "'k chenv \<Rightarrow> 'k backend \<Rightarrow> string \<Rightarrow> VMRecord \<Rightarrow> ('k, unit) vmact" where
  "ch_killForRestore E b vid rec =
     KillForRestore b (ce_Glob E) ch_runtimeFiles (ch_forceTerminate b (vm_SocketPath (RunDir rec))) vid rec"

text \<open>After the launch, an error ends with the VMM aborted.\<close>

definition ch_restore_launched ::
    "'k chenv \<Rightarrow> 'k backend \<Rightarrow> string \<Rightarrow> VMConfig \<Rightarrow> VMRecord \<Rightarrow> string \<Rightarrow> int \<Rightarrow> ('k, VMRecord) vmact" where
  "ch_restore_launched E b vid vmCfg rec sockPath pid =
     act_try (
       act_bind (on_host (restoreVM E sockPath (RunDir rec) (RestoreMode vmCfg))) (\<lambda>_.
       act_bind (on_host (ArmCPUQuota b vid vmCfg)) (\<lambda>_.
       act_bind (on_host (ch_resumeVM E sockPath)) (\<lambda>_.
       act_bind (on_host (saveConsolePTY E b (RunDir rec) sockPath (IsDirectBoot (BootCfg rec)))) (\<lambda>_.
       FinalizeRestore b vid vmCfg rec pid)))))
     (\<lambda>r. case r of
         Inr info \<Rightarrow> act_return info
       | Inl e \<Rightarrow> act_bind (AbortLaunch b (ch_startSpec E b) pid sockPath (RunDir rec)) (\<lambda>_. act_fail e))"

definition restore_patch :: "VMConfig \<Rightarrow> VMRecord \<Rightarrow> SnapshotMeta \<Rightarrow> patchOptions" where
  "restore_patch vmCfg rec meta =
     \<lparr>po_storageConfigs = RecordDisksForSidecar (deref (sm_StorageConfigs meta)) (rec_disks rec), po_netTAPs = [],
      po_consoleSock = Join [RunDir rec, ''console.sock''], po_vsockSock = Join [RunDir rec, ''vsock.uds''],
      po_directBoot = IsDirectBoot (BootCfg rec), po_diskQueueSize = DiskQueueSize vmCfg, po_noDirectIO = NoDirectIO vmCfg,
      po_cpu = CPU vmCfg, po_queueCPUs = QueueCPUList rec\<rparr>"

definition ch_restoreAfterExtract ::
    "'k chenv \<Rightarrow> 'k backend \<Rightarrow> SnapshotMeta \<times> string \<Rightarrow> string \<Rightarrow> VMConfig \<Rightarrow> VMRecord \<Rightarrow> ('k, VMRecord) vmact" where
  "ch_restoreAfterExtract E b preflight vid vmCfg0 rec0 =
     (case preflight of (meta, mode) \<Rightarrow>
      let vmCfg = vmCfg0\<lparr>RestoreMode := mode\<rparr>; sockPath = vm_SocketPath (RunDir rec0) in
      act_bind (on_host (patchCHConfig (ce_ReadJSON E) (ce_WriteJSON E) (Join [RunDir rec0, ''config.json'']) (restore_patch vmCfg rec0 meta))) (\<lambda>_.
      (let rec = rec0\<lparr>Config := vmCfg\<rparr> in
       act_bind (on_host (ch_launchProcess E b rec [''--api-socket'', sockPath] (ResolvedNetnsPath rec) True)) (\<lambda>pid.
       ch_restore_launched E b vid vmCfg rec sockPath pid))))"

definition identifyCOWFiles :: "chVMConfig \<Rightarrow> string list" where
  "identifyCOWFiles cfg = map (\<lambda>d. Base (cd_Path d)) (filter (\<lambda>d. \<not> cd_ReadOnly d) (vm_Disks cfg))"

definition ch_snapshot_file :: "string \<Rightarrow> bool" where
  "ch_snapshot_file name \<longleftrightarrow>
     has_prefix name ''memory-range'' \<or> name \<in> set [''config.json'', ''state.json'', SnapshotMetaFile] \<or> IsDataDiskFile name"

definition ch_cleanSnapshotFiles :: "'k chenv \<Rightarrow> 'k backend \<Rightarrow> string \<Rightarrow> ('k, unit) act" where
  "ch_cleanSnapshotFiles E b runDir = CleanSnapshotFiles (bk_os b) (ce_disk E) runDir ch_snapshot_file"

definition diskRefSuffix :: string where "diskRefSuffix = ''.ref''"

definition IsMigrateDeltaFile :: "string \<Rightarrow> bool" where
  "IsMigrateDeltaFile name \<longleftrightarrow> HasSuffix name diskRefSuffix \<or> Contains name diskDeltaInfix"

definition ch_classify :: "string list \<Rightarrow> string \<Rightarrow> SnapshotFileKind" where
  "ch_classify cowFiles name =
     (if has_prefix name ''memory-range'' then SnapshotFileMemory
      else if name \<in> set cowFiles then SnapshotFileCOW
      else if IsMigrateDeltaFile name then SnapshotFileSkip
      else SnapshotFileMeta)"

definition ch_cloneSnapshotFiles :: "'k chenv \<Rightarrow> string \<Rightarrow> string \<Rightarrow> ('k, chVMConfig) act" where
  "ch_cloneSnapshotFiles E dstDir srcDir k =
     (case parseCHConfig E k (Join [srcDir, ''config.json'']) of
        Inl e \<Rightarrow> (Inl e, k)
      | Inr chCfg \<Rightarrow>
          act_bind (CloneSnapshotFiles (ce_disk E) dstDir srcDir (ch_classify (identifyCOWFiles chCfg))) (\<lambda>_. act_return chCfg) k)"

definition ch_Restore ::
    "'k chenv \<Rightarrow> 'k backend \<Rightarrow> string \<Rightarrow> VMConfig \<Rightarrow> (string \<Rightarrow> ('k, unit) act) \<Rightarrow> string \<Rightarrow> ('k, VMRecord) vmact" where
  "ch_Restore E b vmRef vmCfg extract sourceSnapshotID =
     RestoreSequence b vmRef
       \<lparr>rs_VMCfg = vmCfg, rs_Source = sourceSnapshotID, rs_Extract = extract, rs_Preflight = ch_preflightRestore E b (RestoreMode vmCfg),
        rs_Kill = ch_killForRestore E b, rs_Clean = ch_cleanSnapshotFiles E b, rs_AfterExtract = ch_restoreAfterExtract E b\<rparr>"

definition ch_DirectRestore ::
    "'k chenv \<Rightarrow> 'k backend \<Rightarrow> string \<Rightarrow> VMConfig \<Rightarrow> string \<Rightarrow> string \<Rightarrow> ('k, VMRecord) vmact" where
  "ch_DirectRestore E b vmRef vmCfg srcDir sourceSnapshotID =
     DirectRestoreSequence b vmRef
       \<lparr>dr_VMCfg = vmCfg, dr_Source = sourceSnapshotID, dr_Preflight = (\<lambda>h. ch_preflightRestore E b (RestoreMode vmCfg) h srcDir),
        dr_Kill = ch_killForRestore E b,
        dr_Populate = (\<lambda>rec. PopulateFromSrc (RunDir rec) srcDir (ch_cleanSnapshotFiles E b)
          (\<lambda>dst src. act_bind (ch_cloneSnapshotFiles E dst src) (\<lambda>_. act_return ()))),
        dr_AfterExtract = ch_restoreAfterExtract E b\<rparr>"

section \<open>Clone\<close>

definition updateCOWPath :: "StorageConfig list \<Rightarrow> string \<Rightarrow> StorageConfig list res" where
  "updateCOWPath configs newCOWPath =
     (if list_ex (\<lambda>sc. sc_Role sc = StorageRoleCOW) configs
      then Inr (map (\<lambda>sc. if sc_Role sc = StorageRoleCOW then sc\<lparr>sc_Path := newCOWPath\<rparr> else sc) configs)
      else Inl (ErrMsg ''no COW disk found in storage configs''))"

definition updateDataDiskPaths :: "StorageConfig list \<Rightarrow> string \<Rightarrow> StorageConfig list" where
  "updateDataDiskPaths configs newRunDir =
     map (\<lambda>sc. if sc_Role sc = StorageRoleData then sc\<lparr>sc_Path := Join [newRunDir, DataDiskBaseName (sc_Serial sc)]\<rparr> else sc) configs"

definition updateCloneCidataPath :: "StorageConfig list \<Rightarrow> bool \<Rightarrow> string \<Rightarrow> StorageConfig list \<times> bool" where
  "updateCloneCidataPath configs directBoot cidataPath =
     (if directBoot then (configs, False)
      else (map (\<lambda>sc. if sc_Role sc = StorageRoleCidata then sc\<lparr>sc_Path := cidataPath\<rparr> else sc) configs,
            list_ex (\<lambda>sc. sc_Role sc = StorageRoleCidata) configs))"

definition cloneBlobIDs :: "'k chenv \<Rightarrow> 'k \<Rightarrow> StorageConfig list \<Rightarrow> BootConfig option \<Rightarrow> string \<Rightarrow> string set option res" where
  "cloneBlobIDs E h storageConfigs bootCfg cowPath =
     (if IsDirectBoot bootCfg then Inr (Some (ExtractBlobIDs storageConfigs bootCfg))
      else (case ce_Qcow2 E h cowPath of
              Inl e \<Rightarrow> Inl e
            | Inr None \<Rightarrow> Inr None
            | Inr (Some (_, backing)) \<Rightarrow> Inr (if backing = '''' then None else Some {BlobHexFromPath backing})))"

definition restorePatchStorageConfigs :: "StorageConfig list \<Rightarrow> bool \<Rightarrow> bool \<Rightarrow> bool \<Rightarrow> StorageConfig list" where
  "restorePatchStorageConfigs storageConfigs directBoot windows hadCidataInSnapshot =
     (if directBoot \<or> windows \<or> hadCidataInSnapshot then storageConfigs
      else filter (\<lambda>sc. sc_Role sc \<noteq> StorageRoleCidata) storageConfigs)"

definition ensureCloneCidata ::
    "'k chenv \<Rightarrow> 'k backend \<Rightarrow> string \<Rightarrow> VMConfig \<Rightarrow> NetworkConfig option list \<Rightarrow> StorageConfig list \<Rightarrow> bool \<Rightarrow> ('k, StorageConfig list) act" where
  "ensureCloneCidata E b vid vmCfg networkConfigs storageConfigs directBoot =
     (if directBoot \<or> Windows vmCfg then act_return storageConfigs
      else
        act_bind (generateCidata E b vid vmCfg networkConfigs storageConfigs) (\<lambda>_.
        act_return (if list_ex (\<lambda>sc. sc_Role sc = StorageRoleCidata) storageConfigs then storageConfigs
                    else storageConfigs @ [cidata_disk (CidataPath b vid)])))"

definition hotSwapNets :: "'k chenv \<Rightarrow> string \<Rightarrow> chNet list \<Rightarrow> NetworkConfig list \<Rightarrow> ('k, unit) act" where
  "hotSwapNets E sock oldNets networkConfigs =
     act_bind (act_each (\<lambda>n. act_done (removeDeviceVM E sock (cn_ID n))) oldNets) (\<lambda>_.
     act_each (\<lambda>nc. act_bind (addCocoonNIC E sock nc) (\<lambda>_. act_return ())) networkConfigs)"

record cloneResumeOpts =
  cr_vmID :: string
  cr_vmCfg :: VMConfig
  cr_directBoot :: bool
  cr_hadCidata :: bool
  cr_storageConfigs :: "StorageConfig list"
  cr_dataDisks :: "StorageConfig list"
  cr_networkConfigs :: "NetworkConfig list"
  cr_snapshotNets :: "chNet list"
  cr_queueCPUs :: "int list"
  cr_keepPaused :: bool

definition clone_disk :: "cloneResumeOpts \<Rightarrow> StorageConfig \<Rightarrow> chDisk" where
  "clone_disk opts sc =
     storageConfigToDisk sc (CPU (cr_vmCfg opts)) (DiskQueueSize (cr_vmCfg opts)) (NoDirectIO (cr_vmCfg opts)) (cr_queueCPUs opts)"

definition resume_clone :: "'k chenv \<Rightarrow> 'k backend \<Rightarrow> string \<Rightarrow> string \<Rightarrow> cloneResumeOpts \<Rightarrow> ('k, unit) act" where
  "resume_clone E b sockPath runDir opts =
     act_bind (restoreVM E sockPath runDir (RestoreMode (cr_vmCfg opts))) (\<lambda>_.
     act_bind (hotSwapNets E sockPath (cr_snapshotNets opts) (cr_networkConfigs opts)) (\<lambda>_.
     act_bind (if \<not> cr_directBoot opts \<and> \<not> Windows (cr_vmCfg opts) \<and> \<not> cr_hadCidata opts
               then (case find (\<lambda>sc. sc_Role sc = StorageRoleCidata) (cr_storageConfigs opts) of
                       None \<Rightarrow> act_fail (ErrMsg ''missing storage config'')
                     | Some sc \<Rightarrow> addDiskVM E sockPath (clone_disk opts sc))
               else act_return ()) (\<lambda>_.
     act_bind (act_each (\<lambda>sc. addDiskVM E sockPath (clone_disk opts sc)) (cr_dataDisks opts)) (\<lambda>_.
     act_bind (ArmCPUQuota b (cr_vmID opts) (cr_vmCfg opts)) (\<lambda>_.
       if cr_keepPaused opts then act_return () else ch_resumeVM E sockPath)))))"

definition restoreAndResumeClone :: "'k chenv \<Rightarrow> 'k backend \<Rightarrow> int \<Rightarrow> string \<Rightarrow> string \<Rightarrow> cloneResumeOpts \<Rightarrow> ('k, unit) vmact" where
  "restoreAndResumeClone E b pid sockPath runDir opts =
     act_try (on_host (resume_clone E b sockPath runDir opts)) (\<lambda>r. case r of
         Inr _ \<Rightarrow> act_return ()
       | Inl e \<Rightarrow> act_bind (AbortLaunch b (ch_startSpec E b) pid sockPath runDir) (\<lambda>_. act_fail e))"

text \<open>The running clone is published; an error ends with the VMM aborted.\<close>

definition ch_publish_clone ::
    "'k chenv \<Rightarrow> 'k backend \<Rightarrow> VMRecord \<Rightarrow> VMConfig \<Rightarrow> StorageConfig list \<Rightarrow> NetSetup \<Rightarrow> BootConfig option \<Rightarrow> string set option \<Rightarrow>
     string \<Rightarrow> Reason \<Rightarrow> int \<Rightarrow> ('k, VMRecord) vmact" where
  "ch_publish_clone E b rec vmCfg storage net bootCfg blobIDs source reason pid =
     act_bind (RunningCloneRecord b rec vmCfg (map Some storage) net) (\<lambda>info.
     act_try (FinalizeClone b (ID rec) info bootCfg blobIDs source reason) (\<lambda>r. case r of
         Inl e \<Rightarrow> act_bind (AbortLaunch b (ch_startSpec E b) pid (vm_SocketPath (RunDir rec)) (RunDir rec)) (\<lambda>_. act_fail e)
       | Inr _ \<Rightarrow> act_return info))"

text \<open>
  The disks of a clone before it is launched: those of the sidecar under the clone's paths, whether cidata was
  among them, and the blobs they rest on.
\<close>

definition clone_storage ::
    "'k chenv \<Rightarrow> 'k backend \<Rightarrow> VMRecord \<Rightarrow> chVMConfig \<Rightarrow> ('k, StorageConfig list \<times> bool \<times> string set option \<times> BootConfig option) vmact" where
  "clone_storage E b rec chCfg =
     (let vid = ID rec; runDir = RunDir rec in
      act_bind (\<lambda>w. (LoadAndValidateMeta (ce_LoadMeta E (w_host w)) (ce_RootDir E) (ce_RunDir E) runDir, w)) (\<lambda>meta.
      act_bind (\<lambda>w. (ch_snapshotIntegrity E b (w_host w) chCfg runDir (sm_StorageConfigs meta), w)) (\<lambda>_.
      (let bootCfg = sm_BootConfig meta; directBoot = IsDirectBoot bootCfg;
           cowPath = (if directBoot then Join [VMRunDir b vid, COWRawFileName] else OverlayPath b vid)
       in act_bind (act_res (updateCOWPath (deref (sm_StorageConfigs meta)) cowPath)) (\<lambda>cow.
          (let moved = updateDataDiskPaths cow runDir in
           act_bind (\<lambda>w. (cloneBlobIDs E (w_host w) moved bootCfg cowPath, w)) (\<lambda>blobIDs.
           (let (storage, had) = updateCloneCidataPath moved directBoot (CidataPath b vid) in
            act_bind (\<lambda>w. (VerifyBaseFiles (bk_os b) (w_host w) storage bootCfg, w)) (\<lambda>_.
            act_return (storage, had, blobIDs, bootCfg))))))))))"

definition clone_patch :: "VMRecord \<Rightarrow> VMConfig \<Rightarrow> bool \<Rightarrow> StorageConfig list \<Rightarrow> nat \<Rightarrow> patchOptions" where
  "clone_patch rec vmCfg directBoot storage nets =
     \<lparr>po_storageConfigs = storage, po_netTAPs = map (TAPName ''rm'' (ID rec)) [0..<nets],
      po_consoleSock = Join [RunDir rec, ''console.sock''], po_vsockSock = Join [RunDir rec, ''vsock.uds''],
      po_directBoot = directBoot, po_diskQueueSize = DiskQueueSize vmCfg, po_noDirectIO = NoDirectIO vmCfg,
      po_cpu = CPU vmCfg, po_queueCPUs = QueueCPUList rec\<rparr>"

definition ch_cloneAfterExtractParsed ::
    "'k chenv \<Rightarrow> 'k backend \<Rightarrow> VMConfig \<Rightarrow> NetSetup \<Rightarrow> string \<Rightarrow> bool \<Rightarrow> chVMConfig \<Rightarrow> VMRecord \<Rightarrow> ('k, VMRecord) vmact" where
  "ch_cloneAfterExtractParsed E b vmCfg0 net source migrate chCfg rec =
     (let vid = ID rec; runDir = RunDir rec; sockPath = vm_SocketPath runDir;
          vmCfg = vmCfg0\<lparr>RestoreMode := resolveRestoreMode (RestoreMode vmCfg0) (vm_Memory chCfg)\<rparr> in
      act_bind (clone_storage E b rec chCfg) (\<lambda>(storage0, had, blobIDs, bootCfg).
      (let directBoot = IsDirectBoot bootCfg in
       act_bind (on_host (ensureCloneCidata E b vid vmCfg (NetworkConfigs net) storage0 directBoot)) (\<lambda>storage1.
       act_bind (on_host (PrepareCloneDataDisks (ce_disk E) (VMRunDir b vid) vmCfg storage1)) (\<lambda>newDataDisks.
       (let storage = storage1 @ newDataDisks in
        act_bind (act_res (ValidateStorageConfigs (map Some storage))) (\<lambda>_.
        act_bind (on_host (patchCHConfig (ce_ReadJSON E) (ce_WriteJSON E) (Join [runDir, ''config.json''])
            (clone_patch rec vmCfg directBoot (restorePatchStorageConfigs storage1 directBoot (Windows vmCfg) had)
              (length (vm_Nets chCfg))))) (\<lambda>_.
        act_bind (on_host (ch_launchProcess E b rec [''--api-socket'', sockPath] (NetnsPath net) True)) (\<lambda>pid.
        act_bind (restoreAndResumeClone E b pid sockPath runDir
          \<lparr>cr_vmID = vid, cr_vmCfg = vmCfg, cr_directBoot = directBoot, cr_hadCidata = had, cr_storageConfigs = storage,
           cr_dataDisks = newDataDisks, cr_networkConfigs = deref (NetworkConfigs net), cr_snapshotNets = vm_Nets chCfg,
           cr_queueCPUs = QueueCPUList rec, cr_keepPaused = migrate\<rparr>) (\<lambda>_.
        act_bind (on_host (saveConsolePTY E b runDir sockPath directBoot)) (\<lambda>_.
        ch_publish_clone E b rec vmCfg storage net bootCfg blobIDs source (if migrate then ReasonMigrate else ReasonClone) pid)))))))))))"

definition ch_cloneAfterExtract :: "'k chenv \<Rightarrow> 'k backend \<Rightarrow> VMConfig \<Rightarrow> NetSetup \<Rightarrow> string \<Rightarrow> VMRecord \<Rightarrow> ('k, VMRecord) vmact" where
  "ch_cloneAfterExtract E b vmCfg net source rec =
     act_bind (\<lambda>w. (parseCHConfig E (w_host w) (Join [RunDir rec, ''config.json'']), w)) (\<lambda>chCfg.
     ch_cloneAfterExtractParsed E b vmCfg net source False chCfg rec)"

text \<open>\<open>extract\<close> unpacks the snapshot stream.\<close>

definition ch_Clone ::
    "'k chenv \<Rightarrow> 'k backend \<Rightarrow> string \<Rightarrow> VMConfig \<Rightarrow> NetSetup \<Rightarrow> SnapshotConfig \<Rightarrow> (string \<Rightarrow> ('k, unit) act) \<Rightarrow> ('k, VMRecord) vmact" where
  "ch_Clone E b vid vmCfg net snapshotConfig extract =
     cloneBase b vid \<lparr>cl_VMCfg = vmCfg, cl_Snapshot = snapshotConfig,
       cl_AfterExtract = (\<lambda>_. ch_cloneAfterExtract E b vmCfg net (sn_ID snapshotConfig))\<rparr> extract"

definition ch_directClone ::
    "'k chenv \<Rightarrow> 'k backend \<Rightarrow> string \<Rightarrow> VMConfig \<Rightarrow> NetSetup \<Rightarrow> SnapshotConfig \<Rightarrow> bool \<Rightarrow> (string \<Rightarrow> ('k, chVMConfig) act) \<Rightarrow>
     ('k, VMRecord) vmact" where
  "ch_directClone E b vid vmCfg net snapshotConfig migrate populate =
     cloneBase b vid \<lparr>cl_VMCfg = vmCfg, cl_Snapshot = snapshotConfig,
       cl_AfterExtract = ch_cloneAfterExtractParsed E b vmCfg net (sn_ID snapshotConfig) migrate\<rparr> populate"

definition ch_DirectClone ::
    "'k chenv \<Rightarrow> 'k backend \<Rightarrow> string \<Rightarrow> VMConfig \<Rightarrow> NetSetup \<Rightarrow> SnapshotConfig \<Rightarrow> string \<Rightarrow> ('k, VMRecord) vmact" where
  "ch_DirectClone E b vid vmCfg net snapshotConfig srcDir =
     ch_directClone E b vid vmCfg net snapshotConfig False (\<lambda>runDir. ch_cloneSnapshotFiles E runDir srcDir)"
section \<open>Requests for devices\<close>

record FsSpec =
  fs_Socket :: string
  fs_Tag :: string
  fs_NumQueues :: int
  fs_QueueSize :: int

definition validTagRe :: "string \<Rightarrow> bool" where
  "validTagRe = match_name is_alnum (\<lambda>c. is_alnum c \<or> c \<in> set ''_-'') 35"

definition fs_Normalize :: "FsSpec \<Rightarrow> FsSpec res" where
  "fs_Normalize s =
     (if fs_Socket s = '''' then Inl (ErrMsg ''socket is required'')
      else if \<not> has_prefix (fs_Socket s) ''/'' then Inl (ErrMsg ''socket must be absolute'')
      else if fs_Tag s = '''' then Inl (ErrMsg ''tag is required'')
      else if \<not> validTagRe (fs_Tag s) then Inl (ErrMsg ''tag invalid'')
      else if fs_NumQueues s < 0 then Inl (ErrMsg ''num-queues must be non-negative'')
      else if fs_QueueSize s < 0 then Inl (ErrMsg ''queue-size must be non-negative'')
      else Inr (s\<lparr>fs_NumQueues := (if fs_NumQueues s = 0 then 1 else fs_NumQueues s),
                  fs_QueueSize := (if fs_QueueSize s = 0 then 1024 else fs_QueueSize s)\<rparr>))"

definition fs_DeriveID :: "string \<Rightarrow> string" where "fs_DeriveID tag = ''cocoon-fs-'' @ tag"

record VfioSpec =
  vf_PCI :: string
  vf_ID :: string

definition is_hex :: "char \<Rightarrow> bool" where
  "is_hex c \<longleftrightarrow> is_digit c \<or> CHR ''a'' \<le> c \<and> c \<le> CHR ''f''"

text \<open>\<open>xx:yy.z\<close> and \<open>dddd:xx:yy.z\<close>.\<close>

definition bdfShortRe :: "string \<Rightarrow> bool" where
  "bdfShortRe s \<longleftrightarrow>
     length s = 7 \<and> is_hex (s ! 0) \<and> is_hex (s ! 1) \<and> s ! 2 = CHR '':'' \<and> is_hex (s ! 3) \<and> is_hex (s ! 4) \<and> s ! 5 = CHR ''.'' \<and>
     s ! 6 \<in> set ''01234567''"

definition bdfFullRe :: "string \<Rightarrow> bool" where
  "bdfFullRe s \<longleftrightarrow> length s = 12 \<and> list_all is_hex (take 4 s) \<and> s ! 4 = CHR '':'' \<and> bdfShortRe (drop 5 s)"

definition vfio_validIDRe :: "string \<Rightarrow> bool" where
  "vfio_validIDRe = match_name is_alnum (\<lambda>c. is_alnum c \<or> c \<in> set ''_.-'') 63"

definition SysfsPCIPrefix :: string where "SysfsPCIPrefix = ''/sys/bus/pci/devices/''"

definition normalizePath :: "string \<Rightarrow> string res" where
  "normalizePath input =
     (let s = TrimSpace input in
      if s = '''' then Inl (ErrMsg ''empty pci path'')
      else if has_prefix s ''/''
      then (case CutPrefix (Clean s) SysfsPCIPrefix of (bdf, ok) \<Rightarrow>
              if \<not> ok then Inl (ErrMsg ''absolute path must be under the PCI root'')
              else if \<not> bdfFullRe (ToLower bdf) then Inl (ErrMsg ''sysfs BDF suffix invalid'')
              else Inr (SysfsPCIPrefix @ ToLower bdf))
      else if bdfFullRe (ToLower s) then Inr (SysfsPCIPrefix @ ToLower s)
      else if bdfShortRe (ToLower s) then Inr (SysfsPCIPrefix @ ''0000:'' @ ToLower s)
      else Inl (ErrMsg ''pci invalid''))"

definition NormalizedPath :: "VfioSpec \<Rightarrow> string res" where
  "NormalizedPath s =
     (if vf_PCI s = '''' then Inl (ErrMsg ''pci is required'')
      else if vf_ID s \<noteq> '''' \<and> (has_prefix (vf_ID s) ''cocoon-'' \<or> \<not> vfio_validIDRe (vf_ID s)) then Inl (ErrMsg ''id invalid'')
      else normalizePath (vf_PCI s))"

record SnapshotSource =
  ds_Dir :: string
  ds_SourceName :: string
  ds_BlobIDs :: "string set"
  ds_BasePath :: string

definition source_Normalize :: "SnapshotSource \<Rightarrow> unit res" where
  "source_Normalize s = (if ds_Dir s = '''' then Inl (ErrMsg ''snapshot dir is required'') else disk_ValidateName (ds_SourceName s))"

definition disk_SnapshotName :: "string \<Rightarrow> string" where
  "disk_SnapshotName snapID = ''snap-'' @ ToLower (take 8 snapID)"

definition disk_DeriveID :: "string \<Rightarrow> string" where "disk_DeriveID name = ''cocoon-disk-'' @ name"

section \<open>Devices of a running VM\<close>

definition ch_lockedDeviceOp ::
    "'k chenv \<Rightarrow> 'k backend \<Rightarrow> string \<Rightarrow> (string \<Rightarrow> VMRecord \<Rightarrow> chVMInfoResponse \<Rightarrow> ('k, 'a) vmact) \<Rightarrow> ('k, 'a) vmact" where
  "ch_lockedDeviceOp E b vmRef op =
     LockedRunningOp b vmRef (\<lambda>sock rec.
       act_bind (on_host (ch_convergeOrphanedPause E sock)) (\<lambda>info. op sock rec info))"

definition addDevice :: "'k chenv \<Rightarrow> string \<Rightarrow> string \<Rightarrow> ch_req \<Rightarrow> ('k, string) act" where
  "addDevice E sock endpoint body =
     act_bind (act_call (DoJSONOnce (ce_http E) sock ''PUT'' endpoint body [StatusOK])) (\<lambda>resp k. (ce_DeviceID E resp, k))"

definition attachWith ::
    "'k chenv \<Rightarrow> 'k backend \<Rightarrow> string \<Rightarrow> string \<Rightarrow> (VMRecord \<Rightarrow> ch_req) \<Rightarrow> ('k \<Rightarrow> chVMInfoResponse \<Rightarrow> string res) \<Rightarrow> ('k, string) vmact" where
  "attachWith E b vmRef endpoint makeBody preCheck =
     ch_lockedDeviceOp E b vmRef (\<lambda>sock rec info.
       act_bind (\<lambda>w. (preCheck (w_host w) info, w)) (\<lambda>existing.
         if existing \<noteq> '''' then act_return existing else on_host (addDevice E sock endpoint (makeBody rec))))"

definition detachWith ::
    "'k chenv \<Rightarrow> 'k backend \<Rightarrow> string \<Rightarrow> (chVMInfoResponse \<Rightarrow> string res) \<Rightarrow> (VMRecord \<Rightarrow> ('k, unit) act) \<Rightarrow> ('k, unit) vmact" where
  "detachWith E b vmRef findID afterEject =
     ch_lockedDeviceOp E b vmRef (\<lambda>sock rec info.
       act_bind (act_res (findID info)) (\<lambda>deviceID.
       act_bind (if deviceID = '''' then act_return ()
                 else
                   act_bind (on_host (removeDevicePending E sock deviceID)) (\<lambda>_.
                   on_host (waitDeviceEjected E sock deviceID))) (\<lambda>_.
       on_host (afterEject rec))))"

definition listWith :: "'k chenv \<Rightarrow> 'k backend \<Rightarrow> string \<Rightarrow> (chVMInfoResponse \<Rightarrow> 'a list) \<Rightarrow> ('k, 'a list) vmact" where
  "listWith E b vmRef extract =
     act_try (RunningVMClient b vmRef) (\<lambda>c. case c of
         Inl e \<Rightarrow> if e = ErrNotRunning then act_return [] else act_fail e
       | Inr (sock, _) \<Rightarrow> act_bind (on_host (getVMInfo E sock)) (\<lambda>info. act_return (extract info)))"

definition hotDisk :: "VMRecord \<Rightarrow> string \<Rightarrow> StorageConfig \<Rightarrow> chDisk" where
  "hotDisk rec did sc =
     (storageConfigToDisk sc (CPU (Config rec)) (DiskQueueSize (Config rec)) (NoDirectIO (Config rec)) (QueueCPUList rec))\<lparr>cd_ID := did\<rparr>"

fun diskAttached :: "chDisk list \<Rightarrow> string \<Rightarrow> string \<Rightarrow> string \<Rightarrow> bool \<Rightarrow> string res" where
  "diskAttached [] did name path readOnly = Inr ''''"
| "diskAttached (ex # exs) did name path readOnly =
     (if cd_ID ex = did
      then (if cd_Path ex = path \<and> cd_ReadOnly ex = readOnly then Inr did
            else Inl (ErrMsg ''already attached with a different path or mode''))
      else if cd_Serial ex = name then Inl (ErrMsg ''disk serial already used'')
      else if cd_Path ex = path then Inl (ErrMsg ''disk path already attached'')
      else diskAttached exs did name path readOnly)"

definition hot_data_disk :: "string \<Rightarrow> string \<Rightarrow> bool \<Rightarrow> bool option \<Rightarrow> StorageConfig" where
  "hot_data_disk path serial ro direct =
     \<lparr>sc_Path = path, sc_RO = ro, sc_Serial = serial, sc_Role = StorageRoleData, sc_MountPoint = '''', sc_FSType = '''', sc_DirectIO = direct\<rparr>"

definition ch_DiskAttach ::
    "'k chenv \<Rightarrow> 'k backend \<Rightarrow> (string \<Rightarrow> string res) \<Rightarrow> string list \<Rightarrow> string \<Rightarrow> DiskSpec \<Rightarrow> ('k, string) vmact" where
  "ch_DiskAttach E b evalSymlinks roots vmRef spec =
     act_bind (act_res (disk_Normalize spec)) (\<lambda>_.
     act_bind (act_res (ResolveExternalVolume evalSymlinks roots (ds_Path spec))) (\<lambda>path.
     (let did = disk_DeriveID (ds_Name spec) in
      attachWith E b vmRef ''vm.add-disk''
        (\<lambda>rec. chDiskReq (hotDisk rec did (hot_data_disk path (ds_Name spec) (ds_ReadOnly spec) (ds_DirectIO spec))))
        (\<lambda>_ info. diskAttached (vm_Disks (in_Config info)) did (ds_Name spec) path (ds_ReadOnly spec)))))"

definition snapshotDiskFormat :: "string \<Rightarrow> string" where
  "snapshotDiskFormat cowFile = (if Ext cowFile = ''.qcow2'' then ''qcow2'' else ''raw'')"

definition snapshotDiskPath :: "string \<Rightarrow> string \<Rightarrow> string \<Rightarrow> string" where
  "snapshotDiskPath runDir name format = Join [runDir, ''snapdisk-'' @ name @ ''.'' @ format]"

definition layerHexes :: "StorageConfig option list \<Rightarrow> string list" where
  "layerHexes configs =
     map (\<lambda>sc. BlobHexFromPath (sc_Path sc)) (filter (\<lambda>sc. sc_Role sc = StorageRoleLayer) (List.map_filter (\<lambda>sc. sc) configs))"

definition checkSnapshotImage :: "StorageConfig option list \<Rightarrow> string set \<Rightarrow> VMRecord \<Rightarrow> unit res" where
  "checkSnapshotImage sidecar blobIDs rec =
     (if layerHexes sidecar = layerHexes (StorageConfigs rec) \<and> blobIDs = ImageBlobIDs rec then Inr ()
      else Inl (ErrMsg ''snapshot image does not match vm''))"

definition copySnapshotDisk :: "'k chenv \<Rightarrow> string \<Rightarrow> string \<Rightarrow> string \<Rightarrow> ('k, unit) act" where
  "copySnapshotDisk E dst src basePath =
     act_bind (dk_Reflink (ce_disk E) dst src) (\<lambda>_.
       if basePath = '''' then act_return ()
       else ce_QemuImg E [''rebase'', ''-u'', ''-F'', ''qcow2'', ''-b'', basePath, dst])"

definition ch_DiskAttachSnapshot ::
    "'k chenv \<Rightarrow> 'k backend \<Rightarrow> string \<Rightarrow> SnapshotSource \<Rightarrow> ('k, string \<times> string) vmact" where
  "ch_DiskAttachSnapshot E b vmRef src =
     act_bind (act_res (source_Normalize src)) (\<lambda>_.
     act_bind (\<lambda>w. (ce_LoadMeta E (w_host w) (ds_Dir src), w)) (\<lambda>meta.
     act_bind (act_res (SnapshotCOWFile meta)) (\<lambda>cowFile.
     (let format = snapshotDiskFormat cowFile; name = ds_SourceName src; did = disk_DeriveID name in
      ch_lockedDeviceOp E b vmRef (\<lambda>sock rec info.
        act_bind (act_res (checkSnapshotImage (sm_StorageConfigs meta) (ds_BlobIDs src) rec)) (\<lambda>_.
        (let path = snapshotDiskPath (RunDir rec) name format in
         act_bind (act_res (diskAttached (vm_Disks (in_Config info)) did name path False)) (\<lambda>existing.
           if existing \<noteq> '''' then act_return (existing, format)
           else
             act_try (on_host (copySnapshotDisk E path (Join [ds_Dir src, cowFile]) (ds_BasePath src))) (\<lambda>c. case c of
                 Inl e \<Rightarrow> act_bind (act_ignore (on_host (sys_remove (bk_host b) path))) (\<lambda>_. act_fail e)
               | Inr _ \<Rightarrow>
                   act_bind (on_host (addDevice E sock ''vm.add-disk'' (chDiskReq (hotDisk rec did (hot_data_disk path name False None))))) (\<lambda>deviceID.
                   act_return (deviceID, format)))))))))))"

definition removeSnapshotDisks :: "'k backend \<Rightarrow> string \<Rightarrow> string \<Rightarrow> ('k, unit) act" where
  "removeSnapshotDisks b runDir name =
     act_try (sys_remove (bk_host b) (snapshotDiskPath runDir name ''raw'')) (\<lambda>r1.
     act_try (sys_remove (bk_host b) (snapshotDiskPath runDir name ''qcow2'')) (\<lambda>r2 k.
       ((if r1 \<noteq> Inr () \<and> r1 \<noteq> Inl ErrNotExist then r1 else if r2 = Inl ErrNotExist then Inr () else r2), k)))"

definition ch_DiskDetach :: "'k chenv \<Rightarrow> 'k backend \<Rightarrow> string \<Rightarrow> string \<Rightarrow> ('k, unit) vmact" where
  "ch_DiskDetach E b vmRef name =
     act_bind (act_res (disk_ValidateName name)) (\<lambda>_.
     (let did = disk_DeriveID name in
      detachWith E b vmRef
        (\<lambda>info. Inr (if did \<in> set (in_DeviceTree info) \<or> list_ex (\<lambda>d. cd_ID d = did) (vm_Disks (in_Config info)) then did else ''''))
        (\<lambda>rec. removeSnapshotDisks b (RunDir rec) name)))"

definition ch_DiskList :: "'k chenv \<Rightarrow> 'k backend \<Rightarrow> string \<Rightarrow> ('k, chDisk list) vmact" where
  "ch_DiskList E b vmRef = listWith E b vmRef (\<lambda>info. filter (\<lambda>d. disk_NameFromID (cd_ID d) \<noteq> '''') (vm_Disks (in_Config info)))"

definition FsAttach :: "'k chenv \<Rightarrow> 'k backend \<Rightarrow> string \<Rightarrow> FsSpec \<Rightarrow> ('k, string) vmact" where
  "FsAttach E b vmRef spec0 =
     act_bind (act_res (fs_Normalize spec0)) (\<lambda>spec.
     attachWith E b vmRef ''vm.add-fs''
       (\<lambda>_. chFsReq \<lparr>cf_ID = fs_DeriveID (fs_Tag spec), cf_Tag = fs_Tag spec, cf_Socket = fs_Socket spec, cf_NumQueues = fs_NumQueues spec,
          cf_QueueSize = fs_QueueSize spec\<rparr>)
       (\<lambda>_ info.
          if \<not> cm_Shared (vm_Memory (in_Config info)) then Inl (ErrMsg ''fs attach requires shared memory'')
          else if list_ex (\<lambda>f. cf_Tag f = fs_Tag spec) (vm_Fs (in_Config info)) then Inl (ErrMsg ''fs tag already attached'')
          else Inr ''''))"

definition FsDetach :: "'k chenv \<Rightarrow> 'k backend \<Rightarrow> string \<Rightarrow> string \<Rightarrow> ('k, unit) vmact" where
  "FsDetach E b vmRef tag =
     (let did = fs_DeriveID tag in
      detachWith E b vmRef
        (\<lambda>info. if did \<in> set (in_DeviceTree info) \<or> list_ex (\<lambda>f. cf_ID f = did) (vm_Fs (in_Config info)) then Inr did
                else Inl (ErrMsg ''fs tag not attached''))
        (\<lambda>_. act_return ()))"

definition FsList :: "'k chenv \<Rightarrow> 'k backend \<Rightarrow> string \<Rightarrow> ('k, chFs list) vmact" where
  "FsList E b vmRef = listWith E b vmRef (\<lambda>info. vm_Fs (in_Config info))"

definition device_check :: "'k chenv \<Rightarrow> string \<Rightarrow> string \<Rightarrow> 'k \<Rightarrow> chVMInfoResponse \<Rightarrow> string res" where
  "device_check E path did h info =
     (case ce_IsDir E h path of
        Inl e \<Rightarrow> Inl e
      | Inr False \<Rightarrow> Inl (ErrMsg ''pci path: not a directory'')
      | Inr True \<Rightarrow>
          (case each_res (\<lambda>ex. if cv_Path ex = path then Inl (ErrMsg ''device already attached'')
               else if did \<noteq> '''' \<and> cv_ID ex = did then Inl (ErrMsg ''device id already in use'') else Inr ()) (vm_Devices (in_Config info)) of
             Inl e \<Rightarrow> Inl e
           | Inr _ \<Rightarrow> Inr ''''))"

definition DeviceAttach :: "'k chenv \<Rightarrow> 'k backend \<Rightarrow> string \<Rightarrow> VfioSpec \<Rightarrow> ('k, string) vmact" where
  "DeviceAttach E b vmRef spec =
     act_bind (act_res (NormalizedPath spec)) (\<lambda>path.
     attachWith E b vmRef ''vm.add-device'' (\<lambda>_. chDeviceReq \<lparr>cv_ID = vf_ID spec, cv_Path = path\<rparr>) (device_check E path (vf_ID spec)))"

definition DeviceDetach :: "'k chenv \<Rightarrow> 'k backend \<Rightarrow> string \<Rightarrow> string \<Rightarrow> ('k, unit) vmact" where
  "DeviceDetach E b vmRef did =
     detachWith E b vmRef
       (\<lambda>info. if list_ex (\<lambda>d. cv_ID d = did) (vm_Devices (in_Config info)) then Inr did else Inl (ErrMsg ''device id not attached''))
       (\<lambda>_. act_return ())"

definition DeviceList :: "'k chenv \<Rightarrow> 'k backend \<Rightarrow> string \<Rightarrow> ('k, (string \<times> string) list) vmact" where
  "DeviceList E b vmRef =
     listWith E b vmRef (\<lambda>info. map (\<lambda>d. (cv_ID d, fst (CutPrefix (cv_Path d) SysfsPCIPrefix))) (vm_Devices (in_Config info)))"

section \<open>NICs of a running VM\<close>

definition ch_LiveNICs :: "'k chenv \<Rightarrow> string \<Rightarrow> ('k, LiveNIC list) act" where
  "ch_LiveNICs E sock =
     act_bind (getVMInfo E sock) (\<lambda>info.
     act_return (map (\<lambda>n. \<lparr>ln_ID = cn_ID n, ln_Index = (case TAPIndex (cn_TAP n) of None \<Rightarrow> -1 | Some i \<Rightarrow> i)\<rparr>) (vm_Nets (in_Config info))))"

definition ch_RemoveNIC :: "'k chenv \<Rightarrow> string \<Rightarrow> string \<Rightarrow> ('k, unit) act" where
  "ch_RemoveNIC E sock nid =
     act_bind (removeDevicePending E sock nid) (\<lambda>_.
     act_try (waitDeviceEjected E sock nid) (\<lambda>r. case r of
         Inl _ \<Rightarrow> act_fail ErrEjectPending
       | Inr _ \<Rightarrow> act_return ()))"

definition chNICOps :: "'k chenv \<Rightarrow> string \<Rightarrow> 'k NICDeviceOps" where
  "chNICOps E sock =
     \<lparr>nd_LiveNICs = ch_LiveNICs E sock, nd_AddNIC = (\<lambda>_. addCocoonNIC E sock), nd_RemoveNIC = ch_RemoveNIC E sock,
      nd_TAPQueues = NetNumQueues\<rparr>"

definition ch_NetResize :: "'k chenv \<Rightarrow> 'k backend \<Rightarrow> 'k Plumbing \<Rightarrow> string \<Rightarrow> int \<Rightarrow> ('k, Result \<times> unit res) vmact" where
  "ch_NetResize E b plumbing vmRef target =
     act_bind (act_res (nr_Normalize target)) (\<lambda>_.
     ch_lockedDeviceOp E b vmRef (\<lambda>sock rec info.
       act_bind (act_each (\<lambda>nid. act_ignore (on_host (removeDevicePending E sock nid))) (pendingNICEjects info)) (\<lambda>_.
       NetResizeWith (ID rec) rec (chNICOps E sock) plumbing (nat target))))"
section \<open>The hooks keep the books\<close>

lemma ch_restore_hook:
  assumes "ID rec = vid"
  shows "restore_hook vid (Name cfg) (ch_restoreAfterExtract E b preflight vid cfg rec)"
  unfolding restore_hook_def
proof (intro allI impI)
  fix h
  assume n: "named (Name cfg) (h vid)"
  obtain meta mode where p: "preflight = (meta, mode)" by fastforce
  let ?c = "cfg\<lparr>RestoreMode := mode\<rparr>"
  let ?Q = "\<lambda>r w. case r of
      Inl _ \<Rightarrow> level True h w
    | Inr info \<Rightarrow> books True (opened \<circ> h) (h(vid := Some (True, Name cfg))) w \<and> ID info = vid"
  have nm: "Name ?c = Name cfg" by simp
  have fin: "triple (level True h) (FinalizeRestore b vid ?c (rec\<lparr>Config := ?c\<rparr>) pid) ?Q" for pid
    using restore_finish [of "rec\<lparr>Config := ?c\<rparr>" vid ?c h b pid, unfolded nm] assms n by simp
  have launched: "triple (level True h) (ch_restore_launched E b vid ?c (rec\<lparr>Config := ?c\<rparr>) sock pid) ?Q" for sock pid
    unfolding ch_restore_launched_def
    by (intro triple_abort [where R = "level True h"] triple_after keeps_basic scan_ops_keeps stable_books fin) simp_all
  show "triple (level True h) (ch_restoreAfterExtract E b preflight vid cfg rec) ?Q"
    unfolding ch_restoreAfterExtract_def Let_def p prod.case
    by (intro triple_after keeps_basic keeps_res keeps_cases triple_return stable_books launched) simp_all
qed

lemma ch_clone_steps_keep [triple_rules]:
  assumes "stable P"
  shows "keeps P (clone_storage E b rec chCfg)" "keeps P (restoreAndResumeClone E b pid sock runDir opts)"
proof -
  show "keeps P (clone_storage E b rec chCfg)"
    unfolding clone_storage_def Let_def using assms by (intro triple_rules; assumption?)
  show "keeps P (restoreAndResumeClone E b pid sock runDir opts)"
    unfolding restoreAndResumeClone_def using assms by (intro triple_rules; assumption?)
qed

lemma ch_clone_hook:
  assumes "ID rec = vid"
  shows "clone_hook q vid (Name cfg) (ch_cloneAfterExtractParsed E b cfg net src migrate chCfg rec)"
  unfolding clone_hook_def
proof
  fix h
  let ?h = "h(vid := Some (False, Name cfg))"
  let ?Q = "\<lambda>r w. case r of Inl _ \<Rightarrow> level q ?h w | Inr _ \<Rightarrow> vm_inv q w"
  let ?c = "cfg\<lparr>RestoreMode := resolveRestoreMode (RestoreMode cfg) (vm_Memory chCfg)\<rparr>"
  have nm: "Name ?c = Name cfg" by simp
  have pub: "triple (level q ?h) (ch_publish_clone E b rec ?c storage net bc bl src reason pid) ?Q" for storage bc bl reason pid
    unfolding ch_publish_clone_def assms
    by (rule publish_hook [OF assms, of _ _ q h ?c, unfolded nm]) (auto intro!: triple_rules triple_return)
  show "triple (level q ?h) (ch_cloneAfterExtractParsed E b cfg net src migrate chCfg rec) ?Q"
    unfolding ch_cloneAfterExtractParsed_def Let_def assms
    by (intro triple_after keeps_basic keeps_res keeps_cases ch_clone_steps_keep stable_books pub) simp_all
qed

lemma ch_clone_parse_hook:
  assumes "ID rec = vid"
  shows "clone_hook q vid (Name cfg) (ch_cloneAfterExtract E b cfg net src rec)"
  unfolding clone_hook_def ch_cloneAfterExtract_def
proof
  fix h
  let ?h = "h(vid := Some (False, Name cfg))"
  have "triple (level q ?h) (ch_cloneAfterExtractParsed E b cfg net src False chCfg rec)
      (\<lambda>r w. case r of Inl _ \<Rightarrow> level q ?h w | Inr _ \<Rightarrow> vm_inv q w)" for chCfg
    using ch_clone_hook [OF assms] unfolding clone_hook_def by blast
  then show "triple (level q ?h) (act_bind (\<lambda>w. (parseCHConfig E (w_host w) (Join [RunDir rec, ''config.json'']), w)) (\<lambda>chCfg.
     ch_cloneAfterExtractParsed E b cfg net src False chCfg rec)) (\<lambda>r w. case r of Inl _ \<Rightarrow> level q ?h w | Inr _ \<Rightarrow> vm_inv q w)"
    by (intro triple_after keeps_basic stable_books) simp_all
qed

section \<open>The operations keep the books\<close>

lemma ch_lifecycle_keeps [triple_rules]:
  "keeps (vm_inv q) (ch_Create E b vid cfg sc net boot)"
  "keeps (vm_inv q) (ch_startOne E b vid scan)"
  "keeps (vm_inv q) (ch_Snapshot E b ref)"
  "keeps (vm_inv q) (ch_Hibernate E b ref persist)"
  unfolding ch_Create_def ch_startOne_def ch_Snapshot_def ch_Hibernate_def
  by (rule CreateSequence_keeps StartSequence_keeps SnapshotSequence_keeps HibernateSequence_keeps)+

lemma ch_Clone_keeps [triple_rules]:
  "keeps (vm_inv q) (ch_Clone E b vid cfg net sn populate)" "keeps (vm_inv q) (ch_directClone E b vid cfg net sn migrate files)"
  "keeps (vm_inv q) (ch_DirectClone E b vid cfg net sn d)"
  unfolding ch_DirectClone_def ch_directClone_def ch_Clone_def
  by (intro cloneBase_keeps; simp add: ch_clone_hook ch_clone_parse_hook)+

lemma ch_Delete_keeps: "keeps (vm_inv True) (ch_Delete E b refs force)"
  unfolding ch_Delete_def by (intro DeleteAll_keeps triple_rules)

lemma ch_Restore_triple:
  "triple (\<lambda>w. vm_inv True w \<and> restores ref (Name cfg) (w_db w)) (ch_Restore E b ref cfg extr src) (\<lambda>_. vm_inv True)"
  using RestoreSequence_triple [of "\<lparr>rs_VMCfg = cfg, rs_Source = src, rs_Extract = extr, rs_Preflight = ch_preflightRestore E b (RestoreMode cfg),
        rs_Kill = ch_killForRestore E b, rs_Clean = ch_cleanSnapshotFiles E b, rs_AfterExtract = ch_restoreAfterExtract E b\<rparr>" ref b]
  by (simp add: ch_Restore_def ch_killForRestore_def KillForRestore_books ch_restore_hook)

lemma ch_DirectRestore_triple:
  "triple (\<lambda>w. vm_inv True w \<and> restores ref (Name cfg) (w_db w)) (ch_DirectRestore E b ref cfg d src) (\<lambda>_. vm_inv True)"
  using DirectRestoreSequence_triple [of "\<lparr>dr_VMCfg = cfg, dr_Source = src, dr_Preflight = (\<lambda>h. ch_preflightRestore E b (RestoreMode cfg) h d),
        dr_Kill = ch_killForRestore E b,
        dr_Populate = (\<lambda>rec. PopulateFromSrc (RunDir rec) d (ch_cleanSnapshotFiles E b)
          (\<lambda>dst src. act_bind (ch_cloneSnapshotFiles E dst src) (\<lambda>_. act_return ()))),
        dr_AfterExtract = ch_restoreAfterExtract E b\<rparr>" ref b]
  by (simp add: ch_DirectRestore_def ch_killForRestore_def KillForRestore_books ch_restore_hook)

lemma ch_device_op_keeps:
  assumes "\<And>sock rec info. keeps (vm_inv q) (op sock rec info)"
  shows "keeps (vm_inv q) (ch_lockedDeviceOp E b ref op)"
  unfolding ch_lockedDeviceOp_def by (intro triple_rules assms)

lemma ch_attach_keeps:
  "keeps (vm_inv q) (attachWith E b ref endpoint body check)" "keeps (vm_inv q) (detachWith E b ref findID after)"
  unfolding attachWith_def detachWith_def by (auto intro!: ch_device_op_keeps triple_rules)

lemma ch_devices_keep:
  "keeps (vm_inv q) (ch_DiskAttach E b ev roots ref spec)" "keeps (vm_inv q) (ch_DiskAttachSnapshot E b ref src)"
  "keeps (vm_inv q) (ch_DiskDetach E b ref name)" "keeps (vm_inv q) (FsAttach E b ref fspec)" "keeps (vm_inv q) (FsDetach E b ref tag)"
  "keeps (vm_inv q) (DeviceAttach E b ref vspec)" "keeps (vm_inv q) (DeviceDetach E b ref did)"
  "keeps (vm_inv q) (ch_NetResize E b pl ref target)"
  unfolding ch_DiskAttach_def ch_DiskAttachSnapshot_def ch_DiskDetach_def FsAttach_def FsDetach_def DeviceAttach_def DeviceDetach_def
    ch_NetResize_def Let_def
  by (auto intro!: ch_attach_keeps ch_device_op_keeps triple_rules)

end
