(* ===== verification/Migrate.thy ===== *)
theory Migrate
  imports CloudHypervisor
begin

text \<open>
  Live migration (\<open>hypervisor/migrate.go\<close>, \<open>hypervisor/cloudhypervisor/migrate.go\<close>): a running VM is captured
  in rounds, a baseline and then deltas of memory and disks, the last with the guest paused, and the series is
  replayed into a new VM. The sequences keep the books; on the files of \<open>DiskDelta\<close> the rounds carry
  every disk over exactly; and a round leaves the guest in the state it promises.
\<close>

section \<open>Rounds of a capture\<close>

record MigrateRequest =
  mr_Series :: string
  mr_Final :: bool

record MigrateFile =
  mf_Name :: string
  mf_Size :: int

record MigrateRound =
  rd_Series :: string
  rd_Dir :: string
  rd_Round :: nat
  rd_Paused :: bool
  rd_Files :: "MigrateFile list"

text \<open>What \<open>os.FileInfo\<close> says of an entry.\<close>

record FileInfo =
  fi_Size :: int
  fi_ModTime :: nat
  fi_Regular :: bool

text \<open>
  What the rounds need of the host beside its system calls: the reflink probe, file information, writing and
  replaying a delta (\<open>writeDiskDelta\<close> and \<open>applyDiskDelta\<close> of \<open>DiskDelta\<close>, on the host's files), and the
  file that describes the series.
\<close>

record 'k migops =
  mg_CheckReflink :: "string \<Rightarrow> ('k, unit) act"
  mg_Info :: "'k \<Rightarrow> string \<Rightarrow> FileInfo res"
  mg_WriteDelta :: "string \<Rightarrow> string \<Rightarrow> string \<Rightarrow> ('k, unit) act"
  mg_ApplyDelta :: "string \<Rightarrow> string \<Rightarrow> ('k, unit) act"
  mg_WriteEnvelope :: "string \<Rightarrow> SnapshotConfig \<Rightarrow> ('k, unit) act"

record ('k, 'm) MigrateSpec =
  ms_Snapshot :: "('k, 'm) SnapshotSpec"
  ms_EndSeries :: "VMRecord \<Rightarrow> ('k, unit) act"
  ms_Rounds :: "'k \<Rightarrow> string \<Rightarrow> nat res"

record 'k roundSteps =
  st_series :: string
  st_round :: nat
  st_final :: bool
  st_before :: "('k, unit) act"
  st_inPause :: "('k, unit) act"
  st_afterPause :: "('k, unit) act"

definition seriesDirPrefix :: string where "seriesDirPrefix = ''snapshot-migrate-''"

text \<open>A name without a separator is local unless it is empty or \<open>..\<close>.\<close>

definition seriesDir :: "VMRecord \<Rightarrow> string \<Rightarrow> string res" where
  "seriesDir rec series =
     (if series = '''' \<or> series = ''..'' \<or> CHR ''/'' \<in> set series then Inl (ErrMsg ''invalid series id'')
      else Inr (Join [RunDir rec, seriesDirPrefix @ series]))"

definition isSeriesDir :: "string \<times> bool \<Rightarrow> bool" where
  "isSeriesDir e \<longleftrightarrow> snd e \<and> has_prefix (fst e) seriesDirPrefix"

definition round_delta :: "string \<Rightarrow> nat \<Rightarrow> string" where
  "round_delta copyPath n = Join [Dir copyPath, diskDeltaName (Base copyPath) n]"

text \<open>The first number without a delta; \<open>None\<close> when the fuel does not reach it.\<close>

fun nextRound :: "(string \<Rightarrow> bool) \<Rightarrow> string \<Rightarrow> nat \<Rightarrow> nat \<Rightarrow> nat option" where
  "nextRound found disk 0 n = None"
| "nextRound found disk (Suc fuel) n =
     (if found (round_delta disk n) then nextRound found disk fuel (Suc n) else Some n)"

definition nextRefPath :: "string \<Rightarrow> string" where
  "nextRefPath copyPath = copyPath @ ''.next'' @ diskRefSuffix"

definition reflinkNextRefs :: "'k diskops \<Rightarrow> (string \<times> string) list \<Rightarrow> ('k, unit) act" where
  "reflinkNextRefs D pairs = copyPairs D (map (\<lambda>(copyPath, live). (nextRefPath copyPath, live)) pairs)"

definition writeRoundDelta ::
    "('k \<Rightarrow> string \<Rightarrow> bool) \<Rightarrow> (string \<Rightarrow> string \<Rightarrow> string \<Rightarrow> ('k, unit) act) \<Rightarrow> (string \<Rightarrow> string \<Rightarrow> ('k, unit) act) \<Rightarrow>
     string \<times> string \<Rightarrow> nat \<Rightarrow> bool \<Rightarrow> ('k, unit) act" where
  "writeRoundDelta found write_delta rename pair round final k =
     (let copyPath = fst pair; live = snd pair;
          ref = (if found k (copyPath @ diskRefSuffix) then copyPath @ diskRefSuffix else copyPath);
          dst = round_delta copyPath round
      in if final then write_delta dst ref live k
         else
           (let next = nextRefPath copyPath in
            act_bind (write_delta dst ref next) (\<lambda>_. rename next (copyPath @ diskRefSuffix)) k))"

section \<open>What a round wrote\<close>

text \<open>The regular files of a directory, references left out, in the order of the listing, which is by name.\<close>

definition stampFiles :: "'k host \<Rightarrow> 'k migops \<Rightarrow> 'k \<Rightarrow> string \<Rightarrow> (string \<times> FileInfo) list res" where
  "stampFiles K M k dir =
     (case sys_readdir K k dir of
        Inl e \<Rightarrow> Inl e
      | Inr entries \<Rightarrow>
          (case map_res (\<lambda>e. case mg_Info M k (Join [dir, fst e]) of Inl er \<Rightarrow> Inl er | Inr info \<Rightarrow> Inr (fst e, info)) entries of
             Inl e \<Rightarrow> Inl e
           | Inr infos \<Rightarrow> Inr (filter (\<lambda>(name, info). fi_Regular info \<and> \<not> HasSuffix name diskRefSuffix) infos)))"

definition changedFiles :: "'k host \<Rightarrow> 'k migops \<Rightarrow> 'k \<Rightarrow> string \<Rightarrow> (string \<times> FileInfo) list \<Rightarrow> MigrateFile list res" where
  "changedFiles K M k dir before =
     (case stampFiles K M k dir of
        Inl e \<Rightarrow> Inl e
      | Inr after \<Rightarrow>
          Inr (map (\<lambda>(name, info). \<lparr>mf_Name = name, mf_Size = fi_Size info\<rparr>)
            (filter (\<lambda>(name, info). case map_of before name of
                None \<Rightarrow> True
              | Some old \<Rightarrow> fi_Size old \<noteq> fi_Size info \<or> fi_ModTime old \<noteq> fi_ModTime info) after)))"

definition dir_fuel :: "'k host \<Rightarrow> 'k \<Rightarrow> string \<Rightarrow> nat" where
  "dir_fuel K k dir = (case sys_readdir K k dir of Inl _ \<Rightarrow> 1 | Inr entries \<Rightarrow> Suc (length entries))"

definition next_round :: "'k host \<Rightarrow> 'k \<Rightarrow> string \<Rightarrow> nat res" where
  "next_round K k disk =
     (case nextRound (FileExists K k) disk (dir_fuel K k (Dir disk)) 1 of
        None \<Rightarrow> Inl (ErrMsg ''round not found'') | Some n \<Rightarrow> Inr n)"

fun in_step :: "'k host \<Rightarrow> 'k \<Rightarrow> (string \<times> string) list \<Rightarrow> nat \<Rightarrow> unit res" where
  "in_step K k [] round = Inr ()"
| "in_step K k (p # ps) round =
     (case next_round K k (fst p) of
        Inl e \<Rightarrow> Inl e
      | Inr n \<Rightarrow>
          if n \<noteq> round then Inl (ErrMsg ''an earlier capture died, start a new series'')
          else if FileExists K k (nextRefPath (fst p)) then Inl (ErrMsg ''unmoved reference: start a new series'')
          else in_step K k ps round)"

definition checkRoundsInStep ::
    "'k host \<Rightarrow> ('k, 'm) MigrateSpec \<Rightarrow> string \<Rightarrow> (string \<times> string) list \<Rightarrow> nat \<Rightarrow> ('k, unit) act" where
  "checkRoundsInStep K spec dir pairs round k =
     (case ms_Rounds spec k dir of
        Inl e \<Rightarrow> (Inl e, k)
      | Inr rounds \<Rightarrow>
          if rounds \<noteq> round - 1 then (Inl (ErrMsg ''an earlier capture died, start a new series''), k)
          else (in_step K k pairs round, k))"

section \<open>The sequences\<close>

text \<open>\<open>errors.Join\<close>: both run, and the first error is reported.\<close>

definition both :: "('s, unit) act \<Rightarrow> ('s, unit) act \<Rightarrow> ('s, unit) act" where
  "both f g = act_try f (\<lambda>r. act_try g (\<lambda>s. act_res (case r of Inl e \<Rightarrow> Inl e | Inr _ \<Rightarrow> s)))"

definition round_run :: "('k, 'm) MigrateSpec \<Rightarrow> VMRecord \<Rightarrow> string \<Rightarrow> 'k roundSteps \<Rightarrow> ('k, unit) act" where
  "round_run spec rec dir steps =
     act_bind (st_before steps) (\<lambda>_.
     act_bind (ss_Pause (ms_Snapshot spec) rec) (\<lambda>_.
     act_bind (ss_Capture (ms_Snapshot spec) rec dir) (\<lambda>_.
     act_bind (st_inPause steps) (\<lambda>_.
     act_bind (if st_final steps then act_return () else ss_Resume (ms_Snapshot spec) rec) (\<lambda>_.
     st_afterPause steps)))))"

text \<open>A failed round resumes the guest and ends the series; then its directory is removed.\<close>

definition round_window :: "('k, 'm) MigrateSpec \<Rightarrow> VMRecord \<Rightarrow> string \<Rightarrow> 'k roundSteps \<Rightarrow> ('k, unit) vmact" where
  "round_window spec rec dir steps =
     act_try (on_host (round_run spec rec dir steps)) (\<lambda>r. case r of
         Inr _ \<Rightarrow> act_return ()
       | Inl e \<Rightarrow> act_try (on_host (both (ss_Resume (ms_Snapshot spec) rec) (ms_EndSeries spec rec))) (\<lambda>_. act_fail e))"

definition drop_series :: "'k backend \<Rightarrow> string \<Rightarrow> err \<Rightarrow> ('k, 'a) vmact" where
  "drop_series b dir e = act_bind (act_ignore (on_host (sys_removeall (bk_os b) dir))) (\<lambda>_. act_fail e)"

definition captureRound ::
    "'k backend \<Rightarrow> 'k migops \<Rightarrow> VMRecord \<Rightarrow> ('k, 'm) MigrateSpec \<Rightarrow> string \<Rightarrow> 'k roundSteps \<Rightarrow> ('k, MigrateRound) vmact" where
  "captureRound b M rec spec dir steps =
     act_bind (get_host (\<lambda>k. stampFiles (bk_os b) M k dir)) (\<lambda>stamps. case stamps of
       Inl e \<Rightarrow> drop_series b dir e
     | Inr before \<Rightarrow>
         act_try (withRunningVM b rec None (\<lambda>_. round_window spec rec dir steps)) (\<lambda>r. case r of
             Inl e \<Rightarrow> drop_series b dir e
           | Inr _ \<Rightarrow>
               act_bind (\<lambda>w. (changedFiles (bk_os b) M (w_host w) dir before, w)) (\<lambda>files.
               act_return \<lparr>rd_Series = st_series steps, rd_Dir = dir, rd_Round = st_round steps, rd_Paused = st_final steps,
                 rd_Files = files\<rparr>)))"

definition writeSeriesEnvelope :: "'k backend \<Rightarrow> 'k migops \<Rightarrow> VMRecord \<Rightarrow> string \<Rightarrow> string \<Rightarrow> ('k, unit) act" where
  "writeSeriesEnvelope b M rec series dir = mg_WriteEnvelope M dir (BuildSnapshotConfig b series rec)"

definition captureBaseline ::
    "'k backend \<Rightarrow> 'k diskops \<Rightarrow> 'k migops \<Rightarrow> VMRecord \<Rightarrow> ('k, 'm) MigrateSpec \<Rightarrow> ('k, MigrateRound) vmact" where
  "captureBaseline b D M rec spec =
     act_bind (on_host (mg_CheckReflink M (RunDir rec))) (\<lambda>_.
     act_bind (on_host (\<lambda>k. case RemoveMatching (bk_os b) (RunDir rec) isSeriesDir k of
         ([], k') \<Rightarrow> (Inr (), k') | (e # _, k') \<Rightarrow> (Inl e, k'))) (\<lambda>_.
     act_bind GenerateID (\<lambda>series.
     (let dir = Join [RunDir rec, seriesDirPrefix @ series] in
      act_bind (on_host (sys_mkdir (bk_os b) dir)) (\<lambda>_.
      captureRound b M rec spec dir
        \<lparr>st_series = series, st_round = 0, st_final = False, st_before = ms_EndSeries spec rec,
         st_inPause = CopyWritableDisks D dir rec,
         st_afterPause = act_bind (saveCaptureMeta (ms_Snapshot spec) rec dir) (\<lambda>_. writeSeriesEnvelope b M rec series dir)\<rparr>)))))"

definition captureDelta ::
    "'k backend \<Rightarrow> 'k diskops \<Rightarrow> 'k migops \<Rightarrow> VMRecord \<Rightarrow> MigrateRequest \<Rightarrow> ('k, 'm) MigrateSpec \<Rightarrow> ('k, MigrateRound) vmact" where
  "captureDelta b D M rec req spec =
     act_bind (act_res (seriesDir rec (mr_Series req))) (\<lambda>dir.
     act_bind (act_res (writableDiskPairs dir rec)) (\<lambda>pairs.
     act_bind (\<lambda>w. (next_round (bk_os b) (w_host w) (fst (hd pairs)), w)) (\<lambda>number.
     captureRound b M rec spec dir
       \<lparr>st_series = mr_Series req, st_round = number, st_final = mr_Final req,
        st_before = act_bind (checkRoundsInStep (bk_os b) spec dir pairs number) (\<lambda>_. writeSeriesEnvelope b M rec (mr_Series req) dir),
        st_inPause = (if mr_Final req then act_return () else reflinkNextRefs D pairs),
        st_afterPause = act_each (\<lambda>p. writeRoundDelta (FileExists (bk_os b)) (mg_WriteDelta M) (bk_rename b) p number (mr_Final req)) pairs\<rparr>)))"

text \<open>\<open>lockForCapture\<close>: the record, read and validated under the VM's lock.\<close>

definition with_capture_lock :: "'k backend \<Rightarrow> string \<Rightarrow> (VMRecord \<Rightarrow> ('k, 'a) vmact) \<Rightarrow> ('k, 'a) vmact" where
  "with_capture_lock b ref f =
     act_bind (ResolveRef ref) (\<lambda>vid.
     with_lock b vid (
       act_bind (EntryGuardLoad b vid) (\<lambda>rec.
       act_bind (act_res (validateRecordInvariants rec)) (\<lambda>_. f rec))))"

definition MigrateCaptureSequence ::
    "'k backend \<Rightarrow> 'k diskops \<Rightarrow> 'k migops \<Rightarrow> string \<Rightarrow> MigrateRequest \<Rightarrow> ('k, 'm) MigrateSpec \<Rightarrow> ('k, MigrateRound) vmact" where
  "MigrateCaptureSequence b D M ref req spec =
     with_capture_lock b ref (\<lambda>rec.
       if mr_Series req = '''' then captureBaseline b D M rec spec else captureDelta b D M rec req spec)"

definition MigrateAbortSequence :: "'k backend \<Rightarrow> string \<Rightarrow> string \<Rightarrow> ('k, 'm) MigrateSpec \<Rightarrow> ('k, unit) vmact" where
  "MigrateAbortSequence b ref series spec =
     with_capture_lock b ref (\<lambda>rec.
       act_bind (act_res (seriesDir rec series)) (\<lambda>dir.
       act_bind (get_host (\<lambda>k. FileExists (bk_os b) k dir)) (\<lambda>found.
         if \<not> found then act_return ()
         else
           act_try (withRunningVM b rec None (\<lambda>_. on_host (both (ms_EndSeries spec rec) (ss_Resume (ms_Snapshot spec) rec)))) (\<lambda>r.
             if (case r of Inl e \<Rightarrow> e \<noteq> ErrNotRunning | Inr _ \<Rightarrow> False) then act_res r
             else on_host (sys_removeall (bk_os b) dir)))))"

section \<open>Cloud Hypervisor\<close>

definition memoryDiffPrefix :: string where "memoryDiffPrefix = ''memory-ranges.diff.''"

definition countMemoryDiffs :: "'k backend \<Rightarrow> 'k \<Rightarrow> string \<Rightarrow> nat res" where
  "countMemoryDiffs b k dir =
     (case sys_readdir (bk_os b) k dir of
        Inl e \<Rightarrow> Inl e
      | Inr entries \<Rightarrow> Inr (length (filter (\<lambda>e. has_prefix (fst e) memoryDiffPrefix) entries)))"

definition migrateSpec :: "'k chenv \<Rightarrow> 'k backend \<Rightarrow> ('k, SnapshotMeta) MigrateSpec" where
  "migrateSpec E b =
     \<lparr>ms_Snapshot = (ch_snapshotSpec E b)\<lparr>ss_Capture := (\<lambda>rec dir. snapshotVM E (vm_SocketPath (RunDir rec)) dir ''diff'')\<rparr>,
      ms_EndSeries = (\<lambda>rec. endSnapshotSeries E (vm_SocketPath (RunDir rec))),
      ms_Rounds = countMemoryDiffs b\<rparr>"

definition MigrateCapture ::
    "'k chenv \<Rightarrow> 'k backend \<Rightarrow> 'k migops \<Rightarrow> string \<Rightarrow> MigrateRequest \<Rightarrow> ('k, MigrateRound) vmact" where
  "MigrateCapture E b M ref req = MigrateCaptureSequence b (ce_disk E) M ref req (migrateSpec E b)"

definition MigrateAbort :: "'k chenv \<Rightarrow> 'k backend \<Rightarrow> string \<Rightarrow> string \<Rightarrow> ('k, unit) vmact" where
  "MigrateAbort E b ref series = MigrateAbortSequence b ref series (migrateSpec E b)"

text \<open>The disks are the keys of a map: each name once.\<close>

definition cloneSeriesFiles :: "'k chenv \<Rightarrow> 'k backend \<Rightarrow> 'k migops \<Rightarrow> string \<Rightarrow> string \<Rightarrow> ('k, chVMConfig) act" where
  "cloneSeriesFiles E b M dstDir srcDir =
     act_bind (ch_cloneSnapshotFiles E dstDir srcDir) (\<lambda>chCfg.
     act_bind (\<lambda>k. (countMemoryDiffs b k srcDir, k)) (\<lambda>rounds.
     act_bind (apply_rounds (mg_ApplyDelta M) dstDir srcDir (remdups (identifyCOWFiles chCfg)) rounds) (\<lambda>_.
     act_return chCfg)))"

definition MigrateReceive ::
    "'k chenv \<Rightarrow> 'k backend \<Rightarrow> 'k migops \<Rightarrow> string \<Rightarrow> VMConfig \<Rightarrow> NetSetup \<Rightarrow> SnapshotConfig \<Rightarrow> string \<Rightarrow> ('k, VMRecord) vmact" where
  "MigrateReceive E b M vid vmCfg net snapshotConfig srcDir =
     ch_directClone E b vid vmCfg net snapshotConfig True (\<lambda>runDir. cloneSeriesFiles E b M runDir srcDir)"

section \<open>The sequences keep the books\<close>

lemma captureRound_keeps [triple_rules]: "stable P \<Longrightarrow> keeps P (captureRound b M rec spec dir steps)"
  unfolding captureRound_def round_window_def drop_series_def by (intro triple_rules; assumption?)

lemma migrate_keeps:
  "keeps (vm_inv q) (MigrateCapture E b M ref req)" "keeps (vm_inv q) (MigrateAbort E b ref series)"
  "keeps (vm_inv q) (MigrateReceive E b M vid cfg net sn srcDir)"
  unfolding MigrateCapture_def MigrateCaptureSequence_def MigrateAbort_def MigrateAbortSequence_def MigrateReceive_def
    with_capture_lock_def captureBaseline_def captureDelta_def Let_def
  by (intro triple_rules; simp?)+

section \<open>A series on files\<close>

text \<open>\<open>tryFiclone\<close> on the files of \<open>DiskDelta\<close>: the destination becomes the source, or is removed.\<close>

definition df_reflink :: "string \<Rightarrow> string \<Rightarrow> (dfs, unit) act" where
  "df_reflink dst src = act_bind (df_open src) (\<lambda>data. df_call (\<lambda>_ m. m(dst := None)) (df_set dst data))"

definition df_found :: "dfs \<Rightarrow> string \<Rightarrow> bool" where
  "df_found st path \<longleftrightarrow> df_files st path \<noteq> None"

text \<open>The files a series keeps for one disk, beside the live one.\<close>

definition disk_files :: "string \<Rightarrow> string set" where
  "disk_files copy = {copy, copy @ diskRefSuffix, nextRefPath copy} \<union> range (round_delta copy)"

text \<open>
  The rounds of one disk, with the images they froze. Between two steps, and while a round's delta is written after
  the guest has resumed, anything may happen to other files, the live disk among them. The final round reads the
  live disk itself, for the guest stays paused, and ends the series.
\<close>

inductive disk_series ::
    "((string \<rightharpoonup> string) \<Rightarrow> string \<Rightarrow> Extent list res) \<Rightarrow> (diskDelta \<Rightarrow> string) \<Rightarrow> string \<Rightarrow> string \<Rightarrow>
     dfs \<Rightarrow> bool \<Rightarrow> string list \<Rightarrow> bool"
  for FE hdr_enc copy live where
  baseline: "df_files st live = Some img \<Longrightarrow> \<forall>p \<in> disk_files copy - {copy}. df_files st p = None \<Longrightarrow>
    df_reflink copy live st = (Inr (), st') \<Longrightarrow> disk_series FE hdr_enc copy live st' False [img]"
| others: "disk_series FE hdr_enc copy live st final imgs \<Longrightarrow> \<forall>p \<in> disk_files copy. df_files st' p = df_files st p \<Longrightarrow>
    disk_series FE hdr_enc copy live st' final imgs"
| round: "disk_series FE hdr_enc copy live st False imgs \<Longrightarrow> df_files st live = Some img \<Longrightarrow> int (length img) \<le> MaxInt64 \<Longrightarrow>
    nextRound (df_found st) copy fuel 1 = Some n \<Longrightarrow> df_reflink (nextRefPath copy) live st = (Inr (), st1) \<Longrightarrow>
    \<forall>p \<in> disk_files copy. df_files st2 p = df_files st1 p \<Longrightarrow>
    writeRoundDelta df_found (writeDiskDelta FE hdr_enc) df_rename (copy, live) n False st2 = (Inr (), st3) \<Longrightarrow>
    disk_series FE hdr_enc copy live st3 False (imgs @ [img])"
| final: "disk_series FE hdr_enc copy live st False imgs \<Longrightarrow> df_files st live = Some img \<Longrightarrow> int (length img) \<le> MaxInt64 \<Longrightarrow>
    nextRound (df_found st) copy fuel 1 = Some n \<Longrightarrow>
    writeRoundDelta df_found (writeDiskDelta FE hdr_enc) df_rename (copy, live) n True st = (Inr (), st') \<Longrightarrow>
    disk_series FE hdr_enc copy live st' True (imgs @ [img])"

text \<open>What the kernel's extents promise: at any time all the files lie on one storage.\<close>

definition extents_law :: "((string \<rightharpoonup> string) \<Rightarrow> string \<Rightarrow> Extent list res) \<Rightarrow> bool" where
  "extents_law FE \<longleftrightarrow> (\<forall>m. \<exists>store. \<forall>p es f. FE m p = Inr es \<and> m p = Some f \<longrightarrow> backs store es f)"

text \<open>The path of a file in a directory.\<close>

definition plain_path :: "string \<Rightarrow> bool" where
  "plain_path path \<longleftrightarrow> (\<exists>dir name. path = Join [dir, name] \<and> dir \<noteq> '''' \<and> name \<noteq> '''' \<and> CHR ''/'' \<notin> set name)"

lemma delta_path:
  assumes "plain_path copy"
  shows "round_delta copy n = copy @ ''.delta.'' @ itoa n"
proof -
  from assms obtain dir name where c: "copy = Join [dir, name]" "dir \<noteq> ''''" "name \<noteq> ''''" "CHR ''/'' \<notin> set name"
    by (auto simp: plain_path_def)
  then have "Dir copy = dir" "Base copy = name" by (simp_all add: Dir_Join Base_Join)
  then show ?thesis unfolding round_delta_def diskDeltaName_def diskDeltaInfix_def by (simp add: c(1) Join_def)
qed

lemma itoa_inject: "itoa m = itoa n \<longleftrightarrow> m = n"
  by (metis dec_val_itoa)

lemma itoa_end: "xs @ itoa n \<noteq> ys @ [c]" if "\<not> is_digit c"
proof
  assume "xs @ itoa n = ys @ [c]"
  then have "last (itoa n) = c" by (metis itoa_ne last_appendR last_snoc)
  then show False using that itoa_digits [of c n] last_in_set [OF itoa_ne, of n] by simp
qed

lemma digit_facts: "\<not> is_digit (CHR ''f'')" "\<not> is_digit (CHR ''p'')"
  by (simp_all add: is_digit_def)

lemma delta_apart:
  assumes "plain_path copy"
  shows "round_delta copy n \<noteq> copy" "round_delta copy n \<noteq> copy @ diskRefSuffix" "round_delta copy n \<noteq> nextRefPath copy"
    "round_delta copy m = round_delta copy n \<longleftrightarrow> m = n" "round_delta copy n @ ''.tmp'' \<notin> disk_files copy"
proof -
  note dp = delta_path [OF assms]
  have f: "copy @ ''.delta.'' @ itoa n \<noteq> ys @ ''f''" for ys
    using itoa_end [OF digit_facts(1), of "copy @ ''.delta.''" n ys] by simp
  show "round_delta copy n \<noteq> copy" by (simp add: dp)
  show "round_delta copy n \<noteq> copy @ diskRefSuffix"
    using f [of "copy @ ''.re''"] by (simp add: dp diskRefSuffix_def)
  show "round_delta copy n \<noteq> nextRefPath copy"
    using f [of "copy @ ''.next.re''"] by (simp add: dp diskRefSuffix_def nextRefPath_def)
  show "round_delta copy m = round_delta copy n \<longleftrightarrow> m = n" by (simp add: dp itoa_inject)
  have "round_delta copy n @ ''.tmp'' \<noteq> copy @ diskRefSuffix"
  proof
    assume "round_delta copy n @ ''.tmp'' = copy @ diskRefSuffix"
    then have "last (round_delta copy n @ ''.tmp'') = last (copy @ diskRefSuffix)" by (rule arg_cong)
    then show False by (simp add: diskRefSuffix_def)
  qed
  moreover have "round_delta copy n @ ''.tmp'' \<noteq> nextRefPath copy"
  proof
    assume "round_delta copy n @ ''.tmp'' = nextRefPath copy"
    then have "last (round_delta copy n @ ''.tmp'') = last (nextRefPath copy)" by (rule arg_cong)
    then show False by (simp add: diskRefSuffix_def nextRefPath_def)
  qed
  moreover have "round_delta copy n @ ''.tmp'' \<noteq> round_delta copy k" for k
    using itoa_end [OF digit_facts(2), of "copy @ ''.delta.''" k "round_delta copy n @ ''.tm''"] by (auto simp: dp)
  moreover have "round_delta copy n @ ''.tmp'' \<noteq> copy" by (simp add: dp)
  ultimately show "round_delta copy n @ ''.tmp'' \<notin> disk_files copy" by (auto simp: disk_files_def)
qed

lemma ref_apart: "copy @ diskRefSuffix \<noteq> copy" "nextRefPath copy \<noteq> copy" "nextRefPath copy \<noteq> copy @ diskRefSuffix"
  by (simp_all add: nextRefPath_def diskRefSuffix_def)

text \<open>The loop stops at the first number without a delta.\<close>

lemma nextRound_first:
  "nextRound found disk fuel m = Some n \<Longrightarrow>
    m \<le> n \<and> \<not> found (round_delta disk n) \<and> (\<forall>k. m \<le> k \<and> k < n \<longrightarrow> found (round_delta disk k))"
proof (induction found disk fuel m rule: nextRound.induct)
  case (2 found disk fuel m)
  show ?case
  proof (cases "found (round_delta disk m)")
    case True
    with 2 have "Suc m \<le> n" "\<not> found (round_delta disk n)" "\<forall>k. Suc m \<le> k \<and> k < n \<longrightarrow> found (round_delta disk k)" by simp_all
    moreover have "found (round_delta disk k)" if "m \<le> k" "k < n" for k
      using calculation(3) True that by (cases "k = m") auto
    ultimately show ?thesis by simp
  qed (use 2 in auto)
qed simp

lemma nextRound_ends:
  assumes "\<not> found (round_delta disk n)" "m \<le> n" "n - m < fuel"
  shows "\<exists>k. nextRound found disk fuel m = Some k"
  using assms
proof (induction fuel arbitrary: m)
  case (Suc fuel)
  then show ?case by (cases "m = n") (auto simp: Suc_diff_Suc)
qed simp

text \<open>The number of a listed directory's entries is fuel enough: deltas have different names.\<close>

lemma next_round_total:
  assumes "plain_path disk" "sys_readdir K k (Dir disk) = Inr entries"
    and "\<forall>n. FileExists K k (round_delta disk n) \<longrightarrow> diskDeltaName (Base disk) n \<in> fst ` set entries"
  shows "\<exists>n. next_round K k disk = Inr n \<and> 1 \<le> n \<and> \<not> FileExists K k (round_delta disk n) \<and>
    (\<forall>m. 1 \<le> m \<and> m < n \<longrightarrow> FileExists K k (round_delta disk m))"
proof -
  let ?f = "\<lambda>n. diskDeltaName (Base disk) n"
  have "\<exists>n \<in> {1..Suc (length entries)}. \<not> FileExists K k (round_delta disk n)"
  proof (rule ccontr)
    assume "\<not> ?thesis"
    then have "?f ` {1..Suc (length entries)} \<subseteq> fst ` set entries" using assms(3) by blast
    then have "card (?f ` {1..Suc (length entries)}) \<le> card (fst ` set entries)" by (rule card_mono [rotated]) simp
    moreover have "card (?f ` {1..Suc (length entries)}) = Suc (length entries)"
      by (subst card_image) (auto simp: inj_on_def diskDeltaName_def itoa_inject)
    moreover have "card (fst ` set entries) \<le> length entries" by (metis card_image_le card_length finite_set le_trans)
    ultimately show False by simp
  qed
  then obtain n where "1 \<le> n" "n - 1 < Suc (length entries)" "\<not> FileExists K k (round_delta disk n)" by auto
  with nextRound_ends [of "FileExists K k" disk n 1 "Suc (length entries)"] obtain r where
    "nextRound (FileExists K k) disk (Suc (length entries)) 1 = Some r" by auto
  moreover from nextRound_first [OF this] have "1 \<le> r \<and> \<not> FileExists K k (round_delta disk r) \<and>
    (\<forall>m. 1 \<le> m \<and> m < r \<longrightarrow> FileExists K k (round_delta disk m))" by blast
  ultimately show ?thesis using assms(2) unfolding next_round_def dir_fuel_def by simp
qed

section \<open>Every round's delta leads on\<close>

definition cur_ref :: "dfs \<Rightarrow> string \<Rightarrow> string" where
  "cur_ref st copy = (if df_found st (copy @ diskRefSuffix) then copy @ diskRefSuffix else copy)"

text \<open>
  The invariant of a series: the copy is the first image, the delta of each round leads from one image to the next,
  the numbers after the last round are free, and while the series is open the reference holds the last image.
\<close>

definition series_ok :: "(diskDelta \<Rightarrow> string) \<Rightarrow> (string \<Rightarrow> diskDelta res) \<Rightarrow> string \<Rightarrow> dfs \<Rightarrow> bool \<Rightarrow> string list \<Rightarrow> bool" where
  "series_ok hdr_enc hdr_dec copy st final imgs \<longleftrightarrow>
     imgs \<noteq> [] \<and> df_files st copy = Some (hd imgs) \<and>
     (\<forall>n. Suc n < length imgs \<longrightarrow> (\<exists>file. df_files st (round_delta copy (Suc n)) = Some file \<and>
        (int (length file) \<le> MaxInt64 \<longrightarrow> leads hdr_enc hdr_dec (imgs ! n) (imgs ! Suc n) file))) \<and>
     (\<forall>n \<ge> length imgs. df_files st (round_delta copy n) = None) \<and>
     (\<not> final \<longrightarrow> df_files st (cur_ref st copy) = Some (last imgs))"

lemma series_ok_cong:
  assumes "\<forall>p \<in> disk_files copy. df_files st' p = df_files st p"
  shows "series_ok hdr_enc hdr_dec copy st' final imgs = series_ok hdr_enc hdr_dec copy st final imgs"
proof -
  have "df_files st' copy = df_files st copy" "df_files st' (copy @ diskRefSuffix) = df_files st (copy @ diskRefSuffix)"
    "\<And>n. df_files st' (round_delta copy n) = df_files st (round_delta copy n)"
    using assms by (simp_all add: disk_files_def)
  then show ?thesis by (simp add: series_ok_def cur_ref_def df_found_def)
qed

lemma series_round:
  assumes "series_ok hdr_enc hdr_dec copy st final imgs" "plain_path copy"
    and "nextRound (df_found st) copy fuel 1 = Some n"
  shows "n = length imgs"
proof -
  from nextRound_first [OF assms(3)] have n: "1 \<le> n" "df_files st (round_delta copy n) = None"
    "\<And>k. 1 \<le> k \<Longrightarrow> k < n \<Longrightarrow> df_files st (round_delta copy k) \<noteq> None" by (auto simp: df_found_def)
  from assms(1) have free: "df_files st (round_delta copy (length imgs)) = None" and "imgs \<noteq> []"
    by (simp_all add: series_ok_def)
  then have "\<not> length imgs < n" using n(3) [of "length imgs"] by (cases imgs) auto
  moreover have "\<not> n < length imgs"
  proof
    assume "n < length imgs"
    with n(1) obtain m where "n = Suc m" "Suc m < length imgs" by (cases n) auto
    then show False using assms(1) n(2) by (auto simp: series_ok_def)
  qed
  ultimately show ?thesis by simp
qed

lemma writeDiskDelta_frame:
  assumes "writeDiskDelta FE hdr_enc dst ref src st = (r, st')" "p \<noteq> dst" "p \<noteq> dst @ ''.tmp''"
  shows "df_files st' p = df_files st p"
proof -
  have "touches {dst, dst @ ''.tmp''} (writeDiskDelta FE hdr_enc dst ref src)"
    unfolding writeDiskDelta_def Let_def
    by (intro touches_bind touches_files(1)) (auto simp: touches_def intro!: writeDeltaFile_atomic(2) [OF prod.collapse [symmetric]])
  from touchesD [OF this assms(1)] assms(2,3) show ?thesis by simp
qed

text \<open>A delta written from the reference to a file that holds the next image.\<close>

lemma delta_written:
  assumes "writeDiskDelta FE hdr_enc dst ref src st = (Inr u, st')" "extents_law FE" "\<forall>h. hdr_dec (hdr_enc h) = Inr h"
    and "df_files st ref = Some f" "df_files st src = Some g" "int (length g) \<le> MaxInt64"
  shows "\<exists>file. df_files st' dst = Some file \<and> (int (length file) \<le> MaxInt64 \<longrightarrow> leads hdr_enc hdr_dec f g file)"
proof -
  from assms(1) obtain refs curs where E: "FE (df_files st) ref = Inr refs" "FE (df_files st) src = Inr curs"
    by (auto simp: writeDiskDelta_def act_bind_Inr dest!: df_open_Inr)
  from assms(2) obtain store where "\<And>p es f. FE (df_files st) p = Inr es \<Longrightarrow> df_files st p = Some f \<Longrightarrow> backs store es f"
    unfolding extents_law_def by blast
  with E assms(4,5) have "backs store refs f" "backs store curs g" by blast+
  moreover let ?h = "round_header refs curs g"
  have "df_files st' dst = Some (delta_file hdr_enc ?h g)" by (rule writeDiskDelta_Inr [OF assms(1,4,5) E])
  moreover have "int (length (hdr_enc ?h)) \<le> MaxInt64" if "int (length (delta_file hdr_enc ?h g)) \<le> MaxInt64"
    using that by (simp add: delta_file_def)
  ultimately show ?thesis using assms(3,6) unfolding leads_def by blast
qed

lemma df_reflink_Inr:
  assumes "df_reflink dst src st = (Inr u, st')"
  shows "df_files st' = (df_files st)(dst := df_files st src)"
proof -
  from assms obtain d s where "df_open src st = (Inr d, s)" and c: "df_call (\<lambda>_ m. m(dst := None)) (df_set dst d) s = (Inr u, st')"
    by (auto simp: df_reflink_def act_bind_Inr)
  then have "df_files st src = Some d" "df_files s = df_files st" using df_open_Inr by blast+
  moreover have "df_files st' = (df_files s)(dst \<mapsto> d)"
    using c by (cases "df_faults s" rule: list.exhaust) (auto simp: df_call_def df_set_def df_put_def split: option.splits)
  ultimately show ?thesis by simp
qed

text \<open>A step that adds the delta of the next image.\<close>

lemma series_grow:
  assumes ok: "series_ok hdr_enc hdr_dec copy st False imgs" and "plain_path copy"
    and dlt: "df_files st' (round_delta copy (length imgs)) = Some dlt"
      "int (length dlt) \<le> MaxInt64 \<longrightarrow> leads hdr_enc hdr_dec (last imgs) img dlt"
    and copied: "df_files st' copy = df_files st copy"
    and deltas: "\<And>n. n \<noteq> length imgs \<Longrightarrow> df_files st' (round_delta copy n) = df_files st (round_delta copy n)"
    and ref: "\<not> final \<longrightarrow> df_files st' (cur_ref st' copy) = Some img"
  shows "series_ok hdr_enc hdr_dec copy st' final (imgs @ [img])"
proof -
  have "\<exists>f. df_files st' (round_delta copy (Suc n)) = Some f \<and>
      (int (length f) \<le> MaxInt64 \<longrightarrow> leads hdr_enc hdr_dec ((imgs @ [img]) ! n) ((imgs @ [img]) ! Suc n) f)"
    if "Suc n < length (imgs @ [img])" for n
  proof (cases "Suc n = length imgs")
    case True
    then have "(imgs @ [img]) ! n = last imgs" using ok by (simp add: nth_append last_conv_nth series_ok_def flip: True)
    then show ?thesis using dlt True by (simp add: nth_append)
  next
    case False
    then show ?thesis using that ok deltas by (auto simp: nth_append series_ok_def)
  qed
  then show ?thesis using ok copied deltas ref unfolding series_ok_def by auto
qed

lemma series_invariant:
  assumes "disk_series FE hdr_enc copy live st final imgs" "plain_path copy"
    and "extents_law FE" "\<forall>h. hdr_dec (hdr_enc h) = Inr h"
  shows "series_ok hdr_enc hdr_dec copy st final imgs"
  using assms(1)
proof (induction rule: disk_series.induct)
  case (baseline st img st')
  have "df_files st' = (df_files st)(copy \<mapsto> img)" using df_reflink_Inr [OF baseline(3)] baseline(1) by simp
  moreover have "df_files st (copy @ diskRefSuffix) = None" "df_files st (round_delta copy n) = None" for n
    using baseline(2) ref_apart [of copy] delta_apart(1) [OF assms(2)] by (auto simp: disk_files_def)
  ultimately show ?case
    using ref_apart [of copy] delta_apart(1) [OF assms(2)] by (simp add: series_ok_def cur_ref_def df_found_def)
next
  case (others st final imgs st')
  then show ?case using series_ok_cong by blast
next
  case (round st imgs img fuel n st1 st2 st3)
  let ?next = "nextRefPath copy" and ?d = "round_delta copy n"
  note apart = delta_apart [OF assms(2)] ref_apart [of copy]
  have f1: "df_files st1 = (df_files st)(?next \<mapsto> img)" using df_reflink_Inr [OF round.hyps(5)] round.hyps(2) by simp
  have D: "p \<in> disk_files copy" if "p \<in> {copy, copy @ diskRefSuffix, ?next} \<or> (\<exists>k. p = round_delta copy k)" for p
    using that by (auto simp: disk_files_def)
  have n: "n = length imgs" by (rule series_round [OF round.IH assms(2) round.hyps(4)])
  have ok2: "series_ok hdr_enc hdr_dec copy st2 False imgs"
  proof -
    have "series_ok hdr_enc hdr_dec copy st1 False imgs"
      using round.IH apart by (auto simp: series_ok_def cur_ref_def df_found_def f1)
    then show ?thesis using series_ok_cong [OF round.hyps(6)] by blast
  qed
  then have r2: "df_files st2 (cur_ref st2 copy) = Some (last imgs)" "df_files st2 ?next = Some img"
    using round.hyps(6) D [of ?next] f1 by (auto simp: series_ok_def)
  from round.hyps(7) obtain st' where w: "writeDiskDelta FE hdr_enc ?d (cur_ref st2 copy) ?next st2 = (Inr (), st')"
    and mv: "df_rename ?next (copy @ diskRefSuffix) st' = (Inr (), st3)"
    by (auto simp: writeRoundDelta_def Let_def act_bind_Inr cur_ref_def)
  from delta_written [OF w assms(3,4) r2 round.hyps(3)] obtain dlt where dlt: "df_files st' ?d = Some dlt"
    "int (length dlt) \<le> MaxInt64 \<longrightarrow> leads hdr_enc hdr_dec (last imgs) img dlt" by blast
  have frame: "df_files st' p = df_files st2 p" if "p \<in> disk_files copy" "p \<noteq> ?d" for p
    by (rule writeDiskDelta_frame [OF w that(2)]) (use that(1) apart(5) in auto)
  have f3: "df_files st3 = (df_files st')(?next := None, (copy @ diskRefSuffix) := df_files st' ?next)"
    using df_rename_cases [OF mv] apart by simp
  have next': "df_files st' ?next = Some img" using frame [of ?next] apart(3) [of n] r2(2) D [of ?next] by force
  show ?case
  proof (rule series_grow [OF ok2 assms(2), where dlt = dlt])
    show "df_files st3 (round_delta copy (length imgs)) = Some dlt" using dlt(1) f3 apart by (simp add: n [symmetric])
    show "df_files st3 copy = df_files st2 copy" using frame [of copy] D [of copy] f3 apart by (metis fun_upd_apply insertI1)
    show "df_files st3 (round_delta copy k) = df_files st2 (round_delta copy k)" if "k \<noteq> length imgs" for k
      using frame [of "round_delta copy k"] D [of "round_delta copy k"] that f3 apart by (auto simp: n)
    show "\<not> False \<longrightarrow> df_files st3 (cur_ref st3 copy) = Some img"
      using next' apart by (simp add: cur_ref_def df_found_def f3)
  qed (rule dlt(2))
next
  case (final st imgs img fuel n st')
  let ?d = "round_delta copy n"
  note apart = delta_apart [OF assms(2)] ref_apart [of copy]
  have n: "n = length imgs" by (rule series_round [OF final.IH assms(2) final.hyps(4)])
  have r: "df_files st (cur_ref st copy) = Some (last imgs)" using final.IH by (simp add: series_ok_def)
  have w: "writeDiskDelta FE hdr_enc ?d (cur_ref st copy) live st = (Inr (), st')"
    using final.hyps(5) by (simp add: writeRoundDelta_def Let_def cur_ref_def)
  from delta_written [OF w assms(3,4) r final.hyps(2,3)] obtain dlt where dlt: "df_files st' ?d = Some dlt"
    "int (length dlt) \<le> MaxInt64 \<longrightarrow> leads hdr_enc hdr_dec (last imgs) img dlt" by blast
  have frame: "df_files st' p = df_files st p" if "p \<in> disk_files copy" "p \<noteq> ?d" for p
    by (rule writeDiskDelta_frame [OF w that(2)]) (use that(1) apart(5) in auto)
  show ?case
  proof (rule series_grow [OF final.IH assms(2), where dlt = dlt])
    show "df_files st' (round_delta copy (length imgs)) = Some dlt" using dlt(1) by (simp add: n [symmetric])
    show "df_files st' copy = df_files st copy" using frame [of copy] apart(1) [of n] by (force simp: disk_files_def)
    show "df_files st' (round_delta copy k) = df_files st (round_delta copy k)" if "k \<noteq> length imgs" for k
      using frame [of "round_delta copy k"] that apart by (auto simp: n disk_files_def)
  qed (use dlt in simp_all)
qed

text \<open>
  C6. A live migration carries the disks. Take any series of rounds: a baseline, rounds that freeze each disk, resume the
  guest and write the delta of the frozen image against the reference of the round before, and a last round against
  the paused disk, with the guest and other disks changing files all the while. Once the directory has been sent, the
  replay on the receiver succeeds and every disk is, byte for byte, the image its last round froze.
\<close>

theorem migration_carries_disks:
  assumes "\<forall>d \<in> set disks. disk_series FE hdr_enc (Join [dir, d]) (live d) st (fin d) (imgs d) \<and> length (imgs d) = Suc rounds"
    and "extents_law FE" "\<forall>h. hdr_dec (hdr_enc h) = Inr h"
    and "\<forall>d \<in> set disks. \<forall>n < rounds. \<forall>f. df_files st (Join [dir, diskDeltaName d (Suc n)]) = Some f \<longrightarrow> int (length f) \<le> MaxInt64"
    and "dir \<noteq> ''''" "\<forall>d \<in> set disks. d \<noteq> '''' \<and> CHR ''/'' \<notin> set d" "distinct disks"
    and "\<forall>d \<in> set disks. df_files st' (Join [dstDir, d]) = df_files st (Join [dir, d]) \<and>
      (\<forall>n. df_files st' (Join [srcDir, diskDeltaName d n]) = df_files st (Join [dir, diskDeltaName d n]))"
    and "\<forall>d \<in> set disks. \<forall>e n. Join [srcDir, diskDeltaName e n] \<noteq> Join [dstDir, d]"
    and "df_faults st' = []"
  shows "\<exists>st''. ApplyDiskDeltas hdr_dec dstDir srcDir disks rounds st' = (Inr (), st'') \<and>
    (\<forall>d \<in> set disks. df_files st'' (Join [dstDir, d]) = Some (last (imgs d)))"
proof -
  have S: "df_files st (Join [dir, d]) = Some (imgs d ! 0)"
    "n < rounds \<Longrightarrow> \<exists>file. df_files st (Join [dir, diskDeltaName d (Suc n)]) = Some file \<and>
       leads hdr_enc hdr_dec (imgs d ! n) (imgs d ! Suc n) file" if d: "d \<in> set disks" for d n
  proof -
    have p: "plain_path (Join [dir, d])" using assms(5,6) d unfolding plain_path_def by blast
    have delta: "round_delta (Join [dir, d]) k = Join [dir, diskDeltaName d k]" for k
      using assms(5,6) d by (simp add: round_delta_def Dir_Join Base_Join)
    have s: "series_ok hdr_enc hdr_dec (Join [dir, d]) st (fin d) (imgs d)" "length (imgs d) = Suc rounds"
      using series_invariant [OF _ p assms(2,3)] assms(1) d by blast+
    then show "df_files st (Join [dir, d]) = Some (imgs d ! 0)" by (auto simp: series_ok_def hd_conv_nth)
    show "\<exists>file. df_files st (Join [dir, diskDeltaName d (Suc n)]) = Some file \<and>
       leads hdr_enc hdr_dec (imgs d ! n) (imgs d ! Suc n) file" if "n < rounds"
      using s that assms(4) d unfolding series_ok_def delta by fastforce
  qed
  have "\<exists>st''. ApplyDiskDeltas hdr_dec dstDir srcDir disks rounds st' = (Inr (), st'') \<and>
    (\<forall>d \<in> set disks. df_files st'' (Join [dstDir, d]) = Some (imgs d ! rounds)) \<and>
    (\<forall>p. p \<notin> (\<lambda>d. Join [dstDir, d]) ` set disks \<longrightarrow> df_files st'' p = df_files st' p)"
    by (rule disk_rounds_converge [where enc = hdr_enc])
      (use S assms(7-10) in \<open>auto simp: inj_on_def Join_def\<close>)
  moreover have "last (imgs d) = imgs d ! rounds" if "d \<in> set disks" for d
    using assms(1) that by (metis diff_Suc_1 last_conv_nth length_0_conv nat.simps(3))
  ultimately show ?thesis by auto
qed

section \<open>A series of three rounds on one disk\<close>

text \<open>Extents on a storage that has each byte value once, and a header in unary.\<close>

definition byte_extents :: "(string \<rightharpoonup> string) \<Rightarrow> string \<Rightarrow> Extent list res" where
  "byte_extents m p =
     (case m p of
        None \<Rightarrow> Inl ErrNotExist
      | Some f \<Rightarrow> Inr (map (\<lambda>i. \<lparr>ex_Logical = int i, ex_Physical = of_char (f ! i), ex_Length = 1, ex_Unwritten = False\<rparr>) [0..<length f]))"

lemma byte_extents_skip:
  assumes "p < n"
  shows "skip_extents (map (\<lambda>i. \<lparr>ex_Logical = int i, ex_Physical = g i, ex_Length = 1, ex_Unwritten = False\<rparr>) [0..<n]) (int p) =
    map (\<lambda>i. \<lparr>ex_Logical = int i, ex_Physical = g i, ex_Length = 1, ex_Unwritten = False\<rparr>) [p..<n]"
proof -
  have "[0..<n] = [0..<p] @ p # [Suc p..<n]" "[p..<n] = p # [Suc p..<n]"
    using assms upt_add_eq_append [of 0 p "n - p"] by (simp_all add: upt_conv_Cons)
  then show ?thesis unfolding skip_extents_def by (simp add: dropWhile_append2 dropWhile_append)
qed

lemma byte_extents_law: "extents_law byte_extents"
  unfolding extents_law_def
proof (intro allI exI impI)
  fix m p es f
  let ?x = "\<lambda>i. \<lparr>ex_Logical = int i, ex_Physical = of_char (f ! i), ex_Length = 1, ex_Unwritten = False\<rparr>"
  assume "byte_extents m p = Inr es \<and> m p = Some f"
  then have es: "es = map ?x [0..<length f]" by (simp add: byte_extents_def split: option.splits)
  show "backs (\<lambda>a. char_of (nat a)) es f"
  proof (rule backs_check)
    show "\<forall>x \<in> set es. 0 \<le> ex_Length x \<and> ex_Logical x + ex_Length x \<le> int (length f)"
      by (auto simp: es)
    show "\<forall>q \<in> set [0..<length f]. mbyte (\<lambda>a. char_of (nat a)) (map_at es (int q)) = f ! q"
    proof
      fix q assume "q \<in> set [0..<length f]"
      then have "skip_extents es (int q) = ?x q # map ?x [Suc q..<length f]"
        using byte_extents_skip [of q "length f" "\<lambda>i. of_char (f ! i)"] unfolding es by (simp add: upt_conv_Cons)
      then show "mbyte (\<lambda>a. char_of (nat a)) (map_at es (int q)) = f ! q"
        by (simp add: map_at_def extentAt_def mbyte_def reads_zero_def)
    qed
  qed
qed

definition unary :: "int \<Rightarrow> string" where
  "unary i = (if i < 0 then CHR ''-'' else CHR ''+'') # replicate (nat \<bar>i\<bar>) (CHR ''i'') @ '';''"

definition read_unary :: "string \<Rightarrow> int \<times> string" where
  "read_unary s =
     (let n = length (takeWhile (\<lambda>c. c = CHR ''i'') (tl s))
      in (if hd s = CHR ''-'' then - int n else int n, drop (Suc n) (tl s)))"

definition unary_range :: "deltaRange \<Rightarrow> string" where
  "unary_range r = unary (rg_Offset r) @ unary (rg_Length r) @ (if rg_Zero r then ''z'' else ''d'')"

definition unary_header :: "diskDelta \<Rightarrow> string" where
  "unary_header h = unary (dd_Size h) @ concat (map unary_range (dd_Ranges h))"

fun read_ranges :: "nat \<Rightarrow> string \<Rightarrow> deltaRange list" where
  "read_ranges 0 s = []"
| "read_ranges (Suc k) s =
     (if s = '''' then []
      else (let (off, s1) = read_unary s; (len, s2) = read_unary s1
            in \<lparr>rg_Offset = off, rg_Length = len, rg_Zero = (hd s2 = CHR ''z'')\<rparr> # read_ranges k (tl s2)))"

definition read_header :: "string \<Rightarrow> diskDelta res" where
  "read_header s = (let (n, s1) = read_unary s in Inr \<lparr>dd_Size = n, dd_Ranges = read_ranges (length s1) s1\<rparr>)"

lemma read_unary [simp]: "read_unary (unary i @ s) = (i, s)"
proof -
  have "takeWhile (\<lambda>c. c = CHR ''i'') (replicate n (CHR ''i'') @ CHR '';'' # s) = replicate n (CHR ''i'')" for n
    by (subst takeWhile_append2) auto
  then show ?thesis by (simp add: read_unary_def unary_def Let_def)
qed

lemma unary_ne [simp]: "unary i @ s \<noteq> []"
  by (simp add: unary_def)

lemma read_ranges_unary:
  "length rs \<le> k \<Longrightarrow> read_ranges k (concat (map unary_range rs)) = rs"
proof (induction rs arbitrary: k)
  case Nil
  then show ?case by (cases k) simp_all
next
  case (Cons r rs)
  then obtain j where "k = Suc j" "length rs \<le> j" by (cases k) auto
  then show ?case using Cons.IH [of j] by (cases r) (simp add: unary_range_def del: append_is_Nil_conv)
qed

lemma unary_ranges_length: "length rs \<le> length (concat (map unary_range rs))"
  by (induction rs) (auto simp: unary_range_def)

lemma read_unary_header: "read_header (unary_header h) = Inr h"
  using unary_ranges_length [of "dd_Ranges h"] by (cases h) (simp add: read_header_def unary_header_def read_ranges_unary)

lemma byte_headers:
  "byte_extents m p = Inr refs \<Longrightarrow> m p = Some ''ab'' \<Longrightarrow> byte_extents m q = Inr curs \<Longrightarrow> m q = Some ''axc'' \<Longrightarrow>
    round_header refs curs ''axc'' = \<lparr>dd_Size = 3, dd_Ranges = [\<lparr>rg_Offset = 1, rg_Length = 2, rg_Zero = False\<rparr>]\<rparr>"
  "byte_extents m p = Inr refs \<Longrightarrow> m p = Some ''axc'' \<Longrightarrow> byte_extents m q = Inr curs \<Longrightarrow> m q = Some ''zxc'' \<Longrightarrow>
    round_header refs curs ''zxc'' = \<lparr>dd_Size = 3, dd_Ranges = [\<lparr>rg_Offset = 0, rg_Length = 1, rg_Zero = False\<rparr>]\<rparr>"
  by (auto simp: byte_extents_def upt_rec round_header_def diffExtents_def extentAt_def skip_extents_def
      eval_nat_numeral Let_def add_range_def no_mapping_def MaxInt64_def)

lemma byte_write:
  assumes "df_faults st = []" "df_files st ref = Some f" "df_files st src = Some g" "int (length g) \<le> MaxInt64"
    and "\<And>refs curs. byte_extents (df_files st) ref = Inr refs \<Longrightarrow> byte_extents (df_files st) src = Inr curs \<Longrightarrow> round_header refs curs g = h"
  shows "writeDiskDelta byte_extents unary_header dst ref src st =
    (Inr (), st\<lparr>df_files := (df_files st)(dst @ ''.tmp'' := None, dst \<mapsto> delta_file unary_header h g)\<rparr>)"
proof -
  obtain refs curs where E: "byte_extents (df_files st) ref = Inr refs" "byte_extents (df_files st) src = Inr curs"
    using assms(2,3) by (simp add: byte_extents_def)
  moreover obtain store where "backs store refs f" "backs store curs g"
    using byte_extents_law E assms(2,3) unfolding extents_law_def by blast
  ultimately show ?thesis using writeDiskDelta_run [where FileExtents = byte_extents, OF assms(1-4) E] assms(5) [OF E] by simp
qed

lemma df_reflink_run: "df_faults st = [] \<Longrightarrow> df_files st src = Some d \<Longrightarrow> df_reflink dst src st = (Inr (), df_put st dst d)"
  by (simp add: df_reflink_def act_bind_def df_open_def df_call_def df_set_def)

text \<open>A disk of two bytes that the guest changes, also while the first delta is being written.\<close>

definition mig_copy :: string where "mig_copy = ''/s/cow.raw''"
definition mig_live :: string where "mig_live = ''/run/cow.raw''"

definition mig_h1 :: diskDelta where
  "mig_h1 = \<lparr>dd_Size = 3, dd_Ranges = [\<lparr>rg_Offset = 1, rg_Length = 2, rg_Zero = False\<rparr>]\<rparr>"

definition mig_h2 :: diskDelta where
  "mig_h2 = \<lparr>dd_Size = 3, dd_Ranges = [\<lparr>rg_Offset = 0, rg_Length = 1, rg_Zero = False\<rparr>]\<rparr>"

definition mig_based :: dfs where
  "mig_based = \<lparr>df_files = [mig_copy \<mapsto> ''ab'', mig_live \<mapsto> ''axc''], df_faults = []\<rparr>"

definition mig_rounded :: dfs where
  "mig_rounded = \<lparr>df_files = [mig_copy \<mapsto> ''ab'', mig_live \<mapsto> ''zxc'', ''/s/cow.raw.delta.1'' \<mapsto> delta_file unary_header mig_h1 ''axc'',
     ''/s/cow.raw.ref'' \<mapsto> ''axc''], df_faults = []\<rparr>"

definition mig_sent :: dfs where
  "mig_sent = \<lparr>df_files = (df_files mig_rounded)(''/s/cow.raw.delta.2'' \<mapsto> delta_file unary_header mig_h2 ''zxc''), df_faults = []\<rparr>"

lemma mig_names:
  "round_delta mig_copy 1 = ''/s/cow.raw.delta.1''" "round_delta mig_copy (Suc 0) = ''/s/cow.raw.delta.1''"
  "round_delta mig_copy 2 = ''/s/cow.raw.delta.2''" "nextRefPath mig_copy = ''/s/cow.raw.next.ref''"
  "mig_copy @ diskRefSuffix = ''/s/cow.raw.ref''" "mig_copy = Join [''/s'', ''cow.raw'']"
  by code_simp+

lemma mig_live_apart: "mig_live \<notin> disk_files mig_copy"
proof -
  have "plain_path mig_copy" unfolding plain_path_def mig_names(6) by (intro exI [of _ "''/s''"] exI [of _ "''cow.raw''"]) simp
  then show ?thesis by (auto simp: disk_files_def delta_path mig_names(4,5)) (simp_all add: mig_live_def mig_copy_def)
qed

lemma mig_series:
  "disk_series byte_extents unary_header mig_copy mig_live mig_based False [''ab'']"
  "disk_series byte_extents unary_header mig_copy mig_live mig_rounded False [''ab'', ''axc'']"
  "disk_series byte_extents unary_header mig_copy mig_live mig_sent True [''ab'', ''axc'', ''zxc'']"
proof -
  let ?s0 = "\<lparr>df_files = [mig_live \<mapsto> ''ab''], df_faults = []\<rparr>"
  have ne: "mig_copy \<noteq> mig_live" "mig_live \<noteq> mig_copy" by (simp_all add: mig_copy_def mig_live_def)
  have "disk_series byte_extents unary_header mig_copy mig_live (df_put ?s0 mig_copy ''ab'') False [''ab'']"
  proof (rule disk_series.baseline)
    show "\<forall>p \<in> disk_files mig_copy - {mig_copy}. df_files ?s0 p = None" using mig_live_apart by auto
  qed (simp_all add: df_reflink_run)
  then show B: "disk_series byte_extents unary_header mig_copy mig_live mig_based False [''ab'']"
    by (rule disk_series.others) (use mig_live_apart in \<open>auto simp: mig_based_def ne\<close>)
  let ?f = "df_put mig_based (nextRefPath mig_copy) ''axc''"
  let ?g = "df_put ?f mig_live ''zxc''"
  show R: "disk_series byte_extents unary_header mig_copy mig_live mig_rounded False [''ab'', ''axc'']"
  proof (rule disk_series.round [OF B, where img = "''axc''", simplified])
    show "nextRound (df_found mig_based) mig_copy 1 (Suc 0) = Some 1"
      by (simp add: mig_names(1-5)) (simp add: df_found_def mig_based_def mig_copy_def mig_live_def)
    show "df_reflink (nextRefPath mig_copy) mig_live mig_based = (Inr (), ?f)"
      by (rule df_reflink_run) (simp_all add: mig_based_def)
    show "\<forall>p \<in> disk_files mig_copy. df_files ?g p = df_files ?f p" using mig_live_apart by auto
    have f: "df_files ?g mig_copy = Some ''ab''" "df_files ?g ''/s/cow.raw.next.ref'' = Some ''axc''"
      by (simp_all add: mig_based_def mig_names(1-5)) (simp_all add: mig_copy_def mig_live_def)
    have "writeDiskDelta byte_extents unary_header ''/s/cow.raw.delta.1'' mig_copy ''/s/cow.raw.next.ref'' ?g =
      (Inr (), ?g\<lparr>df_files := (df_files ?g)(''/s/cow.raw.delta.1'' @ ''.tmp'' := None,
        ''/s/cow.raw.delta.1'' \<mapsto> delta_file unary_header mig_h1 ''axc'')\<rparr>)"
      by (rule byte_write) (use f byte_headers(1) in \<open>simp_all add: mig_based_def mig_h1_def MaxInt64_def\<close>)
    then show "writeRoundDelta df_found (writeDiskDelta byte_extents unary_header) df_rename (mig_copy, mig_live) 1 False ?g = (Inr (), mig_rounded)"
      by (simp add: writeRoundDelta_def Let_def mig_names(1-5) act_bind_def)
        (simp add: df_found_def df_rename_def df_call_def mig_based_def mig_rounded_def mig_copy_def mig_live_def df_put_def fun_eq_iff)
  qed (simp_all add: mig_based_def MaxInt64_def)
  show "disk_series byte_extents unary_header mig_copy mig_live mig_sent True [''ab'', ''axc'', ''zxc'']"
  proof (rule disk_series.final [OF R, where img = "''zxc''", simplified])
    show "nextRound (df_found mig_rounded) mig_copy 2 (Suc 0) = Some 2"
      by (simp add: eval_nat_numeral) (simp add: mig_names(1-5) flip: numeral_2_eq_2, simp add: df_found_def mig_rounded_def mig_copy_def mig_live_def)
    have f: "df_files mig_rounded ''/s/cow.raw.ref'' = Some ''axc''" "df_files mig_rounded mig_live = Some ''zxc''"
      by (simp_all add: mig_rounded_def mig_copy_def mig_live_def)
    have "writeDiskDelta byte_extents unary_header ''/s/cow.raw.delta.2'' ''/s/cow.raw.ref'' mig_live mig_rounded =
      (Inr (), mig_rounded\<lparr>df_files := (df_files mig_rounded)(''/s/cow.raw.delta.2'' @ ''.tmp'' := None,
        ''/s/cow.raw.delta.2'' \<mapsto> delta_file unary_header mig_h2 ''zxc'')\<rparr>)"
      by (rule byte_write) (use f byte_headers(2) in \<open>simp_all add: mig_rounded_def mig_h2_def MaxInt64_def\<close>)
    then show "writeRoundDelta df_found (writeDiskDelta byte_extents unary_header) df_rename (mig_copy, mig_live) 2 True mig_rounded = (Inr (), mig_sent)"
      by (simp add: writeRoundDelta_def Let_def mig_names(1-5))
        (simp add: df_found_def mig_rounded_def mig_sent_def mig_copy_def mig_live_def fun_eq_iff)
  qed (simp_all add: mig_rounded_def mig_copy_def mig_live_def MaxInt64_def)
qed

theorem migration_carries_disks_witness:
  "\<exists>st. ApplyDiskDeltas read_header ''/vm'' ''/s'' [''cow.raw''] 2 (df_put mig_sent ''/vm/cow.raw'' ''ab'') = (Inr (), st) \<and>
     df_files st ''/vm/cow.raw'' = Some ''zxc''"
proof -
  have j: "Join [''/vm'', ''cow.raw''] = ''/vm/cow.raw''" "Join [''/s'', ''cow.raw''] = mig_copy" by (simp_all add: Join_def mig_names)
  have d: "Join [''/s'', diskDeltaName e n] \<noteq> ''/vm/cow.raw''" for e n by (simp add: Join_def)
  have n: "Join [''/s'', diskDeltaName ''cow.raw'' (Suc 0)] = ''/s/cow.raw.delta.1''"
    "Join [''/s'', diskDeltaName ''cow.raw'' (Suc 1)] = ''/s/cow.raw.delta.2''" by code_simp+
  have sz: "int (length f) \<le> MaxInt64" if "k < 2" "df_files mig_sent (Join [''/s'', diskDeltaName ''cow.raw'' (Suc k)]) = Some f" for k f
  proof -
    have "df_files mig_sent ''/s/cow.raw.delta.1'' = Some f \<or> df_files mig_sent ''/s/cow.raw.delta.2'' = Some f"
      using that n by (cases "k = 0") (auto simp: less_2_cases_iff)
    then show ?thesis
      by (auto simp: mig_sent_def mig_rounded_def mig_copy_def mig_live_def
          delta_file_def unary_header_def unary_range_def unary_def mig_h1_def mig_h2_def body_of_def segment_def MaxInt64_def)
  qed
  show ?thesis
    using migration_carries_disks [where disks = "[''cow.raw'']" and dir = "''/s''" and rounds = 2 and live = "\<lambda>_. mig_live"
        and st = mig_sent and fin = "\<lambda>_. True" and imgs = "\<lambda>_. [''ab'', ''axc'', ''zxc'']" and dstDir = "''/vm''" and srcDir = "''/s''"
        and st' = "df_put mig_sent ''/vm/cow.raw'' ''ab''" and FE = byte_extents and hdr_enc = unary_header and hdr_dec = read_header]
      mig_series(3) byte_extents_law read_unary_header sz d
    by (simp add: j) (simp add: mig_sent_def mig_rounded_def mig_copy_def mig_live_def)
qed

section \<open>The guest after a round\<close>

text \<open>
  What a round relies on to leave the guest in the right state: \<open>live\<close> says that the guest runs, a pause that
  succeeds stops it, a resume starts it, and nothing else that a round does changes it.
\<close>

definition guest_laws ::
    "('k \<Rightarrow> bool) \<Rightarrow> 'k backend \<Rightarrow> VMRecord \<Rightarrow> ('k, 'm) MigrateSpec \<Rightarrow> string \<Rightarrow> 'k roundSteps \<Rightarrow> bool" where
  "guest_laws live b rec spec dir steps \<longleftrightarrow>
     (\<forall>k k'. ss_Pause (ms_Snapshot spec) rec k = (Inr (), k') \<longrightarrow> \<not> live k') \<and>
     (\<forall>k. \<exists>k'. ss_Resume (ms_Snapshot spec) rec k = (Inr (), k') \<and> live k') \<and>
     (\<forall>f \<in> {ss_Capture (ms_Snapshot spec) rec dir, ms_EndSeries spec rec, st_before steps, st_inPause steps, st_afterPause steps,
        sys_removeall (bk_os b) dir}. \<forall>k. live (snd (f k)) = live k)"

lemma guest_steps:
  assumes "guest_laws live b rec spec dir steps"
  shows "ss_Pause (ms_Snapshot spec) rec k = (Inr (), k') \<Longrightarrow> \<not> live k'"
    "ss_Resume (ms_Snapshot spec) rec k = (r, k') \<Longrightarrow> live k'"
    "ss_Capture (ms_Snapshot spec) rec dir k = (r, k') \<Longrightarrow> live k' = live k" "ms_EndSeries spec rec k = (r, k') \<Longrightarrow> live k' = live k"
    "st_before steps k = (r, k') \<Longrightarrow> live k' = live k" "st_inPause steps k = (r, k') \<Longrightarrow> live k' = live k"
    "st_afterPause steps k = (r, k') \<Longrightarrow> live k' = live k" "sys_removeall (bk_os b) dir k = (r, k') \<Longrightarrow> live k' = live k"
  using assms unfolding guest_laws_def by (metis insertCI snd_conv prod.inject)+

lemma round_run_guest:
  assumes "guest_laws live b rec spec dir steps" "round_run spec rec dir steps k = (Inr u, k')"
  shows "live k' = (\<not> st_final steps)"
proof -
  note g = guest_steps [OF assms(1)]
  from assms(2) obtain k1 k2 k3 k4 k5 where r: "st_before steps k = (Inr (), k1)" "ss_Pause (ms_Snapshot spec) rec k1 = (Inr (), k2)"
    "ss_Capture (ms_Snapshot spec) rec dir k2 = (Inr (), k3)" "st_inPause steps k3 = (Inr (), k4)"
    "(if st_final steps then act_return () else ss_Resume (ms_Snapshot spec) rec) k4 = (Inr (), k5)" "st_afterPause steps k5 = (Inr u, k')"
    by (auto simp: round_run_def act_bind_Inr)
  have "\<not> live k4" "live k' = live k5" using g(1) [OF r(2)] g(3) [OF r(3)] g(6) [OF r(4)] g(7) [OF r(6)] by simp_all
  then show ?thesis using r(5) g(2) [of k4 "Inr ()" k5] by (auto simp: act_return_def split: if_splits)
qed

lemma round_failed_guest:
  assumes "guest_laws live b rec spec dir steps"
    and "both (ss_Resume (ms_Snapshot spec) rec) (ms_EndSeries spec rec) k = (r, k')"
  shows "live k'"
  using assms(2) guest_steps(2,4) [OF assms(1)]
  by (auto simp: both_def act_try_def act_res_def split: prod.splits)

lemma drop_series_guest:
  assumes "guest_laws live b rec spec dir steps" "drop_series b dir e v = (x, v')" "live (w_host v)"
  shows "(\<exists>e'. x = Inl e') \<and> live (w_host v')"
  using assms(2,3) guest_steps(8) [OF assms(1)]
  by (auto simp: drop_series_def act_bind_def act_ignore_def act_try_def on_host_def act_return_def act_fail_def split: prod.splits sum.splits)

lemma round_window_guest:
  assumes "guest_laws live b rec spec dir steps" "live (w_host w)"
    and "withRunningVM b rec None (\<lambda>_. round_window spec rec dir steps) w = (x, v)"
  shows "case x of Inl _ \<Rightarrow> live (w_host v) | Inr _ \<Rightarrow> live (w_host v) = (\<not> st_final steps)"
  using assms(2,3) round_run_guest [OF assms(1)] round_failed_guest [OF assms(1)]
  by (auto simp: withRunningVM_def round_window_def act_try_def on_host_def act_return_def act_fail_def split: prod.splits sum.splits)


end
