(* ===== verification/Node.thy ===== *)
theory Node
  imports VmNode Firecracker Migrate
begin

text \<open>
  The drivers as instances of the locale \<open>vm_driver\<close>, and what follows for nodes that run them.
\<close>

section \<open>The Firecracker driver\<close>

lemma fc_devices_keep:
  "keeps (vm_inv q) (fc_DiskAttach E b ev roots ref spec)" "keeps (vm_inv q) (fc_DiskDetach E b ref name)"
  "keeps (vm_inv q) (fc_NetResize E b pl ref target)"
  unfolding fc_DiskAttach_def fc_DiskDetach_def fc_NetResize_def fc_lockedDeviceOp_def
  by (intro triple_rules; simp)+

lemma fc_batches_keep: "keeps (vm_inv q) (fc_Start E b refs)" "keeps (vm_inv q) (fc_Stop E b refs)"
  unfolding fc_Start_def fc_Stop_def by (intro StartAll_keeps StopAll_keeps fc_lifecycle_keeps)+

text \<open>The operations of the driver.\<close>

inductive fc_call :: "'k fcenv \<Rightarrow> 'k backend \<Rightarrow> ('k, unit) vmact \<Rightarrow> bool" for E b where
  "supervisor_call b m \<Longrightarrow> fc_call E b m"
| "fc_call E b (void (fc_Create E b vid cfg disks net boot))"
| "fc_call E b (void (fc_Clone E b vid cfg net snap mtus populate))"
| "fc_call E b (void (fc_DirectClone E b vid cfg net snap mtus srcDir))"
| "fc_call E b (void (fc_Start E b refs))"
| "fc_call E b (void (fc_Stop E b refs))"
| "fc_call E b (void (fc_ReconcileToRunning E b vid))"
| "fc_call E b (void (fc_Snapshot E b ref))"
| "fc_call E b (void (fc_Hibernate E b ref persist))"
| "fc_call E b (void (fc_DiskAttach E b ev roots ref spec))"
| "fc_call E b (void (fc_DiskDetach E b ref name))"
| "fc_call E b (void (fc_NetResize E b pl ref target))"

text \<open>A restore keeps the VM's name, as its callers do.\<close>

inductive fc_quiet :: "'k fcenv \<Rightarrow> 'k backend \<Rightarrow> vmdb \<Rightarrow> ('k, unit) vmact \<Rightarrow> bool" for E b where
  "fc_quiet E b db (void (fc_Delete E b refs force))"
| "restores ref (Name cfg) db \<Longrightarrow> fc_quiet E b db (void (fc_Restore E b ref cfg extract src))"
| "restores ref (Name cfg) db \<Longrightarrow> fc_quiet E b db (void (fc_DirectRestore E b ref cfg d src))"

lemma fc_calls_keep: "fc_call E b m \<Longrightarrow> keeps (vm_inv q) m"
  by (induction rule: fc_call.induct)
    (intro supervisor_keeps void_keeps fc_lifecycle_keeps fc_Clone_keeps fc_batches_keep fc_ReconcileToRunning_keeps fc_devices_keep; assumption)+

lemma fc_quiets_keep: "fc_quiet E b db m \<Longrightarrow> triple (\<lambda>w. vm_inv True w \<and> w_db w = db) m (\<lambda>_. vm_inv True)"
proof (induction rule: fc_quiet.induct)
  case (1 refs force)
  show ?case by (rule void_triple, rule triple_weaken [OF fc_Delete_keeps]) auto
next
  case (2 ref cfg x src)
  then show ?case by (intro void_triple triple_weaken [OF fc_Restore_triple]) auto
next
  case (3 ref cfg d src)
  then show ?case by (intro void_triple triple_weaken [OF fc_DirectRestore_triple]) auto
qed

interpretation fc: vm_driver "fc_call E b" "fc_quiet E b" for E :: "'k fcenv" and b
  by unfold_locales (rule fc_calls_keep, assumption, rule fc_quiets_keep)

section \<open>The Cloud Hypervisor driver\<close>

lemma ch_batches_keep: "keeps (vm_inv q) (ch_Start E b refs)" "keeps (vm_inv q) (ch_Stop E b refs)"
  unfolding ch_Start_def ch_Stop_def by (intro StartAll_keeps StopAll_keeps ch_lifecycle_keeps)+

inductive ch_call :: "'k chenv \<Rightarrow> 'k backend \<Rightarrow> ('k, unit) vmact \<Rightarrow> bool" for E b where
  "supervisor_call b m \<Longrightarrow> ch_call E b m"
| "ch_call E b (void (ReconcileToRunning b vid))"
| "ch_call E b (void (ch_Create E b vid cfg disks net boot))"
| "ch_call E b (void (ch_Clone E b vid cfg net snap populate))"
| "ch_call E b (void (ch_DirectClone E b vid cfg net snap srcDir))"
| "ch_call E b (void (ch_Start E b refs))"
| "ch_call E b (void (ch_Stop E b refs))"
| "ch_call E b (void (ch_Snapshot E b ref))"
| "ch_call E b (void (ch_Hibernate E b ref persist))"
| "ch_call E b (void (ch_DiskAttach E b ev roots ref spec))"
| "ch_call E b (void (ch_DiskAttachSnapshot E b ref src))"
| "ch_call E b (void (ch_DiskDetach E b ref name))"
| "ch_call E b (void (FsAttach E b ref fspec))"
| "ch_call E b (void (FsDetach E b ref tag))"
| "ch_call E b (void (DeviceAttach E b ref vspec))"
| "ch_call E b (void (DeviceDetach E b ref did))"
| "ch_call E b (void (ch_NetResize E b pl ref target))"
| "ch_call E b (void (MigrateCapture E b M ref req))"
| "ch_call E b (void (MigrateAbort E b ref series))"
| "ch_call E b (void (MigrateReceive E b M vid cfg net snap srcDir))"

inductive ch_quiet :: "'k chenv \<Rightarrow> 'k backend \<Rightarrow> vmdb \<Rightarrow> ('k, unit) vmact \<Rightarrow> bool" for E b where
  "ch_quiet E b db (void (ch_Delete E b refs force))"
| "restores ref (Name cfg) db \<Longrightarrow> ch_quiet E b db (void (ch_Restore E b ref cfg extract src))"
| "restores ref (Name cfg) db \<Longrightarrow> ch_quiet E b db (void (ch_DirectRestore E b ref cfg d src))"

lemma ch_calls_keep: "ch_call E b m \<Longrightarrow> keeps (vm_inv q) m"
  by (induction rule: ch_call.induct)
    (intro supervisor_keeps void_keeps ch_lifecycle_keeps ch_Clone_keeps ch_batches_keep ReconcileToRunning_keeps ch_devices_keep
      migrate_keeps; assumption)+

lemma ch_quiets_keep: "ch_quiet E b db m \<Longrightarrow> triple (\<lambda>w. vm_inv True w \<and> w_db w = db) m (\<lambda>_. vm_inv True)"
proof (induction rule: ch_quiet.induct)
  case (1 refs force)
  show ?case by (rule void_triple, rule triple_weaken [OF ch_Delete_keeps]) auto
next
  case (2 ref cfg x src)
  then show ?case by (intro void_triple triple_weaken [OF ch_Restore_triple]) auto
next
  case (3 ref cfg d src)
  then show ?case by (intro void_triple triple_weaken [OF ch_DirectRestore_triple]) auto
qed

interpretation ch: vm_driver "ch_call E b" "ch_quiet E b" for E :: "'k chenv" and b
  by unfold_locales (rule ch_calls_keep, assumption, rule ch_quiets_keep)

text \<open>A node runs the operations of one of the drivers.\<close>

definition node_runs :: "'k fcenv \<Rightarrow> 'k chenv \<Rightarrow> 'k backend \<Rightarrow> 'k world \<Rightarrow> bool" where
  "node_runs E E' b w \<longleftrightarrow> node_reach (fc_call E b) (fc_quiet E b) w \<or> node_reach (ch_call E' b) (ch_quiet E' b) w"

lemma node_runs_inv: "node_runs E E' b w \<Longrightarrow> vm_inv False w"
  unfolding node_runs_def using fc.reach_inv ch.reach_inv by blast


text \<open>
  C3. The namespace stays well formed. In every history a record is filed under its own id, its name resolves to
  that id, so two VMs never share a name, the placement row of an id is the placement of its record, and a
  placeholder that is still being created has no start time.
\<close>

theorem namespace_well_formed:
  assumes "node_runs E E' b w" "tget (db_records (w_db w)) vid = Some r"
  shows "ID r = vid \<and> tget (db_names (w_db w)) (Name (Config r)) = Some vid \<and>
    tget (db_placements (w_db w)) vid = placement_row (Some r) \<and>
    (State r = VMStateCreating \<longrightarrow> StartedAt r = None) \<and>
    (\<forall>vid' r'. tget (db_records (w_db w)) vid' = Some r' \<and> Name (Config r') = Name (Config r) \<longrightarrow> vid' = vid)"
proof -
  have ok: "db_ok (w_db w)" using node_runs_inv [OF assms(1)] by (simp add: vm_inv_alt)
  then have "rec_ok vid r" "tget (db_names (w_db w)) (Name (Config r)) = Some vid"
    "tget (db_placements (w_db w)) vid = placement_row (Some r)"
    using assms(2) by (auto simp: db_ok_def)
  moreover have "vid' = vid" if "tget (db_records (w_db w)) vid' = Some r'" "Name (Config r') = Name (Config r)" for vid' r'
    using ok that calculation(2) unfolding db_ok_def by (metis option.inject)
  ultimately show ?thesis by (auto simp: rec_ok_def)
qed

section \<open>A history of a node\<close>

definition demo_phost :: "bool phost" where
  "demo_phost =
     \<lparr>sys_read = (\<lambda>s p. Inl ErrNotExist), sys_write = (\<lambda>p d s. (Inr (), s)), sys_mkdir = (\<lambda>p s. (Inr (), s)),
      sys_mkdirall = (\<lambda>p s. (Inr (), s)), sys_remove = (\<lambda>p s. (Inr (), s)), sys_removeall = (\<lambda>p s. (Inr (), s)),
      sys_readdir = (\<lambda>s p. Inr []), sys_stat = (\<lambda>s p. Inl ErrNotExist), sys_kill0 = (\<lambda>s pid. Inl ErrNotExist),
      sys_signal = (\<lambda>pid sig s. (Inr (), s)), sys_pidfd_open = (\<lambda>s pid. Inr ()),
      sys_pidfd_signal = (\<lambda>pid sig s. (Inr (), s)), sys_pidfd_poll = (\<lambda>pid s. (Inr True, s))\<rparr>"

definition demo_backend :: "bool backend" where
  "demo_backend =
     \<lparr>bk_Typ = ''firecracker'', bk_PinsQueues = False, bk_Binary = ''firecracker'', bk_PIDFileName = ''fc.pid'', bk_RunRoot = ''/run'',
      bk_LogRoot = ''/log'', bk_CgroupParentDir = '''', bk_CgroupCPUFence = '''', bk_NumCPU = 4, bk_host = demo_phost, bk_Net = None,
      bk_lock = (\<lambda>_. demo_ok), bk_trylock = (\<lambda>_ s. (Inr True, s)), bk_unlock = (\<lambda>_. demo_ok), bk_dial = (\<lambda>_ _. Inl ECONNREFUSED),
      bk_mtime = (\<lambda>_ _. Inl ErrNotExist), bk_rename = (\<lambda>_ _. demo_ok), bk_grace = [], bk_hard = [], bk_rmwait = []\<rparr>"

definition demo_boot :: "BootConfig option" where
  "demo_boot = Some \<lparr>KernelPath = ''/lib/boot/k/vmlinuz'', InitrdPath = '''', FirmwarePath = ''''\<rparr>"

definition new_node :: "bool world" where
  "new_node = \<lparr>w_db = \<lparr>db_records = [], db_names = [], db_placements = [], db_tombs = []\<rparr>, w_peers = [], w_ledger = [],
     w_faults = [], w_clock = 1, w_ids = [], w_topo = None, w_host = False\<rparr>"

definition created_node :: "bool world" where
  "created_node = snd (void (fc_Create demo_fc demo_backend ''v1'' demo_cfg [layer_disk ''/lib/blobs/aa.erofs'' ''l0''] zero_net None) new_node)"

definition running_node :: "bool world" where
  "running_node = snd (void (fc_ReconcileToRunning demo_fc demo_backend ''v1'') created_node)"

lemma node_reach_run: "node_reach calls quiet w \<Longrightarrow> calls m \<Longrightarrow> node_reach calls quiet (snd (m w))"
  by (cases "m w") (auto intro: node_reach.call)

lemma created_node_reached: "node_reach (fc_call demo_fc demo_backend) (fc_quiet demo_fc demo_backend) created_node"
proof -
  have "node_reach (fc_call demo_fc demo_backend) (fc_quiet demo_fc demo_backend) new_node"
    by (rule node_reach.fresh) (simp add: fresh_node_def new_node_def faults_ok_def)
  then show ?thesis unfolding created_node_def by (rule node_reach_run) (rule fc_call.intros)
qed

lemma running_node_reached: "node_reach (fc_call demo_fc demo_backend) (fc_quiet demo_fc demo_backend) running_node"
  unfolding running_node_def by (rule node_reach_run [OF created_node_reached]) (rule fc_call.intros)

lemma running_node_runs: "node_runs demo_fc E' demo_backend running_node"
  using running_node_reached by (simp add: node_runs_def)


theorem namespace_well_formed_witness:
  "map_option ID (tget (db_records (w_db running_node)) ''v1'') = Some ''v1'' \<and>
   tget (db_names (w_db running_node)) ''web'' = Some ''v1''"
proof -
  have n: "map_option (Name \<circ> Config) (tget (db_records (w_db running_node)) ''v1'') = Some ''web''" by code_simp
  then obtain r where r: "tget (db_records (w_db running_node)) ''v1'' = Some r" by auto
  from namespace_well_formed [OF running_node_runs r] n r show ?thesis by simp
qed

definition delete_demo :: "unit res \<times> bool world" where
  "delete_demo = deleteOneLocked demo_backend ''v1'' True (\<lambda>v. StopOneLocked demo_backend v (fc_stopSpec demo_fc demo_backend))
     (the (tget (db_records (w_db created_node)) ''v1'')) [] created_node"

theorem delete_fails_closed_witness: "fst delete_demo = Inr () \<and> vm_gone ''v1'' (w_db (snd delete_demo))"
proof -
  have ok: "fst delete_demo = Inr ()" by code_simp
  have "vm_inv False created_node" by (rule fc.reach_inv [OF created_node_reached])
  moreover have "delete_demo = (Inr (), snd delete_demo)" using ok by (metis prod.collapse)
  ultimately show ?thesis
    using ok delete_fails_closed [of False created_node demo_backend "''v1''" True "fc_stopSpec demo_fc demo_backend"
        "the (tget (db_records (w_db created_node)) ''v1'')" "[]" "snd delete_demo"]
    by (simp add: delete_demo_def)
qed

definition no_room :: "SnapshotConfig \<Rightarrow> string \<Rightarrow> (bool, unit) act" where
  "no_room cfg dir k = (Inl ErrNoSpace, k)"


section \<open>A resize whose transaction fails after it was committed\<close>

text \<open>A VMM that lists its devices, and a network that hands out one TAP per slot.\<close>

definition list_nics :: "(string \<times> string) list NICDeviceOps" where
  "list_nics =
     \<lparr>nd_LiveNICs = (\<lambda>k. (Inr [], k)),
      nd_AddNIC = (\<lambda>i nc k. (Inr (CHR ''n'' # concat (map fst k)), (CHR ''n'' # concat (map fst k), nc_TAP nc) # k)),
      nd_RemoveNIC = (\<lambda>d k. (Inr (), filter (\<lambda>p. fst p \<noteq> d) k)), nd_TAPQueues = (\<lambda>_. 2)\<rparr>"

definition tap_per_slot :: "(string \<times> string) list Plumbing" where
  "tap_per_slot =
     \<lparr>pb_Add = (\<lambda>vid cfg i q k. (Inr [\<lparr>nc_TAP = ''tap'' @ itoa i, nc_MAC = '''', nc_NumQueues = q, nc_QueueSize = 256,
        nc_MTU = 1500, nc_Backend = '''', nc_BridgeDev = '''', nc_NetnsPath = '''', nc_Network = None\<rparr>], k)),
      pb_Remove = (\<lambda>vid i k. (Inr (), k))\<rparr>"

lemma member_le_concat: "x \<in> set xs \<Longrightarrow> length x \<le> length (concat xs)"
  by (induction xs) auto

lemma list_nics_laws: "nic_laws set list_nics tap_per_slot"
proof -
  have "CHR ''n'' # concat (map fst k) \<notin> fst ` set k" for k :: "(string \<times> string) list"
    using member_le_concat [of "CHR ''n'' # concat (map fst k)" "map fst k"] by auto
  then show ?thesis by (auto simp: nic_laws_def list_nics_def tap_per_slot_def)
qed

definition resize_node :: "(string \<times> string) list world" where
  "resize_node = \<lparr>w_db = w_db created_node, w_peers = [], w_ledger = [], w_faults = [StoreLanded ErrNoSpace],
     w_clock = 1, w_ids = [], w_topo = None, w_host = []\<rparr>"

definition resized_node :: "(Result \<times> unit res) res \<times> (string \<times> string) list world" where
  "resized_node = netResizeAdd ''v1'' (the (tget (db_records (w_db created_node)) ''v1'')) list_nics tap_per_slot 1
     \<lparr>rz_Before = 0, rz_After = 0, rz_Added = [], rz_Removed = [], rz_Warnings = []\<rparr> resize_node"

theorem resize_keeps_devices_witness:
  "nics_covered set ''v1'' (snd resized_node) \<and>
   map_option (map (map_option nc_TAP) \<circ> NetworkConfigs) (tget (db_records (w_db (snd resized_node))) ''v1'') = Some [Some ''tap0'']"
proof
  have "map_option NetworkConfigs (tget (db_records (w_db created_node)) ''v1'') = Some []" by code_simp
  then have "nics_covered set ''v1'' resize_node"
    by (auto simp: nics_covered_def taps_def resize_node_def split: option.splits)
  from resize_keeps_devices [OF list_nics_laws this] show "nics_covered set ''v1'' (snd resized_node)"
    unfolding resized_node_def by (metis prod.collapse)
  show "map_option (map (map_option nc_TAP) \<circ> NetworkConfigs) (tget (db_records (w_db (snd resized_node))) ''v1'') = Some [Some ''tap0'']"
    by code_simp
qed

section \<open>A round of a migration on a host that knows whether the guest runs\<close>

definition guest_phost :: "bool phost" where
  "guest_phost = demo_phost\<lparr>sys_read := (\<lambda>s p. if p = ''/run/v1/ch.pid'' then Inr ''7'' else Inl ErrNotExist),
     sys_kill0 := (\<lambda>s pid. Inr ()), sys_readdir := (\<lambda>s p. Inr [(''config.json'', False)])\<rparr>"

definition guest_backend :: "bool backend" where
  "guest_backend = demo_backend\<lparr>bk_Typ := ''cloud-hypervisor'', bk_PIDFileName := ''ch.pid'', bk_host := guest_phost\<rparr>"

definition set_guest :: "bool \<Rightarrow> VMRecord \<Rightarrow> (bool, unit) act" where
  "set_guest v rec k = (Inr (), v)"

definition guest_spec :: "(bool, unit) MigrateSpec" where
  "guest_spec =
     \<lparr>ms_Snapshot = \<lparr>ss_Pause = set_guest False, ss_Resume = set_guest True, ss_Capture = (\<lambda>rec dir. demo_ok), ss_AfterCapture = None,
        ss_BuildMeta = (\<lambda>rec dir. demo_ok), ss_SaveMeta = (\<lambda>dir m. demo_ok)\<rparr>,
      ms_EndSeries = (\<lambda>rec. demo_ok), ms_Rounds = (\<lambda>k dir. Inr 0)\<rparr>"

definition no_delta :: "(bool, unit) act" where
  "no_delta k = (Inl ErrNoSpace, k)"

definition guest_steps_failing :: "bool roundSteps" where
  "guest_steps_failing = \<lparr>st_series = ''s1'', st_round = 1, st_final = True, st_before = demo_ok, st_inPause = demo_ok, st_afterPause = no_delta\<rparr>"

definition guest_migops :: "bool migops" where
  "guest_migops =
     \<lparr>mg_CheckReflink = (\<lambda>d. demo_ok), mg_Info = (\<lambda>k p. if k then Inr \<lparr>fi_Size = 1, fi_ModTime = 1, fi_Regular = True\<rparr> else Inl ErrIO),
      mg_WriteDelta = (\<lambda>d r s. demo_ok), mg_ApplyDelta = (\<lambda>d s. demo_ok), mg_WriteEnvelope = (\<lambda>d c. demo_ok)\<rparr>"

definition guest_node :: "bool world" where
  "guest_node = new_node\<lparr>w_host := True\<rparr>"

definition failing_round :: "MigrateRound res \<times> bool world" where
  "failing_round = captureRound guest_backend guest_migops demo_rec guest_spec ''/run/v1/snapshot-migrate-s1'' guest_steps_failing guest_node"

lemma guest_laws_hold:
  "st_before steps = demo_ok \<Longrightarrow> st_inPause steps = demo_ok \<Longrightarrow> st_afterPause steps \<in> {demo_ok, no_delta} \<Longrightarrow>
    guest_laws (\<lambda>k. k) guest_backend rec guest_spec dir steps"
  by (auto simp: guest_laws_def guest_spec_def set_guest_def demo_ok_def no_delta_def guest_backend_def guest_phost_def demo_backend_def
      demo_phost_def host.defs)


text \<open>A final round that did its work and cannot list its files reports an error while the guest stays paused.\<close>

lemma final_round_left_paused:
  "fst (captureRound guest_backend guest_migops demo_rec guest_spec ''/run/v1/snapshot-migrate-s1''
     (guest_steps_failing\<lparr>st_afterPause := demo_ok\<rparr>) guest_node) = Inl ErrIO"
  "\<not> w_host (snd (captureRound guest_backend guest_migops demo_rec guest_spec ''/run/v1/snapshot-migrate-s1''
     (guest_steps_failing\<lparr>st_afterPause := demo_ok\<rparr>) guest_node))"
  by code_simp+

end
