(* ===== verification/Spec2Isabelle.thy ===== *)
theory Spec2Isabelle
  imports JsonStore Tombstone Types Fat12 Host Process Cgroup Flock DiskDelta Node
begin

text \<open>
  A verification library for cocoon, a MicroVM engine. Cocoon runs VMs under Firecracker or Cloud Hypervisor, keeps
  them as records of an embedded metadata store, and creates, clones, captures, restores, migrates, resizes and
  deletes them through a family of shared sequences that each driver completes with hooks.

  \<^bold>\<open>The parts and how they meet.\<close> A command ends in an operation of a driver (\<open>src/hypervisor/firecracker\<close>,
  \<open>src/hypervisor/cloudhypervisor\<close>). The driver fills in a specification of hooks (launch, pause, capture, populate,
  resume) and hands it to a sequence of \<open>src/hypervisor\<close>, which takes the VM's lock, reads its record in a transaction,
  does the work on the host through the hooks, writes the record back and emits metering entries. The transaction runs
  on a meta engine (\<open>src/meta\<close>), whose json implementation keeps one file per namespace with a previous generation
  beside it; a delete goes through tombstones (\<open>src/meta/tombstone\<close>). Below lie the processes and cgroups of the host
  (\<open>src/utils\<close>, \<open>src/cgroup\<close>), the lock files (\<open>src/lock/flock\<close>), the disks and their deltas
  (\<open>src/hypervisor/disks.go\<close>, \<open>diskdelta.go\<close>), and the cloud-init image (\<open>src/metadata\<close>).

  \<^bold>\<open>Conventions.\<close> A fallible Go function returns \<open>err + 'a\<close>, and an error is the sentinel that \<open>errors.Is\<close> finds in it.
  Go maps are tables, lists of pairs in insertion order. Code with effects is an action on an explicit state: the host
  \<open>'k\<close> with its system calls as a record of operations, or a \<open>world\<close>, which adds the tables of a VM namespace, the
  metering ledger, the clock, the ids to come and what the store will do to the next transactions. A transaction may
  be lost, or land although it reports an error. What is outside the repository (the kernel, the transport to a VMM,
  JSON text, \<open>qemu-img\<close>, CNI) is an argument, with what the code relies on as hypotheses of the theorems that need it.
  A concurrent fan-out over VMs or disks runs its items in turn.

  \<^bold>\<open>The theories.\<close>
  \<^item> \<open>Prelude\<close>: errors, results, tables, decimal numbers.
  \<^item> \<open>Meta\<close>, \<open>JsonModel\<close>, \<open>JsonStore\<close> (\<open>src/meta\<close>, \<open>src/meta/json\<close>): the engine interface as the locale
    \<open>meta_engine\<close>, interpreted by the json engine; the codecs as the locale \<open>ns_codec_ok\<close>, interpreted by the generic
    and the VM codec; the store as steps on files that may fail or crash at every point. An update is atomic, a torn
    file falls back to the state before, locks are taken in order, and the codecs round trip.
  \<^item> \<open>Tombstone\<close> (\<open>src/meta/tombstone\<close>): leases and phases of a delete, over any engine.
  \<^item> \<open>Types\<close> (\<open>src/types\<close>), \<open>Fat12\<close>, \<open>Metadata\<close> (\<open>src/metadata\<close>): configurations and their validation; the FAT12
    image as bytes, with a reader that finds every file again; the cloud-init templates, whose quoted scalars read back.
  \<^item> \<open>Host\<close>, \<open>Process\<close>, \<open>Cgroup\<close>, \<open>Flock\<close>: files and paths, process scans and termination, CPU scopes and
    placement, and file locks as a step machine over threads, inodes and crashes.
  \<^item> \<open>VmStore\<close>, \<open>VmOps\<close>, \<open>VmLife\<close>, \<open>VmRestore\<close>, \<open>Disks\<close> (\<open>src/hypervisor\<close>): records, transactions, metering, state
    changes; networking, placement, tombstoned delete, supervision; create, clone, start, stop, delete; restore,
    snapshot, hibernate; disk files, sidecars and the checks of a restore.
  \<^item> \<open>VmInv\<close>, \<open>VmBooks\<close>, \<open>VmNode\<close>: the invariant that ties ledger, names and placements to the records, as triples
    over actions collected in \<open>triple_rules\<close>; the locales \<open>record_update\<close> and \<open>silent_update\<close> for the updates of
    \<open>state.go\<close>; what each sequence keeps under contracts on its hooks; histories of a node and the locale \<open>vm_driver\<close>.
  \<^item> \<open>Vmm\<close>, \<open>Devices\<close>, \<open>NetResize\<close>: requests to a VMM, operations on a running VM, the resize of its NICs.
  \<^item> \<open>Firecracker\<close>, \<open>ChConfig\<close>, \<open>CloudHypervisor\<close>: the drivers. Their hooks meet the contracts of \<open>VmBooks\<close>.
  \<^item> \<open>DiskDelta\<close>, \<open>Migrate\<close> (\<open>diskdelta.go\<close>, \<open>migrate.go\<close>): extents, delta files and their replay; the rounds of a live
    migration, whose replay gives every disk as its last round froze it.
  \<^item> \<open>Node\<close>: both drivers as interpretations of \<open>vm_driver\<close>, what follows for every history of a node, and concrete nodes.

  \<^bold>\<open>What the properties show.\<close> The store never shows half an update. In every history of either driver each VM's
  metering entries alternate and the last one agrees with the record, names are unique and placements mirror the
  records. A delete that succeeds leaves nothing and never takes a VM whose socket answers; a hibernation never kills
  what it could not persist; a NIC in a record keeps its device through every failure of a resize; a migration round
  leaves the guest running unless it is the final one. Snapshot sidecars cannot name files outside the managed roots,
  a clone's writable drives are its own, a patched configuration is that of a launch. Locks exclude, processes are
  signalled only when they are the VMM that was meant, placements are balanced, lists and images read back.

  \<^bold>\<open>Grain, bounds and fuel.\<close> An operation of a VM is atomic in a history of a node: the lock of the VM, which \<open>Flock\<close> shows
  to exclude, is what justifies this for operations on one VM, and operations on different VMs meet in transactions
  only. Deletes and restores enter the histories while the store answers; the other operations may lose any
  transaction. Loops that wait take the list of events they see, so a run is as long as its list. The search for the
  next round of a migration has the number of directory entries as fuel, which \<open>next_round_total\<close> shows to be enough;
  the extent difference has the size of the file, the cpu domains the number of cpus, the retries of a request the
  bound of the code. Integers are words or are checked against the bounds of \<open>int64\<close> where the code can overflow.

  \<^bold>\<open>Not modelled.\<close> The sqlite engine (SQL run by a third-party driver; its contract is that of the transactions
  here), the change broadcast, the metering sinks; the network back ends, the image stores and the snapshot store,
  which are netlink, plugins, registries, archives and external tools, and which the VM operations see as hooks and
  directories; the garbage collectors and their orchestrator; consoles and the relay process; shared leases of lock
  files, which are inherited descriptors; the daemon's timers and socket; flags, output and configuration of the
  command line; guest image recipes and scripts. Log lines, contexts and timings have no counterpart: a context that is
  cancelled is an event of the wait that sees it.
\<close>

end
